(* ===== verification/Prelude.thy ===== *)
theory Prelude
  imports Main "HOL-Library.AList" "HOL-Library.Multiset"
begin

text \<open>
  The shared ground of the development.

  \<^item> \<open>('e, 's, 'a) io\<close> is an asynchronous function of the source run to its end: it takes the
    state of the world and gives a result, \<open>Inl\<close> for a rejected promise or a thrown error and
    \<open>Inr\<close> for a value, together with the state it leaves behind.  A thrown error keeps the
    effects performed before it, as it does in the program.
  \<^item> \<open>outcome\<close> says what becomes of one call to a service (PostgreSQL, Redis, SQS, S3): it
    completes, it is refused before it has any effect, or its effect takes place and the caller
    still sees an error (a lost response, a time-out).  The handlers are proved for every
    assignment of outcomes to their calls.
  \<^item> \<open>keeps\<close> and \<open>triple\<close> are the two judgements the invariant proofs use, with one rule per
    combinator.
  \<^item> \<open>batches_of\<close> is the slicing loop that cuts a list in SQS batches, and \<open>js_set_add\<close> the
    insertion of a JavaScript \<open>Set\<close>, which keeps insertion order.
\<close>

section \<open>Rule collections\<close>

named_theorems io_simps \<open>unfolding rules of the effect combinators\<close>
named_theorems keeps_intros \<open>rules that a computation keeps a state predicate\<close>

section \<open>Computations with effects and errors\<close>

type_synonym ('e, 's, 'a) io = "'s \<Rightarrow> ('e + 'a) \<times> 's"

datatype exn = Error string

definition ret :: "'a \<Rightarrow> ('e, 's, 'a) io" where
  "ret x = (\<lambda>s. (Inr x, s))"

definition throw :: "'e \<Rightarrow> ('e, 's, 'a) io" where
  "throw e = (\<lambda>s. (Inl e, s))"

definition andThen :: "('e, 's, 'a) io \<Rightarrow> ('a \<Rightarrow> ('e, 's, 'b) io) \<Rightarrow> ('e, 's, 'b) io" where
  "andThen m f = (\<lambda>s. case m s of (Inl e, s') \<Rightarrow> (Inl e, s') | (Inr x, s') \<Rightarrow> f x s')"

definition catching :: "('e, 's, 'a) io \<Rightarrow> ('e \<Rightarrow> ('f, 's, 'a) io) \<Rightarrow> ('f, 's, 'a) io" where
  "catching m h = (\<lambda>s. case m s of (Inl e, s') \<Rightarrow> h e s' | (Inr x, s') \<Rightarrow> (Inr x, s'))"

definition lift_sum :: "'e + 'a \<Rightarrow> ('e, 's, 'a) io" where
  "lift_sum r = (\<lambda>s. (r, s))"

definition modify :: "('s \<Rightarrow> 's) \<Rightarrow> ('e, 's, unit) io" where
  "modify f = (\<lambda>s. (Inr (), f s))"

definition reading :: "('s \<Rightarrow> 'a) \<Rightarrow> ('e, 's, 'a) io" where
  "reading f = (\<lambda>s. (Inr (f s), s))"

datatype 'e outcome = Completes | Refused 'e | Unconfirmed 'e

fun external :: "'e outcome \<Rightarrow> ('e, 's, 'a) io \<Rightarrow> ('e, 's, 'a) io" where
  "external Completes m = m"
| "external (Refused e) m = (\<lambda>s. (Inl e, s))"
| "external (Unconfirmed e) m = (\<lambda>s. (Inl e, snd (m s)))"

lemma ret_apply [io_simps, simp]: "ret x s = (Inr x, s)"
  by (simp add: ret_def)

lemma throw_apply [io_simps, simp]: "throw e s = (Inl e, s)"
  by (simp add: throw_def)

lemma andThen_apply [io_simps]:
  "andThen m f s = (case m s of (Inl e, s') \<Rightarrow> (Inl e, s') | (Inr x, s') \<Rightarrow> f x s')"
  by (simp add: andThen_def)

lemma catching_apply [io_simps]:
  "catching m h s = (case m s of (Inl e, s') \<Rightarrow> h e s' | (Inr x, s') \<Rightarrow> (Inr x, s'))"
  by (simp add: catching_def)

lemma lift_sum_apply [io_simps, simp]: "lift_sum r s = (r, s)"
  by (simp add: lift_sum_def)

lemma modify_apply [io_simps, simp]: "modify f s = (Inr (), f s)"
  by (simp add: modify_def)

lemma reading_apply [io_simps, simp]: "reading f s = (Inr (f s), s)"
  by (simp add: reading_def)

lemma andThen_Inr: "m s = (Inr x, s') \<Longrightarrow> andThen m f s = f x s'"
  by (simp add: andThen_def)

lemma andThen_Inl: "m s = (Inl e, s') \<Longrightarrow> andThen m f s = (Inl e, s')"
  by (simp add: andThen_def)

text \<open>A returned value or error of a sequence comes from one of its parts.\<close>

lemma andThen_InrE:
  assumes "andThen m f s = (Inr y, s')"
  obtains x t where "m s = (Inr x, t)" and "f x t = (Inr y, s')"
  using assms by (auto simp: andThen_def split: prod.splits sum.splits)

lemma andThen_InlE:
  assumes "andThen m f s = (Inl e, s')"
  obtains (first) "m s = (Inl e, s')"
  | (second) x t where "m s = (Inr x, t)" and "f x t = (Inl e, s')"
  using assms by (auto simp: andThen_def split: prod.splits sum.splits)

section \<open>Judgements on computations\<close>

text \<open>
  \<open>keeps P m\<close>: whatever the result, \<open>m\<close> ends in a state with \<open>P\<close> when it starts in one.
  \<open>triple P m Q E\<close>: from a state with \<open>P\<close>, a value and its state satisfy \<open>Q\<close>, and the state an
  error leaves behind satisfies \<open>E\<close>.
\<close>

definition keeps :: "('s \<Rightarrow> bool) \<Rightarrow> ('e, 's, 'a) io \<Rightarrow> bool" where
  "keeps P m \<longleftrightarrow> (\<forall>s. P s \<longrightarrow> P (snd (m s)))"

definition triple ::
  "('s \<Rightarrow> bool) \<Rightarrow> ('e, 's, 'a) io \<Rightarrow> ('a \<Rightarrow> 's \<Rightarrow> bool) \<Rightarrow> ('s \<Rightarrow> bool) \<Rightarrow> bool" where
  "triple P m Q E \<longleftrightarrow> (\<forall>s. P s \<longrightarrow> (case m s of (Inl _, s') \<Rightarrow> E s' | (Inr x, s') \<Rightarrow> Q x s'))"

lemma keepsD: "keeps P m \<Longrightarrow> P s \<Longrightarrow> P (snd (m s))"
  by (simp add: keeps_def)

lemma keepsI: "(\<And>s. P s \<Longrightarrow> P (snd (m s))) \<Longrightarrow> keeps P m"
  by (simp add: keeps_def)

lemma keeps_ret [keeps_intros]: "keeps P (ret x)"
  by (simp add: keeps_def)

lemma keeps_throw [keeps_intros]: "keeps P (throw e)"
  by (simp add: keeps_def)

lemma keeps_lift_sum [keeps_intros]: "keeps P (lift_sum r)"
  by (simp add: keeps_def)

lemma keeps_reading [keeps_intros]: "keeps P (reading f)"
  by (simp add: keeps_def)

lemma keeps_modify [keeps_intros]: "(\<And>s. P s \<Longrightarrow> P (f s)) \<Longrightarrow> keeps P (modify f)"
  by (simp add: keeps_def)

lemma keeps_andThen [keeps_intros]:
  "keeps P m \<Longrightarrow> (\<And>x. keeps P (f x)) \<Longrightarrow> keeps P (andThen m f)"
  by (fastforce simp: keeps_def andThen_def split: prod.splits sum.splits)

lemma keeps_catching [keeps_intros]:
  "keeps P m \<Longrightarrow> (\<And>e. keeps P (h e)) \<Longrightarrow> keeps P (catching m h)"
  by (fastforce simp: keeps_def catching_def split: prod.splits sum.splits)

lemma keeps_external [keeps_intros]: "keeps P m \<Longrightarrow> keeps P (external out m)"
  by (cases out) (auto simp: keeps_def)

lemma keeps_if [keeps_intros]:
  "(b \<Longrightarrow> keeps P m) \<Longrightarrow> (\<not> b \<Longrightarrow> keeps P n) \<Longrightarrow> keeps P (if b then m else n)"
  by simp

lemma keeps_option [keeps_intros]:
  "(y = None \<Longrightarrow> keeps P m) \<Longrightarrow> (\<And>x. y = Some x \<Longrightarrow> keeps P (f x)) \<Longrightarrow>
   keeps P (case y of None \<Rightarrow> m | Some x \<Rightarrow> f x)"
  by (cases y) auto

lemma keeps_sum [keeps_intros]:
  "(\<And>e. y = Inl e \<Longrightarrow> keeps P (g e)) \<Longrightarrow> (\<And>x. y = Inr x \<Longrightarrow> keeps P (f x)) \<Longrightarrow>
   keeps P (case y of Inl e \<Rightarrow> g e | Inr x \<Rightarrow> f x)"
  by (cases y) auto

lemma keeps_prod [keeps_intros]:
  "(\<And>a b. y = (a, b) \<Longrightarrow> keeps P (f a b)) \<Longrightarrow> keeps P (case y of (a, b) \<Rightarrow> f a b)"
  by (cases y) auto

lemma tripleI:
  "(\<And>s. P s \<Longrightarrow> case m s of (Inl _, s') \<Rightarrow> E s' | (Inr x, s') \<Rightarrow> Q x s') \<Longrightarrow> triple P m Q E"
  by (simp add: triple_def)

lemma tripleD:
  "triple P m Q E \<Longrightarrow> P s \<Longrightarrow> case m s of (Inl _, s') \<Rightarrow> E s' | (Inr x, s') \<Rightarrow> Q x s'"
  by (simp add: triple_def)

lemma triple_ret: "(\<And>s. P s \<Longrightarrow> Q x s) \<Longrightarrow> triple P (ret x) Q E"
  by (simp add: triple_def)

lemma triple_throw: "(\<And>s. P s \<Longrightarrow> E s) \<Longrightarrow> triple P (throw e) Q E"
  by (simp add: triple_def)

lemma triple_modify: "(\<And>s. P s \<Longrightarrow> Q () (f s)) \<Longrightarrow> triple P (modify f) Q E"
  by (simp add: triple_def)

lemma triple_reading: "(\<And>s. P s \<Longrightarrow> Q (f s) s) \<Longrightarrow> triple P (reading f) Q E"
  by (simp add: triple_def)

lemma triple_andThen:
  "triple P m R E \<Longrightarrow> (\<And>x. triple (R x) (f x) Q E) \<Longrightarrow> triple P (andThen m f) Q E"
  by (fastforce simp: triple_def andThen_def split: prod.splits sum.splits)

lemma triple_catching:
  "triple P m Q R \<Longrightarrow> (\<And>e. triple R (h e) Q E) \<Longrightarrow> triple P (catching m h) Q E"
  by (fastforce simp: triple_def catching_def split: prod.splits sum.splits)

lemma triple_external:
  "triple P m Q E \<Longrightarrow> (\<And>s. P s \<Longrightarrow> E s) \<Longrightarrow> (\<And>x s. Q x s \<Longrightarrow> E s) \<Longrightarrow> triple P (external out m) Q E"
proof (rule tripleI)
  fix s assume t: "triple P m Q E" and q: "\<And>s. P s \<Longrightarrow> E s" "\<And>x s. Q x s \<Longrightarrow> E s" and s: "P s"
  obtain r s' where m: "m s = (r, s')" by (cases "m s")
  from tripleD [OF t s] q s show "case external out m s of (Inl _, s') \<Rightarrow> E s' | (Inr x, s') \<Rightarrow> Q x s'"
    by (cases out; cases r) (simp_all add: m)
qed

lemma triple_conseq:
  "triple P m Q E \<Longrightarrow> (\<And>s. P' s \<Longrightarrow> P s) \<Longrightarrow> (\<And>x s. Q x s \<Longrightarrow> Q' x s) \<Longrightarrow> (\<And>s. E s \<Longrightarrow> E' s) \<Longrightarrow>
   triple P' m Q' E'"
  by (fastforce simp: triple_def split: prod.splits sum.splits)

lemma triple_pre: "triple P m Q E \<Longrightarrow> (\<And>s. P' s \<Longrightarrow> P s) \<Longrightarrow> triple P' m Q E"
  by (rule triple_conseq)

lemma triple_keeps: "keeps P m \<Longrightarrow> triple P m (\<lambda>_. P) P"
  by (fastforce simp: keeps_def triple_def split: prod.splits sum.splits)

lemma triple_frame:
  "keeps P m \<Longrightarrow> (\<And>x s. P s \<Longrightarrow> Q x s) \<Longrightarrow> (\<And>s. P s \<Longrightarrow> E s) \<Longrightarrow> triple P m Q E"
  by (rule triple_conseq [OF triple_keeps])

lemma keeps_triple: "triple P m (\<lambda>_. P) P \<Longrightarrow> keeps P m"
proof (rule keepsI)
  fix s assume t: "triple P m (\<lambda>_. P) P" and s: "P s"
  obtain r s' where "m s = (r, s')" by (cases "m s")
  with tripleD [OF t s] show "P (snd (m s))" by (cases r) simp_all
qed

lemma triple_same: "triple P m (\<lambda>_. P) P \<Longrightarrow> P s \<Longrightarrow> m s = (r, s') \<Longrightarrow> P s'"
  using keepsD [OF keeps_triple, of P m s] by simp

section \<open>Slicing a list in batches\<close>

text \<open>The loop \<open>for (i = 0; i < xs.length; i += n) out.push(xs.slice(i, i + n))\<close>.\<close>

function batches_of :: "nat \<Rightarrow> 'a list \<Rightarrow> 'a list list" where
  "batches_of n xs = (if xs = [] \<or> n = 0 then [] else take n xs # batches_of n (drop n xs))"
  by pat_completeness auto
termination
  by (relation "measure (\<lambda>(n, xs). length xs)") auto

declare batches_of.simps [simp del]

lemma batches_of_Nil [simp]: "batches_of n [] = []"
  by (simp add: batches_of.simps)

lemma concat_batches_of: "0 < n \<Longrightarrow> concat (batches_of n xs) = xs"
proof (induction n xs rule: batches_of.induct)
  case (1 n xs)
  then show ?case by (cases "xs = []") (simp_all add: batches_of.simps [of n xs])
qed

lemma batches_of_bounded: "b \<in> set (batches_of n xs) \<Longrightarrow> b \<noteq> [] \<and> length b \<le> n"
proof (induction n xs rule: batches_of.induct)
  case (1 n xs)
  then show ?case
    by (cases "xs = [] \<or> n = 0") (auto simp: batches_of.simps [of n xs])
qed

lemma batches_of_subset: "b \<in> set (batches_of n xs) \<Longrightarrow> set b \<subseteq> set xs"
proof (induction n xs rule: batches_of.induct)
  case (1 n xs)
  then show ?case
    by (cases "xs = [] \<or> n = 0")
      (auto simp: batches_of.simps [of n xs] dest: in_set_takeD in_set_dropD)
qed

section \<open>JavaScript sets\<close>

definition js_set_add :: "'a \<Rightarrow> 'a list \<Rightarrow> 'a list" where
  "js_set_add x xs = (if x \<in> set xs then xs else xs @ [x])"

lemma set_js_set_add [simp]: "set (js_set_add x xs) = insert x (set xs)"
  by (auto simp: js_set_add_def)

lemma distinct_js_set_add [simp]: "distinct (js_set_add x xs) = distinct xs"
  by (auto simp: js_set_add_def)

section \<open>Lists\<close>

lemma find_SomeD: "find P xs = Some x \<Longrightarrow> x \<in> set xs \<and> P x"
  by (auto simp: find_Some_iff)

lemma find_NoneD: "find P xs = None \<Longrightarrow> x \<in> set xs \<Longrightarrow> \<not> P x"
  by (auto simp: find_None_iff)

section \<open>Results in sequence\<close>

definition bindE :: "'e + 'a \<Rightarrow> ('a \<Rightarrow> 'e + 'b) \<Rightarrow> 'e + 'b" where
  "bindE x f = (case x of Inl e \<Rightarrow> Inl e | Inr v \<Rightarrow> f v)"

lemma bindE_simps [simp]: "bindE (Inl e) f = Inl e" "bindE (Inr v) f = f v"
  by (simp_all add: bindE_def)

lemma bindE_Inr: "bindE x f = Inr y \<longleftrightarrow> (\<exists>v. x = Inr v \<and> f v = Inr y)"
  by (auto simp: bindE_def split: sum.splits)

fun mapE :: "('a \<Rightarrow> 'e + 'b) \<Rightarrow> 'a list \<Rightarrow> 'e + 'b list" where
  "mapE f [] = Inr []"
| "mapE f (x # xs) = bindE (f x) (\<lambda>y. bindE (mapE f xs) (\<lambda>ys. Inr (y # ys)))"

lemma mapE_Inr: "mapE f xs = Inr ys \<longleftrightarrow> list_all2 (\<lambda>x y. f x = Inr y) xs ys"
proof (induction xs arbitrary: ys)
  case (Cons x xs)
  then show ?case by (cases ys) (auto simp: bindE_Inr)
qed auto

lemma andThen_Inr_iff: "andThen m f w = (Inr y, w') \<longleftrightarrow> (\<exists>x w1. m w = (Inr x, w1) \<and> f x w1 = (Inr y, w'))"
  by (auto simp: andThen_def split: prod.splits sum.splits)

end
