(* ===== verification/JsNumber.thy ===== *)
theory JsNumber
  imports Prelude Complex_Main "HOL-Library.Char_ord"
begin

text \<open>
  JavaScript numbers as far as the source uses them.

  A \<open>jsnum\<close> is a finite number, one of the two infinities, or \<open>NaN\<close>.  Finite numbers are exact
  rationals: the rounding of IEEE doubles and the sign of zero are not modelled, the overflow of a
  literal to \<open>Infinity\<close> is.  Comparisons with \<open>NaN\<close> are false, as in the language, which is what
  decides whether a range check of the source rejects it.

  \<open>js_Number\<close> is the conversion \<open>Number(text)\<close> of a string (the grammar StringNumericLiteral:
  surrounding white space, the empty string, decimal, hexadecimal, octal and binary literals,
  \<open>Infinity\<close>), \<open>js_String_int\<close> is \<open>String(n)\<close> of an integer.  Their round trip is what the circuit
  breaker's Redis hash and the SQS attribute counts rely on.
\<close>

section \<open>Values and comparisons\<close>

datatype jsnum = Num rat | PosInf | NegInf | NaN

fun js_lt :: "jsnum \<Rightarrow> jsnum \<Rightarrow> bool" where
  "js_lt (Num a) (Num b) = (a < b)"
| "js_lt (Num a) PosInf = True"
| "js_lt NegInf (Num b) = True"
| "js_lt NegInf PosInf = True"
| "js_lt _ _ = False"

fun js_le :: "jsnum \<Rightarrow> jsnum \<Rightarrow> bool" where
  "js_le NaN _ = False"
| "js_le _ NaN = False"
| "js_le (Num a) (Num b) = (a \<le> b)"
| "js_le _ PosInf = True"
| "js_le NegInf _ = True"
| "js_le _ _ = False"

definition js_isFinite :: "jsnum \<Rightarrow> bool" where
  "js_isFinite x = (case x of Num _ \<Rightarrow> True | _ \<Rightarrow> False)"

definition js_isInteger :: "jsnum \<Rightarrow> bool" where
  "js_isInteger x = (case x of Num q \<Rightarrow> of_int \<lfloor>q\<rfloor> = q | _ \<Rightarrow> False)"

definition js_isSafeInteger :: "jsnum \<Rightarrow> bool" where
  "js_isSafeInteger x =
     (case x of Num q \<Rightarrow> of_int \<lfloor>q\<rfloor> = q \<and> \<bar>q\<bar> \<le> 2 ^ 53 - 1 | _ \<Rightarrow> False)"

lemma js_isFinite_iff [simp]: "js_isFinite x \<longleftrightarrow> (\<exists>q. x = Num q)"
  by (simp add: js_isFinite_def split: jsnum.splits)

lemma js_isInteger_iff: "js_isInteger x \<longleftrightarrow> (\<exists>i. x = Num (of_int i))"
proof (cases x)
  case (Num q)
  have "of_int \<lfloor>q\<rfloor> = q \<longleftrightarrow> (\<exists>i. q = of_int i)" by (metis floor_of_int)
  with Num show ?thesis by (simp add: js_isInteger_def)
qed (simp_all add: js_isInteger_def)

lemma js_isSafeInteger_iff:
  "js_isSafeInteger x \<longleftrightarrow> (\<exists>i. x = Num (of_int i) \<and> \<bar>i\<bar> \<le> 2 ^ 53 - 1)"
proof (cases x)
  case (Num q)
  have bound: "\<bar>of_int i :: rat\<bar> \<le> 2 ^ 53 - 1 \<longleftrightarrow> \<bar>i\<bar> \<le> 2 ^ 53 - 1" for i :: int
  proof -
    have "\<bar>of_int i :: rat\<bar> \<le> 2 ^ 53 - 1 \<longleftrightarrow> of_int \<bar>i\<bar> \<le> (of_int (2 ^ 53 - 1) :: rat)" by simp
    also have "\<dots> \<longleftrightarrow> \<bar>i\<bar> \<le> 2 ^ 53 - 1" by (simp only: of_int_le_iff)
    finally show ?thesis .
  qed
  have "of_int \<lfloor>q\<rfloor> = q \<and> \<bar>q\<bar> \<le> 2 ^ 53 - 1 \<longleftrightarrow> (\<exists>i. q = of_int i \<and> \<bar>i\<bar> \<le> 2 ^ 53 - 1)"
    by (metis bound floor_of_int)
  with Num show ?thesis by (simp add: js_isSafeInteger_def)
qed (simp_all add: js_isSafeInteger_def)

section \<open>Arithmetic\<close>

fun js_neg :: "jsnum \<Rightarrow> jsnum" where
  "js_neg (Num a) = Num (- a)"
| "js_neg PosInf = NegInf"
| "js_neg NegInf = PosInf"
| "js_neg NaN = NaN"

fun js_add :: "jsnum \<Rightarrow> jsnum \<Rightarrow> jsnum" where
  "js_add (Num a) (Num b) = Num (a + b)"
| "js_add NaN _ = NaN"
| "js_add _ NaN = NaN"
| "js_add PosInf NegInf = NaN"
| "js_add NegInf PosInf = NaN"
| "js_add PosInf _ = PosInf"
| "js_add _ PosInf = PosInf"
| "js_add NegInf _ = NegInf"
| "js_add _ NegInf = NegInf"

definition js_sub :: "jsnum \<Rightarrow> jsnum \<Rightarrow> jsnum" where
  "js_sub a b = js_add a (js_neg b)"

definition js_inf_of_sign :: "rat \<Rightarrow> jsnum" where
  "js_inf_of_sign q = (if q = 0 then NaN else if 0 < q then PosInf else NegInf)"

fun js_mul :: "jsnum \<Rightarrow> jsnum \<Rightarrow> jsnum" where
  "js_mul (Num a) (Num b) = Num (a * b)"
| "js_mul NaN _ = NaN"
| "js_mul _ NaN = NaN"
| "js_mul PosInf (Num b) = js_inf_of_sign b"
| "js_mul NegInf (Num b) = js_inf_of_sign (- b)"
| "js_mul (Num a) PosInf = js_inf_of_sign a"
| "js_mul (Num a) NegInf = js_inf_of_sign (- a)"
| "js_mul PosInf PosInf = PosInf"
| "js_mul NegInf NegInf = PosInf"
| "js_mul _ _ = NegInf"

fun js_div :: "jsnum \<Rightarrow> jsnum \<Rightarrow> jsnum" where
  "js_div (Num a) (Num b) = (if b = 0 then js_inf_of_sign a else Num (a / b))"
| "js_div NaN _ = NaN"
| "js_div _ NaN = NaN"
| "js_div (Num a) _ = Num 0"
| "js_div PosInf (Num b) = (if b < 0 then NegInf else PosInf)"
| "js_div NegInf (Num b) = (if b < 0 then PosInf else NegInf)"
| "js_div _ _ = NaN"

fun js_ceil :: "jsnum \<Rightarrow> jsnum" where
  "js_ceil (Num a) = Num (of_int \<lceil>a\<rceil>)"
| "js_ceil x = x"

text \<open>\<open>Math.max\<close> and \<open>Math.min\<close> give \<open>NaN\<close> when either argument is \<open>NaN\<close>.\<close>

definition js_max :: "jsnum \<Rightarrow> jsnum \<Rightarrow> jsnum" where
  "js_max a b = (if a = NaN \<or> b = NaN then NaN else if js_lt a b then b else a)"

definition js_min :: "jsnum \<Rightarrow> jsnum \<Rightarrow> jsnum" where
  "js_min a b = (if a = NaN \<or> b = NaN then NaN else if js_lt b a then b else a)"

lemma js_sub_Num [simp]: "js_sub (Num a) (Num b) = Num (a - b)"
  by (simp add: js_sub_def)

lemma js_max_Num [simp]: "js_max (Num a) (Num b) = Num (max a b)"
  by (simp add: js_max_def max_def)

lemma js_min_Num [simp]: "js_min (Num a) (Num b) = Num (min a b)"
  by (simp add: js_min_def min_def)

section \<open>Decimal text of integers\<close>

definition digit_char :: "nat \<Rightarrow> char" where
  "digit_char d = char_of (48 + d)"

definition is_digit :: "char \<Rightarrow> bool" where
  "is_digit c \<longleftrightarrow> 48 \<le> (of_char c :: nat) \<and> (of_char c :: nat) \<le> 57"

definition digit_value :: "char \<Rightarrow> nat" where
  "digit_value c = of_char c - 48"

fun js_digits :: "nat \<Rightarrow> string" where
  "js_digits n = (if n < 10 then [digit_char n] else js_digits (n div 10) @ [digit_char (n mod 10)])"

declare js_digits.simps [simp del]

definition js_String_nat :: "nat \<Rightarrow> string" where
  "js_String_nat n = js_digits n"

definition js_String_int :: "int \<Rightarrow> string" where
  "js_String_int i = (if i < 0 then CHR ''-'' # js_digits (nat (- i)) else js_digits (nat i))"

definition digits_value :: "nat \<Rightarrow> nat list \<Rightarrow> nat" where
  "digits_value base ds = foldl (\<lambda>a d. a * base + d) 0 ds"

lemma of_char_digit_char: "d < 10 \<Longrightarrow> (of_char (digit_char d) :: nat) = 48 + d"
  by (simp add: digit_char_def)

lemma is_digit_digit_char [simp]: "d < 10 \<Longrightarrow> is_digit (digit_char d)"
  by (simp add: is_digit_def of_char_digit_char)

lemma digit_value_digit_char [simp]: "d < 10 \<Longrightarrow> digit_value (digit_char d) = d"
  by (simp add: digit_value_def of_char_digit_char)

lemma js_digits_digits: "c \<in> set (js_digits n) \<Longrightarrow> is_digit c"
proof (induction n rule: js_digits.induct)
  case (1 n)
  then show ?case
    by (cases "n < 10") (auto simp: js_digits.simps [of n])
qed

lemma js_digits_not_Nil [simp]: "js_digits n \<noteq> []"
  by (subst js_digits.simps) simp

lemma digits_value_js_digits: "digits_value 10 (map digit_value (js_digits n)) = n"
proof (induction n rule: js_digits.induct)
  case (1 n)
  show ?case
  proof (cases "n < 10")
    case True
    then show ?thesis by (simp add: js_digits.simps [of n] digits_value_def)
  next
    case False
    then have "digits_value 10 (map digit_value (js_digits n))
        = digits_value 10 (map digit_value (js_digits (n div 10))) * 10 + n mod 10"
      by (simp add: js_digits.simps [of n] digits_value_def)
    with 1 False show ?thesis by simp
  qed
qed

lemma js_digits_inject [simp]: "js_digits m = js_digits n \<longleftrightarrow> m = n"
  by (metis digits_value_js_digits)

lemma js_String_nat_inject [simp]: "js_String_nat m = js_String_nat n \<longleftrightarrow> m = n"
  by (simp add: js_String_nat_def)


section \<open>Number(text)\<close>

definition js_space :: "char \<Rightarrow> bool" where
  "js_space c \<longleftrightarrow> c = CHR '' '' \<or> (of_char c :: nat) \<in> {9, 10, 11, 12, 13, 160}"

definition js_trim :: "string \<Rightarrow> string" where
  "js_trim s = rev (dropWhile js_space (rev (dropWhile js_space s)))"

text \<open>Literals beyond the largest double are infinite.\<close>

definition js_round :: "rat \<Rightarrow> jsnum" where
  "js_round q = (if 2 ^ 1024 - 2 ^ 970 \<le> q then PosInf else if q \<le> - (2 ^ 1024 - 2 ^ 970) then NegInf else Num q)"

definition split_sign :: "string \<Rightarrow> bool \<times> string" where
  "split_sign s = (case s of [] \<Rightarrow> (False, [])
     | c # r \<Rightarrow> if c = CHR ''-'' then (True, r) else if c = CHR ''+'' then (False, r) else (False, s))"

definition exponent_part :: "string \<Rightarrow> int option" where
  "exponent_part s = (case s of [] \<Rightarrow> Some 0
     | c # r \<Rightarrow> if c = CHR ''e'' \<or> c = CHR ''E''
         then (let (neg, ds) = split_sign r
               in if ds \<noteq> [] \<and> list_all is_digit ds
                  then Some ((if neg then - 1 else 1) * int (digits_value 10 (map digit_value ds)))
                  else None)
         else None)"

definition scale10 :: "nat \<Rightarrow> int \<Rightarrow> rat" where
  "scale10 m e = (if 0 \<le> e then of_nat m * 10 ^ nat e else of_nat m / 10 ^ nat (- e))"

definition fraction_part :: "string \<Rightarrow> string \<times> string" where
  "fraction_part s = (case s of [] \<Rightarrow> ([], [])
     | c # r \<Rightarrow> if c = CHR ''.'' then (takeWhile is_digit r, dropWhile is_digit r) else ([], s))"

definition decimal_literal :: "string \<Rightarrow> rat option" where
  "decimal_literal s =
     (let ip = takeWhile is_digit s; (fp, rest) = fraction_part (dropWhile is_digit s)
      in if ip = [] \<and> fp = [] then None
         else map_option
           (\<lambda>e. scale10 (digits_value 10 (map digit_value (ip @ fp))) (e - int (length fp)))
           (exponent_part rest))"

definition radix_digit :: "char \<Rightarrow> nat option" where
  "radix_digit c = (let n = (of_char c :: nat) in
     if 48 \<le> n \<and> n \<le> 57 then Some (n - 48)
     else if 97 \<le> n \<and> n \<le> 102 then Some (n - 87)
     else if 65 \<le> n \<and> n \<le> 70 then Some (n - 55) else None)"

definition radix_literal :: "nat \<Rightarrow> string \<Rightarrow> jsnum" where
  "radix_literal base ds =
     (if ds \<noteq> [] \<and> list_all (\<lambda>c. case radix_digit c of None \<Rightarrow> False | Some d \<Rightarrow> d < base) ds
      then js_round (of_nat (digits_value base (map (\<lambda>c. the (radix_digit c)) ds))) else NaN)"

definition signed_literal :: "string \<Rightarrow> jsnum" where
  "signed_literal t =
     (let (neg, u) = split_sign t
      in if u = ''Infinity'' then (if neg then NegInf else PosInf)
         else (case decimal_literal u of None \<Rightarrow> NaN | Some q \<Rightarrow> js_round (if neg then - q else q)))"

definition js_Number :: "string \<Rightarrow> jsnum" where
  "js_Number s =
     (let t = js_trim s
      in if t = [] then Num 0
         else if take 2 t = ''0x'' \<or> take 2 t = ''0X'' then radix_literal 16 (drop 2 t)
         else if take 2 t = ''0o'' \<or> take 2 t = ''0O'' then radix_literal 8 (drop 2 t)
         else if take 2 t = ''0b'' \<or> take 2 t = ''0B'' then radix_literal 2 (drop 2 t)
         else signed_literal t)"

lemma is_digit_not_space: "is_digit c \<Longrightarrow> \<not> js_space c"
  by (auto simp: is_digit_def js_space_def)

lemma js_trim_id: "list_all (\<lambda>c. \<not> js_space c) s \<Longrightarrow> js_trim s = s"
proof -
  assume a: "list_all (\<lambda>c. \<not> js_space c) s"
  have drop: "dropWhile js_space u = u" if "\<forall>c \<in> set u. \<not> js_space c" for u
    using that by (cases u) auto
  from a show ?thesis by (simp add: js_trim_def list_all_iff drop)
qed

lemma takeWhile_js_digits [simp]: "takeWhile is_digit (js_digits n) = js_digits n"
  by (auto intro: takeWhile_eq_all_conv [THEN iffD2] simp: js_digits_digits)

lemma dropWhile_js_digits [simp]: "dropWhile is_digit (js_digits n) = []"
  by (auto simp: js_digits_digits)

lemma decimal_literal_js_digits: "decimal_literal (js_digits n) = Some (of_nat n)"
  by (simp add: decimal_literal_def fraction_part_def exponent_part_def scale10_def
      digits_value_js_digits)

lemma split_sign_js_digits: "split_sign (js_digits n) = (False, js_digits n)"
proof (cases "js_digits n")
  case (Cons c r)
  then have "is_digit c" by (metis js_digits_digits list.set_intros(1))
  then have "c \<noteq> CHR ''-''" "c \<noteq> CHR ''+''" by (auto simp: is_digit_def)
  with Cons show ?thesis by (simp add: split_sign_def)
qed simp

lemma js_digits_not_word:
  assumes "\<exists>c \<in> set w. \<not> is_digit c"
  shows "js_digits n \<noteq> w" and "take k (js_digits n) \<noteq> w"
  using assms js_digits_digits by (auto dest: in_set_takeD)

lemma signed_literal_js_digits: "signed_literal (js_digits n) = js_round (of_nat n)"
  by (simp add: signed_literal_def split_sign_js_digits decimal_literal_js_digits
      js_digits_not_word(1) is_digit_def)

lemma signed_literal_minus: "signed_literal (CHR ''-'' # js_digits n) = js_round (- of_nat n)"
  by (simp add: signed_literal_def split_sign_def decimal_literal_js_digits
      js_digits_not_word(1) is_digit_def)

lemma list_all_js_digits: "list_all (\<lambda>c. \<not> js_space c) (js_digits n)"
  by (auto simp: list_all_iff dest: is_digit_not_space js_digits_digits)

lemma js_Number_js_digits: "js_Number (js_digits n) = js_round (of_nat n)"
  by (simp add: js_Number_def js_trim_id list_all_js_digits signed_literal_js_digits
      js_digits_not_word(2) is_digit_def)

lemma js_Number_minus: "js_Number (CHR ''-'' # js_digits n) = js_round (- of_nat n)"
proof -
  have "list_all (\<lambda>c. \<not> js_space c) (CHR ''-'' # js_digits n)"
    using list_all_js_digits by (simp add: js_space_def)
  then show ?thesis
    by (simp add: js_Number_def js_trim_id signed_literal_minus numeral_2_eq_2)
qed

lemma js_round_of_int: "\<bar>i\<bar> < 2 ^ 1000 \<Longrightarrow> js_round (of_int i) = Num (of_int i)"
proof -
  assume "\<bar>i\<bar> < 2 ^ 1000"
  then have "i < 2 ^ 1024 - 2 ^ 970" and "- (2 ^ 1024 - 2 ^ 970) < i" by simp_all
  then have "(of_int i :: rat) < of_int (2 ^ 1024 - 2 ^ 970)"
    and "(of_int (- (2 ^ 1024 - 2 ^ 970)) :: rat) < of_int i"
    by (simp_all only: of_int_less_iff)
  then show ?thesis by (simp add: js_round_def)
qed

text \<open>Numbers written with \<open>String\<close> are read back by \<open>Number\<close>.\<close>

lemma js_Number_String_int:
  assumes "\<bar>i\<bar> < 2 ^ 1000"
  shows "js_Number (js_String_int i) = Num (of_int i)"
proof (cases "i < 0")
  case True
  then obtain n where i: "i = - int n" "0 < n" by (metis neg_int_cases)
  then have "js_Number (js_String_int i) = js_round (of_int i)"
    by (simp add: js_String_int_def js_Number_minus)
  with assms show ?thesis by (simp add: js_round_of_int)
next
  case False
  then obtain n where i: "i = int n" by (metis nonneg_int_cases linorder_not_less)
  then have "js_Number (js_String_int i) = js_round (of_int i)"
    by (simp add: js_String_int_def js_Number_js_digits)
  with assms show ?thesis by (simp add: js_round_of_int)
qed

section \<open>String(number)\<close>

text \<open>
  Finite numbers print as their decimal expansion, up to twenty fraction digits.  The exponent
  notation of very large and very small numbers is not modelled.
\<close>

fun js_fraction_digits :: "nat \<Rightarrow> rat \<Rightarrow> string" where
  "js_fraction_digits 0 q = []"
| "js_fraction_digits (Suc k) q =
     (if q = 0 then []
      else digit_char (nat \<lfloor>10 * q\<rfloor>) # js_fraction_digits k (10 * q - of_int \<lfloor>10 * q\<rfloor>))"

fun js_String :: "jsnum \<Rightarrow> string" where
  "js_String (Num q) =
     (if of_int \<lfloor>q\<rfloor> = q then js_String_int \<lfloor>q\<rfloor>
      else (if q < 0 then ''-'' else []) @ js_digits (nat \<lfloor>\<bar>q\<bar>\<rfloor>) @ ''.''
        @ js_fraction_digits 20 (\<bar>q\<bar> - of_int \<lfloor>\<bar>q\<bar>\<rfloor>))"
| "js_String PosInf = ''Infinity''"
| "js_String NegInf = ''-Infinity''"
| "js_String NaN = ''NaN''"

lemma js_String_of_int [simp]: "js_String (Num (of_int i)) = js_String_int i"
  by simp

lemma js_String_int_not_Nil [simp]: "js_String_int i \<noteq> []"
  by (simp add: js_String_int_def)

end
