(* ===== verification/Backoff.thy ===== *)
theory Backoff
  imports JsNumber
begin

text \<open>
  The retry schedule of the worker (\<open>packages/worker/src/delivery/backoff.ts\<close>): the attempt
  budget read from the environment, exponential backoff with full jitter, and the translation of
  a delay in an SQS visibility timeout.  \<open>Math.random()\<close> is the argument \<open>r\<close>, a number with
  \<open>0 \<le> r < 1\<close>; \<open>Date.now()\<close> is the argument \<open>now\<close>, in milliseconds.
\<close>

definition BASE_DELAY_MS :: int where
  "BASE_DELAY_MS = 1000"

definition MAX_DELAY_MS :: int where
  "MAX_DELAY_MS = 60000"

definition DEFAULT_MAX_ATTEMPTS :: jsnum where
  "DEFAULT_MAX_ATTEMPTS = Num 8"

text \<open>The environment variable is absent or empty (\<open>!raw\<close>), or a text.\<close>

definition maxDeliveryAttempts :: "string option \<Rightarrow> exn + jsnum" where
  "maxDeliveryAttempts raw =
     (if raw = None \<or> raw = Some [] then Inr DEFAULT_MAX_ATTEMPTS
      else (let parsed = js_Number (the raw)
            in if \<not> js_isFinite parsed \<or> js_lt parsed (Num 1)
               then Inl (Error ''MAX_DELIVERY_ATTEMPTS must be a positive number'')
               else Inr parsed))"

definition isExhausted :: "string option \<Rightarrow> int \<Rightarrow> exn + bool" where
  "isExhausted raw attemptCount =
     (case maxDeliveryAttempts raw of Inl e \<Rightarrow> Inl e
      | Inr m \<Rightarrow> Inr (js_le m (Num (of_int attemptCount))))"

definition backoffDelayMs :: "rat \<Rightarrow> int \<Rightarrow> int" where
  "backoffDelayMs r attemptCount =
     (let e = min (BASE_DELAY_MS * 2 ^ nat (max (attemptCount - 1) 0)) MAX_DELAY_MS
      in \<lfloor>r * of_int (e + 1)\<rfloor>)"

definition nextAttemptAt :: "rat \<Rightarrow> int \<Rightarrow> int \<Rightarrow> int" where
  "nextAttemptAt r attemptCount now = now + backoffDelayMs r attemptCount"

definition visibilityTimeoutSeconds :: "jsnum \<Rightarrow> jsnum" where
  "visibilityTimeoutSeconds delayMs =
     js_min (js_max (js_ceil (js_div delayMs (Num 1000))) (Num 1)) (Num 43200)"

section \<open>Attempt budget\<close>

lemma maxDeliveryAttempts_default [simp]: "maxDeliveryAttempts None = Inr (Num 8)"
  by (simp add: maxDeliveryAttempts_def DEFAULT_MAX_ATTEMPTS_def)

lemma maxDeliveryAttempts_range:
  "maxDeliveryAttempts raw = Inr m \<Longrightarrow> \<exists>q. m = Num q \<and> 1 \<le> q"
  by (auto simp: maxDeliveryAttempts_def DEFAULT_MAX_ATTEMPTS_def Let_def split: if_splits)

lemma isExhausted_default: "isExhausted None n = Inr (8 \<le> n)"
proof -
  have "(8 :: rat) \<le> of_int n \<longleftrightarrow> 8 \<le> n" by (metis of_int_le_iff of_int_numeral)
  then show ?thesis by (simp add: isExhausted_def)
qed

lemma isExhausted_mono:
  "isExhausted raw m = Inr True \<Longrightarrow> m \<le> n \<Longrightarrow> isExhausted raw n = Inr True"
  by (auto simp: isExhausted_def split: sum.splits dest!: maxDeliveryAttempts_range)

lemma isExhausted_cases:
  obtains (bad) e where "\<And>n. isExhausted raw n = Inl e"
  | (ok) m where "1 \<le> m" and "\<And>n. isExhausted raw n = Inr (m \<le> (of_int n :: rat))"
proof (cases "maxDeliveryAttempts raw")
  case (Inl e)
  then show ?thesis using bad by (simp add: isExhausted_def)
next
  case (Inr m)
  then obtain q where "m = Num q" "1 \<le> q" using maxDeliveryAttempts_range by blast
  with Inr show ?thesis using ok [of q] by (simp add: isExhausted_def)
qed

section \<open>Delays\<close>

definition delay_cap :: "int \<Rightarrow> int" where
  "delay_cap n = min (1000 * 2 ^ nat (max (n - 1) 0)) 60000"

lemma backoffDelayMs_cap: "backoffDelayMs r n = \<lfloor>r * of_int (delay_cap n + 1)\<rfloor>"
  by (simp add: backoffDelayMs_def delay_cap_def BASE_DELAY_MS_def MAX_DELAY_MS_def Let_def)

lemma delay_cap_pos: "1000 \<le> delay_cap n"
  by (simp add: delay_cap_def)

lemma delay_cap_le: "delay_cap n \<le> 60000"
  by (simp add: delay_cap_def)

lemma delay_cap_saturates:
  assumes "7 \<le> n"
  shows "delay_cap n = 60000"
proof -
  from assms have "(2 :: int) ^ 6 \<le> 2 ^ nat (max (n - 1) 0)"
    by (intro power_increasing) auto
  then show ?thesis by (simp add: delay_cap_def)
qed

lemma backoffDelayMs_bounds:
  assumes "0 \<le> r" and "r < 1"
  shows "0 \<le> backoffDelayMs r n" and "backoffDelayMs r n \<le> delay_cap n"
proof -
  have pos: "0 < (of_int (delay_cap n + 1) :: rat)" using delay_cap_pos [of n] by simp
  with assms(1) show "0 \<le> backoffDelayMs r n" by (simp add: backoffDelayMs_cap)
  from assms(2) pos have "r * of_int (delay_cap n + 1) < of_int (delay_cap n + 1)" by simp
  then show "backoffDelayMs r n \<le> delay_cap n"
    by (simp add: backoffDelayMs_cap floor_le_iff)
qed

text \<open>Full jitter: every whole delay up to the cap is drawn for some random number.\<close>

lemma backoffDelayMs_onto:
  assumes "0 \<le> d" and "d \<le> delay_cap n"
  shows "\<exists>r. 0 \<le> r \<and> r < 1 \<and> backoffDelayMs r n = d"
proof -
  let ?k = "of_int (delay_cap n + 1) :: rat"
  have pos: "0 < ?k" using delay_cap_pos [of n] by simp
  have "of_int d < ?k" using assms(2) by (simp only: of_int_less_iff)
  moreover have "backoffDelayMs (of_int d / ?k) n = d"
    using pos by (simp add: backoffDelayMs_cap)
  ultimately show ?thesis using assms(1) pos
    by (intro exI [of _ "of_int d / ?k"]) (simp add: divide_less_eq)
qed

section \<open>Visibility timeouts\<close>

lemma visibilityTimeoutSeconds_int:
  "visibilityTimeoutSeconds (Num (of_int d)) = Num (of_int (min (max \<lceil>of_int d / (1000 :: rat)\<rceil> 1) 43200))"
  by (simp add: visibilityTimeoutSeconds_def of_int_max of_int_min)

lemma seconds_cover_delay: "d \<le> 1000 * \<lceil>of_int d / (1000 :: rat)\<rceil>"
proof -
  have "of_int d / (1000 :: rat) \<le> of_int \<lceil>of_int d / (1000 :: rat)\<rceil>" by (rule le_of_int_ceiling)
  then have "of_int d \<le> 1000 * (of_int \<lceil>of_int d / (1000 :: rat)\<rceil> :: rat)" by linarith
  then have "(of_int d :: rat) \<le> of_int (1000 * \<lceil>of_int d / (1000 :: rat)\<rceil>)"
    by (simp only: of_int_mult of_int_numeral)
  then show ?thesis by (simp only: of_int_le_iff)
qed

lemma seconds_tight: "1000 * \<lceil>of_int d / (1000 :: rat)\<rceil> < d + 1000"
proof -
  have "of_int \<lceil>of_int d / (1000 :: rat)\<rceil> < of_int d / (1000 :: rat) + 1" by linarith
  then have "1000 * (of_int \<lceil>of_int d / (1000 :: rat)\<rceil> :: rat) < of_int d + 1000" by linarith
  then have "(of_int (1000 * \<lceil>of_int d / (1000 :: rat)\<rceil>) :: rat) < of_int (d + 1000)"
    by (simp only: of_int_mult of_int_add of_int_numeral)
  then show ?thesis by (simp only: of_int_less_iff)
qed

text \<open>Claim-independent form used by the worker: the timeout in whole seconds.\<close>

lemma visibilityTimeoutSeconds_spec:
  assumes "d \<le> 43200000"
  shows "\<exists>s. visibilityTimeoutSeconds (Num (of_int d)) = Num (of_int s)
    \<and> 1 \<le> s \<and> s \<le> 43200 \<and> d \<le> 1000 * s \<and> (1000 \<le> d \<longrightarrow> 1000 * s < d + 1000)"
proof -
  let ?c = "\<lceil>of_int d / (1000 :: rat)\<rceil>"
  have c: "d \<le> 1000 * ?c" "1000 * ?c < d + 1000" by (rule seconds_cover_delay seconds_tight)+
  then have "?c \<le> 43200" using assms by linarith
  with c show ?thesis
    by (intro exI [of _ "min (max ?c 1) 43200"]) (auto simp: visibilityTimeoutSeconds_int)
qed

section \<open>Properties\<close>

text \<open>The delay before attempt \<open>n + 1\<close> is drawn with full jitter.  Over all values of
  \<open>Math.random()\<close>, the possible delays are exactly the whole milliseconds from zero to the
  exponential bound (one second, doubled with each attempt after the first, at most a minute).\<close>

theorem backoff_draws_full_range:
  "(\<lambda>r. backoffDelayMs r n) ` {r. 0 \<le> r \<and> r < 1} = {0..min (1000 * 2 ^ nat (max (n - 1) 0)) 60000}"
proof -
  have "(\<lambda>r. backoffDelayMs r n) ` {r. 0 \<le> r \<and> r < 1} = {0..delay_cap n}"
  proof (intro equalityI subsetI)
    fix d assume "d \<in> (\<lambda>r. backoffDelayMs r n) ` {r. 0 \<le> r \<and> r < 1}"
    then show "d \<in> {0..delay_cap n}" using backoffDelayMs_bounds by auto
  next
    fix d assume "d \<in> {0..delay_cap n}"
    then obtain r where "0 \<le> r \<and> r < 1 \<and> backoffDelayMs r n = d"
      using backoffDelayMs_onto [of d n] by auto
    then show "d \<in> (\<lambda>r. backoffDelayMs r n) ` {r. 0 \<le> r \<and> r < 1}" by auto
  qed
  then show ?thesis by (simp add: delay_cap_def)
qed

end
