(* ===== verification/Redis.thy ===== *)
theory Redis
  imports Prelude
begin

text \<open>
  The part of Redis the services use: hashes with a time to live.  A store maps a key to an entry,
  the hash's fields in insertion order and the server time at which the key expires.  Operations
  take the server time; an entry whose time to live is over counts as absent.  A hash that
  \<open>HSET\<close> creates has no time to live until \<open>EXPIRE\<close> or \<open>PEXPIRE\<close> gives it one.

  The value type is a parameter: the circuit breaker stores text, the token buckets numbers (the
  script's numbers reach Redis as decimal text that reads back as the same number).

  The locale \<open>hash_store\<close> is the contract the two clients rely on: a write is seen by later reads
  of its key and by no other key.
\<close>

record 'v redis_entry =
  hash_fields :: "(string \<times> 'v) list"
  expireAt :: "int option"

type_synonym 'v redis = "string \<Rightarrow> 'v redis_entry option"

definition redis_live :: "int \<Rightarrow> 'v redis \<Rightarrow> string \<Rightarrow> 'v redis_entry option" where
  "redis_live t r k =
     (case r k of None \<Rightarrow> None
      | Some e \<Rightarrow> (case expireAt e of None \<Rightarrow> Some e | Some x \<Rightarrow> if t < x then Some e else None))"

definition hgetall :: "int \<Rightarrow> 'v redis \<Rightarrow> string \<Rightarrow> (string \<times> 'v) list" where
  "hgetall t r k = (case redis_live t r k of None \<Rightarrow> [] | Some e \<Rightarrow> hash_fields e)"

fun update_fields :: "(string \<times> 'v) list \<Rightarrow> (string \<times> 'v) list \<Rightarrow> (string \<times> 'v) list" where
  "update_fields [] h = h"
| "update_fields ((f, v) # fvs) h = update_fields fvs (AList.update f v h)"

definition hset :: "int \<Rightarrow> string \<Rightarrow> (string \<times> 'v) list \<Rightarrow> 'v redis \<Rightarrow> 'v redis" where
  "hset t k fvs r =
     (let e = (case redis_live t r k of None \<Rightarrow> \<lparr>hash_fields = [], expireAt = None\<rparr> | Some e \<Rightarrow> e)
      in r(k := Some (e\<lparr>hash_fields := update_fields fvs (hash_fields e)\<rparr>)))"

definition pexpire :: "int \<Rightarrow> string \<Rightarrow> int \<Rightarrow> 'v redis \<Rightarrow> 'v redis" where
  "pexpire t k ms r =
     (case redis_live t r k of None \<Rightarrow> r | Some e \<Rightarrow> r(k := Some (e\<lparr>expireAt := Some (t + ms)\<rparr>)))"

lemma redis_live_other [simp]: "k' \<noteq> k \<Longrightarrow> redis_live t (r(k := e)) k' = redis_live t r k'"
  by (simp add: redis_live_def)

lemma redis_live_hset_same:
  "redis_live t (hset t k fvs r) k = Some
     (let e = (case redis_live t r k of None \<Rightarrow> \<lparr>hash_fields = [], expireAt = None\<rparr> | Some e \<Rightarrow> e)
      in e\<lparr>hash_fields := update_fields fvs (hash_fields e)\<rparr>)"
  by (auto simp: hset_def redis_live_def Let_def split: option.splits)

lemma hgetall_hset:
  "hgetall t (hset t k fvs r) k' =
     (if k' = k then update_fields fvs (hgetall t r k) else hgetall t r k')"
proof (cases "k' = k")
  case True
  then show ?thesis
    by (simp add: hgetall_def redis_live_hset_same Let_def split: option.splits)
qed (simp add: hgetall_def hset_def Let_def)

text \<open>What a key holds at time \<open>u\<close> after a write at \<open>t\<close> that also renews the time to live.\<close>

lemma redis_live_hset_pexpire:
  "redis_live u (pexpire t k ms (hset t k fvs r)) k =
     (if u < t + ms then Some \<lparr>hash_fields = update_fields fvs (hgetall t r k), expireAt = Some (t + ms)\<rparr>
      else None)"
proof -
  let ?e = "case redis_live t r k of None \<Rightarrow> \<lparr>hash_fields = [], expireAt = None\<rparr> | Some e \<Rightarrow> e"
  have f: "hash_fields ?e = hgetall t r k"
    by (simp add: hgetall_def split: option.splits)
  have "pexpire t k ms (hset t k fvs r) =
      (hset t k fvs r)(k := Some (?e\<lparr>hash_fields := update_fields fvs (hash_fields ?e), expireAt := Some (t + ms)\<rparr>))"
    by (simp add: pexpire_def redis_live_hset_same Let_def)
  then show ?thesis
    unfolding f by (simp add: redis_live_def)
qed

lemma hgetall_hset_pexpire:
  "hgetall u (pexpire t k ms (hset t k fvs r)) k =
     (if u < t + ms then update_fields fvs (hgetall t r k) else [])"
  by (simp add: hgetall_def redis_live_hset_pexpire)

lemma hset_other: "k' \<noteq> k \<Longrightarrow> hset t k fvs r k' = r k'"
  by (simp add: hset_def Let_def)

lemma pexpire_other: "k' \<noteq> k \<Longrightarrow> pexpire t k ms r k' = r k'"
  by (simp add: pexpire_def split: option.splits)

lemma hgetall_cong: "r k = r' k \<Longrightarrow> hgetall t r k = hgetall t r' k"
  by (simp add: hgetall_def redis_live_def)

lemma map_of_update_fields: "map_of (update_fields fvs h) = map_of h ++ map_of (rev fvs)"
proof (induction fvs arbitrary: h)
  case (Cons p fvs)
  obtain g v where p: "p = (g, v)" by (cases p)
  have "map_of (update_fields (p # fvs) h) = (map_of h)(g \<mapsto> v) ++ map_of (rev fvs)"
    by (simp add: p Cons.IH update_conv' fun_upd_def)
  also have "\<dots> = map_of h ++ ([g \<mapsto> v] ++ map_of (rev fvs))" by simp
  finally show ?case by (simp add: p)
qed simp

lemma update_fields_lookup:
  "map_of (update_fields fvs h) f = (case map_of (rev fvs) f of None \<Rightarrow> map_of h f | Some v \<Rightarrow> Some v)"
  by (simp add: map_of_update_fields map_add_def)

lemma update_fields_Cons_not_Nil: "update_fields (fv # fvs) h \<noteq> []"
proof -
  have "dom (map_of (update_fields (fv # fvs) h)) \<noteq> {}"
    by (simp add: map_of_update_fields dom_map_of_conv_image_fst)
  then show ?thesis by auto
qed

declare update_fields.simps [simp del]

section \<open>The contract of a hash store\<close>

locale hash_store =
  fixes get :: "'t \<Rightarrow> 'r \<Rightarrow> 'k \<Rightarrow> 'h"
    and put :: "'t \<Rightarrow> 'k \<Rightarrow> 'f \<Rightarrow> 'r \<Rightarrow> 'r"
    and merge :: "'f \<Rightarrow> 'h \<Rightarrow> 'h"
  assumes get_put: "get t (put t k f r) k = merge f (get t r k)"
    and get_put_other: "k' \<noteq> k \<Longrightarrow> get u (put t k f r) k' = get u r k'"
begin

text \<open>Any sequence of writes leaves the keys it does not name alone.\<close>

lemma get_puts_other:
  "(\<forall>(t, k, f) \<in> set ws. k \<noteq> k') \<Longrightarrow> get u (foldl (\<lambda>r (t, k, f). put t k f r) r ws) k' = get u r k'"
proof (induction ws arbitrary: r)
  case (Cons w ws)
  obtain t k f where w: "w = (t, k, f)" by (cases w)
  with Cons have "k' \<noteq> k" by auto
  with Cons show ?case by (simp add: w get_put_other)
qed simp

text \<open>Writes at one moment to one key are seen in the order they were made.\<close>

lemma get_puts_same:
  "get t (foldl (\<lambda>r f. put t k f r) r fs) k = foldl (\<lambda>h f. merge f h) (get t r k) fs"
  by (induction fs arbitrary: r) (simp_all add: get_put)

lemma get_put_swap:
  "k \<noteq> k' \<Longrightarrow> get t (put t k f (put t k' g r)) k = get t (put t k' g (put t k f r)) k"
  by (simp add: get_put get_put_other)

end

interpretation redis_hash: hash_store hgetall hset update_fields
proof unfold_locales
  fix t u :: int and k k' :: string and f :: "(string \<times> 'v) list" and r :: "'v redis"
  show "hgetall t (hset t k f r) k = update_fields f (hgetall t r k)"
    by (simp add: hgetall_hset)
  show "hgetall u (hset t k f r) k' = hgetall u r k'" if "k' \<noteq> k"
    using that by (rule hset_other [THEN hgetall_cong])
qed

end
