(* ===== verification/CircuitBreaker.thy ===== *)
theory CircuitBreaker
  imports JsNumber Redis
begin

text \<open>
  The per-destination circuit breaker (\<open>packages/worker/src/delivery/circuit-breaker.ts\<close>).

  A snapshot is what the code passes around; its failure count and opening time are JavaScript
  numbers because they are read back from the text of a Redis hash with \<open>Number(..)\<close>.  The
  threshold and the cooldown are whole numbers (the source's defaults are 5 and 30000), the clock
  readings whole milliseconds.  A state field Redis holds that is none of the three names behaves
  as \<open>closed\<close> in every function of the source and is read as \<open>Closed\<close>.

  The time of the client (\<open>now\<close>, from \<open>Date.now()\<close>) and the time of the Redis server
  (\<open>t\<close>, which decides expiry) are separate arguments.
\<close>

section \<open>Snapshots and transitions\<close>

datatype circuit_state = Closed | Open | HalfOpen

record circuit_config =
  failureThreshold :: int
  cooldownMs :: int

record circuit_overrides =
  ov_failureThreshold :: "int option"
  ov_cooldownMs :: "int option"

record circuit_snapshot =
  state :: circuit_state
  failureCount :: jsnum
  openedAt :: "jsnum option"
  halfOpenInFlight :: "bool option"

definition DEFAULT_CONFIG :: circuit_config where
  "DEFAULT_CONFIG = \<lparr>failureThreshold = 5, cooldownMs = 30000\<rparr>"

definition no_overrides :: circuit_overrides where
  "no_overrides = \<lparr>ov_failureThreshold = None, ov_cooldownMs = None\<rparr>"

definition normalizeConfig :: "circuit_overrides \<Rightarrow> circuit_config" where
  "normalizeConfig ov =
     \<lparr>failureThreshold = (case ov_failureThreshold ov of None \<Rightarrow> failureThreshold DEFAULT_CONFIG | Some n \<Rightarrow> n),
      cooldownMs = (case ov_cooldownMs ov of None \<Rightarrow> cooldownMs DEFAULT_CONFIG | Some n \<Rightarrow> n)\<rparr>"

definition applyFailure :: "circuit_snapshot \<Rightarrow> int \<Rightarrow> circuit_overrides \<Rightarrow> circuit_snapshot" where
  "applyFailure current now overrides =
     (let config = normalizeConfig overrides;
          nextFailureCount = js_add (failureCount current) (Num 1)
      in if state current = Open then
           \<lparr>state = Open, failureCount = failureCount current,
            openedAt = Some (case openedAt current of None \<Rightarrow> Num (of_int now) | Some x \<Rightarrow> x),
            halfOpenInFlight = Some False\<rparr>
         else if state current = HalfOpen then
           \<lparr>state = Open, failureCount = Num (of_int (failureThreshold config)),
            openedAt = Some (Num (of_int now)), halfOpenInFlight = Some False\<rparr>
         else if js_le (Num (of_int (failureThreshold config))) nextFailureCount then
           \<lparr>state = Open, failureCount = Num (of_int (failureThreshold config)),
            openedAt = Some (Num (of_int now)), halfOpenInFlight = Some False\<rparr>
         else
           \<lparr>state = Closed, failureCount = nextFailureCount, openedAt = None,
            halfOpenInFlight = Some False\<rparr>)"

definition applySuccess :: "circuit_snapshot \<Rightarrow> int \<Rightarrow> circuit_overrides \<Rightarrow> circuit_snapshot" where
  "applySuccess current now overrides =
     \<lparr>state = Closed, failureCount = Num 0, openedAt = None, halfOpenInFlight = Some False\<rparr>"

record circuit_decision =
  allowed :: bool
  d_state :: circuit_state
  delayMs :: jsnum

definition getCircuitDecision :: "circuit_snapshot \<Rightarrow> int \<Rightarrow> circuit_overrides \<Rightarrow> circuit_decision" where
  "getCircuitDecision current now overrides =
     (let config = normalizeConfig overrides
      in if state current = Open then
           (let opened = (case openedAt current of None \<Rightarrow> Num (of_int now) | Some x \<Rightarrow> x);
                remaining = js_sub (Num (of_int (cooldownMs config))) (js_sub (Num (of_int now)) opened)
            in if js_lt (Num 0) remaining
               then \<lparr>allowed = False, d_state = Open, delayMs = remaining\<rparr>
               else \<lparr>allowed = True, d_state = HalfOpen, delayMs = Num 0\<rparr>)
         else if state current = HalfOpen then
           \<lparr>allowed = (halfOpenInFlight current \<noteq> Some True), d_state = HalfOpen, delayMs = Num 0\<rparr>
         else \<lparr>allowed = True, d_state = Closed, delayMs = Num 0\<rparr>)"

section \<open>The snapshot in Redis\<close>

definition circuitKeyForTarget :: "string \<Rightarrow> string" where
  "circuitKeyForTarget targetUrl = ''waybill:circuit:'' @ targetUrl"

fun state_text :: "circuit_state \<Rightarrow> string" where
  "state_text Closed = ''closed''"
| "state_text Open = ''open''"
| "state_text HalfOpen = ''half-open''"

definition read_state :: "string option \<Rightarrow> circuit_state" where
  "read_state raw =
     (if raw = Some ''open'' then Open else if raw = Some ''half-open'' then HalfOpen else Closed)"

definition readCircuitState :: "int \<Rightarrow> string redis \<Rightarrow> string \<Rightarrow> circuit_snapshot" where
  "readCircuitState t r targetUrl =
     (let raw = hgetall t r (circuitKeyForTarget targetUrl)
      in if raw = [] then
           \<lparr>state = Closed, failureCount = Num 0, openedAt = None, halfOpenInFlight = None\<rparr>
         else
           \<lparr>state = read_state (map_of raw ''state''),
            failureCount = js_Number (case map_of raw ''failureCount'' of None \<Rightarrow> ''0'' | Some x \<Rightarrow> x),
            openedAt = (case map_of raw ''openedAt'' of None \<Rightarrow> None
                        | Some x \<Rightarrow> if x = [] then None else Some (js_Number x)),
            halfOpenInFlight = Some (map_of raw ''halfOpenInFlight'' = Some ''true'')\<rparr>)"

definition truthy_number :: "jsnum option \<Rightarrow> bool" where
  "truthy_number x = (case x of None \<Rightarrow> False | Some n \<Rightarrow> n \<noteq> NaN \<and> n \<noteq> Num 0)"

definition circuit_ttl_seconds :: "circuit_config \<Rightarrow> int" where
  "circuit_ttl_seconds config = max 1 \<lceil>of_int (cooldownMs config) / (1000 :: rat)\<rceil>"

definition snapshot_fields :: "circuit_snapshot \<Rightarrow> (string \<times> string) list" where
  "snapshot_fields snapshot =
     [(''state'', state_text (state snapshot)),
      (''failureCount'', js_String (failureCount snapshot)),
      (''openedAt'', if truthy_number (openedAt snapshot) then js_String (the (openedAt snapshot)) else []),
      (''halfOpenInFlight'', if halfOpenInFlight snapshot = Some True then ''true'' else ''false'')]"

definition writeCircuitState ::
  "int \<Rightarrow> string redis \<Rightarrow> string \<Rightarrow> circuit_snapshot \<Rightarrow> circuit_overrides \<Rightarrow> string redis" where
  "writeCircuitState t r targetUrl snapshot overrides =
     (let config = normalizeConfig overrides;
          key = circuitKeyForTarget targetUrl
      in pexpire t key (1000 * circuit_ttl_seconds config) (hset t key (snapshot_fields snapshot) r))"

definition recordDeliveryFailure ::
  "int \<Rightarrow> int \<Rightarrow> string redis \<Rightarrow> string \<Rightarrow> circuit_overrides \<Rightarrow> circuit_snapshot \<times> string redis" where
  "recordDeliveryFailure t now r targetUrl overrides =
     (let current = readCircuitState t r targetUrl;
          next = applyFailure current now overrides
      in (next, writeCircuitState t r targetUrl next overrides))"

definition recordDeliverySuccess ::
  "int \<Rightarrow> int \<Rightarrow> string redis \<Rightarrow> string \<Rightarrow> circuit_overrides \<Rightarrow> circuit_snapshot \<times> string redis" where
  "recordDeliverySuccess t now r targetUrl overrides =
     (let current = readCircuitState t r targetUrl;
          next = applySuccess current now overrides
      in (next, writeCircuitState t r targetUrl next overrides))"

definition shouldAllowDelivery ::
  "int \<Rightarrow> int \<Rightarrow> string redis \<Rightarrow> string \<Rightarrow> circuit_overrides \<Rightarrow> circuit_decision \<times> circuit_snapshot" where
  "shouldAllowDelivery t now r targetUrl overrides =
     (let snapshot = readCircuitState t r targetUrl
      in (getCircuitDecision snapshot now overrides, snapshot))"

text \<open>The handler's own write before a probe (\<open>packages/worker/src/index.ts\<close>): no state, no expiry.\<close>

definition markProbeInFlight :: "int \<Rightarrow> string redis \<Rightarrow> string \<Rightarrow> string redis" where
  "markProbeInFlight t r targetUrl =
     hset t (circuitKeyForTarget targetUrl) [(''halfOpenInFlight'', ''true'')] r"

section \<open>Reading back what was written\<close>

text \<open>Snapshots with whole, not too large numbers: what the code itself produces.\<close>

definition plain_number :: "jsnum \<Rightarrow> bool" where
  "plain_number x \<longleftrightarrow> (\<exists>i. x = Num (of_int i) \<and> \<bar>i\<bar> < 2 ^ 1000)"

definition plain_snapshot :: "circuit_snapshot \<Rightarrow> bool" where
  "plain_snapshot s \<longleftrightarrow> plain_number (failureCount s)
     \<and> (case openedAt s of None \<Rightarrow> True | Some x \<Rightarrow> plain_number x)"

lemma plain_number_of_int [simp]: "plain_number (Num (of_int i)) \<longleftrightarrow> \<bar>i\<bar> < 2 ^ 1000"
  by (auto simp: plain_number_def)

lemma plain_number_0 [simp]: "plain_number (Num 0)"
  by (simp add: plain_number_def exI [of _ 0])

lemma js_Number_String_plain: "plain_number x \<Longrightarrow> js_Number (js_String x) = x"
  unfolding plain_number_def by (metis js_Number_String_int js_String_of_int)

lemma js_String_plain_not_Nil: "plain_number x \<Longrightarrow> js_String x \<noteq> []"
  unfolding plain_number_def by (metis js_String_of_int js_String_int_not_Nil)

lemma read_state_text [simp]: "read_state (Some (state_text st)) = st"
  by (cases st) (simp_all add: read_state_def)

lemma circuitKey_inject [simp]: "circuitKeyForTarget a = circuitKeyForTarget b \<longleftrightarrow> a = b"
  by (simp add: circuitKeyForTarget_def)

lemma circuit_ttl_covers_cooldown: "cooldownMs c \<le> 1000 * circuit_ttl_seconds c"
proof -
  have "of_int (cooldownMs c) / (1000 :: rat) \<le> of_int \<lceil>of_int (cooldownMs c) / (1000 :: rat)\<rceil>"
    by (rule le_of_int_ceiling)
  then have "of_int (cooldownMs c) \<le> 1000 * (of_int \<lceil>of_int (cooldownMs c) / (1000 :: rat)\<rceil> :: rat)"
    by linarith
  then have "(of_int (cooldownMs c) :: rat) \<le> of_int (1000 * \<lceil>of_int (cooldownMs c) / (1000 :: rat)\<rceil>)"
    by (simp only: of_int_mult of_int_numeral)
  then have "cooldownMs c \<le> 1000 * \<lceil>of_int (cooldownMs c) / (1000 :: rat)\<rceil>"
    by (simp only: of_int_le_iff)
  then show ?thesis by (simp add: circuit_ttl_seconds_def)
qed

lemma circuit_ttl_pos: "0 < circuit_ttl_seconds c"
  by (simp add: circuit_ttl_seconds_def)

text \<open>The snapshot a reader gets from the fields of a write: a zero opening time is lost.\<close>

definition stored_snapshot :: "circuit_snapshot \<Rightarrow> circuit_snapshot" where
  "stored_snapshot s = s\<lparr>openedAt := (if truthy_number (openedAt s) then openedAt s else None),
     halfOpenInFlight := Some (halfOpenInFlight s = Some True)\<rparr>"

lemma snapshot_fields_lookup:
  "map_of (update_fields (snapshot_fields s) h) ''state'' = Some (state_text (state s))"
  "map_of (update_fields (snapshot_fields s) h) ''failureCount'' = Some (js_String (failureCount s))"
  "map_of (update_fields (snapshot_fields s) h) ''openedAt'' =
     Some (if truthy_number (openedAt s) then js_String (the (openedAt s)) else [])"
  "map_of (update_fields (snapshot_fields s) h) ''halfOpenInFlight'' =
     Some (if halfOpenInFlight s = Some True then ''true'' else ''false'')"
  by (simp_all add: update_fields_lookup snapshot_fields_def)

lemma snapshot_fields_not_Nil [simp]: "update_fields (snapshot_fields s) h \<noteq> []"
  by (simp add: snapshot_fields_def update_fields_Cons_not_Nil)

lemma readCircuitState_write:
  assumes plain: "plain_snapshot s"
    and alive: "u < t + 1000 * circuit_ttl_seconds (normalizeConfig ov)"
  shows "readCircuitState u (writeCircuitState t r target s ov) target = stored_snapshot s"
proof -
  let ?h = "update_fields (snapshot_fields s) (hgetall t r (circuitKeyForTarget target))"
  have h: "hgetall u (writeCircuitState t r target s ov) (circuitKeyForTarget target) = ?h"
    using alive by (simp add: writeCircuitState_def Let_def hgetall_hset_pexpire)
  have fc: "js_Number (js_String (failureCount s)) = failureCount s"
    using plain by (simp add: plain_snapshot_def js_Number_String_plain)
  have oa: "js_Number (js_String x) = x" "js_String x \<noteq> []" if "openedAt s = Some x" for x
    using plain that by (simp_all add: plain_snapshot_def js_Number_String_plain js_String_plain_not_Nil)
  show ?thesis
    by (cases "openedAt s")
      (simp_all add: readCircuitState_def h Let_def snapshot_fields_lookup fc oa
        stored_snapshot_def truthy_number_def)
qed

lemma readCircuitState_expired:
  assumes "t + 1000 * circuit_ttl_seconds (normalizeConfig ov) \<le> u"
  shows "readCircuitState u (writeCircuitState t r target s ov) target
    = \<lparr>state = Closed, failureCount = Num 0, openedAt = None, halfOpenInFlight = None\<rparr>"
proof -
  have "hgetall u (writeCircuitState t r target s ov) (circuitKeyForTarget target) = []"
    using assms by (simp add: writeCircuitState_def Let_def hgetall_hset_pexpire)
  then show ?thesis by (simp add: readCircuitState_def Let_def)
qed

lemma readCircuitState_other:
  assumes "target' \<noteq> target"
  shows "readCircuitState u (writeCircuitState t r target s ov) target' = readCircuitState u r target'"
proof -
  have "hgetall u (writeCircuitState t r target s ov) (circuitKeyForTarget target')
      = hgetall u r (circuitKeyForTarget target')"
    using assms by (intro hgetall_cong) (simp add: writeCircuitState_def Let_def pexpire_other hset_other)
  then show ?thesis by (simp add: readCircuitState_def)
qed

section \<open>Runs of failures\<close>

text \<open>The snapshots after failures at the given times, none of them followed by a success.\<close>

fun failures :: "circuit_overrides \<Rightarrow> circuit_snapshot \<Rightarrow> int list \<Rightarrow> circuit_snapshot" where
  "failures ov s [] = s"
| "failures ov s (t # ts) = failures ov (applyFailure s t ov) ts"

definition fresh_snapshot :: circuit_snapshot where
  "fresh_snapshot = \<lparr>state = Closed, failureCount = Num 0, openedAt = None, halfOpenInFlight = None\<rparr>"

lemma applyFailure_open:
  "state s = Open \<Longrightarrow> openedAt s = Some x \<Longrightarrow>
   applyFailure s now ov = s\<lparr>halfOpenInFlight := Some False\<rparr>"
  by (cases s) (simp add: applyFailure_def Let_def)

lemma failures_open:
  "state s = Open \<Longrightarrow> openedAt s = Some x \<Longrightarrow> halfOpenInFlight s = Some False \<Longrightarrow> failures ov s ts = s"
  by (induction ts arbitrary: s) (simp_all add: applyFailure_open)

lemma js_le_of_int [simp]: "js_le (Num (of_int a)) (Num (of_int b)) \<longleftrightarrow> a \<le> b"
  by simp

lemma applyFailure_closed:
  assumes "state s = Closed" and "failureCount s = Num (of_int k)"
  shows "applyFailure s now ov =
    (if failureThreshold (normalizeConfig ov) \<le> k + 1
     then \<lparr>state = Open, failureCount = Num (of_int (failureThreshold (normalizeConfig ov))),
           openedAt = Some (Num (of_int now)), halfOpenInFlight = Some False\<rparr>
     else \<lparr>state = Closed, failureCount = Num (of_int (k + 1)), openedAt = None,
           halfOpenInFlight = Some False\<rparr>)"
proof -
  have "js_add (Num (of_int k)) (Num 1) = Num (of_int (k + 1))" by simp
  with assms show ?thesis
    by (simp only: applyFailure_def Let_def js_le_of_int) simp
qed

lemma failures_closed:
  assumes "state s = Closed" and "failureCount s = Num (of_int k)"
    and "k < failureThreshold (normalizeConfig ov)" and "ts \<noteq> []"
  shows "failures ov s ts =
    (if k + int (length ts) < failureThreshold (normalizeConfig ov)
     then \<lparr>state = Closed, failureCount = Num (of_int (k + int (length ts))), openedAt = None,
           halfOpenInFlight = Some False\<rparr>
     else \<lparr>state = Open, failureCount = Num (of_int (failureThreshold (normalizeConfig ov))),
           openedAt = Some (Num (of_int (ts ! nat (failureThreshold (normalizeConfig ov) - k - 1)))),
           halfOpenInFlight = Some False\<rparr>)"
  using assms
proof (induction ts arbitrary: s k)
  case (Cons t ts)
  let ?n = "failureThreshold (normalizeConfig ov)"
  show ?case
  proof (cases "?n \<le> k + 1")
    case True
    then have n: "?n = k + 1" using Cons.prems(3) by linarith
    show ?thesis by (simp add: applyFailure_closed [OF Cons.prems(1,2)] n failures_open)
  next
    case False
    define s' where "s' = applyFailure s t ov"
    have s': "s' = \<lparr>state = Closed, failureCount = Num (of_int (k + 1)), openedAt = None,
        halfOpenInFlight = Some False\<rparr>"
      using False by (simp add: s'_def applyFailure_closed [OF Cons.prems(1,2)])
    show ?thesis
    proof (cases "ts = []")
      case True
      with False s' show ?thesis by (simp add: s'_def [symmetric])
    next
      case ne: False
      have idx: "nat (?n - k - 1) = Suc (nat (?n - (k + 1) - 1))" using False by simp
      have "failures ov s' ts = (if k + 1 + int (length ts) < ?n
         then \<lparr>state = Closed, failureCount = Num (of_int (k + 1 + int (length ts))), openedAt = None,
               halfOpenInFlight = Some False\<rparr>
         else \<lparr>state = Open, failureCount = Num (of_int ?n),
               openedAt = Some (Num (of_int (ts ! nat (?n - (k + 1) - 1)))),
               halfOpenInFlight = Some False\<rparr>)"
        using False ne by (intro Cons.IH) (simp_all add: s')
      then show ?thesis by (simp add: s'_def [symmetric] idx add.assoc)
    qed
  qed
qed simp

section \<open>Decisions\<close>

lemma getCircuitDecision_open:
  assumes "state s = Open" and "openedAt s = Some (Num (of_int o'))"
  shows "getCircuitDecision s now ov =
    (let remaining = cooldownMs (normalizeConfig ov) - (now - o')
     in if 0 < remaining then \<lparr>allowed = False, d_state = Open, delayMs = Num (of_int remaining)\<rparr>
        else \<lparr>allowed = True, d_state = HalfOpen, delayMs = Num 0\<rparr>)"
proof -
  have "js_sub (Num (of_int (cooldownMs (normalizeConfig ov)))) (js_sub (Num (of_int now)) (Num (of_int o')))
      = Num (of_int (cooldownMs (normalizeConfig ov) - (now - o')))"
    by simp
  moreover have "js_lt (Num 0) (Num (of_int k)) \<longleftrightarrow> 0 < k" for k :: int by simp
  ultimately show ?thesis
    using assms by (simp only: getCircuitDecision_def Let_def) simp
qed

lemma getCircuitDecision_closed:
  "state s = Closed \<Longrightarrow> getCircuitDecision s now ov = \<lparr>allowed = True, d_state = Closed, delayMs = Num 0\<rparr>"
  by (simp add: getCircuitDecision_def Let_def)

section \<open>The stored circuits the services can produce\<close>

text \<open>
  Every write the code makes to a circuit hash: a recorded failure, a recorded success, and the
  probe mark of the message handler, at any times and for any destinations.
\<close>

inductive circuit_reach :: "circuit_overrides \<Rightarrow> string redis \<Rightarrow> bool" for ov where
  empty: "circuit_reach ov (\<lambda>_. None)"
| failure: "circuit_reach ov r \<Longrightarrow> circuit_reach ov (snd (recordDeliveryFailure t now r target ov))"
| success: "circuit_reach ov r \<Longrightarrow> circuit_reach ov (snd (recordDeliverySuccess t now r target ov))"
| probe: "circuit_reach ov r \<Longrightarrow> circuit_reach ov (markProbeInFlight t r target)"

definition no_half_open :: "string redis \<Rightarrow> bool" where
  "no_half_open r \<longleftrightarrow> (\<forall>k e. r k = Some e \<longrightarrow> map_of (hash_fields e) ''state'' \<noteq> Some ''half-open'')"

lemma no_half_open_read:
  assumes "no_half_open r"
  shows "state (readCircuitState t r target) \<noteq> HalfOpen"
proof -
  have "map_of (hgetall t r k) ''state'' \<noteq> Some ''half-open''" for k
    using assms by (auto simp: no_half_open_def hgetall_def redis_live_def split: option.splits if_splits)
  then show ?thesis by (auto simp: readCircuitState_def Let_def read_state_def)
qed

lemma no_half_open_hset:
  assumes r: "no_half_open r"
    and f: "map_of (rev fvs) ''state'' \<noteq> Some ''half-open''"
  shows "no_half_open (hset t k fvs r)"
proof -
  let ?e = "case redis_live t r k of None \<Rightarrow> \<lparr>hash_fields = [], expireAt = None\<rparr> | Some e \<Rightarrow> e"
  have "map_of (hash_fields ?e) ''state'' \<noteq> Some ''half-open''"
    using r by (auto simp: no_half_open_def redis_live_def split: option.splits if_splits)
  then have "map_of (update_fields fvs (hash_fields ?e)) ''state'' \<noteq> Some ''half-open''"
    using f by (auto simp: update_fields_lookup split: option.splits)
  with r show ?thesis by (auto simp: no_half_open_def hset_def Let_def)
qed

lemma no_half_open_pexpire: "no_half_open r \<Longrightarrow> no_half_open (pexpire t k ms r)"
  by (auto simp: no_half_open_def pexpire_def redis_live_def split: option.splits if_splits)

lemma no_half_open_write:
  assumes "no_half_open r" and "state s \<noteq> HalfOpen"
  shows "no_half_open (writeCircuitState t r target s ov)"
proof -
  have "state_text (state s) \<noteq> ''half-open''" using assms(2) by (cases "state s") simp_all
  with assms(1) show ?thesis
    by (simp add: writeCircuitState_def Let_def no_half_open_pexpire no_half_open_hset snapshot_fields_def)
qed

lemma applyFailure_not_half_open: "state (applyFailure s now ov) \<noteq> HalfOpen"
  by (simp add: applyFailure_def Let_def)

lemma circuit_reach_no_half_open: "circuit_reach ov r \<Longrightarrow> no_half_open r"
proof (induction rule: circuit_reach.induct)
  case empty
  show ?case by (simp add: no_half_open_def)
next
  case (failure r t now target)
  then show ?case
    by (simp add: recordDeliveryFailure_def Let_def no_half_open_write applyFailure_not_half_open)
next
  case (success r t now target)
  then show ?case
    by (simp add: recordDeliverySuccess_def Let_def no_half_open_write applySuccess_def)
next
  case (probe r t target)
  then show ?case by (simp add: markProbeInFlight_def no_half_open_hset)
qed

section \<open>Properties\<close>

text \<open>From a closed circuit with no failures, consecutive failures are counted one by one and
  the circuit opens exactly at the configured threshold, at the time of the failure that reaches
  it; later failures change neither the count nor the opening time.\<close>

theorem circuit_opens_at_threshold:
  assumes "0 < failureThreshold (normalizeConfig ov)" and "ts \<noteq> []"
  shows "failures ov fresh_snapshot ts =
    (if int (length ts) < failureThreshold (normalizeConfig ov)
     then \<lparr>state = Closed, failureCount = Num (of_int (int (length ts))), openedAt = None,
           halfOpenInFlight = Some False\<rparr>
     else \<lparr>state = Open, failureCount = Num (of_int (failureThreshold (normalizeConfig ov))),
           openedAt = Some (Num (of_int (ts ! nat (failureThreshold (normalizeConfig ov) - 1)))),
           halfOpenInFlight = Some False\<rparr>)"
  using failures_closed [of fresh_snapshot 0 ov ts] assms
  by (simp add: fresh_snapshot_def)

theorem circuit_opens_at_threshold_witness:
  "failures no_overrides fresh_snapshot [10, 20, 30, 40, 50, 60] =
    \<lparr>state = Open, failureCount = Num 5, openedAt = Some (Num 50), halfOpenInFlight = Some False\<rparr>"
  using circuit_opens_at_threshold [of no_overrides "[10, 20, 30, 40, 50, 60]"]
  by (simp add: normalizeConfig_def no_overrides_def DEFAULT_CONFIG_def)

text \<open>A snapshot written to Redis is read back unchanged while its time to live lasts, but for
  an opening time of zero, which is stored as empty, and an undefined in-flight flag, which is
  stored as false.\<close>

theorem circuit_write_read_roundtrip:
  assumes "plain_snapshot s" and "u < t + 1000 * circuit_ttl_seconds (normalizeConfig ov)"
  shows "readCircuitState u (writeCircuitState t r target s ov) target =
    s\<lparr>openedAt := (if truthy_number (openedAt s) then openedAt s else None),
      halfOpenInFlight := Some (halfOpenInFlight s = Some True)\<rparr>"
  using readCircuitState_write [OF assms] by (simp add: stored_snapshot_def)

theorem circuit_write_read_roundtrip_witness:
  "readCircuitState 29999 (writeCircuitState 0 (\<lambda>_. None) ''http://r''
     \<lparr>state = Open, failureCount = Num 5, openedAt = Some (Num 1700), halfOpenInFlight = None\<rparr>
     no_overrides) ''http://r''
   = \<lparr>state = Open, failureCount = Num 5, openedAt = Some (Num 1700), halfOpenInFlight = Some False\<rparr>"
proof -
  have "plain_number (Num 5)" "plain_number (Num 1700)"
    using plain_number_of_int [of 5] plain_number_of_int [of 1700] by simp_all
  then show ?thesis
    by (subst circuit_write_read_roundtrip)
      (simp_all add: plain_snapshot_def circuit_ttl_seconds_def normalizeConfig_def no_overrides_def
        DEFAULT_CONFIG_def truthy_number_def)
qed

text \<open>Once a recorded failure opens the circuit of a destination, every reader finds it open and
  refuses delivery until the cooldown since that failure is over, with the remaining cooldown as
  the delay: the time to live of the Redis key never ends the cooldown early.\<close>

theorem open_circuit_blocks_until_cooldown:
  assumes before: "state (readCircuitState t r target) \<noteq> Open"
    and rec: "recordDeliveryFailure t now r target ov = (s, r')"
    and opened: "state s = Open"
    and num: "plain_number (Num (of_int (failureThreshold (normalizeConfig ov))))"
      "plain_number (Num (of_int now))" "0 < now"
    and during: "now' < now + cooldownMs (normalizeConfig ov)"
    and clocks: "u - t \<le> now' - now"
  shows "getCircuitDecision (readCircuitState u r' target) now' ov =
    \<lparr>allowed = False, d_state = Open,
     delayMs = Num (of_int (now + cooldownMs (normalizeConfig ov) - now'))\<rparr>"
proof -
  have s: "s = \<lparr>state = Open, failureCount = Num (of_int (failureThreshold (normalizeConfig ov))),
      openedAt = Some (Num (of_int now)), halfOpenInFlight = Some False\<rparr>"
    using before rec opened by (auto simp: recordDeliveryFailure_def applyFailure_def Let_def split: if_splits)
  have r': "r' = writeCircuitState t r target s ov"
    using rec by (auto simp: recordDeliveryFailure_def Let_def)
  have "plain_snapshot s" using num by (simp add: s plain_snapshot_def del: plain_number_of_int)
  moreover have "u < t + 1000 * circuit_ttl_seconds (normalizeConfig ov)"
    using during clocks circuit_ttl_covers_cooldown [of "normalizeConfig ov"] by linarith
  ultimately have "readCircuitState u r' target = stored_snapshot s"
    unfolding r' by (rule readCircuitState_write)
  moreover have "openedAt (stored_snapshot s) = Some (Num (of_int now))" "state (stored_snapshot s) = Open"
    using num(3) by (simp_all add: s stored_snapshot_def truthy_number_def)
  ultimately show ?thesis
    using during by (simp add: getCircuitDecision_open Let_def)
qed

theorem open_circuit_blocks_until_cooldown_witness:
  "getCircuitDecision (readCircuitState 3500
     (snd (recordDeliveryFailure 1000 1000 (\<lambda>_. None) ''http://r''
        \<lparr>ov_failureThreshold = Some 1, ov_cooldownMs = None\<rparr>)) ''http://r'') 3500
     \<lparr>ov_failureThreshold = Some 1, ov_cooldownMs = None\<rparr>
   = \<lparr>allowed = False, d_state = Open, delayMs = Num 27500\<rparr>"
proof -
  let ?ov = "\<lparr>ov_failureThreshold = Some 1, ov_cooldownMs = None\<rparr>"
  let ?res = "recordDeliveryFailure 1000 1000 (\<lambda>_. None) ''http://r'' ?ov"
  have before: "readCircuitState 1000 (\<lambda>_. None) ''http://r'' = fresh_snapshot"
    by (simp add: readCircuitState_def hgetall_def redis_live_def fresh_snapshot_def)
  have cfg: "normalizeConfig ?ov = \<lparr>failureThreshold = 1, cooldownMs = 30000\<rparr>"
    by (simp add: normalizeConfig_def DEFAULT_CONFIG_def)
  have st: "state (fst ?res) = Open"
    using applyFailure_closed [of fresh_snapshot 0 1000 ?ov]
    by (simp add: recordDeliveryFailure_def before cfg fresh_snapshot_def Let_def)
  have num: "plain_number (Num (of_int 1))" "plain_number (Num (of_int 1000))"
    by (simp_all only: plain_number_of_int) simp_all
  show ?thesis
    using open_circuit_blocks_until_cooldown [of 1000 "\<lambda>_. None" "''http://r''" 1000 ?ov "fst ?res" "snd ?res" 3500 3500]
      st num by (simp add: before cfg fresh_snapshot_def)
qed

text \<open>No write of the code ever stores the state \<open>half-open\<close>, so the in-flight flag set before a
  probe is never consulted: whenever a message is let through, a second one read right after the
  first has marked its probe is let through as well.  The design notes promise a single probe.\<close>

theorem probe_mark_admits_further_probes:
  assumes "circuit_reach ov r"
    and "allowed (getCircuitDecision (readCircuitState t r target) now ov)"
  shows "state (readCircuitState t r target) \<noteq> HalfOpen
    \<and> allowed (getCircuitDecision (readCircuitState t (markProbeInFlight t r target) target) now ov)"
proof -
  have nh: "state (readCircuitState t r target) \<noteq> HalfOpen"
    using assms(1) by (intro no_half_open_read circuit_reach_no_half_open)
  let ?h = "hgetall t r (circuitKeyForTarget target)"
  let ?h' = "update_fields [(''halfOpenInFlight'', ''true'')] ?h"
  have h': "hgetall t (markProbeInFlight t r target) (circuitKeyForTarget target) = ?h'"
    by (simp add: markProbeInFlight_def hgetall_hset)
  have ne: "?h' \<noteq> []" by (rule update_fields_Cons_not_Nil)
  have same: "map_of ?h' f = map_of ?h f" if "f \<noteq> ''halfOpenInFlight''" for f
    using that by (simp add: update_fields_lookup)
  have st: "state (readCircuitState t (markProbeInFlight t r target) target) = state (readCircuitState t r target)"
    by (simp add: readCircuitState_def h' ne Let_def same read_state_def)
  have oa: "openedAt (readCircuitState t (markProbeInFlight t r target) target)
      = openedAt (readCircuitState t r target)"
    by (simp add: readCircuitState_def h' ne Let_def same)
  have "allowed (getCircuitDecision (readCircuitState t (markProbeInFlight t r target) target) now ov)"
    using assms(2) nh by (simp add: getCircuitDecision_def Let_def st oa split: if_splits)
  with nh show ?thesis ..
qed

theorem probe_mark_admits_further_probes_witness:
  "allowed (getCircuitDecision (readCircuitState 5 (markProbeInFlight 5 (\<lambda>_. None) ''http://r'') ''http://r'') 5
     no_overrides)"
proof -
  have "allowed (getCircuitDecision (readCircuitState 5 (\<lambda>_. None) ''http://r'') 5 no_overrides)"
    by (simp add: readCircuitState_def hgetall_def redis_live_def getCircuitDecision_def Let_def)
  then show ?thesis
    using probe_mark_admits_further_probes [OF circuit_reach.empty] by blast
qed

text \<open>C37: a probe that fails after the cooldown does not open the circuit again.  The failure leaves
  the old opening time in place, so every later reader, for as long as the renewed key lives, is
  allowed through at once: the cooldown is not restarted, although the notes say a failed probe
  reopens the circuit immediately.\<close>

theorem failed_probe_does_not_reopen:
  assumes open_: "readCircuitState t r target = s" "state s = Open" "openedAt s = Some (Num (of_int opened))"
    and num: "plain_snapshot s" "opened \<noteq> 0"
    and probe: "opened + cooldownMs (normalizeConfig ov) \<le> now"
    and later: "now \<le> now'" "u < t + 1000 * circuit_ttl_seconds (normalizeConfig ov)"
  shows "allowed (getCircuitDecision
    (readCircuitState u (snd (recordDeliveryFailure t now r target ov)) target) now' ov)"
proof -
  let ?s' = "s\<lparr>halfOpenInFlight := Some False\<rparr>"
  have w: "snd (recordDeliveryFailure t now r target ov) = writeCircuitState t r target ?s' ov"
    using open_ by (simp add: recordDeliveryFailure_def Let_def applyFailure_open)
  have "plain_snapshot ?s'" using num(1) by (simp add: plain_snapshot_def)
  then have "readCircuitState u (writeCircuitState t r target ?s' ov) target = stored_snapshot ?s'"
    using later(2) by (rule readCircuitState_write)
  moreover have "state (stored_snapshot ?s') = Open"
    "openedAt (stored_snapshot ?s') = Some (Num (of_int opened))"
    using open_ num(2) by (simp_all add: stored_snapshot_def truthy_number_def)
  ultimately show ?thesis
    using probe later(1) by (simp add: w getCircuitDecision_open Let_def)
qed

theorem failed_probe_does_not_reopen_witness:
  "let s = \<lparr>state = Open, failureCount = Num 5, openedAt = Some (Num 1000), halfOpenInFlight = Some False\<rparr>;
       r = writeCircuitState 20000 (\<lambda>_. None) ''http://r'' s no_overrides
   in allowed (getCircuitDecision
     (readCircuitState 60999 (snd (recordDeliveryFailure 31000 31000 r ''http://r'' no_overrides)) ''http://r'')
     31000 no_overrides)"
proof -
  let ?s = "\<lparr>state = Open, failureCount = Num 5, openedAt = Some (Num 1000), halfOpenInFlight = Some False\<rparr>"
  let ?r = "writeCircuitState 20000 (\<lambda>_. None) ''http://r'' ?s no_overrides"
  have cfg: "normalizeConfig no_overrides = \<lparr>failureThreshold = 5, cooldownMs = 30000\<rparr>"
    by (simp add: normalizeConfig_def no_overrides_def DEFAULT_CONFIG_def)
  have plain: "plain_snapshot ?s"
    using plain_number_of_int [of 5] plain_number_of_int [of 1000] by (simp add: plain_snapshot_def)
  have ttl: "circuit_ttl_seconds \<lparr>failureThreshold = 5, cooldownMs = 30000\<rparr> = 30"
    by (simp add: circuit_ttl_seconds_def)
  have "readCircuitState 31000 ?r ''http://r'' = ?s"
    by (subst readCircuitState_write [OF plain])
      (simp_all add: cfg ttl stored_snapshot_def truthy_number_def)
  then show ?thesis
    using failed_probe_does_not_reopen [of 31000 ?r "''http://r''" ?s 1000 no_overrides 31000 31000 60999] plain
    by (simp add: cfg ttl)
qed

end
