(* ===== verification/RateLimit.thy ===== *)
theory RateLimit
  imports JsNumber Redis
begin

text \<open>
  The token buckets that limit ingestion and delivery per tenant
  (\<open>packages/shared/src/rate-limit.ts\<close>): the pure function \<open>consumeToken\<close>, the Lua script that
  runs the same step atomically in Redis, and the caller that builds the key and reads the reply.

  The numbers are JavaScript numbers because the configuration is read with \<open>Number(..)\<close> from the
  environment; the services pass whole milliseconds as \<open>now\<close>.  The script's numbers are the same
  doubles: \<open>String(x)\<close> of an argument and \<open>tonumber\<close> in Lua give the number back, and the script's
  \<open>math.max\<close> and \<open>math.min\<close> compare as the C code does, without the \<open>NaN\<close> rule of JavaScript.  A
  Lua number in the reply is cut to an integer by Redis.  Finite numbers are exact rationals: the rounding of
  doubles, the exponent form in which Lua would write a capacity beyond fourteen digits, and the error of
  \<open>PEXPIRE\<close> for a lifetime beyond its range are not modelled.
\<close>

section \<open>Configuration and the pure step\<close>

record rate_config =
  capacity :: jsnum
  refillPerSecond :: jsnum

record rate_overrides =
  ov_capacity :: "jsnum option"
  ov_refillPerSecond :: "jsnum option"

record token_snapshot =
  tokens :: jsnum
  lastRefillAt :: jsnum

record token_decision =
  t_allowed :: bool
  t_tokens :: jsnum
  retryAfterMs :: jsnum

definition DEFAULT_RATE :: rate_config where
  "DEFAULT_RATE = \<lparr>capacity = Num 10, refillPerSecond = Num 10\<rparr>"

definition normalizeRateLimitConfig :: "rate_overrides \<Rightarrow> exn + rate_config" where
  "normalizeRateLimitConfig ov =
     (let config = \<lparr>capacity = (case ov_capacity ov of None \<Rightarrow> capacity DEFAULT_RATE | Some x \<Rightarrow> x),
                    refillPerSecond = (case ov_refillPerSecond ov of None \<Rightarrow> refillPerSecond DEFAULT_RATE | Some x \<Rightarrow> x)\<rparr>
      in if js_le (capacity config) (Num 0) \<or> js_le (refillPerSecond config) (Num 0)
         then Inl (Error ''rate limit capacity and refill rate must be positive'')
         else Inr config)"

definition consumeToken ::
  "token_snapshot \<Rightarrow> jsnum \<Rightarrow> rate_overrides \<Rightarrow> exn + (token_decision \<times> token_snapshot)" where
  "consumeToken current now overrides =
     (case normalizeRateLimitConfig overrides of Inl e \<Rightarrow> Inl e
      | Inr config \<Rightarrow>
         (let elapsedMs = js_max (Num 0) (js_sub now (lastRefillAt current));
              refilled = js_min (capacity config)
                (js_add (tokens current) (js_div (js_mul elapsedMs (refillPerSecond config)) (Num 1000)))
          in if js_lt refilled (Num 1) then
               Inr (\<lparr>t_allowed = False, t_tokens = refilled,
                     retryAfterMs = js_ceil (js_div (js_mul (js_sub (Num 1) refilled) (Num 1000)) (refillPerSecond config))\<rparr>,
                    \<lparr>tokens = refilled, lastRefillAt = now\<rparr>)
             else (let left = js_sub refilled (Num 1)
                   in Inr (\<lparr>t_allowed = True, t_tokens = left, retryAfterMs = Num 0\<rparr>,
                           \<lparr>tokens = left, lastRefillAt = now\<rparr>))))"

section \<open>The script\<close>

definition lua_max :: "jsnum \<Rightarrow> jsnum \<Rightarrow> jsnum" where
  "lua_max a b = (if js_lt a b then b else a)"

definition lua_min :: "jsnum \<Rightarrow> jsnum \<Rightarrow> jsnum" where
  "lua_min a b = (if js_lt b a then b else a)"

fun reply_integer :: "jsnum \<Rightarrow> jsnum" where
  "reply_integer (Num q) = Num (of_int (if q < 0 then \<lceil>q\<rceil> else \<lfloor>q\<rfloor>))"
| "reply_integer x = x"

text \<open>\<open>PEXPIRE\<close> rejects an argument that is not a whole number, after the \<open>HSET\<close> before it.\<close>

definition CONSUME_TOKEN_SCRIPT ::
  "int \<Rightarrow> string \<Rightarrow> jsnum \<Rightarrow> jsnum \<Rightarrow> jsnum \<Rightarrow> jsnum redis
   \<Rightarrow> (exn + jsnum \<times> jsnum \<times> jsnum) \<times> jsnum redis" where
  "CONSUME_TOKEN_SCRIPT t key cap refill_per_second now r =
     (let h = hgetall t r key;
          tokens = (case map_of h ''tokens'' of None \<Rightarrow> cap | Some x \<Rightarrow> x);
          last_refill_at = (case map_of h ''lastRefillAt'' of None \<Rightarrow> now | Some x \<Rightarrow> x);
          elapsed = lua_max (Num 0) (js_sub now last_refill_at);
          tokens = lua_min cap (js_add tokens (js_div (js_mul elapsed refill_per_second) (Num 1000)));
          (allowed, retry_after_ms, tokens) =
            (if js_le (Num 1) tokens then (Num 1, Num 0, js_sub tokens (Num 1))
             else (Num 0, js_ceil (js_div (js_mul (js_sub (Num 1) tokens) (Num 1000)) refill_per_second), tokens));
          r = hset t key [(''tokens'', tokens), (''lastRefillAt'', now)] r
      in case js_ceil (js_div (js_mul (Num 1000) cap) refill_per_second) of
           Num ms \<Rightarrow> (Inr (reply_integer allowed, reply_integer tokens, reply_integer retry_after_ms),
                      pexpire t key \<lfloor>ms\<rfloor> r)
         | _ \<Rightarrow> (Inl (Error ''ERR value is not an integer or out of range''), r))"

datatype limit_scope = Ingestion | Delivery

fun scope_text :: "limit_scope \<Rightarrow> string" where
  "scope_text Ingestion = ''ingestion''"
| "scope_text Delivery = ''delivery''"

definition tenantRateLimitKey :: "string \<Rightarrow> limit_scope \<Rightarrow> string" where
  "tenantRateLimitKey tenantId sc = ''waybill:rate-limit:'' @ scope_text sc @ '':tenant:'' @ tenantId"

definition consumeTenantToken ::
  "int \<Rightarrow> string \<Rightarrow> limit_scope \<Rightarrow> rate_overrides \<Rightarrow> jsnum \<Rightarrow> jsnum redis
   \<Rightarrow> (exn + token_decision) \<times> jsnum redis" where
  "consumeTenantToken t tenantId sc overrides now r =
     (case normalizeRateLimitConfig overrides of Inl e \<Rightarrow> (Inl e, r)
      | Inr config \<Rightarrow>
         (case CONSUME_TOKEN_SCRIPT t (tenantRateLimitKey tenantId sc) (capacity config)
                 (refillPerSecond config) now r of
            (Inl e, r') \<Rightarrow> (Inl e, r')
          | (Inr (a, k, w), r') \<Rightarrow> (Inr \<lparr>t_allowed = (a = Num 1), t_tokens = k, retryAfterMs = w\<rparr>, r')))"

section \<open>Keys\<close>

lemma tenantRateLimitKey_inject:
  "tenantRateLimitKey a s = tenantRateLimitKey b s' \<longleftrightarrow> a = b \<and> s = s'"
  by (cases s; cases s') (auto simp: tenantRateLimitKey_def)

section \<open>The contract of a token bucket\<close>

text \<open>
  \<open>granted_by\<close> counts the grants over a list of request times.  The contract names the level of
  the bucket at a time; a grant takes one token from a level of at least one, a refusal happens
  only below one and takes nothing, and between requests the level grows with the refill rate up
  to the capacity.
\<close>

fun granted_by :: "(int \<Rightarrow> 's \<Rightarrow> bool \<times> 's) \<Rightarrow> 's \<Rightarrow> int list \<Rightarrow> nat" where
  "granted_by take_at s [] = 0"
| "granted_by take_at s (t # ts) =
     (case take_at t s of (ok, s') \<Rightarrow> (if ok then 1 else 0) + granted_by take_at s' ts)"

locale token_bucket =
  fixes take_at :: "int \<Rightarrow> 's \<Rightarrow> bool \<times> 's"
    and level :: "int \<Rightarrow> 's \<Rightarrow> rat"
    and valid :: "int \<Rightarrow> 's \<Rightarrow> bool"
    and cap rate :: rat
  assumes rate_pos: "0 < rate"
    and level_le_cap: "valid t s \<Longrightarrow> level t s \<le> cap"
    and granted: "valid t s \<Longrightarrow> take_at t s = (True, s') \<Longrightarrow>
      valid t s' \<and> 1 \<le> level t s \<and> level t s' = level t s - 1"
    and refused: "valid t s \<Longrightarrow> take_at t s = (False, s') \<Longrightarrow>
      valid t s' \<and> level t s < 1 \<and> level t s' = level t s"
    and refill: "valid t s \<Longrightarrow> t \<le> u \<Longrightarrow>
      valid u s \<and> level u s = min cap (level t s + of_int (u - t) * rate / 1000)"
begin

lemma granted_bound:
  "valid t s \<Longrightarrow> sorted (t # ts) \<Longrightarrow>
   of_nat (granted_by take_at s ts) \<le> max 0 (level t s) + of_int (last (t # ts) - t) * rate / 1000"
proof (induction ts arbitrary: s t)
  case (Cons u us)
  obtain ok s' where tk: "take_at u s = (ok, s')" by (cases "take_at u s")
  from Cons.prems have tu: "t \<le> u" and su: "sorted (u # us)" by simp_all
  have vu: "valid u s" and lu: "level u s \<le> level t s + of_int (u - t) * rate / 1000"
    using refill [OF Cons.prems(1) tu] by simp_all
  have v': "valid u s'" and l': "of_nat (if ok then 1 else 0) + max 0 (level u s') \<le> max 0 (level u s)"
    using granted [OF vu, of s'] refused [OF vu, of s'] tk by (cases ok; force)+
  define A where "A = of_int (last (u # us) - u) * rate / 1000"
  define B where "B = of_int (u - t) * rate / 1000"
  have "(of_int (last (u # us) - t) :: rat) = of_int (last (u # us) - u) + of_int (u - t)" by simp
  then have AB: "of_int (last (t # u # us) - t) * rate / 1000 = A + B"
    by (simp only: A_def B_def distrib_right add_divide_distrib last_ConsR list.simps not_False_eq_True)
  have ih: "of_nat (granted_by take_at s' us) \<le> max 0 (level u s') + A"
    using v' su unfolding A_def by (rule Cons.IH)
  have B: "0 \<le> B" using tu rate_pos by (simp add: B_def)
  have "of_nat (granted_by take_at s (u # us))
      = of_nat (if ok then 1 else 0) + (of_nat (granted_by take_at s' us) :: rat)"
    by (simp add: tk)
  also have "\<dots> \<le> max 0 (level u s) + A" using l' ih by linarith
  also have "\<dots> \<le> max 0 (level t s) + (A + B)" using lu B unfolding B_def [symmetric] by linarith
  finally show ?case unfolding AB .
qed simp

text \<open>No window of time sees more grants than the capacity and the refill over the window.\<close>

lemma window_bound:
  assumes "valid t s" and "sorted (t # ts)" and "0 \<le> cap"
  shows "of_nat (granted_by take_at s ts) \<le> cap + of_int (last (t # ts) - t) * rate / 1000"
  using granted_bound [OF assms(1,2)] level_le_cap [OF assms(1)] assms(3) by linarith

text \<open>After a refusal, waiting until one token is refilled is enough.\<close>

lemma retry_succeeds:
  assumes "valid t s" and "take_at t s = (False, s')" and "1 \<le> cap"
    and wait: "0 \<le> w" "(1 - level t s) * 1000 \<le> of_int w * rate"
  shows "fst (take_at (t + w) s')"
proof -
  have v: "valid t s'" and l: "level t s' = level t s" using refused [OF assms(1,2)] by auto
  have r: "valid (t + w) s'" "level (t + w) s' = min cap (level t s' + of_int w * rate / 1000)"
    using refill [OF v, of "t + w"] wait(1) by simp_all
  have "1 \<le> level (t + w) s'" using r(2) l assms(3) wait(2) by simp
  then show ?thesis using refused [OF r(1)] by (cases "take_at (t + w) s'") fastforce
qed

text \<open>A burst at one moment is granted exactly up to the whole tokens in the bucket.\<close>

lemma burst:
  "valid t s \<Longrightarrow> 0 \<le> level t s \<Longrightarrow>
   granted_by take_at s (replicate k t) = min k (nat \<lfloor>level t s\<rfloor>)"
proof (induction k arbitrary: s)
  case (Suc k)
  obtain ok s' where tk: "take_at t s = (ok, s')" by (cases "take_at t s")
  show ?case
  proof (cases ok)
    case True
    then have g: "valid t s'" "1 \<le> level t s" "level t s' = level t s - 1"
      using granted [OF Suc.prems(1)] tk by auto
    then obtain n where n: "nat \<lfloor>level t s\<rfloor> = Suc n" by (cases "nat \<lfloor>level t s\<rfloor>") simp_all
    have "granted_by take_at s' (replicate k t) = min k (nat \<lfloor>level t s\<rfloor> - 1)"
      using Suc.IH [of s'] g by (simp add: nat_diff_distrib)
    then show ?thesis using tk True by (simp add: n)
  next
    case False
    then have g: "valid t s'" "level t s < 1" "level t s' = level t s"
      using refused [OF Suc.prems(1)] tk by auto
    have "\<lfloor>level t s\<rfloor> \<le> 0" using g(2) by linarith
    then show ?thesis using Suc.IH [of s'] Suc.prems(2) g tk False by simp
  qed
qed simp

end

section \<open>Finite configurations\<close>

text \<open>
  The pure step and the script agree with each other and with the rational formula
  \<open>refilled c r x d\<close>: \<open>x\<close> tokens after \<open>d\<close> milliseconds.
\<close>

definition refilled :: "rat \<Rightarrow> rat \<Rightarrow> rat \<Rightarrow> rat \<Rightarrow> rat" where
  "refilled c r x d = min c (x + d * r / 1000)"

definition rate_of :: "rat \<Rightarrow> rat \<Rightarrow> rate_overrides" where
  "rate_of c r = \<lparr>ov_capacity = Some (Num c), ov_refillPerSecond = Some (Num r)\<rparr>"

definition bucket_ttl :: "rat \<Rightarrow> rat \<Rightarrow> int" where
  "bucket_ttl c r = \<lceil>1000 * c / r\<rceil>"

definition retry_ms :: "rat \<Rightarrow> rat \<Rightarrow> int" where
  "retry_ms r x = \<lceil>(1 - x) * 1000 / r\<rceil>"

lemma normalize_rate_of:
  "0 < c \<Longrightarrow> 0 < r \<Longrightarrow> normalizeRateLimitConfig (rate_of c r) = Inr \<lparr>capacity = Num c, refillPerSecond = Num r\<rparr>"
  by (simp add: normalizeRateLimitConfig_def rate_of_def)

lemma consumeToken_finite:
  assumes "0 < c" and "0 < r"
  shows "consumeToken \<lparr>tokens = Num x, lastRefillAt = Num l\<rparr> (Num n) (rate_of c r) =
    (let y = refilled c r x (max 0 (n - l))
     in if y < 1
        then Inr (\<lparr>t_allowed = False, t_tokens = Num y, retryAfterMs = Num (of_int (retry_ms r y))\<rparr>,
                  \<lparr>tokens = Num y, lastRefillAt = Num n\<rparr>)
        else Inr (\<lparr>t_allowed = True, t_tokens = Num (y - 1), retryAfterMs = Num 0\<rparr>,
                  \<lparr>tokens = Num (y - 1), lastRefillAt = Num n\<rparr>))"
  using assms by (simp add: consumeToken_def normalize_rate_of refilled_def retry_ms_def Let_def)

lemma lua_Num [simp]:
  "lua_max (Num a) (Num b) = Num (max a b)" "lua_min (Num a) (Num b) = Num (min a b)"
  by (auto simp: lua_max_def lua_min_def max_def min_def)

text \<open>The bucket a request finds: the stored one while its key lives, a full one otherwise.\<close>

definition stored_bucket :: "int \<Rightarrow> jsnum redis \<Rightarrow> string \<Rightarrow> jsnum \<Rightarrow> jsnum \<Rightarrow> token_snapshot" where
  "stored_bucket t r key cap now =
     \<lparr>tokens = (case map_of (hgetall t r key) ''tokens'' of None \<Rightarrow> cap | Some x \<Rightarrow> x),
      lastRefillAt = (case map_of (hgetall t r key) ''lastRefillAt'' of None \<Rightarrow> now | Some x \<Rightarrow> x)\<rparr>"

definition bucket_fields :: "token_snapshot \<Rightarrow> (string \<times> jsnum) list" where
  "bucket_fields b = [(''tokens'', tokens b), (''lastRefillAt'', lastRefillAt b)]"

lemma consumeTenantToken_finite:
  fixes sc :: limit_scope
  assumes "0 < c" and "0 < r"
    and b: "stored_bucket t st (tenantRateLimitKey tenant sc) (Num c) (Num n) = \<lparr>tokens = Num x, lastRefillAt = Num l\<rparr>"
  shows "consumeTenantToken t tenant sc (rate_of c r) (Num n) st =
    (let y = refilled c r x (max 0 (n - l)); key = tenantRateLimitKey tenant sc
     in if y < 1
        then (Inr \<lparr>t_allowed = False, t_tokens = reply_integer (Num y), retryAfterMs = Num (of_int (retry_ms r y))\<rparr>,
              pexpire t key (bucket_ttl c r)
                (hset t key (bucket_fields \<lparr>tokens = Num y, lastRefillAt = Num n\<rparr>) st))
        else (Inr \<lparr>t_allowed = True, t_tokens = reply_integer (Num (y - 1)), retryAfterMs = Num 0\<rparr>,
              pexpire t key (bucket_ttl c r)
                (hset t key (bucket_fields \<lparr>tokens = Num (y - 1), lastRefillAt = Num n\<rparr>) st)))"
proof -
  let ?h = "hgetall t st (tenantRateLimitKey tenant sc)"
  have b1: "(case map_of ?h ''tokens'' of None \<Rightarrow> Num c | Some x \<Rightarrow> x) = Num x"
    and b2: "(case map_of ?h ''lastRefillAt'' of None \<Rightarrow> Num n | Some x \<Rightarrow> x) = Num l"
    using b by (simp_all add: stored_bucket_def)
  show ?thesis
    using assms(1,2)
    by (simp add: consumeTenantToken_def normalize_rate_of CONSUME_TOKEN_SCRIPT_def b1 b2 Let_def
        refilled_def retry_ms_def bucket_ttl_def bucket_fields_def not_less)
qed

text \<open>Waiting for the time the refusal names refills one token.\<close>

lemma retry_ms_enough:
  assumes "0 < r" and "y < 1"
  shows "0 \<le> retry_ms r y" and "(1 - y) * 1000 \<le> of_int (retry_ms r y) * r"
proof -
  have "(1 - y) * 1000 / r \<le> of_int (retry_ms r y)" by (simp add: retry_ms_def)
  then show e: "(1 - y) * 1000 \<le> of_int (retry_ms r y) * r" using assms(1) by (simp add: pos_divide_le_eq)
  have "0 < (1 - y) * 1000 / r" using assms by simp
  then show "0 \<le> retry_ms r y" by (simp add: retry_ms_def)
qed

lemma refilled_add:
  assumes "0 < r" and "0 \<le> d" and "0 \<le> e"
  shows "refilled c r (refilled c r x d) e = refilled c r x (d + e)"
proof -
  define A where "A = d * r / 1000"
  define B where "B = e * r / 1000"
  have sum: "(d + e) * r / 1000 = A + B" by (simp add: A_def B_def distrib_right add_divide_distrib)
  have "0 \<le> B" using assms by (simp add: B_def)
  then have "min c (min c (x + A) + B) = min c (x + (A + B))" by (simp add: min_def)
  then show ?thesis unfolding refilled_def sum by (simp only: A_def B_def)
qed

lemma refilled_full:
  assumes "0 < r" and "0 \<le> x" and "1000 * c / r \<le> d"
  shows "refilled c r x d = c"
proof -
  have "c \<le> d * r / 1000" using assms(1,3) by (simp add: field_simps)
  with assms(2) show ?thesis by (simp add: refilled_def)
qed

section \<open>Both implementations keep the contract\<close>

definition js_take :: "rat \<Rightarrow> rat \<Rightarrow> int \<Rightarrow> token_snapshot \<Rightarrow> bool \<times> token_snapshot" where
  "js_take c r now b = (case consumeToken b (Num (of_int now)) (rate_of c r) of
     Inl _ \<Rightarrow> (False, b) | Inr (d, b') \<Rightarrow> (t_allowed d, b'))"

text \<open>A call of a process whose clock agrees with the clock of the server at that moment.\<close>

definition redis_take ::
  "rat \<Rightarrow> rat \<Rightarrow> string \<Rightarrow> limit_scope \<Rightarrow> int \<Rightarrow> jsnum redis \<Rightarrow> bool \<times> jsnum redis" where
  "redis_take c r tenant sc now st =
     (case consumeTenantToken now tenant sc (rate_of c r) (Num (of_int now)) st of
        (Inl _, st') \<Rightarrow> (False, st') | (Inr d, st') \<Rightarrow> (t_allowed d, st'))"

definition js_level :: "rat \<Rightarrow> rat \<Rightarrow> int \<Rightarrow> token_snapshot \<Rightarrow> rat" where
  "js_level c r now b = (case (tokens b, lastRefillAt b) of
     (Num x, Num l) \<Rightarrow> refilled c r x (max 0 (of_int now - l)) | _ \<Rightarrow> 0)"

definition js_valid :: "rat \<Rightarrow> int \<Rightarrow> token_snapshot \<Rightarrow> bool" where
  "js_valid c now b \<longleftrightarrow> (\<exists>x l. b = \<lparr>tokens = Num x, lastRefillAt = Num (of_int l)\<rparr> \<and> 0 \<le> x \<and> l \<le> now)"

definition redis_level :: "rat \<Rightarrow> rat \<Rightarrow> string \<Rightarrow> int \<Rightarrow> jsnum redis \<Rightarrow> rat" where
  "redis_level c r key now st = js_level c r now (stored_bucket now st key (Num c) (Num (of_int now)))"

text \<open>Every stored bucket outlives the time it needs to fill up.\<close>

definition redis_valid :: "rat \<Rightarrow> rat \<Rightarrow> string \<Rightarrow> int \<Rightarrow> jsnum redis \<Rightarrow> bool" where
  "redis_valid c r key now st \<longleftrightarrow>
     (st key = None \<or> (\<exists>e x l z. st key = Some e \<and> expireAt e = Some z
        \<and> map_of (hash_fields e) ''tokens'' = Some (Num x)
        \<and> map_of (hash_fields e) ''lastRefillAt'' = Some (Num (of_int l))
        \<and> 0 \<le> x \<and> l \<le> now \<and> of_int l + 1000 * c / r \<le> of_int z))"

locale finite_limit =
  fixes c r :: rat
  assumes c_pos: "0 < c" and r_pos: "0 < r"
begin

lemma js_level_plain:
  "js_level c r u \<lparr>tokens = Num x, lastRefillAt = Num (of_int l)\<rparr> = refilled c r x (max 0 (of_int (u - l)))"
  by (simp add: js_level_def)

lemma js_take_plain:
  "js_take c r t \<lparr>tokens = Num x, lastRefillAt = Num (of_int l)\<rparr> =
    (let y = refilled c r x (max 0 (of_int (t - l)))
     in if y < 1 then (False, \<lparr>tokens = Num y, lastRefillAt = Num (of_int t)\<rparr>)
        else (True, \<lparr>tokens = Num (y - 1), lastRefillAt = Num (of_int t)\<rparr>))"
  using c_pos r_pos by (simp add: js_take_def consumeToken_finite Let_def)

lemma refilled_nonneg: "0 \<le> x \<Longrightarrow> 0 \<le> d \<Longrightarrow> 0 \<le> refilled c r x d"
  using c_pos r_pos by (simp add: refilled_def)

lemma refilled_le: "refilled c r x d \<le> c"
  by (simp add: refilled_def)

lemma refilled_0: "x \<le> c \<Longrightarrow> refilled c r x 0 = x"
  by (simp add: refilled_def)

lemma js_level_refill:
  assumes "js_valid c t b" and "t \<le> u"
  shows "js_valid c u b" and "js_level c r u b = min c (js_level c r t b + of_int (u - t) * r / 1000)"
proof -
  from assms(1) obtain x l where b: "b = \<lparr>tokens = Num x, lastRefillAt = Num (of_int l)\<rparr>" "0 \<le> x" "l \<le> t"
    by (auto simp: js_valid_def)
  show "js_valid c u b" using b assms(2) by (auto simp: js_valid_def)
  have "refilled c r (refilled c r x (of_int (t - l))) (of_int (u - t)) = refilled c r x (of_int (t - l) + of_int (u - t))"
    using r_pos b assms(2) by (intro refilled_add) simp_all
  then show "js_level c r u b = min c (js_level c r t b + of_int (u - t) * r / 1000)"
    using b assms(2) by (simp add: js_level_plain refilled_def)
qed

end

sublocale finite_limit \<subseteq> js: token_bucket "js_take c r" "js_level c r" "js_valid c" c r
proof unfold_locales
  show "0 < r" by (rule r_pos)
next
  fix t b assume "js_valid c t b"
  then show "js_level c r t b \<le> c" by (auto simp: js_valid_def js_level_plain refilled_le)
next
  fix t b b' assume v: "js_valid c t b" and tk: "js_take c r t b = (True, b')"
  from v obtain x l where b: "b = \<lparr>tokens = Num x, lastRefillAt = Num (of_int l)\<rparr>" "0 \<le> x" "l \<le> t"
    by (auto simp: js_valid_def)
  let ?y = "refilled c r x (max 0 (of_int (t - l)))"
  have y: "1 \<le> ?y" "b' = \<lparr>tokens = Num (?y - 1), lastRefillAt = Num (of_int t)\<rparr>"
    using tk by (simp_all add: b js_take_plain Let_def not_less split: if_splits)
  have "?y - 1 \<le> c" using refilled_le [of x "max 0 (of_int (t - l))"] by simp
  then show "js_valid c t b' \<and> 1 \<le> js_level c r t b \<and> js_level c r t b' = js_level c r t b - 1"
    using y by (auto simp: b js_valid_def js_level_plain refilled_0)
next
  fix t b b' assume v: "js_valid c t b" and tk: "js_take c r t b = (False, b')"
  from v obtain x l where b: "b = \<lparr>tokens = Num x, lastRefillAt = Num (of_int l)\<rparr>" "0 \<le> x" "l \<le> t"
    by (auto simp: js_valid_def)
  let ?y = "refilled c r x (max 0 (of_int (t - l)))"
  have y: "?y < 1" "b' = \<lparr>tokens = Num ?y, lastRefillAt = Num (of_int t)\<rparr>"
    using tk by (simp_all add: b js_take_plain Let_def split: if_splits)
  have "0 \<le> ?y" using b(2) by (intro refilled_nonneg) simp_all
  then show "js_valid c t b' \<and> js_level c r t b < 1 \<and> js_level c r t b' = js_level c r t b"
    using y by (auto simp: b js_valid_def js_level_plain refilled_0 refilled_le)
next
  fix t u b assume "js_valid c t b" and "t \<le> u"
  then show "js_valid c u b \<and> js_level c r u b = min c (js_level c r t b + of_int (u - t) * r / 1000)"
    using js_level_refill by blast
qed

context finite_limit begin

lemma redis_level_absent:
  "redis_live now st key = None \<Longrightarrow> redis_level c r key now st = c"
  using c_pos r_pos
  by (simp add: redis_level_def stored_bucket_def hgetall_def js_level_def refilled_def)

lemma redis_level_stored:
  assumes "st key = Some e" and "expireAt e = Some z" and "now < z"
    and "map_of (hash_fields e) ''tokens'' = Some (Num x)"
    and "map_of (hash_fields e) ''lastRefillAt'' = Some (Num (of_int l))"
  shows "redis_level c r key now st = refilled c r x (max 0 (of_int (now - l)))"
    and "stored_bucket now st key (Num c) (Num (of_int now)) = \<lparr>tokens = Num x, lastRefillAt = Num (of_int l)\<rparr>"
  using assms
  by (simp_all add: redis_level_def stored_bucket_def hgetall_def redis_live_def js_level_plain)

lemma redis_valid_refill:
  assumes v: "redis_valid c r key t st" and "t \<le> u"
  shows "redis_valid c r key u st
    \<and> redis_level c r key u st = min c (redis_level c r key t st + of_int (u - t) * r / 1000)"
proof (cases "st key")
  case None
  then have "redis_live v st key = None" for v by (simp add: redis_live_def)
  with None assms(2) r_pos show ?thesis by (simp add: redis_level_absent redis_valid_def)
next
  case (Some e)
  then obtain x l z where e: "expireAt e = Some z" "map_of (hash_fields e) ''tokens'' = Some (Num x)"
      "map_of (hash_fields e) ''lastRefillAt'' = Some (Num (of_int l))" "0 \<le> x" "l \<le> t"
      "of_int l + 1000 * c / r \<le> of_int z"
    using v by (auto simp: redis_valid_def)
  have valid: "redis_valid c r key u st" using Some e assms(2) by (auto simp: redis_valid_def)
  have lev: "redis_level c r key w st = refilled c r x (of_int (w - l))" if "t \<le> w" for w
  proof (cases "w < z")
    case True
    then show ?thesis using redis_level_stored(1) [of st key e z w x l] Some e True that by simp
  next
    case False
    then have "(of_int z :: rat) \<le> of_int w" by simp
    then have "1000 * c / r \<le> of_int (w - l)" using e(6) by simp
    moreover have "redis_live w st key = None" using Some e(1) False by (simp add: redis_live_def)
    ultimately show ?thesis
      using redis_level_absent refilled_full [OF r_pos e(4)] by simp
  qed
  have "refilled c r (refilled c r x (of_int (t - l))) (of_int (u - t)) = refilled c r x (of_int (u - l))"
    using refilled_add [OF r_pos, of "of_int (t - l)" "of_int (u - t)" c x] e(5) assms(2) by simp
  then have "redis_level c r key u st = min c (redis_level c r key t st + of_int (u - t) * r / 1000)"
    using assms(2) by (simp add: lev refilled_def)
  with valid show ?thesis ..
qed

text \<open>One call of the script, in terms of the level it finds.\<close>

lemma redis_bucket:
  assumes v: "redis_valid c r key t st"
  shows "\<exists>x l. stored_bucket t st key (Num c) (Num (of_int t)) = \<lparr>tokens = Num x, lastRefillAt = Num (of_int l)\<rparr>
    \<and> 0 \<le> x \<and> redis_level c r key t st = refilled c r x (max 0 (of_int (t - l)))"
proof (cases "redis_live t st key")
  case None
  then have "stored_bucket t st key (Num c) (Num (of_int t)) = \<lparr>tokens = Num c, lastRefillAt = Num (of_int t)\<rparr>"
    by (simp add: stored_bucket_def hgetall_def)
  with None show ?thesis using c_pos
    by (intro exI [of _ c] exI [of _ t]) (simp add: redis_level_absent refilled_0)
next
  case (Some e')
  then obtain e z where e: "st key = Some e" "expireAt e = Some z" "t < z"
    using v by (auto simp: redis_live_def redis_valid_def split: option.splits if_splits)
  with v obtain x l where "map_of (hash_fields e) ''tokens'' = Some (Num x)"
      "map_of (hash_fields e) ''lastRefillAt'' = Some (Num (of_int l))" "0 \<le> x"
    by (auto simp: redis_valid_def)
  with redis_level_stored [of st key e z t x l] e show ?thesis by blast
qed

lemma redis_take_step:
  assumes v: "redis_valid c r (tenantRateLimitKey tenant sc) t st"
  shows "redis_take c r tenant sc t st =
    (let key = tenantRateLimitKey tenant sc; y = redis_level c r key t st
     in if y < 1
        then (False, pexpire t key (bucket_ttl c r)
               (hset t key (bucket_fields \<lparr>tokens = Num y, lastRefillAt = Num (of_int t)\<rparr>) st))
        else (True, pexpire t key (bucket_ttl c r)
               (hset t key (bucket_fields \<lparr>tokens = Num (y - 1), lastRefillAt = Num (of_int t)\<rparr>) st)))
    \<and> 0 \<le> redis_level c r (tenantRateLimitKey tenant sc) t st"
proof -
  obtain x l where b: "stored_bucket t st (tenantRateLimitKey tenant sc) (Num c) (Num (of_int t))
      = \<lparr>tokens = Num x, lastRefillAt = Num (of_int l)\<rparr>"
    and x: "0 \<le> x"
    and lev: "redis_level c r (tenantRateLimitKey tenant sc) t st = refilled c r x (max 0 (of_int (t - l)))"
    using redis_bucket [OF v] by blast
  have "0 \<le> redis_level c r (tenantRateLimitKey tenant sc) t st"
    unfolding lev using x by (intro refilled_nonneg) simp_all
  then show ?thesis
    using consumeTenantToken_finite [OF c_pos r_pos b] by (simp add: redis_take_def lev Let_def)
qed

lemma call_result:
  assumes v: "redis_valid c r (tenantRateLimitKey tenant sc) t st"
  shows "\<exists>d st'. consumeTenantToken t tenant sc (rate_of c r) (Num (of_int t)) st = (Inr d, st')
    \<and> (t_allowed d \<longleftrightarrow> 1 \<le> redis_level c r (tenantRateLimitKey tenant sc) t st)
    \<and> (\<not> t_allowed d \<longrightarrow>
        retryAfterMs d = Num (of_int (retry_ms r (redis_level c r (tenantRateLimitKey tenant sc) t st))))"
proof -
  let ?key = "tenantRateLimitKey tenant sc"
  obtain x l where b: "stored_bucket t st ?key (Num c) (Num (of_int t)) = \<lparr>tokens = Num x, lastRefillAt = Num (of_int l)\<rparr>"
    and lev: "redis_level c r ?key t st = refilled c r x (max 0 (of_int (t - l)))"
    using redis_bucket [OF v] by blast
  show ?thesis
    using consumeTenantToken_finite [OF c_pos r_pos b] by (simp add: lev Let_def not_less)
qed

lemma refused_retry:
  assumes "redis_valid c r (tenantRateLimitKey tenant sc) t st"
    and "consumeTenantToken t tenant sc (rate_of c r) (Num (of_int t)) st = (Inr d, st')" and "\<not> t_allowed d"
  shows "retryAfterMs d = Num (of_int (retry_ms r (redis_level c r (tenantRateLimitKey tenant sc) t st)))"
  using call_result [OF assms(1)] assms(2,3) by auto

lemma redis_after_write:
  assumes "0 \<le> y" and "y \<le> c" and ttl: "0 < bucket_ttl c r"
    and st'_def: "st' = pexpire t key (bucket_ttl c r)
    (hset t key (bucket_fields \<lparr>tokens = Num y, lastRefillAt = Num (of_int t)\<rparr>) st)"
  shows "redis_valid c r key t st' \<and> redis_level c r key t st' = y"
proof -
  let ?e = "\<lparr>hash_fields = update_fields (bucket_fields \<lparr>tokens = Num y, lastRefillAt = Num (of_int t)\<rparr>) (hgetall t st key),
    expireAt = Some (t + bucket_ttl c r)\<rparr>"
  have live: "redis_live t st' key = Some ?e"
    using ttl by (simp add: st'_def redis_live_hset_pexpire)
  then have st': "st' key = Some ?e" by (auto simp: redis_live_def split: option.splits if_splits)
  have f: "map_of (hash_fields ?e) ''tokens'' = Some (Num y)"
    "map_of (hash_fields ?e) ''lastRefillAt'' = Some (Num (of_int t))"
    by (simp_all add: update_fields_lookup bucket_fields_def)
  have "1000 * c / r \<le> of_int (bucket_ttl c r)" by (simp add: bucket_ttl_def)
  then have "redis_valid c r key t st'"
    using st' f assms(1) by (auto simp: redis_valid_def)
  moreover have "redis_level c r key t st' = y"
    using redis_level_stored(1) [of st' key ?e _ t y t] st' f ttl assms(2) by (simp add: refilled_0)
  ultimately show ?thesis ..
qed

lemma bucket_ttl_pos: "0 < bucket_ttl c r"
  using c_pos r_pos by (simp add: bucket_ttl_def)

lemma redis_level_le: "redis_valid c r key t st \<Longrightarrow> redis_level c r key t st \<le> c"
  using redis_valid_refill [of key t st t] by simp

end

sublocale finite_limit \<subseteq> redis: token_bucket "redis_take c r tenant sc"
  "redis_level c r (tenantRateLimitKey tenant sc)" "redis_valid c r (tenantRateLimitKey tenant sc)" c r
  for tenant sc
proof unfold_locales
  let ?key = "tenantRateLimitKey tenant sc"
  show "0 < r" by (rule r_pos)
  fix t u st st'
  assume v: "redis_valid c r ?key t st"
  let ?y = "redis_level c r ?key t st"
  have le: "?y \<le> c" using v by (rule redis_level_le)
  then show "?y \<le> c" .
  let ?w = "\<lambda>y. pexpire t ?key (bucket_ttl c r)
    (hset t ?key (bucket_fields \<lparr>tokens = Num y, lastRefillAt = Num (of_int t)\<rparr>) st)"
  have eq: "redis_take c r tenant sc t st = (if ?y < 1 then (False, ?w ?y) else (True, ?w (?y - 1)))"
    and nonneg: "0 \<le> ?y"
    using redis_take_step [OF v] by (simp_all only: Let_def)
  have w: "redis_valid c r ?key t (?w y) \<and> redis_level c r ?key t (?w y) = y" if "0 \<le> y" "y \<le> c" for y
    using redis_after_write [OF that bucket_ttl_pos refl] .
  show "redis_valid c r ?key t st' \<and> 1 \<le> ?y \<and> redis_level c r ?key t st' = ?y - 1"
    if "redis_take c r tenant sc t st = (True, st')"
  proof -
    from that have y: "1 \<le> ?y" and st': "st' = ?w (?y - 1)" unfolding eq by (auto split: if_splits)
    from y le have "0 \<le> ?y - 1" "?y - 1 \<le> c" by linarith+
    from w [OF this] y show ?thesis unfolding st' by blast
  qed
  show "redis_valid c r ?key t st' \<and> ?y < 1 \<and> redis_level c r ?key t st' = ?y"
    if "redis_take c r tenant sc t st = (False, st')"
  proof -
    from that have y: "?y < 1" and st': "st' = ?w ?y" unfolding eq by (auto split: if_splits)
    from w [OF nonneg le] y show ?thesis unfolding st' by blast
  qed
  show "redis_valid c r ?key u st \<and> redis_level c r ?key u st = min c (?y + of_int (u - t) * r / 1000)"
    if "t \<le> u"
    using v that by (rule redis_valid_refill)
qed

context finite_limit begin

lemma redis_contract:
  "token_bucket (redis_take c r tenant sc) (redis_level c r (tenantRateLimitKey tenant sc))
     (redis_valid c r (tenantRateLimitKey tenant sc)) c r"
  by (rule redis.token_bucket_axioms)

end

lemmas redis_window_bound = token_bucket.window_bound [OF finite_limit.redis_contract]
  and redis_retry_succeeds = token_bucket.retry_succeeds [OF finite_limit.redis_contract]
  and redis_granted = token_bucket.granted [OF finite_limit.redis_contract]
  and redis_refused = token_bucket.refused [OF finite_limit.redis_contract]

interpretation default_limit: finite_limit 10 10
  by unfold_locales simp_all

section \<open>Properties\<close>

text \<open>C26: the Lua script run in Redis is the pure function \<open>consumeToken\<close> on the bucket stored under
  the tenant's key, or on a full bucket when the key is absent or expired.  The decision is the
  same but for the token count, which Redis cuts to an integer; the new bucket is what the script
  stores, with a time to live renewed to the time a bucket needs to fill.\<close>

theorem script_refines_consumeToken:
  assumes "0 < c" and "0 < r"
    and "stored_bucket t st (tenantRateLimitKey tenant sc) (Num c) (Num n) = \<lparr>tokens = Num x, lastRefillAt = Num l\<rparr>"
  shows "\<exists>d b'. consumeToken \<lparr>tokens = Num x, lastRefillAt = Num l\<rparr> (Num n) (rate_of c r) = Inr (d, b')
    \<and> consumeTenantToken t tenant sc (rate_of c r) (Num n) st =
       (Inr (d\<lparr>t_tokens := reply_integer (t_tokens d)\<rparr>),
        pexpire t (tenantRateLimitKey tenant sc) \<lceil>1000 * c / r\<rceil>
          (hset t (tenantRateLimitKey tenant sc) (bucket_fields b') st))"
  using consumeTenantToken_finite [OF assms]
  by (simp add: consumeToken_finite [OF assms(1,2)] Let_def bucket_ttl_def)

theorem script_refines_consumeToken_witness:
  "\<exists>d b'. consumeToken \<lparr>tokens = Num 10, lastRefillAt = Num 500\<rparr> (Num 500) (rate_of 10 10) = Inr (d, b')
    \<and> fst (consumeTenantToken 500 ''acme'' Ingestion (rate_of 10 10) (Num 500) (\<lambda>_. None)) =
       Inr (d\<lparr>t_tokens := reply_integer (t_tokens d)\<rparr>)"
proof -
  have "stored_bucket 500 (\<lambda>_. None) (tenantRateLimitKey ''acme'' Ingestion) (Num 10) (Num 500)
      = \<lparr>tokens = Num 10, lastRefillAt = Num 500\<rparr>"
    by (simp add: stored_bucket_def hgetall_def redis_live_def)
  from script_refines_consumeToken [OF _ _ this, of 10] show ?thesis by fastforce
qed

text \<open>C27: the Redis bucket of a tenant never grants more than its capacity plus the refill over a
  window, for requests of any number of processes that share the bucket and any expiry of its key in between,
  provided the clocks of the processes agree with that of the server and the requests reach it in the order of
  their times.\<close>

theorem bucket_window_bound:
  assumes "0 < c" and "0 < r" and "redis_valid c r (tenantRateLimitKey tenant sc) t st"
    and "sorted (t # ts)"
  shows "of_nat (granted_by (redis_take c r tenant sc) st ts) \<le> c + of_int (last (t # ts) - t) * r / 1000"
proof -
  have "finite_limit c r" using assms(1,2) by (rule finite_limit.intro)
  from redis_window_bound [OF this assms(3,4)] assms(1) show ?thesis by simp
qed

text \<open>Without agreeing clocks the bound fails: the script stores the caller's clock as the last refill, so a
  process whose clock is a second behind moves it back, and the next caller is credited with that second again:
  a bucket of one token grants two at one moment.\<close>

lemma skewed_clocks_refill_twice:
  "let take = (\<lambda>clock. consumeTenantToken 1000 ''t'' Delivery (rate_of 1 1) (Num clock));
       (first, st1) = take 1000 (\<lambda>_. None); (second, st2) = take 0 st1; (third, st3) = take 1000 st2
   in map (map_sum id t_allowed) [first, second, third] = [Inr True, Inr False, Inr True]"
  by code_simp

theorem bucket_window_bound_witness:
  "of_nat (granted_by (redis_take 10 10 ''acme'' Delivery) (\<lambda>_. None) (replicate 25 0 @ [100, 5000]))
     \<le> (60 :: rat)"
  using bucket_window_bound [of 10 10 "''acme''" Delivery 0 "\<lambda>_. None" "replicate 25 0 @ [100, 5000]"]
  by (simp add: redis_valid_def sorted_append)

text \<open>A refusal tells the caller a sufficient wait.  If no other request takes a token of this
  bucket in between, the request repeated after \<open>retryAfterMs\<close> is granted, provided the capacity
  holds a whole token.\<close>

theorem retry_after_is_sufficient:
  assumes "1 \<le> c" and "0 < r" and "redis_valid c r (tenantRateLimitKey tenant sc) t st"
    and "consumeTenantToken t tenant sc (rate_of c r) (Num (of_int t)) st = (Inr d, st')"
    and "\<not> t_allowed d"
  shows "\<exists>w. retryAfterMs d = Num (of_int w) \<and> 0 \<le> w \<and> fst (redis_take c r tenant sc (t + w) st')"
proof -
  let ?y = "redis_level c r (tenantRateLimitKey tenant sc) t st"
  have fl: "finite_limit c r" using assms(1,2) by (intro finite_limit.intro) simp_all
  have tk: "redis_take c r tenant sc t st = (False, st')"
    using assms(4,5) by (simp add: redis_take_def)
  then have y: "?y < 1" using redis_refused [OF fl assms(3)] by blast
  have "retryAfterMs d = Num (of_int (retry_ms r ?y))"
    using finite_limit.refused_retry [OF fl assms(3) assms(4,5)] .
  moreover have "fst (redis_take c r tenant sc (t + retry_ms r ?y) st')"
    using redis_retry_succeeds [OF fl assms(3) tk assms(1)] retry_ms_enough [OF assms(2) y]
    by blast
  ultimately show ?thesis using retry_ms_enough(1) [OF assms(2) y] by blast
qed

theorem retry_after_is_sufficient_witness:
  "let st = snd (redis_take 1 10 ''acme'' Delivery 0 (\<lambda>_. None));
       d = projr (fst (consumeTenantToken 0 ''acme'' Delivery (rate_of 1 10) (Num (of_int 0)) st))
   in \<not> t_allowed d \<and> (\<exists>w. retryAfterMs d = Num (of_int w) \<and>
     fst (redis_take 1 10 ''acme'' Delivery w
       (snd (consumeTenantToken 0 ''acme'' Delivery (rate_of 1 10) (Num (of_int 0)) st))))"
proof -
  let ?key = "tenantRateLimitKey ''acme'' Delivery"
  let ?st = "snd (redis_take 1 10 ''acme'' Delivery 0 (\<lambda>_. None))"
  let ?call = "consumeTenantToken 0 ''acme'' Delivery (rate_of 1 10) (Num (of_int 0)) ?st"
  have fl: "finite_limit 1 10" by (rule finite_limit.intro) simp_all
  have v0: "redis_valid 1 10 ?key 0 (\<lambda>_. None)" by (simp add: redis_valid_def)
  have l0: "redis_level 1 10 ?key 0 (\<lambda>_. None) = 1"
    using finite_limit.redis_level_absent [OF fl] by (simp add: redis_live_def)
  obtain ok where "redis_take 1 10 ''acme'' Delivery 0 (\<lambda>_. None) = (ok, ?st)" by (metis surj_pair snd_conv)
  then have v1: "redis_valid 1 10 ?key 0 ?st" and l1: "redis_level 1 10 ?key 0 ?st = 0"
    using redis_granted [OF fl v0, of ?st] redis_refused [OF fl v0, of ?st] l0
    by (cases ok; simp)+
  obtain d st2 where call: "?call = (Inr d, st2)" and na: "\<not> t_allowed d"
    using finite_limit.call_result [OF fl v1] l1 by auto
  from retry_after_is_sufficient [OF _ _ v1 call na] call na show ?thesis by auto
qed

text \<open>The buckets are isolated.  A request of one tenant in one scope changes no bucket of
  another tenant and no bucket of the same tenant in the other scope, whatever the configuration
  and the clock reading.\<close>

theorem buckets_are_isolated:
  assumes "(tenant', sc') \<noteq> (tenant, sc)"
  shows "snd (consumeTenantToken t tenant sc ov now st) (tenantRateLimitKey tenant' sc') =
    st (tenantRateLimitKey tenant' sc')"
proof -
  have k: "tenantRateLimitKey tenant' sc' \<noteq> tenantRateLimitKey tenant sc"
    using assms by (auto simp: tenantRateLimitKey_inject)
  then show ?thesis
    by (simp add: consumeTenantToken_def CONSUME_TOKEN_SCRIPT_def Let_def pexpire_other hset_other
        split: sum.splits jsnum.splits)
qed

theorem buckets_are_isolated_witness:
  "snd (consumeTenantToken 7 ''a'' Ingestion (rate_of 5 5) (Num 7) (\<lambda>_. None)) (tenantRateLimitKey ''a'' Delivery)
   = None"
  using buckets_are_isolated [of "''a''" Delivery "''a''" Ingestion] by simp

text \<open>The range check of the configuration lets \<open>NaN\<close> through, which is what
  \<open>Number(..)\<close> makes of a malformed environment variable.  With such a capacity every request is
  rejected with an error of the script instead of the message about the configuration.\<close>

theorem nan_capacity_is_accepted:
  assumes "0 < r"
  shows "normalizeRateLimitConfig \<lparr>ov_capacity = Some NaN, ov_refillPerSecond = Some (Num r)\<rparr>
      = Inr \<lparr>capacity = NaN, refillPerSecond = Num r\<rparr>
    \<and> fst (consumeTenantToken t tenant sc \<lparr>ov_capacity = Some NaN, ov_refillPerSecond = Some (Num r)\<rparr> now st)
      = Inl (Error ''ERR value is not an integer or out of range'')"
  using assms
  by (simp add: normalizeRateLimitConfig_def consumeTenantToken_def CONSUME_TOKEN_SCRIPT_def Let_def)

theorem nan_capacity_is_accepted_witness:
  "fst (consumeTenantToken 0 ''a'' Ingestion \<lparr>ov_capacity = Some NaN, ov_refillPerSecond = Some (Num 10)\<rparr> (Num 0)
     (\<lambda>_. None)) = Inl (Error ''ERR value is not an integer or out of range'')"
  using nan_capacity_is_accepted [of 10] by simp

end
