(* ===== verification/Json.thy ===== *)
theory Json
  imports JsNumber
begin

text \<open>
  JSON text, as \<open>JSON.stringify\<close> prints it and \<open>JSON.parse\<close> reads it.  The publisher, the worker and
  the archive exchange values as JSON text, so both directions are functions here and the round
  trip is a theorem.

  A number is a \<open>jsnum\<close>; its text is that of \<open>String(number)\<close>, with the limits stated in the theory
  of numbers.  An object is the list of its members in creation order; the reordering JavaScript
  gives to names that are array indices is not modelled.  Text is over the code units below 256: an
  escape for a later code unit is refused by this parser.
\<close>

datatype json =
  JNull
| JBool bool
| JNum jsnum
| JStr string
| JArr "json list"
| JObj "(string \<times> json) list"

section \<open>Printing\<close>

definition hex_digit :: "nat \<Rightarrow> char" where
  "hex_digit d = (if d < 10 then char_of (48 + d) else char_of (87 + d))"

definition escape_char :: "char \<Rightarrow> string" where
  "escape_char c =
     (let k = (of_char c :: nat) in
      if k = 34 then [CHR 0x5C, CHR 0x22]
      else if k = 92 then [CHR 0x5C, CHR 0x5C]
      else if k = 8 then [CHR 0x5C, CHR ''b'']
      else if k = 9 then [CHR 0x5C, CHR ''t'']
      else if k = 10 then [CHR 0x5C, CHR ''n'']
      else if k = 12 then [CHR 0x5C, CHR ''f'']
      else if k = 13 then [CHR 0x5C, CHR ''r'']
      else if k < 32 then [CHR 0x5C, CHR ''u'', CHR ''0'', CHR ''0'', hex_digit (k div 16), hex_digit (k mod 16)]
      else [c])"

definition quote :: "string \<Rightarrow> string" where
  "quote s = CHR 0x22 # concat (map escape_char s) @ [CHR 0x22]"

fun comma_separated :: "string list \<Rightarrow> string" where
  "comma_separated [] = []"
| "comma_separated [s] = s"
| "comma_separated (s # ss) = s @ '','' @ comma_separated ss"

fun stringify :: "json \<Rightarrow> string" where
  "stringify JNull = ''null''"
| "stringify (JBool b) = (if b then ''true'' else ''false'')"
| "stringify (JNum n) = (if js_isFinite n then js_String n else ''null'')"
| "stringify (JStr s) = quote s"
| "stringify (JArr vs) = ''['' @ comma_separated (map stringify vs) @ '']''"
| "stringify (JObj ms) =
     ''{'' @ comma_separated (map (\<lambda>(k, v). quote k @ '':'' @ stringify v) ms) @ ''}''"

section \<open>Reading\<close>

definition json_space :: "char \<Rightarrow> bool" where
  "json_space c \<longleftrightarrow> (of_char c :: nat) \<in> {9, 10, 13, 32}"

definition skip_space :: "string \<Rightarrow> string" where
  "skip_space s = dropWhile json_space s"

definition hex_value :: "char \<Rightarrow> nat option" where
  "hex_value c =
     (let k = (of_char c :: nat) in
      if 48 \<le> k \<and> k \<le> 57 then Some (k - 48)
      else if 97 \<le> k \<and> k \<le> 102 then Some (k - 87)
      else if 65 \<le> k \<and> k \<le> 70 then Some (k - 55) else None)"

definition unescape_char :: "char \<Rightarrow> char option" where
  "unescape_char c =
     (let k = (of_char c :: nat) in
      if k = 34 \<or> k = 92 \<or> k = 47 then Some c
      else if k = 98 then Some (char_of (8 :: nat))
      else if k = 102 then Some (char_of (12 :: nat))
      else if k = 110 then Some (char_of (10 :: nat))
      else if k = 114 then Some (char_of (13 :: nat))
      else if k = 116 then Some (char_of (9 :: nat)) else None)"

definition hex4 :: "char \<Rightarrow> char \<Rightarrow> char \<Rightarrow> char \<Rightarrow> char option" where
  "hex4 a b c d =
     (case (hex_value a, hex_value b, hex_value c, hex_value d) of
        (Some w, Some x, Some y, Some z) \<Rightarrow>
          if w = 0 \<and> x = 0 then Some (char_of (16 * y + z)) else None
      | _ \<Rightarrow> None)"

fun parse_string :: "string \<Rightarrow> (string \<times> string) option" where
  "parse_string [] = None"
| "parse_string (c # cs) =
     (if (of_char c :: nat) = 34 then Some ([], cs)
      else if (of_char c :: nat) = 92 then
        (case cs of
           [] \<Rightarrow> None
         | e # r \<Rightarrow>
             if (of_char e :: nat) = 117 then
               (case r of
                  p # q # x # y # r' \<Rightarrow>
                    (case hex4 p q x y of None \<Rightarrow> None | Some d \<Rightarrow> map_option (apfst ((#) d)) (parse_string r'))
                | _ \<Rightarrow> None)
             else (case unescape_char e of None \<Rightarrow> None | Some d \<Rightarrow> map_option (apfst ((#) d)) (parse_string r)))
      else if (of_char c :: nat) < 32 then None
      else map_option (apfst ((#) c)) (parse_string cs))"

definition number_char :: "char \<Rightarrow> bool" where
  "number_char c \<longleftrightarrow> is_digit c \<or> c \<in> {CHR ''-'', CHR ''+'', CHR ''.'', CHR ''e'', CHR ''E''}"

definition skip_fraction :: "string \<Rightarrow> string option" where
  "skip_fraction s =
     (case s of [] \<Rightarrow> Some []
      | c # r \<Rightarrow> if c \<noteq> CHR ''.'' then Some s
                 else if takeWhile is_digit r = [] then None else Some (dropWhile is_digit r))"

definition skip_exponent :: "string \<Rightarrow> string option" where
  "skip_exponent s =
     (case s of [] \<Rightarrow> Some []
      | c # r \<Rightarrow> if c \<notin> {CHR ''e'', CHR ''E''} then Some s
                 else let r' = (case r of d # r' \<Rightarrow> if d \<in> {CHR ''+'', CHR ''-''} then r' else r | [] \<Rightarrow> [])
                      in if takeWhile is_digit r' = [] then None else Some (dropWhile is_digit r'))"

definition number_text :: "string \<Rightarrow> bool" where
  "number_text t =
     (let u = (case t of c # r \<Rightarrow> if c = CHR ''-'' then r else t | [] \<Rightarrow> []);
          i = takeWhile is_digit u
      in i \<noteq> [] \<and> (hd i = CHR ''0'' \<longrightarrow> length i = 1)
         \<and> (case skip_fraction (dropWhile is_digit u) of None \<Rightarrow> False
            | Some r \<Rightarrow> skip_exponent r = Some []))"

definition parse_number :: "string \<Rightarrow> (json \<times> string) option" where
  "parse_number s =
     (let t = takeWhile number_char s
      in if number_text t then Some (JNum (js_Number t), dropWhile number_char s) else None)"

definition literal :: "string \<Rightarrow> json \<Rightarrow> string \<Rightarrow> (json \<times> string) option" where
  "literal word v s =
     (if take (length word) s = word then Some (v, drop (length word) s) else None)"

text \<open>The mutual recursion of values, elements and members runs on fuel.\<close>

fun parse_value :: "nat \<Rightarrow> string \<Rightarrow> (json \<times> string) option"
  and parse_elements :: "nat \<Rightarrow> string \<Rightarrow> (json list \<times> string) option"
  and parse_members :: "nat \<Rightarrow> (string \<times> json) list \<Rightarrow> string \<Rightarrow> ((string \<times> json) list \<times> string) option" where
  "parse_value 0 s = None"
| "parse_value (Suc n) s =
     (case skip_space s of
        [] \<Rightarrow> None
      | c # cs \<Rightarrow>
          if c = CHR 0x22 then map_option (apfst JStr) (parse_string cs)
          else if c = CHR ''['' then
            (if take 1 (skip_space cs) = '']'' then Some (JArr [], drop 1 (skip_space cs))
             else map_option (apfst JArr) (parse_elements n cs))
          else if c = CHR ''{'' then
            (if take 1 (skip_space cs) = ''}'' then Some (JObj [], drop 1 (skip_space cs))
             else map_option (apfst JObj) (parse_members n [] cs))
          else if c = CHR ''n'' then literal ''null'' JNull (c # cs)
          else if c = CHR ''t'' then literal ''true'' (JBool True) (c # cs)
          else if c = CHR ''f'' then literal ''false'' (JBool False) (c # cs)
          else parse_number (c # cs))"
| "parse_elements 0 s = None"
| "parse_elements (Suc n) s =
     (case parse_value n s of
        None \<Rightarrow> None
      | Some (v, r) \<Rightarrow>
          (case skip_space r of
             [] \<Rightarrow> None
           | c # r' \<Rightarrow>
               if c = CHR '','' then map_option (apfst ((#) v)) (parse_elements n r')
               else if c = CHR '']'' then Some ([v], r') else None))"
| "parse_members 0 ms s = None"
| "parse_members (Suc n) ms s =
     (case skip_space s of
        [] \<Rightarrow> None
      | q # cs \<Rightarrow>
          if q \<noteq> CHR 0x22 then None
          else (case parse_string cs of
             None \<Rightarrow> None
           | Some (k, r) \<Rightarrow>
               (case skip_space r of
                  [] \<Rightarrow> None
                | d # r1 \<Rightarrow>
                    if d \<noteq> CHR '':'' then None
                    else (case parse_value n r1 of
                       None \<Rightarrow> None
                     | Some (v, r2) \<Rightarrow>
                         (case skip_space r2 of
                            [] \<Rightarrow> None
                          | c # r3 \<Rightarrow>
                              if c = CHR '','' then parse_members n (AList.update k v ms) r3
                              else if c = CHR ''}'' then Some (AList.update k v ms, r3) else None)))))"

definition json_parse :: "string \<Rightarrow> json option" where
  "json_parse s =
     (case parse_value (2 * length s + 2) s of
        None \<Rightarrow> None
      | Some (v, r) \<Rightarrow> if skip_space r = [] then Some v else None)"

declare parse_string.simps [simp del]

section \<open>Reading what was printed\<close>

lemma of_char_char_of [simp]: "k < 256 \<Longrightarrow> (of_char (char_of k) :: nat) = k" for k :: nat
  by simp

lemma hex_value_hex_digit [simp]: "d < 16 \<Longrightarrow> hex_value (hex_digit d) = Some d"
  by (simp add: hex_value_def hex_digit_def Let_def)

lemma char_of_eqI: "(of_char c :: nat) = k \<Longrightarrow> char_of k = c"
  by auto

lemma hex4_hex_digit: "k < 32 \<Longrightarrow> hex4 CHR ''0'' CHR ''0'' (hex_digit (k div 16)) (hex_digit (k mod 16)) = Some (char_of k)"
  for k :: nat
proof -
  assume k: "k < 32"
  have z: "hex_value CHR ''0'' = Some 0" by (simp add: hex_value_def)
  from k have "k div 16 < 16" by simp
  then show ?thesis by (simp add: hex4_def z)
qed

lemma char_of_quotes: "char_of (34 :: nat) = CHR 0x22" "char_of (92 :: nat) = CHR 0x5C"
  by code_simp+

lemma parse_string_escape:
  "parse_string (escape_char c @ r) = map_option (apfst ((#) c)) (parse_string r)"
proof -
  let ?k = "of_char c :: nat"
  consider "?k \<in> {34, 92, 8, 9, 10, 12, 13}" | "?k \<notin> {34, 92, 8, 9, 10, 12, 13}" "?k < 32"
    | "?k \<notin> {34, 92}" "32 \<le> ?k" by fastforce
  then show ?thesis
  proof cases
    case 1
    then have "c \<in> char_of ` {34, 92, 8, 9, 10, 12, 13 :: nat}" by (metis char_of_char imageI)
    then show ?thesis
      by (auto simp: escape_char_def parse_string.simps unescape_char_def char_of_quotes)
  next
    case 2
    then show ?thesis
      by (simp add: escape_char_def Let_def parse_string.simps hex4_hex_digit)
  next
    case 3
    then show ?thesis
      by (simp add: escape_char_def Let_def parse_string.simps)
  qed
qed

lemma parse_string_quote: "parse_string (concat (map escape_char s) @ CHR 0x22 # r) = Some (s, r)"
  by (induction s) (simp_all add: parse_string_escape parse_string.simps)

lemma length_quote: "length (quote t) \<le> 6 * length t + 2"
proof -
  have "length (escape_char c) \<le> 6" for c by (simp add: escape_char_def Let_def)
  then have "length (concat (map escape_char t)) \<le> 6 * length t" by (induction t) (auto intro: add_mono)
  then show ?thesis by (simp add: quote_def)
qed

text \<open>The values whose text reads back as themselves: every number is finite and its text denotes
  it, and no object has a name twice.\<close>

definition number_prints :: "jsnum \<Rightarrow> bool" where
  "number_prints n \<longleftrightarrow> js_isFinite n \<and> number_text (js_String n) \<and> list_all number_char (js_String n)
     \<and> js_Number (js_String n) = n"

fun printable :: "json \<Rightarrow> bool" where
  "printable JNull \<longleftrightarrow> True"
| "printable (JBool b) \<longleftrightarrow> True"
| "printable (JNum n) \<longleftrightarrow> number_prints n"
| "printable (JStr s) \<longleftrightarrow> True"
| "printable (JArr vs) \<longleftrightarrow> (\<forall>v \<in> set vs. printable v)"
| "printable (JObj ms) \<longleftrightarrow> distinct (map fst ms) \<and> (\<forall>m \<in> set ms. printable (snd m))"

fun need :: "json \<Rightarrow> nat" where
  "need (JArr vs) = Suc (sum_list (map (\<lambda>v. Suc (need v)) vs))"
| "need (JObj ms) = Suc (sum_list (map (\<lambda>m. Suc (need (snd m))) ms))"
| "need _ = 1"

definition delimited :: "string \<Rightarrow> bool" where
  "delimited r \<longleftrightarrow> (case r of [] \<Rightarrow> True | c # _ \<Rightarrow> \<not> number_char c)"

lemma delimited_simps [simp]:
  "delimited []" "delimited (CHR '','' # r)" "delimited (CHR '']'' # r)" "delimited (CHR ''}'' # r)"
  by (simp_all add: delimited_def number_char_def is_digit_def)

lemma number_text_head:
  assumes "number_text t"
  obtains c cs where "t = c # cs" and "is_digit c \<or> c = CHR ''-''"
proof (cases t)
  case Nil
  with assms show ?thesis by (simp add: number_text_def)
next
  case (Cons c cs)
  with assms have "c \<noteq> CHR ''-'' \<Longrightarrow> takeWhile is_digit (c # cs) \<noteq> []"
    by (simp add: number_text_def Let_def)
  then show ?thesis using that [OF Cons] by (cases "is_digit c") auto
qed

lemma parse_number_text:
  assumes "number_prints n" and "delimited r"
  shows "parse_number (js_String n @ r) = Some (JNum n, r)"
proof -
  have d: "takeWhile number_char r = []" "dropWhile number_char r = r"
    using assms(2) by (auto simp: delimited_def split: list.splits)
  have a: "\<forall>c \<in> set (js_String n). number_char c"
    using assms(1) by (simp add: number_prints_def list_all_iff)
  then have "takeWhile number_char (js_String n @ r) = js_String n" "dropWhile number_char (js_String n @ r) = r"
    by (simp_all add: takeWhile_append2 dropWhile_append2 d)
  then show ?thesis using assms(1) by (simp add: parse_number_def number_prints_def)
qed

lemma skip_space_simps [simp]:
  "skip_space [] = []" "skip_space (CHR '','' # r) = CHR '','' # r" "skip_space (CHR '']'' # r) = CHR '']'' # r"
  "skip_space (CHR ''}'' # r) = CHR ''}'' # r" "skip_space (CHR '':'' # r) = CHR '':'' # r"
  "skip_space (CHR 0x22 # r) = CHR 0x22 # r" "skip_space (CHR ''['' # r) = CHR ''['' # r"
  "skip_space (CHR ''{'' # r) = CHR ''{'' # r" "skip_space (CHR ''n'' # r) = CHR ''n'' # r"
  "skip_space (CHR ''t'' # r) = CHR ''t'' # r" "skip_space (CHR ''f'' # r) = CHR ''f'' # r"
  by (simp_all add: skip_space_def json_space_def)

text \<open>The text of a value starts with a character that is neither space nor a closing bracket.\<close>

lemma stringify_head:
  assumes "printable v"
  shows "\<exists>c cs. stringify v = c # cs \<and> \<not> json_space c \<and> c \<noteq> CHR '']''"
proof (cases v)
  case (JNum n)
  then have "number_text (js_String n)" "js_isFinite n" using assms by (auto simp: number_prints_def)
  then show ?thesis
    using JNum by (elim number_text_head) (auto simp: json_space_def is_digit_def)
qed (auto simp: json_space_def quote_def)

lemma parse_value_number:
  assumes "number_prints m" and "delimited r"
  shows "parse_value (Suc n) (js_String m @ r) = Some (JNum m, r)"
proof -
  have "number_text (js_String m)" using assms(1) by (simp add: number_prints_def)
  then obtain c cs where t: "js_String m = c # cs" and c: "is_digit c \<or> c = CHR ''-''"
    by (rule number_text_head)
  then have "skip_space (js_String m @ r) = js_String m @ r"
    by (auto simp: skip_space_def json_space_def is_digit_def)
  moreover have "c \<notin> {CHR 0x22, CHR ''['', CHR ''{'', CHR ''n'', CHR ''t'', CHR ''f''}"
    using c by (auto simp: is_digit_def)
  ultimately show ?thesis
    using parse_number_text [OF assms] t by simp
qed

lemma comma_separated_Cons:
  "ss \<noteq> [] \<Longrightarrow> comma_separated (s # ss) = s @ '','' @ comma_separated ss"
  by (cases ss) simp_all

lemma parse_elements_round_trip:
  assumes "\<And>v n r. v \<in> set vs \<Longrightarrow> need v \<le> n \<Longrightarrow> delimited r \<Longrightarrow> parse_value n (stringify v @ r) = Some (v, r)"
    and "vs \<noteq> []" and "sum_list (map (\<lambda>v. Suc (need v)) vs) \<le> n"
  shows "parse_elements n (comma_separated (map stringify vs) @ CHR '']'' # r) = Some (vs, r)"
  using assms
proof (induction vs arbitrary: n)
  case (Cons v vs)
  from Cons.prems(3) obtain n' where n: "n = Suc n'" "need v \<le> n'" by (cases n) auto
  show ?case
  proof (cases "vs = []")
    case True
    then show ?thesis using Cons.prems(1) [of v n'] n by simp
  next
    case False
    have "parse_elements n' (comma_separated (map stringify vs) @ CHR '']'' # r) = Some (vs, r)"
      using Cons.prems n False by (intro Cons.IH) auto
    then show ?thesis
      using Cons.prems(1) [of v n'] n False by (simp add: comma_separated_Cons)
  qed
qed simp

lemma update_append: "k \<notin> fst ` set al \<Longrightarrow> AList.update k v al = al @ [(k, v)]"
  by (induction al) auto

abbreviation stringify_member :: "string \<times> json \<Rightarrow> string" where
  "stringify_member \<equiv> (\<lambda>(k, v). quote k @ '':'' @ stringify v)"

lemma parse_members_round_trip:
  assumes "\<And>m n r. m \<in> set ms \<Longrightarrow> need (snd m) \<le> n \<Longrightarrow> delimited r \<Longrightarrow>
      parse_value n (stringify (snd m) @ r) = Some (snd m, r)"
    and "ms \<noteq> []" and "sum_list (map (\<lambda>m. Suc (need (snd m))) ms) \<le> n"
    and "distinct (map fst (acc @ ms))"
  shows "parse_members n acc (comma_separated (map stringify_member ms) @ CHR ''}'' # r) = Some (acc @ ms, r)"
  using assms
proof (induction ms arbitrary: n acc)
  case (Cons m ms)
  obtain k v where m: "m = (k, v)" by (cases m)
  from Cons.prems(3) obtain n' where n: "n = Suc n'" "need v \<le> n'" using m by (cases n) auto
  have up: "AList.update k v acc = acc @ [(k, v)]"
    using Cons.prems(4) m by (simp add: update_append)
  show ?case
  proof (cases "ms = []")
    case True
    then show ?thesis
      using Cons.prems(1) [of m n'] n by (simp add: m quote_def parse_string_quote up)
  next
    case False
    have "parse_members n' (acc @ [(k, v)]) (comma_separated (map stringify_member ms) @ CHR ''}'' # r)
        = Some ((acc @ [(k, v)]) @ ms, r)"
      using Cons.prems n m False by (intro Cons.IH) auto
    then show ?thesis
      using Cons.prems(1) [of m n'] n False by (simp add: m comma_separated_Cons quote_def parse_string_quote up)
  qed
qed simp

lemma snd_in_snds: "snd m \<in> Basic_BNFs.snds m"
  by (cases m) simp

lemma parse_value_round_trip:
  "printable v \<Longrightarrow> need v \<le> n \<Longrightarrow> delimited r \<Longrightarrow> parse_value n (stringify v @ r) = Some (v, r)"
proof (induction v arbitrary: n r)
  case JNull
  then show ?case by (cases n) (simp_all add: literal_def)
next
  case (JBool b)
  then show ?case by (cases n) (simp_all add: literal_def)
next
  case (JNum m)
  then obtain n' where n: "n = Suc n'" by (cases n) auto
  from JNum have "stringify (JNum m) = js_String m" by (auto simp: number_prints_def simp del: js_String.simps)
  then show ?case using JNum parse_value_number [of m r n'] n by (simp del: js_String.simps parse_value.simps)
next
  case (JStr s)
  then show ?case by (cases n) (simp_all add: quote_def parse_string_quote)
next
  case (JArr vs)
  then obtain n' where n: "n = Suc n'" by (cases n) auto
  show ?case
  proof (cases vs)
    case Nil
    then show ?thesis by (simp add: n)
  next
    case (Cons w ws)
    have e: "parse_elements n' (comma_separated (map stringify vs) @ CHR '']'' # r) = Some (vs, r)"
      using JArr n Cons by (intro parse_elements_round_trip) auto
    obtain c cs where h: "stringify w = c # cs" "\<not> json_space c" "c \<noteq> CHR '']''"
      using stringify_head [of w] JArr.prems(1) Cons by auto
    have "\<exists>cs'. comma_separated (map stringify vs) = c # cs'"
      using h Cons by (cases ws) auto
    then have "take 1 (skip_space (comma_separated (map stringify vs) @ CHR '']'' # r)) \<noteq> '']''"
      using h by (auto simp: skip_space_def)
    with e show ?thesis by (simp add: n)
  qed
next
  case (JObj ms)
  then obtain n' where n: "n = Suc n'" by (cases n) auto
  show ?case
  proof (cases ms)
    case Nil
    then show ?thesis by (simp add: n)
  next
    case (Cons m ms')
    have e: "parse_members n' [] (comma_separated (map stringify_member ms) @ CHR ''}'' # r) = Some ([] @ ms, r)"
    proof (rule parse_members_round_trip)
      fix m n r assume "m \<in> set ms" "need (snd m) \<le> n" "delimited r"
      moreover from this have "printable (snd m)" using JObj.prems(1) by simp
      ultimately show "parse_value n (stringify (snd m) @ r) = Some (snd m, r)"
        using JObj.IH [of m "snd m" n r] snd_in_snds by blast
    qed (use JObj.prems n Cons in auto)
    have "\<exists>cs'. comma_separated (map stringify_member ms) = CHR 0x22 # cs'"
      using Cons by (cases ms') (auto simp: quote_def split: prod.splits)
    then have "take 1 (skip_space (comma_separated (map stringify_member ms) @ CHR ''}'' # r)) \<noteq> ''}''"
      by auto
    with e show ?thesis by (simp add: n)
  qed
qed

text \<open>The fuel \<open>json_parse\<close> takes is enough for what was printed.\<close>

lemma length_comma_separated:
  "length (comma_separated ss) + 1 = sum_list (map (\<lambda>s. Suc (length s)) ss)" if "ss \<noteq> []"
  using that by (induction ss rule: comma_separated.induct) auto

lemma need_le_length: "printable v \<Longrightarrow> need v \<le> 2 * length (stringify v)"
proof (induction v)
  case (JNum m)
  then have "stringify (JNum m) \<noteq> []" using stringify_head [of "JNum m"] by auto
  then show ?case by (cases "stringify (JNum m)") simp_all
next
  case (JArr vs)
  have "sum_list (map (\<lambda>v. Suc (need v)) vs) \<le> sum_list (map (\<lambda>v. 2 * Suc (length (stringify v))) vs)"
    using JArr by (intro sum_list_mono) fastforce
  also have "\<dots> = 2 * sum_list (map (\<lambda>s. Suc (length s)) (map stringify vs))"
    by (induction vs) auto
  also have "\<dots> \<le> 2 * (length (comma_separated (map stringify vs)) + 1)"
    using length_comma_separated [of "map stringify vs"] by (cases "vs = []") auto
  finally show ?case by simp
next
  case (JObj ms)
  have "sum_list (map (\<lambda>m. Suc (need (snd m))) ms) \<le> sum_list (map (\<lambda>m. 2 * Suc (length (stringify_member m))) ms)"
  proof (rule sum_list_mono)
    fix m assume m: "m \<in> set ms"
    obtain k v where kv: "m = (k, v)" by (cases m)
    have "need (snd m) \<le> 2 * length (stringify (snd m))" using JObj.IH [OF m snd_in_snds] JObj.prems m by simp
    then show "Suc (need (snd m)) \<le> 2 * Suc (length (stringify_member m))" by (simp add: kv)
  qed
  also have "\<dots> = 2 * sum_list (map (\<lambda>s. Suc (length s)) (map stringify_member ms))"
    by (induction ms) auto
  also have "\<dots> \<le> 2 * (length (comma_separated (map stringify_member ms)) + 1)"
    using length_comma_separated [of "map stringify_member ms"] by (cases "ms = []") auto
  finally show ?case by simp
qed (auto simp: quote_def)

lemma json_parse_stringify: "printable v \<Longrightarrow> json_parse (stringify v) = Some v"
  using parse_value_round_trip [of v "2 * length (stringify v) + 2" "[]"] need_le_length [of v]
  by (simp add: json_parse_def)

section \<open>Integers print\<close>

lemma js_digits_head: "n \<noteq> 0 \<Longrightarrow> hd (js_digits n) \<noteq> CHR ''0''"
proof (induction n rule: js_digits.induct)
  case (1 n)
  have d: "digit_char k \<noteq> CHR ''0''" if "k < 10" "k \<noteq> 0" for k
    using that of_char_digit_char [of k] by auto
  show ?case
    using 1 d [of n] by (cases "n < 10") (auto simp: js_digits.simps [of n])
qed

lemma number_prints_int: "\<bar>i\<bar> < 2 ^ 1000 \<Longrightarrow> number_prints (Num (of_int i))"
proof -
  assume i: "\<bar>i\<bar> < 2 ^ 1000"
  have first: "hd (js_digits n) = CHR ''0'' \<Longrightarrow> length (js_digits n) = 1" for n
    using js_digits_head [of n] by (cases "n = 0") (auto simp: js_digits.simps)
  have minus: "hd (js_digits n) \<noteq> CHR ''-''" for n
    using js_digits_digits [of "hd (js_digits n)" n] by (auto simp: is_digit_def)
  have zero: "is_digit CHR ''0''" by (simp add: is_digit_def)
  have "number_text (js_digits n)" for n
  proof -
    obtain c cs where d: "js_digits n = c # cs" by (cases "js_digits n") auto
    have "takeWhile is_digit (c # cs) = c # cs" "dropWhile is_digit (c # cs) = []"
      using takeWhile_js_digits [of n] dropWhile_js_digits [of n] by (simp_all only: d)
    then show ?thesis
      using first [of n] minus [of n] unfolding number_text_def skip_fraction_def skip_exponent_def Let_def d
      by (auto simp: zero split: if_splits)
  qed
  moreover have "number_text (CHR ''-'' # js_digits n)" for n
    using first [of n] by (simp add: number_text_def skip_fraction_def skip_exponent_def Let_def)
  ultimately have t: "number_text (js_String_int i)" by (simp add: js_String_int_def)
  have "list_all number_char (js_digits n)" for n
    by (auto simp: list_all_iff number_char_def js_digits_digits)
  then have "list_all number_char (js_String_int i)" by (simp add: js_String_int_def number_char_def)
  with t js_Number_String_int [OF i] show ?thesis by (simp add: number_prints_def)
qed

end
