(* ===== verification/Database.thy ===== *)
theory Database
  imports Json
begin

text \<open>
  The PostgreSQL tables the services share (\<open>packages/shared/prisma/schema.prisma\<close>) and the
  repositories of the worker that read and write them
  (\<open>packages/worker/src/repositories/\<close>: deliveries, dead letters, tenants).

  A table is the list of its rows in insertion order.  A generated identifier is the text of a
  counter: only that identifiers are new is used.  An operation gives its result with the new
  database, or the error of the client library, and then changes nothing: each runs in its own
  transaction.  \<open>findFirst\<close> without an order gives the first matching row.

  Times are milliseconds.
\<close>

section \<open>Rows\<close>

datatype DeliveryStatus = PENDING | IN_FLIGHT | SUCCEEDED | FAILED | DEAD_LETTERED

record tenant =
  tn_id :: string
  tn_name :: string
  tn_hmacSecret :: string

record event =
  ev_id :: string
  ev_tenantId :: string
  ev_type :: string
  ev_payload :: "json option"
  ev_payloadS3Key :: "string option"
  ev_createdAt :: int

record delivery =
  dl_id :: string
  dl_eventId :: string
  dl_tenantId :: string
  dl_targetUrl :: string
  dl_status :: DeliveryStatus
  dl_attemptCount :: int
  dl_lastAttemptAt :: "int option"
  dl_nextAttemptAt :: "int option"
  dl_lastError :: "string option"
  dl_createdAt :: int

record outbox =
  ob_id :: string
  ob_eventId :: string
  ob_published :: bool
  ob_createdAt :: int
  ob_publishedAt :: "int option"

record dead_letter =
  le_id :: string
  le_eventId :: string
  le_deliveryId :: string
  le_tenantId :: string
  le_targetUrl :: string
  le_lastError :: "string option"
  le_attemptCount :: int
  le_payloadS3Key :: string
  le_createdAt :: int

record replay =
  rp_id :: string
  rp_tenantId :: string
  rp_sourceDeadLetterId :: string
  rp_eventId :: string
  rp_idempotencyKey :: string
  rp_createdAt :: int

record database =
  tenants :: "tenant list"
  events :: "event list"
  deliveries :: "delivery list"
  outboxes :: "outbox list"
  deadLetters :: "dead_letter list"
  replays :: "replay list"
  next_id :: nat

text \<open>The errors of the client: a unique constraint, a foreign key, a row to update that is missing.\<close>

datatype db_exn = P2002 | P2003 | P2025 | DbError string

type_synonym 'a db_op = "database \<Rightarrow> db_exn + 'a \<times> database"

definition db_bind :: "'a db_op \<Rightarrow> ('a \<Rightarrow> 'b db_op) \<Rightarrow> 'b db_op" where
  "db_bind m f = (\<lambda>db. case m db of Inl e \<Rightarrow> Inl e | Inr (x, db') \<Rightarrow> f x db')"

definition db_return :: "'a \<Rightarrow> 'a db_op" where
  "db_return x = (\<lambda>db. Inr (x, db))"

definition fresh_id :: "database \<Rightarrow> string" where
  "fresh_id db = js_String_nat (next_id db)"

section \<open>Lists of rows\<close>

definition update_where :: "('a \<Rightarrow> bool) \<Rightarrow> ('a \<Rightarrow> 'a) \<Rightarrow> 'a list \<Rightarrow> 'a list" where
  "update_where P f rows = map (\<lambda>x. if P x then f x else x) rows"

lemma set_update_where: "set (update_where P f rows) = f ` {x \<in> set rows. P x} \<union> {x \<in> set rows. \<not> P x}"
  by (auto simp: update_where_def)

lemma map_update_where: "(\<And>x. P x \<Longrightarrow> k (f x) = k x) \<Longrightarrow> map k (update_where P f rows) = map k rows"
  by (induction rows) (auto simp: update_where_def)

lemma length_update_where [simp]: "length (update_where P f rows) = length rows"
  by (simp add: update_where_def)

lemma find_update_where:
  assumes "\<And>x. P x \<Longrightarrow> Q (f x) = Q x"
  shows "find Q (update_where P f rows) = map_option (\<lambda>x. if P x then f x else x) (find Q rows)"
  using assms by (induction rows) (auto simp: update_where_def)

lemma bex_image_eq: "f ` A = f ` B \<Longrightarrow> (\<exists>x \<in> A. f x = k) \<longleftrightarrow> (\<exists>x \<in> B. f x = k)"
  by (metis imageE imageI)

lemma ball_image_eq: "f ` A = f ` B \<Longrightarrow> (\<forall>x \<in> A. P (f x)) \<longleftrightarrow> (\<forall>x \<in> B. P (f x))"
  by (metis imageE imageI)

lemma find_append: "find P (xs @ ys) = (case find P xs of None \<Rightarrow> find P ys | Some x \<Rightarrow> Some x)"
  by (induction xs) auto

section \<open>Deliveries\<close>

definition for_event :: "string \<Rightarrow> string \<Rightarrow> delivery \<Rightarrow> bool" where
  "for_event eventId targetUrl d \<longleftrightarrow> dl_eventId d = eventId \<and> dl_targetUrl d = targetUrl"

definition findByEventAndUrl :: "string \<Rightarrow> string \<Rightarrow> database \<Rightarrow> delivery option" where
  "findByEventAndUrl eventId targetUrl db = find (for_event eventId targetUrl) (deliveries db)"

definition delivery_update :: "string \<Rightarrow> (delivery \<Rightarrow> delivery) \<Rightarrow> delivery db_op" where
  "delivery_update i f db =
     (case find (\<lambda>d. dl_id d = i) (deliveries db) of
        None \<Rightarrow> Inl P2025
      | Some d \<Rightarrow> Inr (f d, db\<lparr>deliveries := update_where (\<lambda>d. dl_id d = i) f (deliveries db)\<rparr>))"

definition delivery_create :: "delivery \<Rightarrow> delivery db_op" where
  "delivery_create d db =
     (if find (\<lambda>e. ev_id e = dl_eventId d) (events db) = None
         \<or> find (\<lambda>t. tn_id t = dl_tenantId d) (tenants db) = None
      then Inl P2003
      else (let d' = d\<lparr>dl_id := fresh_id db\<rparr>
            in Inr (d', db\<lparr>deliveries := deliveries db @ [d'], next_id := next_id db + 1\<rparr>)))"

definition start_attempt :: "int \<Rightarrow> delivery \<Rightarrow> delivery" where
  "start_attempt now d =
     d\<lparr>dl_status := IN_FLIGHT, dl_attemptCount := dl_attemptCount d + 1, dl_lastAttemptAt := Some now,
       dl_lastError := None, dl_nextAttemptAt := None\<rparr>"

definition first_attempt :: "string \<Rightarrow> string \<Rightarrow> string \<Rightarrow> int \<Rightarrow> delivery" where
  "first_attempt eventId tenantId targetUrl now =
     \<lparr>dl_id = [], dl_eventId = eventId, dl_tenantId = tenantId, dl_targetUrl = targetUrl, dl_status = IN_FLIGHT,
      dl_attemptCount = 1, dl_lastAttemptAt = Some now, dl_nextAttemptAt = None, dl_lastError = None, dl_createdAt = now\<rparr>"

text \<open>\<open>upsertInFlight\<close> reads and then writes, in two queries outside a transaction.\<close>

definition writeInFlight :: "delivery option \<Rightarrow> string \<Rightarrow> string \<Rightarrow> string \<Rightarrow> int \<Rightarrow> delivery db_op" where
  "writeInFlight found eventId tenantId targetUrl now =
     (case found of
        Some existing \<Rightarrow> delivery_update (dl_id existing) (start_attempt now)
      | None \<Rightarrow> delivery_create (first_attempt eventId tenantId targetUrl now))"

definition upsertInFlight :: "string \<Rightarrow> string \<Rightarrow> string \<Rightarrow> int \<Rightarrow> delivery db_op" where
  "upsertInFlight eventId tenantId targetUrl now db =
     writeInFlight (findByEventAndUrl eventId targetUrl db) eventId tenantId targetUrl now db"

definition markSucceeded :: "string \<Rightarrow> delivery db_op" where
  "markSucceeded i = delivery_update i (\<lambda>d. d\<lparr>dl_status := SUCCEEDED, dl_lastError := None\<rparr>)"

definition markFailed :: "string \<Rightarrow> string \<Rightarrow> int \<Rightarrow> delivery db_op" where
  "markFailed i err nextAttempt =
     delivery_update i (\<lambda>d. d\<lparr>dl_status := FAILED, dl_lastError := Some (take 500 err),
       dl_nextAttemptAt := Some nextAttempt\<rparr>)"

definition markDeadLettered :: "string \<Rightarrow> string \<Rightarrow> delivery db_op" where
  "markDeadLettered i err =
     delivery_update i (\<lambda>d. d\<lparr>dl_status := DEAD_LETTERED, dl_lastError := Some (take 500 err),
       dl_nextAttemptAt := None\<rparr>)"

section \<open>Dead letters and tenants\<close>

text \<open>The upsert keeps identity, event, tenant, target and time of an existing row for the delivery.\<close>

definition createDeadLetter :: "dead_letter \<Rightarrow> dead_letter db_op" where
  "createDeadLetter input db =
     (let same = (\<lambda>l. le_deliveryId l = le_deliveryId input);
          upd = (\<lambda>l. l\<lparr>le_lastError := le_lastError input, le_attemptCount := le_attemptCount input,
                      le_payloadS3Key := le_payloadS3Key input\<rparr>)
      in case find same (deadLetters db) of
           Some l \<Rightarrow> Inr (upd l, db\<lparr>deadLetters := update_where same upd (deadLetters db)\<rparr>)
         | None \<Rightarrow>
             if find (\<lambda>e. ev_id e = le_eventId input) (events db) = None
                \<or> find (\<lambda>d. dl_id d = le_deliveryId input) (deliveries db) = None
             then Inl P2003
             else (let l = input\<lparr>le_id := fresh_id db\<rparr>
                   in Inr (l, db\<lparr>deadLetters := deadLetters db @ [l], next_id := next_id db + 1\<rparr>)))"

definition findTenantSigningSecret :: "string \<Rightarrow> database \<Rightarrow> exn + string" where
  "findTenantSigningSecret tenantId db =
     (case find (\<lambda>t. tn_id t = tenantId) (tenants db) of
        None \<Rightarrow> Inl (Error ''Tenant signing secret is unavailable'')
      | Some t \<Rightarrow> if tn_hmacSecret t = [] then Inl (Error ''Tenant signing secret is unavailable'')
                  else Inr (tn_hmacSecret t))"

section \<open>Well-formed tables\<close>

text \<open>Identifiers are distinct and drawn from the counter, and the constraints of the schema hold.\<close>

definition old_id :: "database \<Rightarrow> string \<Rightarrow> bool" where
  "old_id db i \<longleftrightarrow> (\<exists>k < next_id db. i = js_String_nat k)"

definition db_ok :: "database \<Rightarrow> bool" where
  "db_ok db \<longleftrightarrow>
     distinct (map dl_id (deliveries db)) \<and> (\<forall>d \<in> set (deliveries db). old_id db (dl_id d))
     \<and> distinct (map le_id (deadLetters db)) \<and> (\<forall>l \<in> set (deadLetters db). old_id db (le_id l))
     \<and> distinct (map le_deliveryId (deadLetters db))
     \<and> (\<forall>l \<in> set (deadLetters db). \<exists>d \<in> set (deliveries db). dl_id d = le_deliveryId l)"

lemma fresh_id_not_old: "\<not> old_id db (fresh_id db)"
  by (simp add: old_id_def fresh_id_def)

lemma old_id_mono: "old_id db i \<Longrightarrow> next_id db \<le> next_id db' \<Longrightarrow> old_id db' i"
  by (auto simp: old_id_def)

lemma old_id_fresh: "old_id (db\<lparr>next_id := Suc (next_id db)\<rparr>) (fresh_id db)"
  by (auto simp: old_id_def fresh_id_def)

lemma old_id_simps [simp]:
  "old_id (db\<lparr>deliveries := ds\<rparr>) i = old_id db i" "old_id (db\<lparr>deadLetters := ls\<rparr>) i = old_id db i"
  by (simp_all add: old_id_def)

text \<open>No two deliveries of one event to one target, which the schema does not demand; and every
  dead-lettered delivery has its dead letter.\<close>

definition one_row :: "database \<Rightarrow> bool" where
  "one_row db \<longleftrightarrow> distinct (map (\<lambda>d. (dl_eventId d, dl_targetUrl d)) (deliveries db))"

definition has_dead_letter :: "database \<Rightarrow> string \<Rightarrow> bool" where
  "has_dead_letter db i \<longleftrightarrow> (\<exists>l \<in> set (deadLetters db). le_deliveryId l = i)"

definition dead_ok :: "database \<Rightarrow> bool" where
  "dead_ok db \<longleftrightarrow> (\<forall>d \<in> set (deliveries db). dl_status d = DEAD_LETTERED \<longrightarrow> has_dead_letter db (dl_id d))"

definition keeps_identity :: "(delivery \<Rightarrow> delivery) \<Rightarrow> bool" where
  "keeps_identity f \<longleftrightarrow> (\<forall>d. dl_id (f d) = dl_id d \<and> dl_eventId (f d) = dl_eventId d
     \<and> dl_tenantId (f d) = dl_tenantId d \<and> dl_targetUrl (f d) = dl_targetUrl d)"

lemma delivery_update_cases:
  obtains (missing) "delivery_update i f db = Inl P2025" and "\<forall>d \<in> set (deliveries db). dl_id d \<noteq> i"
  | (found) d where "d \<in> set (deliveries db)" and "dl_id d = i"
      and "delivery_update i f db = Inr (f d, db\<lparr>deliveries := update_where (\<lambda>d. dl_id d = i) f (deliveries db)\<rparr>)"
proof (cases "find (\<lambda>d. dl_id d = i) (deliveries db)")
  case None
  then have "\<forall>d \<in> set (deliveries db). dl_id d \<noteq> i" by (auto simp: find_None_iff)
  moreover have "delivery_update i f db = Inl P2025" by (simp add: delivery_update_def None)
  ultimately show ?thesis by (intro missing)
next
  case (Some d)
  then show ?thesis using found [of d] find_SomeD [OF Some] by (simp add: delivery_update_def)
qed

lemma db_ok_update:
  assumes "db_ok db" and "keeps_identity f"
  shows "db_ok (db\<lparr>deliveries := update_where P f (deliveries db)\<rparr>)"
proof -
  have m: "map dl_id (update_where P f (deliveries db)) = map dl_id (deliveries db)"
    using assms(2) by (intro map_update_where) (simp add: keeps_identity_def)
  then have s: "dl_id ` set (update_where P f (deliveries db)) = dl_id ` set (deliveries db)"
    by (metis set_map)
  show ?thesis
    using assms(1) bex_image_eq [OF s] ball_image_eq [OF s, of "old_id db"] by (simp add: db_ok_def m)
qed

lemma db_ok_create:
  assumes "db_ok db"
  shows "db_ok (db\<lparr>deliveries := deliveries db @ [d\<lparr>dl_id := fresh_id db\<rparr>], next_id := next_id db + 1\<rparr>)"
proof -
  have "fresh_id db \<notin> dl_id ` set (deliveries db)"
    using assms fresh_id_not_old [of db] by (auto simp: db_ok_def)
  moreover have "old_id (db\<lparr>next_id := Suc (next_id db)\<rparr>) i" if "old_id db i" for i
    using old_id_mono [OF that] by simp
  ultimately show ?thesis using assms old_id_fresh [of db] by (auto simp: db_ok_def old_id_def)
qed

lemma createDeadLetter_ok:
  assumes "db_ok db" and "createDeadLetter input db = Inr (l, db')"
  shows "db_ok db' \<and> has_dead_letter db' (le_deliveryId input) \<and> deliveries db' = deliveries db
    \<and> (\<forall>i. has_dead_letter db i \<longrightarrow> has_dead_letter db' i)"
proof (cases "find (\<lambda>l. le_deliveryId l = le_deliveryId input) (deadLetters db)")
  case (Some x)
  let ?same = "\<lambda>l. le_deliveryId l = le_deliveryId input"
  let ?upd = "\<lambda>l. l\<lparr>le_lastError := le_lastError input, le_attemptCount := le_attemptCount input,
                      le_payloadS3Key := le_payloadS3Key input\<rparr>"
  have db': "db' = db\<lparr>deadLetters := update_where ?same ?upd (deadLetters db)\<rparr>"
    using assms(2) Some by (simp add: createDeadLetter_def Let_def)
  have "map le_id (deadLetters db') = map le_id (deadLetters db)"
    "map le_deliveryId (deadLetters db') = map le_deliveryId (deadLetters db)"
    unfolding db' by (simp_all add: map_update_where)
  then have a: "le_id ` set (deadLetters db') = le_id ` set (deadLetters db)"
    and s: "le_deliveryId ` set (deadLetters db') = le_deliveryId ` set (deadLetters db)"
    and d: "distinct (map le_id (deadLetters db'))" "distinct (map le_deliveryId (deadLetters db'))"
    using assms(1) by (metis set_map, metis set_map, simp_all add: db_ok_def)
  have n: "next_id db' = next_id db" "deliveries db' = deliveries db" by (simp_all add: db')
  have "db_ok db'"
    using assms(1) d ball_image_eq [OF a, of "old_id db"]
      ball_image_eq [OF s, of "\<lambda>k. \<exists>d \<in> set (deliveries db). dl_id d = k"]
    by (simp add: db_ok_def old_id_def n)
  moreover have "has_dead_letter db' i = has_dead_letter db i" for i
    using bex_image_eq [OF s] by (simp add: has_dead_letter_def)
  moreover have "has_dead_letter db (le_deliveryId input)"
    using find_SomeD [OF Some] by (auto simp: has_dead_letter_def)
  ultimately show ?thesis by (simp add: n)
next
  case None
  then have db': "db' = db\<lparr>deadLetters := deadLetters db @ [input\<lparr>le_id := fresh_id db\<rparr>], next_id := next_id db + 1\<rparr>"
    and d: "find (\<lambda>d. dl_id d = le_deliveryId input) (deliveries db) \<noteq> None"
    using assms(2) by (auto simp: createDeadLetter_def Let_def split: if_splits)
  from d obtain x where x: "x \<in> set (deliveries db)" "dl_id x = le_deliveryId input"
    by (auto dest: find_SomeD)
  have "fresh_id db \<notin> le_id ` set (deadLetters db)"
    using assms(1) fresh_id_not_old [of db] by (auto simp: db_ok_def)
  moreover have "le_deliveryId input \<notin> le_deliveryId ` set (deadLetters db)"
    using None by (auto simp: find_None_iff)
  moreover have "old_id (db\<lparr>next_id := Suc (next_id db)\<rparr>) i" if "old_id db i" for i
    using old_id_mono [OF that] by simp
  ultimately show ?thesis
    using assms(1) x old_id_fresh [of db] unfolding db' has_dead_letter_def
    by (auto simp: db_ok_def old_id_def)
qed

lemma keeps_identity_simps [simp]:
  "keeps_identity (start_attempt now)"
  "keeps_identity (\<lambda>d. d\<lparr>dl_status := SUCCEEDED, dl_lastError := None\<rparr>)"
  "keeps_identity (\<lambda>d. d\<lparr>dl_status := st, dl_lastError := e, dl_nextAttemptAt := t\<rparr>)"
  by (simp_all add: keeps_identity_def start_attempt_def)

lemma dead_ok_update:
  assumes "dead_ok db" and "keeps_identity f"
    and "\<And>d. P d \<Longrightarrow> dl_status (f d) = DEAD_LETTERED \<Longrightarrow> has_dead_letter db (dl_id d)"
  shows "dead_ok (db\<lparr>deliveries := update_where P f (deliveries db)\<rparr>)"
  using assms by (auto simp: dead_ok_def set_update_where keeps_identity_def has_dead_letter_def)

lemma one_row_update:
  assumes "one_row db" and "keeps_identity f"
  shows "one_row (db\<lparr>deliveries := update_where P f (deliveries db)\<rparr>)"
proof -
  have "map (\<lambda>d. (dl_eventId d, dl_targetUrl d)) (update_where P f (deliveries db))
      = map (\<lambda>d. (dl_eventId d, dl_targetUrl d)) (deliveries db)"
    using assms(2) by (intro map_update_where) (simp add: keeps_identity_def)
  with assms(1) show ?thesis by (simp add: one_row_def)
qed

lemma one_row_create:
  assumes "one_row db" and "findByEventAndUrl (dl_eventId d) (dl_targetUrl d) db = None"
  shows "one_row (db\<lparr>deliveries := deliveries db @ [d\<lparr>dl_id := i\<rparr>], next_id := k\<rparr>)"
  using assms by (auto simp: one_row_def findByEventAndUrl_def find_None_iff for_event_def)

lemma dead_ok_create:
  assumes "dead_ok db" and "dl_status d \<noteq> DEAD_LETTERED"
  shows "dead_ok (db\<lparr>deliveries := deliveries db @ [d\<lparr>dl_id := i\<rparr>], next_id := k\<rparr>)"
  using assms by (auto simp: dead_ok_def has_dead_letter_def)

text \<open>The three invariants of the tables together.\<close>

definition tables_ok :: "database \<Rightarrow> bool" where
  "tables_ok db \<longleftrightarrow> db_ok db \<and> one_row db \<and> dead_ok db"

lemma tables_ok_update:
  assumes "tables_ok db" and "delivery_update i f db = Inr (d, db')" and "keeps_identity f"
    and "\<And>d. dl_id d = i \<Longrightarrow> dl_status (f d) = DEAD_LETTERED \<Longrightarrow> has_dead_letter db i"
  shows "tables_ok db'"
  using assms
  by (cases rule: delivery_update_cases [of i f db])
    (auto simp: tables_ok_def intro!: db_ok_update one_row_update dead_ok_update)

lemma tables_ok_create:
  assumes "tables_ok db" and "delivery_create d db = Inr (d', db')"
    and "findByEventAndUrl (dl_eventId d) (dl_targetUrl d) db = None" and "dl_status d \<noteq> DEAD_LETTERED"
  shows "tables_ok db'"
proof -
  have "db' = db\<lparr>deliveries := deliveries db @ [d\<lparr>dl_id := fresh_id db\<rparr>], next_id := next_id db + 1\<rparr>"
    using assms(2) by (auto simp: delivery_create_def Let_def split: if_splits)
  with assms(1,3,4) db_ok_create [of db d] one_row_create [of db d] dead_ok_create [of db d] show ?thesis
    by (simp add: tables_ok_def)
qed

lemma first_attempt_simps [simp]:
  "dl_eventId (first_attempt e t u now) = e" "dl_targetUrl (first_attempt e t u now) = u"
  "dl_status (first_attempt e t u now) = IN_FLIGHT" "dl_attemptCount (first_attempt e t u now) = 1"
  by (simp_all add: first_attempt_def)

lemma start_attempt_simps [simp]:
  "dl_status (start_attempt now d) = IN_FLIGHT" "dl_id (start_attempt now d) = dl_id d"
  "dl_eventId (start_attempt now d) = dl_eventId d" "dl_targetUrl (start_attempt now d) = dl_targetUrl d"
  "dl_attemptCount (start_attempt now d) = dl_attemptCount d + 1"
  by (simp_all add: start_attempt_def)

lemma writeInFlight_ok:
  assumes "tables_ok db" and "writeInFlight (findByEventAndUrl e u db) e t u now db = Inr (d, db')"
  shows "tables_ok db'"
proof (cases "findByEventAndUrl e u db")
  case None
  with assms(2) have c: "delivery_create (first_attempt e t u now) db = Inr (d, db')"
    by (simp add: writeInFlight_def)
  show ?thesis by (rule tables_ok_create [OF assms(1) c]) (simp_all add: None)
next
  case (Some x)
  with assms(2) have c: "delivery_update (dl_id x) (start_attempt now) db = Inr (d, db')"
    by (simp add: writeInFlight_def)
  show ?thesis by (rule tables_ok_update [OF assms(1) c]) simp_all
qed

end
