(* ===== verification/Signature.thy ===== *)
theory Signature
  imports JsNumber
begin

text \<open>
  Webhook signatures (\<open>packages/shared/src/webhook-signature.ts\<close>).  The keyed digest is code of the
  platform's cryptography library: it is the parameter \<open>hmac\<close>, from a secret and a body to the bytes
  of the digest, of which the model relies on the length, thirty-two bytes.  Bytes are numbers.
\<close>

definition WEBHOOK_SIGNATURE_HEADER :: string where
  "WEBHOOK_SIGNATURE_HEADER = ''X-Waybill-Signature''"

type_synonym hmac = "string \<Rightarrow> string \<Rightarrow> nat list"

definition nibble_char :: "nat \<Rightarrow> char" where
  "nibble_char d = (if d < 10 then char_of (48 + d) else char_of (87 + d))"

definition to_hex :: "nat list \<Rightarrow> string" where
  "to_hex bs = concat (map (\<lambda>b. [nibble_char (b div 16), nibble_char (b mod 16)]) bs)"

definition is_hex :: "char \<Rightarrow> bool" where
  "is_hex c \<longleftrightarrow> is_digit c \<or> (97 \<le> (of_char c :: nat) \<and> (of_char c :: nat) \<le> 102)"

definition hex_nibble :: "char \<Rightarrow> nat" where
  "hex_nibble c = (if is_digit c then of_char c - 48 else of_char c - 87)"

fun from_hex :: "string \<Rightarrow> nat list" where
  "from_hex (a # b # s) = (16 * hex_nibble a + hex_nibble b) # from_hex s"
| "from_hex _ = []"

definition signWebhook :: "hmac \<Rightarrow> string \<Rightarrow> string \<Rightarrow> exn + string" where
  "signWebhook hmac body secret =
     (if length secret = 0 then Inl (Error ''Webhook signing secret must not be empty'')
      else Inr (''sha256='' @ to_hex (hmac secret body)))"

definition signature_format :: "string \<Rightarrow> bool" where
  "signature_format s \<longleftrightarrow> take 7 s = ''sha256='' \<and> length (drop 7 s) = 64 \<and> list_all is_hex (drop 7 s)"

definition verifyWebhookSignature :: "hmac \<Rightarrow> string \<Rightarrow> string option \<Rightarrow> string \<Rightarrow> exn + bool" where
  "verifyWebhookSignature hmac body signature secret =
     (case signature of None \<Rightarrow> Inr False
      | Some sig \<Rightarrow>
          if secret = [] \<or> sig = [] \<or> \<not> signature_format sig then Inr False
          else (case signWebhook hmac body secret of Inl e \<Rightarrow> Inl e
                | Inr mine \<Rightarrow> Inr (from_hex (drop 7 mine) = from_hex (drop 7 sig))))"

definition hmac_ok :: "hmac \<Rightarrow> bool" where
  "hmac_ok hmac \<longleftrightarrow> (\<forall>secret body. length (hmac secret body) = 32 \<and> (\<forall>b \<in> set (hmac secret body). b < 256))"

lemma of_char_nibble [simp]: "d < 16 \<Longrightarrow> (of_char (nibble_char d) :: nat) = (if d < 10 then 48 + d else 87 + d)"
  by (simp add: nibble_char_def)

lemma is_hex_nibble [simp]: "d < 16 \<Longrightarrow> is_hex (nibble_char d)"
  by (simp add: is_hex_def is_digit_def)

lemma hex_nibble_char [simp]: "d < 16 \<Longrightarrow> hex_nibble (nibble_char d) = d"
  by (simp add: hex_nibble_def is_digit_def)

lemma to_hex_Cons: "to_hex (b # bs) = nibble_char (b div 16) # nibble_char (b mod 16) # to_hex bs"
  by (simp add: to_hex_def)

lemma high_nibble [simp]: "b < 256 \<Longrightarrow> b div 16 < 16" for b :: nat
  by simp

lemma to_hex_Nil [simp]: "to_hex [] = []"
  by (simp add: to_hex_def)

lemma from_hex_to_hex: "\<forall>b \<in> set bs. b < 256 \<Longrightarrow> from_hex (to_hex bs) = bs"
  by (induction bs) (simp_all add: to_hex_Cons)

lemma length_to_hex: "length (to_hex bs) = 2 * length bs"
  by (induction bs) (simp_all add: to_hex_Cons)

lemma list_all_to_hex: "\<forall>b \<in> set bs. b < 256 \<Longrightarrow> list_all is_hex (to_hex bs)"
  by (induction bs) (simp_all add: to_hex_Cons)

text \<open>Hexadecimal text determines the bytes it spells.\<close>

lemma hex_nibble_inject: "is_hex a \<Longrightarrow> is_hex b \<Longrightarrow> hex_nibble a = hex_nibble b \<Longrightarrow> a = b"
proof -
  assume "is_hex a" "is_hex b" "hex_nibble a = hex_nibble b"
  then have "(of_char a :: nat) = of_char b"
    by (auto simp: is_hex_def hex_nibble_def is_digit_def simp del: of_char_eq_iff split: if_splits)
  then show ?thesis by simp
qed

lemma hex_nibble_less: "is_hex a \<Longrightarrow> hex_nibble a < 16"
  by (auto simp: is_hex_def hex_nibble_def is_digit_def)

lemma byte_inject: "16 * x + y = 16 * x' + y' \<Longrightarrow> y < 16 \<Longrightarrow> y' < 16 \<Longrightarrow> x = x' \<and> y = y'"
  for x y x' y' :: nat
proof -
  assume eq: "16 * x + y = 16 * x' + y'" and "y < 16" "y' < 16"
  then have "(16 * x + y) div 16 = x" "(16 * x' + y') div 16 = x'" by simp_all
  with eq show ?thesis by simp
qed

lemma from_hex_inject:
  "list_all is_hex s \<Longrightarrow> list_all is_hex t \<Longrightarrow> even (length s) \<Longrightarrow> length s = length t \<Longrightarrow>
   from_hex s = from_hex t \<Longrightarrow> s = t"
proof (induction s arbitrary: t rule: from_hex.induct)
  case (1 a b s)
  obtain c d t' where t: "t = c # d # t'"
    using 1(5) by (cases t; cases "tl t") simp_all
  from 1(6) t have "16 * hex_nibble a + hex_nibble b = 16 * hex_nibble c + hex_nibble d" by simp
  moreover have "hex_nibble b < 16" "hex_nibble d < 16" using 1(2,3) t by (simp_all add: hex_nibble_less)
  ultimately have "hex_nibble a = hex_nibble c" "hex_nibble b = hex_nibble d" using byte_inject by blast+
  then have "a = c" "b = d" using 1(2,3) t by (simp_all add: hex_nibble_inject)
  moreover have "s = t'" using 1 t by simp
  ultimately show ?case by (simp add: t)
qed auto

lemma signWebhook_format:
  assumes "hmac_ok hmac" and "signWebhook hmac body secret = Inr sig"
  shows "signature_format sig"
  using assms by (auto simp: signWebhook_def signature_format_def hmac_ok_def length_to_hex list_all_to_hex split: if_splits)

section \<open>Properties\<close>

text \<open>C30: a receiver that holds the secret accepts a signature exactly when it is the one the worker
  sends for this body and secret: signing and verifying agree, and no other text verifies.\<close>

theorem signature_verifies_iff_signed:
  assumes "hmac_ok hmac" and "secret \<noteq> []"
  shows "verifyWebhookSignature hmac body (Some sig) secret = Inr True \<longleftrightarrow> signWebhook hmac body secret = Inr sig"
proof
  assume v: "verifyWebhookSignature hmac body (Some sig) secret = Inr True"
  let ?mine = "''sha256='' @ to_hex (hmac secret body)"
  have f: "signature_format sig"
    using v by (auto simp: verifyWebhookSignature_def split: if_splits)
  have m: "signature_format ?mine"
    using signWebhook_format [OF assms(1), of body secret ?mine] assms(2) by (simp add: signWebhook_def)
  have "from_hex (drop 7 ?mine) = from_hex (drop 7 sig)"
    using v assms(2) f by (simp add: verifyWebhookSignature_def signWebhook_def split: if_splits)
  then have "drop 7 ?mine = drop 7 sig"
    using f m by (intro from_hex_inject) (simp_all add: signature_format_def)
  moreover have "take 7 ?mine = take 7 sig" using f m by (simp add: signature_format_def)
  ultimately have "?mine = sig" by (metis append_take_drop_id)
  then show "signWebhook hmac body secret = Inr sig" using assms(2) by (simp add: signWebhook_def)
next
  assume s: "signWebhook hmac body secret = Inr sig"
  with signWebhook_format [OF assms(1) s] assms(2) show "verifyWebhookSignature hmac body (Some sig) secret = Inr True"
    by (auto simp: verifyWebhookSignature_def signature_format_def)
qed

theorem signature_verifies_iff_signed_witness:
  "verifyWebhookSignature (\<lambda>secret body. replicate 32 7) ''{}''
     (Some (''sha256='' @ to_hex (replicate 32 7))) ''secret'' = Inr True"
proof -
  have "hmac_ok (\<lambda>secret body. replicate 32 7)" by (simp add: hmac_ok_def)
  from signature_verifies_iff_signed [OF this, of "''secret''" "''{}''"] show ?thesis
    by (simp add: signWebhook_def)
qed

end
