(* ===== verification/QueueConfirmations.thy ===== *)
theory QueueConfirmations
  imports JsNumber
begin

text \<open>
  Which receipts of a batch request SQS confirmed
  (\<open>packages/worker/src/delivery/queue-confirmations.ts\<close>).  A batch entry's identifier is the
  decimal text of its position.  Of the result's entries the code reads only the optional \<open>Id\<close>, so
  an entry is modelled by it; a JavaScript \<open>Set\<close> is the list of its elements in insertion order.
\<close>

definition requested_ids :: "string list \<Rightarrow> (string \<times> string) list" where
  "requested_ids receipts = zip (map js_String_nat [0..<length receipts]) receipts"

fun confirm_entries ::
  "(string \<times> string) list \<Rightarrow> string option list \<Rightarrow> string list \<Rightarrow> string option list \<Rightarrow> string list" where
  "confirm_entries requested failed confirmed [] = confirmed"
| "confirm_entries requested failed confirmed (None # es) = confirm_entries requested failed confirmed es"
| "confirm_entries requested failed confirmed (Some i # es) =
     (if Some i \<in> set failed then confirm_entries requested failed confirmed es
      else (case map_of requested i of
              None \<Rightarrow> confirm_entries requested failed confirmed es
            | Some receipt \<Rightarrow> confirm_entries requested failed (js_set_add receipt confirmed) es))"

record batch_result =
  Successful :: "string option list option"
  Failed :: "string option list option"

definition confirmedBatchReceipts :: "string list \<Rightarrow> batch_result \<Rightarrow> string list" where
  "confirmedBatchReceipts receipts result =
     confirm_entries (requested_ids receipts)
       (case Failed result of None \<Rightarrow> [] | Some es \<Rightarrow> es) []
       (case Successful result of None \<Rightarrow> [] | Some es \<Rightarrow> es)"

lemma map_of_requested_ids:
  "map_of (requested_ids receipts) k = Some r \<longleftrightarrow>
     (\<exists>i < length receipts. k = js_String_nat i \<and> r = receipts ! i)"
proof -
  have d: "distinct (map fst (requested_ids receipts))"
    by (simp add: requested_ids_def distinct_map inj_on_def)
  show ?thesis
    unfolding map_of_eq_Some_iff [OF d] by (force simp: requested_ids_def set_zip)
qed

lemma set_confirm_entries:
  "set (confirm_entries requested failed confirmed es) =
     set confirmed \<union> {r. \<exists>k. Some k \<in> set es \<and> Some k \<notin> set failed \<and> map_of requested k = Some r}"
proof (induction es arbitrary: confirmed)
  case (Cons e es)
  show ?case by (cases e) (auto simp: Cons.IH split: option.splits)
qed simp

lemma distinct_confirm_entries:
  "distinct confirmed \<Longrightarrow> distinct (confirm_entries requested failed confirmed es)"
proof (induction es arbitrary: confirmed)
  case (Cons e es)
  then show ?case by (cases e) (auto split: option.splits)
qed simp

text \<open>An entry at position \<open>i\<close> counts as confirmed when it is reported successful and not failed.\<close>

definition entry_confirmed :: "batch_result \<Rightarrow> nat \<Rightarrow> bool" where
  "entry_confirmed result i \<longleftrightarrow>
     Some (js_String_nat i) \<in> set (case Successful result of None \<Rightarrow> [] | Some es \<Rightarrow> es)
     \<and> Some (js_String_nat i) \<notin> set (case Failed result of None \<Rightarrow> [] | Some es \<Rightarrow> es)"

lemma confirmedBatchReceipts_set:
  "set (confirmedBatchReceipts receipts result) =
     {receipts ! i | i. i < length receipts \<and> entry_confirmed result i}"
  unfolding confirmedBatchReceipts_def set_confirm_entries map_of_requested_ids entry_confirmed_def
  by auto

lemma confirmedBatchReceipts_subset:
  "r \<in> set (confirmedBatchReceipts receipts result) \<Longrightarrow> r \<in> set receipts"
  by (auto simp: confirmedBatchReceipts_set)

lemma confirmedBatchReceipts_distinct [simp]: "distinct (confirmedBatchReceipts receipts result)"
  by (simp add: confirmedBatchReceipts_def distinct_confirm_entries)

section \<open>Properties\<close>

text \<open>The check the callers make is the right one: for distinct receipts, the number of confirmed ones
  equals the size of the request exactly when the result reports every entry as successful and none as
  failed; identifiers that were not requested, missing identifiers and contradictory entries confirm
  nothing.\<close>

theorem confirmation_count_is_complete:
  assumes "distinct receipts"
  shows "length (confirmedBatchReceipts receipts result) = length receipts \<longleftrightarrow>
    (\<forall>i < length receipts. entry_confirmed result i)"
proof -
  let ?c = "confirmedBatchReceipts receipts result"
  have "length ?c = length receipts \<longleftrightarrow> card (set ?c) = card (set receipts)"
    using assms by (simp add: distinct_card)
  also have "\<dots> \<longleftrightarrow> set ?c = set receipts"
    using confirmedBatchReceipts_subset by (metis List.finite_set card_subset_eq subsetI)
  also have "\<dots> \<longleftrightarrow> (\<forall>i < length receipts. entry_confirmed result i)"
  proof
    assume eq: "set ?c = set receipts"
    show "\<forall>i < length receipts. entry_confirmed result i"
    proof (intro allI impI)
      fix i assume i: "i < length receipts"
      then have "receipts ! i \<in> set ?c" by (simp add: eq)
      then obtain j where "j < length receipts" "receipts ! j = receipts ! i" "entry_confirmed result j"
        by (auto simp: confirmedBatchReceipts_set)
      with i assms show "entry_confirmed result i" by (simp add: nth_eq_iff_index_eq)
    qed
  next
    assume "\<forall>i < length receipts. entry_confirmed result i"
    then show "set ?c = set receipts" unfolding confirmedBatchReceipts_set set_conv_nth [of receipts] by blast
  qed
  finally show ?thesis .
qed

theorem confirmation_count_is_complete_witness:
  "length (confirmedBatchReceipts [''r0'', ''r1''] \<lparr>Successful = Some [Some ''0'', Some ''1''], Failed = None\<rparr>) = 2"
proof -
  have "js_String_nat 0 = ''0''" "js_String_nat 1 = ''1''"
    by code_simp+
  then show ?thesis
    using confirmation_count_is_complete [of "[''r0'', ''r1'']"
      "\<lparr>Successful = Some [Some ''0'', Some ''1''], Failed = None\<rparr>"]
    by (simp add: entry_confirmed_def less_2_cases_iff numeral_2_eq_2 less_Suc_eq)
qed

end
