(* ===== verification/Visibility.thy ===== *)
theory Visibility
  imports Prelude
begin

text \<open>
  Visibility leases (\<open>packages/worker/src/delivery/visibility.ts\<close>): the worker's record of the
  messages it holds, renewed every ten seconds in batches.

  \<^item> A map entry is a JavaScript object, compared by identity after an asynchronous renewal; it
    carries its identity as \<open>entryId\<close>, drawn from a counter when \<open>track\<close> creates it.
  \<^item> The map is the association list of its entries in insertion order; \<open>AList.update\<close> keeps the
    position of an existing key, as \<open>Map.set\<close> does.
  \<^item> A promise in \<open>pending\<close> is its identity and the batches whose requests are outstanding.  All
    batches of a renewal start in one synchronous run, during which the clock is read once here.
  \<^item> \<open>onError\<close>, which the worker sets to \<open>console.error\<close>, is the list \<open>reported\<close>.

  The step relation at the end runs the leases beside a queue that hides each received message
  until a deadline, with the clock, lost responses and late renewals.
\<close>

section \<open>State and operations\<close>

record lease =
  entryId :: nat
  expiresAt :: int

record renewal =
  startedAt :: int
  batch :: "(string \<times> lease) list"

record leases =
  receipts :: "(string \<times> lease) list"
  pending :: "(nat \<times> renewal list) option"
  nextEntry :: nat
  nextPromise :: nat
  timer :: bool
  reported :: "exn list"

definition newVisibilityLeases :: leases where
  "newVisibilityLeases =
     \<lparr>receipts = [], pending = None, nextEntry = 0, nextPromise = 0, timer = True, reported = []\<rparr>"

definition track :: "int \<Rightarrow> string \<Rightarrow> leases \<Rightarrow> leases" where
  "track now receipt ls =
     ls\<lparr>receipts := AList.update receipt \<lparr>entryId = nextEntry ls, expiresAt = now + 30000\<rparr> (receipts ls),
        nextEntry := nextEntry ls + 1\<rparr>"

definition trackedSize :: "leases \<Rightarrow> nat" where
  "trackedSize ls = length (receipts ls)"

definition ownedSize :: "int \<Rightarrow> leases \<Rightarrow> nat" where
  "ownedSize now ls = length (filter (\<lambda>(_, e). now < expiresAt e) (receipts ls))"

definition isCurrent :: "int \<Rightarrow> string \<Rightarrow> leases \<Rightarrow> bool" where
  "isCurrent now receipt ls \<longleftrightarrow>
     now + 5000 < (case map_of (receipts ls) receipt of None \<Rightarrow> 0 | Some e \<Rightarrow> expiresAt e)"

text \<open>\<open>release\<close> deletes the entry and then waits for the promise in \<open>pending\<close>, when there is one.
  \<open>release\<close> gives the state after the deletion and the promise to wait for; the wait is over when
  \<open>settled\<close> holds of that promise.\<close>

definition release :: "string \<Rightarrow> leases \<Rightarrow> leases \<times> nat option" where
  "release receipt ls = (ls\<lparr>receipts := AList.delete receipt (receipts ls)\<rparr>, map_option fst (pending ls))"

definition settled :: "nat option \<Rightarrow> leases \<Rightarrow> bool" where
  "settled promise ls \<longleftrightarrow>
     (case promise of None \<Rightarrow> True | Some k \<Rightarrow> (case pending ls of None \<Rightarrow> True | Some (k', _) \<Rightarrow> k' \<noteq> k))"

definition renewNow :: "int \<Rightarrow> leases \<Rightarrow> leases" where
  "renewNow now ls =
     (case pending ls of
        Some _ \<Rightarrow> ls
      | None \<Rightarrow>
          let entries = filter (\<lambda>(_, e). now < expiresAt e) (receipts ls)
          in ls\<lparr>pending := Some (nextPromise ls,
                  map (\<lambda>b. \<lparr>startedAt = now, batch = b\<rparr>) (batches_of 10 entries)),
                nextPromise := nextPromise ls + 1\<rparr>)"

fun set_expiry :: "(string \<Rightarrow> int) \<Rightarrow> (string \<times> lease) list \<Rightarrow> (string \<times> lease) list \<Rightarrow> (string \<times> lease) list" where
  "set_expiry expiry [] rs = rs"
| "set_expiry expiry ((receipt, entry) # es) rs =
     set_expiry expiry es
       (case map_of rs receipt of
          None \<Rightarrow> rs
        | Some e \<Rightarrow> if entryId e \<noteq> entryId entry then rs
                   else AList.update receipt (e\<lparr>expiresAt := expiry receipt\<rparr>) rs)"

definition finishBatch :: "nat \<Rightarrow> leases \<Rightarrow> leases" where
  "finishBatch i ls =
     ls\<lparr>pending := map_option (\<lambda>(k, bs). (k, take i bs @ drop (Suc i) bs)) (pending ls)\<rparr>"

definition completeBatch :: "renewal \<Rightarrow> string list \<Rightarrow> leases \<Rightarrow> leases" where
  "completeBatch b confirmed ls =
     (let ls' = ls\<lparr>receipts := set_expiry (\<lambda>r. if r \<in> set confirmed then startedAt b + 30000 else 0)
                     (batch b) (receipts ls)\<rparr>
      in if \<exists>(r, _) \<in> set (batch b). r \<notin> set confirmed
         then ls'\<lparr>reported := reported ls' @ [Error ''SQS did not confirm every visibility renewal'']\<rparr>
         else ls')"

definition failBatch :: "renewal \<Rightarrow> exn \<Rightarrow> leases \<Rightarrow> leases" where
  "failBatch b err ls =
     ls\<lparr>receipts := set_expiry (\<lambda>_. 0) (batch b) (receipts ls), reported := reported ls @ [err]\<rparr>"

text \<open>The renewal is over when no batch is outstanding: then its \<open>then\<close> handler clears \<open>pending\<close>.\<close>

definition settleRenewal :: "leases \<Rightarrow> leases" where
  "settleRenewal ls = (case pending ls of Some (_, []) \<Rightarrow> ls\<lparr>pending := None\<rparr> | _ \<Rightarrow> ls)"

text \<open>\<open>stop\<close> stops the timer at once and clears the map after waiting.\<close>

definition stopTimer :: "leases \<Rightarrow> leases \<times> nat option" where
  "stopTimer ls = (ls\<lparr>timer := False\<rparr>, map_option fst (pending ls))"

definition clearLeases :: "leases \<Rightarrow> leases" where
  "clearLeases ls = ls\<lparr>receipts := []\<rparr>"

section \<open>Lemmas on the operations\<close>

lemma map_of_set_expiry:
  "map_of (set_expiry expiry es rs) r =
     (case map_of rs r of None \<Rightarrow> None
      | Some e \<Rightarrow> Some (if \<exists>x. (r, x) \<in> set es \<and> entryId x = entryId e then e\<lparr>expiresAt := expiry r\<rparr> else e))"
proof (induction es arbitrary: rs)
  case Nil
  then show ?case by (simp split: option.splits)
next
  case (Cons p es)
  obtain q x where p: "p = (q, x)" by (cases p)
  show ?case
    by (auto simp: p Cons.IH update_conv' split: option.splits)
qed

lemma map_of_track:
  "map_of (receipts (track now r ls)) = (map_of (receipts ls))(r \<mapsto> \<lparr>entryId = nextEntry ls, expiresAt = now + 30000\<rparr>)"
  by (simp add: track_def update_conv')

lemma map_of_release:
  "map_of (receipts (fst (release r ls))) r' = (if r' = r then None else map_of (receipts ls) r')"
  by (simp add: release_def delete_conv)

lemma receipts_completeBatch [simp]:
  "receipts (completeBatch b c ls) = set_expiry (\<lambda>r. if r \<in> set c then startedAt b + 30000 else 0) (batch b) (receipts ls)"
  by (simp add: completeBatch_def Let_def)

lemma completeBatch_fields [simp]:
  "pending (completeBatch b c ls) = pending ls" "nextEntry (completeBatch b c ls) = nextEntry ls"
  "nextPromise (completeBatch b c ls) = nextPromise ls"
  by (simp_all add: completeBatch_def Let_def)

lemma renewNow_fields [simp]:
  "receipts (renewNow now ls) = receipts ls" "nextEntry (renewNow now ls) = nextEntry ls"
  by (simp_all add: renewNow_def Let_def split: option.splits)

lemma settleRenewal_fields [simp]:
  "receipts (settleRenewal ls) = receipts ls" "nextEntry (settleRenewal ls) = nextEntry ls"
  "nextPromise (settleRenewal ls) = nextPromise ls"
  by (simp_all add: settleRenewal_def split: option.splits prod.splits list.splits)

text \<open>The batches outstanding.\<close>

definition outstanding :: "leases \<Rightarrow> renewal list" where
  "outstanding ls = (case pending ls of None \<Rightarrow> [] | Some (_, bs) \<Rightarrow> bs)"

lemma outstanding_simps [simp]:
  "outstanding (track now r ls) = outstanding ls" "outstanding (fst (release r ls)) = outstanding ls"
  "outstanding (completeBatch b c ls) = outstanding ls" "outstanding (failBatch b err ls) = outstanding ls"
  "outstanding (settleRenewal ls) = outstanding ls" "outstanding (clearLeases ls) = outstanding ls"
  "outstanding (fst (stopTimer ls)) = outstanding ls"
  by (auto simp: outstanding_def track_def release_def failBatch_def settleRenewal_def clearLeases_def
      stopTimer_def split: option.splits list.splits)

lemma outstanding_finishBatch: "set (outstanding (finishBatch i ls)) \<subseteq> set (outstanding ls)"
  by (auto simp: outstanding_def finishBatch_def dest: in_set_takeD in_set_dropD split: option.splits)

lemma outstanding_renewNow:
  "b \<in> set (outstanding (renewNow now ls)) \<Longrightarrow>
   b \<in> set (outstanding ls) \<or> (pending ls = None \<and> startedAt b = now \<and> set (batch b) \<subseteq> set (receipts ls))"
  by (auto simp: outstanding_def renewNow_def Let_def split: option.splits dest!: batches_of_subset)

section \<open>The leases beside the queue\<close>

text \<open>
  \<open>hidden r\<close> is the time until which the queue hides the message of receipt \<open>r\<close>; \<open>arriving\<close> are the
  receipts whose receive response is under way, with the time the queue hid them; \<open>granted\<close> are the
  entries of outstanding batches the queue has processed, \<open>strays\<close> receipts of renewals the worker
  gave up that the queue may still process.
\<close>

record lease_world =
  leases_of :: leases
  clock :: int
  hidden :: "string \<Rightarrow> int"
  arriving :: "(string \<times> int) list"
  granted :: "(renewal \<times> string) list"
  strays :: "string list"

text \<open>The largest time from hiding a message to tracking it, in milliseconds, is \<open>latency\<close>.\<close>

inductive lease_step :: "int \<Rightarrow> lease_world \<Rightarrow> lease_world \<Rightarrow> bool" for latency :: int where
  time: "0 \<le> d \<Longrightarrow> lease_step latency w (w\<lparr>clock := clock w + d\<rparr>)"
| receive: "lease_step latency w
    (w\<lparr>hidden := (hidden w)(r := clock w + 30000), arriving := (r, clock w) # arriving w\<rparr>)"
| response: "(r, t) \<in> set (arriving w) \<Longrightarrow> clock w \<le> t + latency \<Longrightarrow>
    lease_step latency w
      (w\<lparr>leases_of := track (clock w) r (leases_of w), arriving := removeAll (r, t) (arriving w)\<rparr>)"
| tick: "timer (leases_of w) \<Longrightarrow>
    lease_step latency w (w\<lparr>leases_of := renewNow (clock w) (leases_of w)\<rparr>)"
| grant: "b \<in> set (outstanding (leases_of w)) \<Longrightarrow> r \<in> fst ` set (batch b) \<Longrightarrow>
    lease_step latency w
      (w\<lparr>hidden := (hidden w)(r := clock w + 30000), granted := (b, r) # granted w\<rparr>)"
| stray: "r \<in> set (strays w) \<Longrightarrow>
    lease_step latency w (w\<lparr>hidden := (hidden w)(r := clock w + 30000)\<rparr>)"
| answer: "i < length (outstanding (leases_of w)) \<Longrightarrow> b = outstanding (leases_of w) ! i \<Longrightarrow>
    (\<forall>r \<in> set confirmed. (b, r) \<in> set (granted w)) \<Longrightarrow>
    lease_step latency w (w\<lparr>leases_of := finishBatch i (completeBatch b confirmed (leases_of w))\<rparr>)"
| abort: "i < length (outstanding (leases_of w)) \<Longrightarrow> b = outstanding (leases_of w) ! i \<Longrightarrow>
    lease_step latency w
      (w\<lparr>leases_of := finishBatch i (failBatch b err (leases_of w)), strays := map fst (batch b) @ strays w\<rparr>)"
| settle: "lease_step latency w (w\<lparr>leases_of := settleRenewal (leases_of w)\<rparr>)"
| give_up: "lease_step latency w (w\<lparr>leases_of := fst (release r (leases_of w))\<rparr>)"
| hide: "map_of (receipts (leases_of w)) r = None \<Longrightarrow> r \<notin> fst ` set (arriving w) \<Longrightarrow>
    lease_step latency w (w\<lparr>hidden := (hidden w)(r := t)\<rparr>)"
| halt: "lease_step latency w (w\<lparr>leases_of := fst (stopTimer (leases_of w))\<rparr>)"
| clear: "lease_step latency w (w\<lparr>leases_of := clearLeases (leases_of w)\<rparr>)"

inductive_cases lease_stepE: "lease_step latency w w'"

definition lease_world0 :: lease_world where
  "lease_world0 = \<lparr>leases_of = newVisibilityLeases, clock = 0, hidden = (\<lambda>_. 0), arriving = [], granted = [],
     strays = []\<rparr>"

inductive lease_reach :: "int \<Rightarrow> lease_world \<Rightarrow> bool" for latency :: int where
  start: "lease_reach latency lease_world0"
| step: "lease_reach latency w \<Longrightarrow> lease_step latency w w' \<Longrightarrow> lease_reach latency w'"

text \<open>What holds of every tracked entry, every outstanding batch and every response under way.  An
  entry's object is known by its receipt and identity: identities are drawn from the counter.\<close>

definition tracked_ok :: "int \<Rightarrow> lease_world \<Rightarrow> bool" where
  "tracked_ok latency w \<longleftrightarrow> (\<forall>r e. map_of (receipts (leases_of w)) r = Some e \<longrightarrow>
     entryId e < nextEntry (leases_of w) \<and> expiresAt e \<le> hidden w r + latency
     \<and> expiresAt e \<le> clock w + 30000)"

definition batches_ok :: "lease_world \<Rightarrow> bool" where
  "batches_ok w \<longleftrightarrow> (\<forall>b \<in> set (outstanding (leases_of w)). startedAt b \<le> clock w
     \<and> (\<forall>(r, e) \<in> set (batch b). entryId e < nextEntry (leases_of w)))"

definition granted_ok :: "lease_world \<Rightarrow> bool" where
  "granted_ok w \<longleftrightarrow> (\<forall>(b, r) \<in> set (granted w). startedAt b \<le> clock w
     \<and> (\<forall>e x. map_of (receipts (leases_of w)) r = Some e \<longrightarrow> (r, x) \<in> set (batch b) \<longrightarrow>
          entryId x = entryId e \<longrightarrow> startedAt b + 30000 \<le> hidden w r)
     \<and> (\<forall>(q, e) \<in> set (batch b). entryId e < nextEntry (leases_of w)))"

definition arriving_ok :: "lease_world \<Rightarrow> bool" where
  "arriving_ok w \<longleftrightarrow> (\<forall>(r, t) \<in> set (arriving w). 0 \<le> t \<and> t + 30000 \<le> hidden w r \<and> t \<le> clock w)"

definition lease_inv :: "int \<Rightarrow> lease_world \<Rightarrow> bool" where
  "lease_inv latency w \<longleftrightarrow> 0 \<le> clock w \<and> distinct (map fst (receipts (leases_of w)))
     \<and> (\<forall>r. 0 \<le> hidden w r \<or> map_of (receipts (leases_of w)) r = None)
     \<and> tracked_ok latency w \<and> batches_ok w \<and> granted_ok w \<and> arriving_ok w"

lemmas lease_inv_defs =
  lease_inv_def tracked_ok_def batches_ok_def granted_ok_def arriving_ok_def

lemma tracked_okD:
  "tracked_ok latency w \<Longrightarrow> map_of (receipts (leases_of w)) r = Some e \<Longrightarrow>
   entryId e < nextEntry (leases_of w) \<and> expiresAt e \<le> hidden w r + latency \<and> expiresAt e \<le> clock w + 30000"
  by (simp add: tracked_ok_def)

lemma batches_okD:
  "batches_ok w \<Longrightarrow> b \<in> set (outstanding (leases_of w)) \<Longrightarrow>
   startedAt b \<le> clock w \<and> (\<forall>(r, e) \<in> set (batch b). entryId e < nextEntry (leases_of w))"
  by (simp add: batches_ok_def)

lemma granted_okD:
  assumes "granted_ok w" and "(b, r) \<in> set (granted w)"
  shows "startedAt b \<le> clock w"
    and "map_of (receipts (leases_of w)) r = Some e \<Longrightarrow> (r, x) \<in> set (batch b) \<Longrightarrow> entryId x = entryId e \<Longrightarrow>
      startedAt b + 30000 \<le> hidden w r"
    and "(q, x) \<in> set (batch b) \<Longrightarrow> entryId x < nextEntry (leases_of w)"
  using assms by (auto simp: granted_ok_def)

lemma granted_okI:
  assumes "\<And>b r. (b, r) \<in> set (granted w) \<Longrightarrow> startedAt b \<le> clock w"
    and "\<And>b r q x. (b, r) \<in> set (granted w) \<Longrightarrow> (q, x) \<in> set (batch b) \<Longrightarrow> entryId x < nextEntry (leases_of w)"
    and "\<And>b r e x. (b, r) \<in> set (granted w) \<Longrightarrow> map_of (receipts (leases_of w)) r = Some e \<Longrightarrow>
      (r, x) \<in> set (batch b) \<Longrightarrow> entryId x = entryId e \<Longrightarrow> startedAt b + 30000 \<le> hidden w r"
  shows "granted_ok w"
  unfolding granted_ok_def by (intro ballI; clarify) (use assms in blast)

lemma lease_inv_start: "lease_inv latency lease_world0"
  by (simp add: lease_inv_defs lease_world0_def newVisibilityLeases_def outstanding_def)

lemma distinct_set_expiry: "distinct (map fst rs) \<Longrightarrow> distinct (map fst (set_expiry expiry es rs))"
proof (induction es arbitrary: rs)
  case (Cons p es)
  then show ?case by (cases p) (simp add: distinct_update split: option.splits)
qed simp

lemma lease_inv_time:
  assumes inv: "lease_inv latency w" and d: "0 \<le> d"
  shows "lease_inv latency (w\<lparr>clock := clock w + d\<rparr>)" (is "lease_inv _ ?w")
proof -
  have "tracked_ok latency ?w" using inv d unfolding lease_inv_def tracked_ok_def by fastforce
  moreover have "batches_ok ?w" using inv d unfolding lease_inv_def batches_ok_def by fastforce
  moreover have "granted_ok ?w" using inv d unfolding lease_inv_def granted_ok_def by fastforce
  moreover have "arriving_ok ?w" using inv d unfolding lease_inv_def arriving_ok_def by fastforce
  ultimately show ?thesis using inv d by (simp add: lease_inv_def)
qed

text \<open>The queue hiding a message anew keeps the invariant: no promise reaches beyond that.\<close>

lemma lease_inv_extend:
  assumes inv: "lease_inv latency w" and l: "0 \<le> latency"
  shows "lease_inv latency (w\<lparr>hidden := (hidden w)(r := clock w + 30000)\<rparr>)" (is "lease_inv _ ?w")
proof -
  have "0 \<le> hidden ?w q \<or> map_of (receipts (leases_of ?w)) q = None" for q
    using inv by (auto simp: lease_inv_def dest: spec [of _ q])
  moreover have "tracked_ok latency ?w"
    using inv l unfolding lease_inv_def tracked_ok_def by fastforce
  moreover have "batches_ok ?w"
    using inv unfolding lease_inv_def batches_ok_def by simp
  moreover have "granted_ok ?w"
    using inv unfolding lease_inv_def granted_ok_def by fastforce
  moreover have "arriving_ok ?w"
    using inv unfolding lease_inv_def arriving_ok_def by auto
  ultimately show ?thesis using inv by (simp add: lease_inv_def)
qed

lemma lease_inv_receive:
  assumes inv: "lease_inv latency w" and l: "0 \<le> latency"
  shows "lease_inv latency
    (w\<lparr>hidden := (hidden w)(r := clock w + 30000), arriving := (r, clock w) # arriving w\<rparr>)"
proof -
  have "0 \<le> clock w" using inv by (simp add: lease_inv_def)
  with lease_inv_extend [OF assms, of r] show ?thesis
    unfolding lease_inv_defs by (simp add: case_prod_beta)
qed

lemma lease_inv_grant:
  assumes inv: "lease_inv latency w" and l: "0 \<le> latency" and b: "b \<in> set (outstanding (leases_of w))"
  shows "lease_inv latency (w\<lparr>hidden := (hidden w)(r := clock w + 30000), granted := (b, r) # granted w\<rparr>)"
proof -
  have "startedAt b \<le> clock w \<and> (\<forall>(r, e) \<in> set (batch b). entryId e < nextEntry (leases_of w))"
    using inv b by (auto simp: lease_inv_def dest: batches_okD)
  with lease_inv_extend [OF inv l, of r] show ?thesis
    unfolding lease_inv_defs by (simp add: case_prod_beta)
qed

lemma lease_inv_response:
  assumes inv: "lease_inv latency w" and l: "0 \<le> latency"
    and a: "(r, t) \<in> set (arriving w)" and c: "clock w \<le> t + latency"
  shows "lease_inv latency
    (w\<lparr>leases_of := track (clock w) r (leases_of w), arriving := removeAll (r, t) (arriving w)\<rparr>)"
    (is "lease_inv _ ?w")
proof -
  have h: "0 \<le> t" "t + 30000 \<le> hidden w r"
    using inv a by (auto simp: lease_inv_def arriving_ok_def)
  have n: "nextEntry (leases_of ?w) = nextEntry (leases_of w) + 1"
    by (simp add: track_def)
  have "0 \<le> hidden ?w q \<or> map_of (receipts (leases_of ?w)) q = None" for q
    using inv h by (auto simp: lease_inv_def map_of_track dest: spec [of _ q])
  moreover have "tracked_ok latency ?w"
    using inv h c unfolding lease_inv_def tracked_ok_def
    by (auto simp: map_of_track n [simplified] less_Suc_eq split: if_splits)
  moreover have "batches_ok ?w"
    using inv unfolding lease_inv_def batches_ok_def n by fastforce
  moreover have "granted_ok ?w"
  proof (rule granted_okI)
    fix b q assume g: "(b, q) \<in> set (granted ?w)"
    then show "startedAt b \<le> clock ?w"
      using granted_okD [of w b q] inv by (simp add: lease_inv_def)
    have old: "entryId x < nextEntry (leases_of w)" if "(p, x) \<in> set (batch b)" for p x
      using granted_okD(3) [of w b q p x] g inv that by (simp add: lease_inv_def)
    show "entryId x < nextEntry (leases_of ?w)" if "(p, x) \<in> set (batch b)" for p x
      using old [OF that] n by simp
    fix e x assume e: "map_of (receipts (leases_of ?w)) q = Some e" and x: "(q, x) \<in> set (batch b)"
      and eq: "entryId x = entryId e"
    show "startedAt b + 30000 \<le> hidden ?w q"
    proof (cases "q = r")
      case True
      then have "entryId e = nextEntry (leases_of w)" using e by (auto simp: map_of_track)
      with old [OF x] eq show ?thesis by simp
    next
      case False
      then show ?thesis
        using granted_okD(2) [of w b q e x] g inv e x eq by (simp add: lease_inv_def map_of_track)
    qed
  qed
  moreover have "arriving_ok ?w"
    using inv unfolding lease_inv_def arriving_ok_def by auto
  ultimately show ?thesis using inv by (simp add: lease_inv_def track_def distinct_update)
qed

lemma lease_inv_same:
  assumes inv: "lease_inv latency w"
    and b: "batches_ok (w\<lparr>leases_of := ls\<rparr>)"
    and r: "receipts ls = receipts (leases_of w)" and n: "nextEntry ls = nextEntry (leases_of w)"
  shows "lease_inv latency (w\<lparr>leases_of := ls\<rparr>)"
proof -
  have "tracked_ok latency (w\<lparr>leases_of := ls\<rparr>) = tracked_ok latency w"
    "granted_ok (w\<lparr>leases_of := ls\<rparr>) = granted_ok w" "arriving_ok (w\<lparr>leases_of := ls\<rparr>) = arriving_ok w"
    unfolding tracked_ok_def granted_ok_def arriving_ok_def by (simp_all del: map_of_eq_Some_iff add: r n)
  with inv b show ?thesis by (simp add: lease_inv_def r)
qed

lemma lease_inv_tick:
  assumes inv: "lease_inv latency w"
  shows "lease_inv latency (w\<lparr>leases_of := renewNow (clock w) (leases_of w)\<rparr>)" (is "lease_inv _ ?w")
proof -
  have "batches_ok ?w"
    unfolding batches_ok_def
  proof (intro ballI)
    fix b assume "b \<in> set (outstanding (leases_of ?w))"
    then consider "b \<in> set (outstanding (leases_of w))"
      | "startedAt b = clock w" "set (batch b) \<subseteq> set (receipts (leases_of w))"
      using outstanding_renewNow by fastforce
    then show "startedAt b \<le> clock ?w \<and> (\<forall>(r, e) \<in> set (batch b). entryId e < nextEntry (leases_of ?w))"
    proof cases
      case 1
      then show ?thesis using inv by (simp add: lease_inv_def batches_ok_def)
    next
      case 2
      have "entryId e < nextEntry (leases_of w)" if "(r, e) \<in> set (batch b)" for r e
      proof -
        have "map_of (receipts (leases_of w)) r = Some e"
          using inv 2 that by (auto simp: lease_inv_def)
        then show ?thesis using inv by (auto simp: lease_inv_def dest: tracked_okD)
      qed
      with 2 show ?thesis by auto
    qed
  qed
  then show ?thesis by (rule lease_inv_same [OF inv]) simp_all
qed

text \<open>An answered or aborted batch: an entry gets the new expiry only when its own object is tracked.\<close>

lemma lease_inv_set_expiry:
  assumes inv: "lease_inv latency w" and l: "0 \<le> latency"
    and rs: "receipts ls = set_expiry expiry es (receipts (leases_of w))"
    and n: "nextEntry ls = nextEntry (leases_of w)"
    and out: "set (outstanding ls) \<subseteq> set (outstanding (leases_of w))"
    and expiry: "\<And>r e x. map_of (receipts (leases_of w)) r = Some e \<Longrightarrow> (r, x) \<in> set es \<Longrightarrow>
      entryId x = entryId e \<Longrightarrow> expiry r \<le> hidden w r \<and> expiry r \<le> clock w + 30000"
  shows "lease_inv latency (w\<lparr>leases_of := ls, strays := st\<rparr>)" (is "lease_inv _ ?w")
proof -
  have m: "map_of (receipts (leases_of ?w)) r = Some e' \<Longrightarrow>
      \<exists>e. map_of (receipts (leases_of w)) r = Some e \<and> entryId e' = entryId e
        \<and> (e' = e \<or> expiresAt e' = expiry r \<and> (\<exists>x. (r, x) \<in> set es \<and> entryId x = entryId e))" for r e'
    by (auto simp: rs map_of_set_expiry split: option.splits if_splits)
  have "0 \<le> hidden ?w r \<or> map_of (receipts (leases_of ?w)) r = None" for r
    using inv by (auto simp: lease_inv_def rs map_of_set_expiry dest: spec [of _ r] split: option.splits)
  moreover have "tracked_ok latency ?w"
    unfolding tracked_ok_def
  proof (intro allI impI)
    fix r e' assume "map_of (receipts (leases_of ?w)) r = Some e'"
    from m [OF this] obtain e where e: "map_of (receipts (leases_of w)) r = Some e" "entryId e' = entryId e"
      and c: "e' = e \<or> expiresAt e' = expiry r \<and> (\<exists>x. (r, x) \<in> set es \<and> entryId x = entryId e)" by blast
    have t: "entryId e < nextEntry (leases_of w)" "expiresAt e \<le> hidden w r + latency" "expiresAt e \<le> clock w + 30000"
      using inv e(1) by (auto simp: lease_inv_def dest: tracked_okD)
    then show "entryId e' < nextEntry (leases_of ?w) \<and> expiresAt e' \<le> hidden ?w r + latency
        \<and> expiresAt e' \<le> clock ?w + 30000"
      using c expiry [OF e(1)] l e(2) n by fastforce
  qed
  moreover have "batches_ok ?w"
    using inv out unfolding lease_inv_def batches_ok_def by (auto simp: n)
  moreover have "granted_ok ?w"
  proof (rule granted_okI)
    fix b q assume g: "(b, q) \<in> set (granted ?w)"
    then show "startedAt b \<le> clock ?w"
      using granted_okD [of w b q] inv by (simp add: lease_inv_def)
    show "entryId x < nextEntry (leases_of ?w)" if "(p, x) \<in> set (batch b)" for p x
      using granted_okD(3) [of w b q p x] g inv that by (simp add: lease_inv_def n)
    fix e' x assume e': "map_of (receipts (leases_of ?w)) q = Some e'" and x: "(q, x) \<in> set (batch b)"
      and eq: "entryId x = entryId e'"
    from m [OF e'] obtain e where "map_of (receipts (leases_of w)) q = Some e" "entryId e' = entryId e" by blast
    with granted_okD(2) [of w b q e x] g inv x eq show "startedAt b + 30000 \<le> hidden ?w q"
      by (simp add: lease_inv_def)
  qed
  moreover have "arriving_ok ?w"
    using inv unfolding lease_inv_def arriving_ok_def by auto
  ultimately show ?thesis using inv by (simp add: lease_inv_def rs distinct_set_expiry)
qed

lemma lease_inv_answer:
  assumes inv: "lease_inv latency w" and l: "0 \<le> latency"
    and i: "i < length (outstanding (leases_of w))" "b = outstanding (leases_of w) ! i"
    and c: "\<forall>r \<in> set confirmed. (b, r) \<in> set (granted w)"
  shows "lease_inv latency (w\<lparr>leases_of := finishBatch i (completeBatch b confirmed (leases_of w))\<rparr>)"
proof -
  have b: "startedAt b \<le> clock w" "0 \<le> clock w" and g: "granted_ok w"
    using inv i nth_mem [OF i(1)] by (auto simp: lease_inv_def batches_ok_def)
  let ?f = "\<lambda>r. if r \<in> set confirmed then startedAt b + 30000 else (0::int)"
  have "lease_inv latency (w\<lparr>leases_of := finishBatch i (completeBatch b confirmed (leases_of w)), strays := strays w\<rparr>)"
  proof (rule lease_inv_set_expiry [OF inv l, of _ ?f "batch b"])
    fix r e x
    assume e: "map_of (receipts (leases_of w)) r = Some e" and x: "(r, x) \<in> set (batch b)" "entryId x = entryId e"
    have "0 \<le> hidden w r" using inv e by (auto simp: lease_inv_def dest: spec [of _ r])
    then show "?f r \<le> hidden w r \<and> ?f r \<le> clock w + 30000"
      using c b granted_okD(2) [OF g _ e x] by auto
  next
    show "set (outstanding (finishBatch i (completeBatch b confirmed (leases_of w)))) \<subseteq> set (outstanding (leases_of w))"
      using outstanding_finishBatch [of i "completeBatch b confirmed (leases_of w)"] by simp
  qed (simp_all add: finishBatch_def)
  then show ?thesis by simp
qed

lemma lease_inv_abort:
  assumes inv: "lease_inv latency w" and l: "0 \<le> latency"
  shows "lease_inv latency (w\<lparr>leases_of := finishBatch i (failBatch b err (leases_of w)), strays := st\<rparr>)"
proof (rule lease_inv_set_expiry [OF inv l, of _ "\<lambda>_. 0" "batch b"])
  fix r e x assume "map_of (receipts (leases_of w)) r = Some e"
  then show "(0::int) \<le> hidden w r \<and> 0 \<le> clock w + 30000"
    using inv by (auto simp: lease_inv_def dest: spec [of _ r])
next
  show "set (outstanding (finishBatch i (failBatch b err (leases_of w)))) \<subseteq> set (outstanding (leases_of w))"
    using outstanding_finishBatch [of i "failBatch b err (leases_of w)"] by simp
qed (simp_all add: finishBatch_def failBatch_def)

lemma lease_inv_untrack:
  assumes inv: "lease_inv latency w"
    and m: "\<And>r. map_of (receipts ls) r = None \<or> map_of (receipts ls) r = map_of (receipts (leases_of w)) r"
    and d: "distinct (map fst (receipts ls))"
    and n: "nextEntry ls = nextEntry (leases_of w)" and out: "outstanding ls = outstanding (leases_of w)"
  shows "lease_inv latency (w\<lparr>leases_of := ls\<rparr>)" (is "lease_inv _ ?w")
proof -
  have some: "map_of (receipts (leases_of w)) r = Some e" if "map_of (receipts ls) r = Some e" for r e
    using m [of r] that by auto
  have "0 \<le> hidden ?w r \<or> map_of (receipts (leases_of ?w)) r = None" for r
    using inv m [of r] by (auto simp: lease_inv_def dest: spec [of _ r])
  moreover have "tracked_ok latency ?w"
    unfolding tracked_ok_def
  proof (intro allI impI)
    fix r e assume "map_of (receipts (leases_of ?w)) r = Some e"
    then have "map_of (receipts (leases_of w)) r = Some e" by (intro some) simp
    then show "entryId e < nextEntry (leases_of ?w) \<and> expiresAt e \<le> hidden ?w r + latency
        \<and> expiresAt e \<le> clock ?w + 30000"
      using inv tracked_okD [of latency w r e] by (simp add: lease_inv_def n)
  qed
  moreover have "batches_ok ?w"
    using inv unfolding lease_inv_def batches_ok_def by (simp add: n out)
  moreover have "granted_ok ?w"
    using inv some by (auto intro!: granted_okI simp: n lease_inv_def dest: granted_okD simp del: map_of_eq_Some_iff)
  moreover have "arriving_ok ?w"
    using inv unfolding lease_inv_def arriving_ok_def by auto
  ultimately show ?thesis using inv d by (simp add: lease_inv_def)
qed

lemma lease_inv_hide:
  assumes inv: "lease_inv latency w" and u: "map_of (receipts (leases_of w)) r = None" "r \<notin> fst ` set (arriving w)"
  shows "lease_inv latency (w\<lparr>hidden := (hidden w)(r := t)\<rparr>)" (is "lease_inv _ ?w")
proof -
  have "0 \<le> hidden ?w q \<or> map_of (receipts (leases_of ?w)) q = None" for q
    using inv u by (auto simp: lease_inv_def dest: spec [of _ q])
  moreover have "tracked_ok latency ?w"
    using inv u unfolding lease_inv_def tracked_ok_def by auto
  moreover have "batches_ok ?w"
    using inv unfolding lease_inv_def batches_ok_def by simp
  moreover have "granted_ok ?w"
    using inv u by (auto intro!: granted_okI simp: lease_inv_def dest: granted_okD simp del: map_of_eq_Some_iff)
  moreover have "arriving_ok ?w"
    using inv u unfolding lease_inv_def arriving_ok_def by force
  ultimately show ?thesis using inv by (simp add: lease_inv_def)
qed

lemma lease_inv_step:
  assumes s: "lease_step latency w w'" and inv: "lease_inv latency w" and l: "0 \<le> latency"
  shows "lease_inv latency w'"
  using s inv
proof (cases rule: lease_step.cases)
  case settle
  have "batches_ok w" using inv by (simp add: lease_inv_def)
  then show ?thesis unfolding settle by (intro lease_inv_same [OF inv]) (simp_all add: batches_ok_def)
next
  case halt
  have "batches_ok w" using inv by (simp add: lease_inv_def)
  then show ?thesis unfolding halt
    by (intro lease_inv_same [OF inv]) (simp_all add: batches_ok_def stopTimer_def outstanding_def)
next
  case (give_up r)
  have d: "distinct (map fst (receipts (leases_of w)))" using inv by (simp add: lease_inv_def)
  show ?thesis unfolding give_up
    by (rule lease_inv_untrack [OF inv])
      (use d in \<open>auto simp: map_of_release simp del: map_of_eq_Some_iff, simp_all add: release_def distinct_delete\<close>)
next
  case clear
  show ?thesis unfolding clear by (rule lease_inv_untrack [OF inv]) (simp_all, simp_all add: clearLeases_def)
qed (auto intro: lease_inv_time lease_inv_receive lease_inv_response lease_inv_tick lease_inv_grant
      lease_inv_extend lease_inv_answer lease_inv_abort lease_inv_hide l)

lemma lease_inv_reach: "lease_reach latency w \<Longrightarrow> 0 \<le> latency \<Longrightarrow> lease_inv latency w"
  by (induction rule: lease_reach.induct) (auto intro: lease_inv_start lease_inv_step)

section \<open>Releasing\<close>

text \<open>Steps during which the receipt stays untracked.\<close>

definition quiet_step :: "int \<Rightarrow> string \<Rightarrow> lease_world \<Rightarrow> lease_world \<Rightarrow> bool" where
  "quiet_step latency r w w' \<longleftrightarrow> lease_step latency w w' \<and> map_of (receipts (leases_of w')) r = None"

lemma quiet_settle:
  "map_of (receipts (leases_of w)) r = None \<Longrightarrow> quiet_step latency r w (w\<lparr>leases_of := settleRenewal (leases_of w)\<rparr>)"
  by (simp add: quiet_step_def lease_step.settle del: map_of_eq_Some_iff)

definition only_in :: "string \<Rightarrow> nat option \<Rightarrow> leases \<Rightarrow> bool" where
  "only_in r promise ls \<longleftrightarrow>
     map_of (receipts ls) r = None
     \<and> ((\<exists>b \<in> set (outstanding ls). r \<in> fst ` set (batch b)) \<longrightarrow> map_option fst (pending ls) = promise)"

lemma pending_id_simps [simp]:
  "map_option fst (pending (finishBatch i ls)) = map_option fst (pending ls)"
  "pending (failBatch b err ls) = pending ls" "pending (track now r ls) = pending ls"
  "pending (fst (release r ls)) = pending ls" "pending (clearLeases ls) = pending ls"
  "pending (fst (stopTimer ls)) = pending ls"
  by (auto simp: finishBatch_def failBatch_def track_def release_def clearLeases_def stopTimer_def
      option.map_comp comp_def case_prod_beta intro: option.map_cong)

lemma only_in_same_pending:
  assumes "only_in r promise ls" and "map_of (receipts ls') r = None"
    and "set (outstanding ls') \<subseteq> set (outstanding ls)"
    and "map_option fst (pending ls') = map_option fst (pending ls)"
  shows "only_in r promise ls'"
  using assms unfolding only_in_def by (metis subsetD)

lemma only_in_quiet_step:
  assumes "quiet_step latency r w w'" and o': "only_in r promise (leases_of w)"
  shows "only_in r promise (leases_of w')"
proof -
  have s: "lease_step latency w w'" and u: "map_of (receipts (leases_of w')) r = None"
    using assms by (simp_all add: quiet_step_def)
  note same = only_in_same_pending [OF o' u]
  show ?thesis
    using s
  proof (cases rule: lease_step.cases)
    case tick
    show ?thesis
    proof (cases "pending (leases_of w)")
      case None
      have "r \<notin> fst ` set (batch b)" if "b \<in> set (outstanding (leases_of w'))" for b
        using outstanding_renewNow [of b "clock w" "leases_of w"] that u
        by (auto simp: tick None outstanding_def map_of_eq_None_iff rev_image_eqI)
      then show ?thesis using u by (auto simp: only_in_def)
    next
      case (Some p)
      then have "renewNow (clock w) (leases_of w) = leases_of w" by (simp add: renewNow_def)
      with o' show ?thesis by (simp add: tick)
    qed
  next
    case settle
    show ?thesis
    proof (cases "pending (leases_of w)")
      case None
      with o' show ?thesis by (simp add: settle settleRenewal_def)
    next
      case (Some p)
      then show ?thesis
        using o' by (cases p; cases "snd p") (simp_all add: settle settleRenewal_def only_in_def outstanding_def)
    qed
  next
    case (answer i b confirmed)
    show ?thesis
      using outstanding_finishBatch [of i "completeBatch b confirmed (leases_of w)"]
      by (intro same) (simp_all add: answer)
  next
    case (abort i b err)
    show ?thesis
      using outstanding_finishBatch [of i "failBatch b err (leases_of w)"]
      by (intro same) (simp_all add: abort)
  qed (use same in simp_all)
qed

section \<open>Properties\<close>

text \<open>C35: a lease the worker counts as current is still hidden by the queue.  In every reachable state
  of the leases and the queue, when messages are tracked at most five seconds after the queue hid
  them, \<open>isCurrent\<close> implies that no other worker can receive the message now; lost, partial and
  late renewals included.\<close>

theorem current_lease_is_hidden:
  assumes "lease_reach latency w" and "0 \<le> latency" and "latency \<le> 5000"
    and "isCurrent (clock w) r (leases_of w)"
  shows "clock w < hidden w r"
proof -
  have inv: "lease_inv latency w" using lease_inv_reach assms by blast
  then have "0 \<le> clock w" by (simp add: lease_inv_def)
  with assms(4) obtain e where e: "map_of (receipts (leases_of w)) r = Some e" "clock w + 5000 < expiresAt e"
    by (auto simp: isCurrent_def split: option.splits)
  then have "expiresAt e \<le> hidden w r + latency"
    using inv tracked_okD by (simp add: lease_inv_def del: map_of_eq_Some_iff)
  with e assms(3) show ?thesis by simp
qed

theorem current_lease_is_hidden_witness:
  "\<exists>w. isCurrent (clock w) ''m'' (leases_of w) \<and> lease_reach 5000 w \<and> clock w < hidden w ''m''"
proof -
  obtain w1 where w1: "w1 = lease_world0\<lparr>hidden := (hidden lease_world0)(''m'' := clock lease_world0 + 30000),
    arriving := (''m'', clock lease_world0) # arriving lease_world0\<rparr>" by blast
  obtain w2 where w2: "w2 = w1\<lparr>leases_of := track (clock w1) ''m'' (leases_of w1),
    arriving := removeAll (''m'', 0) (arriving w1)\<rparr>" by blast
  have "lease_step 5000 lease_world0 w1" unfolding w1 by (rule lease_step.receive)
  moreover have "lease_step 5000 w1 w2"
    unfolding w2 by (rule lease_step.response) (simp_all add: w1 lease_world0_def)
  ultimately have r: "lease_reach 5000 w2" using lease_reach.intros by metis
  have c: "isCurrent (clock w2) ''m'' (leases_of w2)"
    by (simp add: w2 w1 isCurrent_def track_def lease_world0_def newVisibilityLeases_def)
  have "clock w2 < hidden w2 ''m''" by (rule current_lease_is_hidden [OF r _ _ c]) simp_all
  with r c show ?thesis by blast
qed

text \<open>After \<open>release\<close> has waited, no renewal request for the receipt is outstanding, and none
  starts while the receipt stays untracked: the visibility the worker sets next, or the deletion, is
  not raced by a renewal.\<close>

theorem release_ends_renewals:
  assumes "release r (leases_of w) = (ls, promise)"
    and "(quiet_step latency r)\<^sup>*\<^sup>* (w\<lparr>leases_of := ls\<rparr>) w'" and "settled promise (leases_of w')"
  shows "\<forall>b \<in> set (outstanding (leases_of w')). r \<notin> fst ` set (batch b)"
proof -
  have "ls = fst (release r (leases_of w))" "promise = map_option fst (pending (leases_of w))"
    using assms(1) by (simp_all add: release_def)
  then have "only_in r promise (leases_of (w\<lparr>leases_of := ls\<rparr>))"
    by (simp add: only_in_def map_of_release del: map_of_eq_Some_iff)
  with assms(2) have "only_in r promise (leases_of w')"
    by (induction rule: rtranclp_induct) (auto dest: only_in_quiet_step)
  with assms(3) show ?thesis
    by (auto simp: only_in_def settled_def outstanding_def split: option.splits)
qed

theorem release_ends_renewals_witness:
  "\<exists>ls promise w'. release ''m'' (renewNow 0 (track 0 ''m'' newVisibilityLeases)) = (ls, promise)
     \<and> promise \<noteq> None \<and> (\<forall>b \<in> set (outstanding (leases_of w')). ''m'' \<notin> fst ` set (batch b))"
proof -
  let ?w = "lease_world0\<lparr>leases_of := renewNow 0 (track 0 ''m'' newVisibilityLeases)\<rparr>"
  let ?w1 = "?w\<lparr>leases_of := fst (release ''m'' (leases_of ?w))\<rparr>"
  let ?b = "outstanding (leases_of ?w1) ! 0"
  let ?w2 = "?w1\<lparr>leases_of := finishBatch 0 (failBatch ?b (Error []) (leases_of ?w1)), strays := map fst (batch ?b) @ strays ?w1\<rparr>"
  let ?w3 = "?w2\<lparr>leases_of := settleRenewal (leases_of ?w2)\<rparr>"
  have p: "pending (leases_of ?w1) = Some (0, [\<lparr>startedAt = 0, batch = [(''m'', \<lparr>entryId = 0, expiresAt = 30000\<rparr>)]\<rparr>])"
    by (simp add: renewNow_def track_def newVisibilityLeases_def release_def batches_of.simps Let_def)
  have n: "receipts (leases_of ?w1) = []"
    by (simp add: renewNow_def track_def newVisibilityLeases_def release_def AList.delete_eq)
  have s1: "quiet_step 0 ''m'' ?w1 ?w2"
    unfolding quiet_step_def
  proof
    show "lease_step 0 ?w1 ?w2"
      by (rule lease_step.abort) (use p in \<open>simp_all add: outstanding_def\<close>)
    show "map_of (receipts (leases_of ?w2)) ''m'' = None"
      by (simp add: finishBatch_def failBatch_def map_of_set_expiry n [simplified])
  qed
  have s2: "quiet_step 0 ''m'' ?w2 ?w3"
    by (rule quiet_settle) (use s1 in \<open>simp only: quiet_step_def\<close>)
  have "settled (Some 0) (leases_of ?w3)"
    using p by (simp add: settled_def settleRenewal_def finishBatch_def failBatch_def)
  moreover have r: "release ''m'' (leases_of ?w) = (fst (release ''m'' (leases_of ?w)), Some 0)"
    using p by (simp add: release_def)
  moreover have "(quiet_step 0 ''m'')\<^sup>*\<^sup>* ?w1 ?w3" using s1 s2 by simp
  ultimately have "\<forall>b \<in> set (outstanding (leases_of ?w3)). ''m'' \<notin> fst ` set (batch b)"
    using release_ends_renewals by blast
  with r show ?thesis by (metis (no_types, lifting) lease_world.select_convs(1) lease_world.surjective lease_world.update_convs(1) option.distinct(1))
qed

text \<open>One renewal asks for every live lease exactly once, in the order of the map, in requests of
  at most ten entries, the limit of the service.\<close>

theorem renewal_batches_partition_live_leases:
  assumes "pending ls = None"
  shows "concat (map batch (outstanding (renewNow now ls))) = filter (\<lambda>(_, e). now < expiresAt e) (receipts ls)
    \<and> (\<forall>b \<in> set (outstanding (renewNow now ls)). batch b \<noteq> [] \<and> length (batch b) \<le> 10 \<and> startedAt b = now)"
  using assms
  by (auto simp: renewNow_def outstanding_def Let_def comp_def concat_batches_of dest: batches_of_bounded)

theorem renewal_batches_partition_live_leases_witness:
  "concat (map batch (outstanding (renewNow 1 (track 0 ''m'' newVisibilityLeases))))
     = [(''m'', \<lparr>entryId = 0, expiresAt = 30000\<rparr>)]"
  using renewal_batches_partition_live_leases [of "track 0 ''m'' newVisibilityLeases" 1]
  by (simp add: track_def newVisibilityLeases_def)

end
