(* ===== verification/Worker.thy ===== *)
theory Worker
  imports Backoff CircuitBreaker RateLimit Database Signature QueueConfirmations Visibility
begin

text \<open>
  The delivery worker's message handler (\<open>packages/worker/src/index.ts\<close>, with
  \<open>packages/worker/src/delivery/http.ts\<close>): from a received queue message to a webhook call, a
  retry, a dead letter or an acknowledgement.

  \<^item> The world holds what the handler reads and writes: the clock, the database, the two Redis
    structures, the object store, the queue's view of each receipt, the leases, and the calls made to
    the receiver and to the metrics.
  \<^item> \<open>env\<close> is what the program does not decide: its environment variables, the outcome of each
    call to a service and the time it takes, the receiver, the random number and the keyed digest.
    One handler run makes each call of \<open>call_site\<close> at most once.
  \<^item> The row of an attempt is found by one query and written by another, and no unique constraint joins
    them: \<open>racing\<close> is what other processes do to the tables between the two.  Every other write of the
    handler is one statement on a row that it names by its identifier.
  \<^item> A failed call throws the error of \<open>outcome\<close>; \<open>aborted\<close> tells that the handler's own timer gave it
    up.  A call may have taken effect although its caller sees an error.
  \<^item> Console output is left out; metrics are kept, because they claim things about the outcome.
\<close>

section \<open>The world\<close>

datatype sqs_operation = Send | Receive | Delete | ChangeVisibility
datatype deferral_reason = CircuitOpen | RateLimited | NotDue | TenantTurn
datatype retry_reason = Preparation | Webhook
datatype terminal_outcome = Succeeded | DeadLettered

datatype metric =
  SqsMetric sqs_operation bool
| WebhookMetric bool
| RetryMetric retry_reason
| TerminalMetric terminal_outcome
| DeferralMetric deferral_reason nat

record post =
  po_url :: string
  po_body :: string
  po_signature :: string

record world =
  now :: int
  db :: database
  circuits :: "string redis"
  buckets :: "jsnum redis"
  objects :: "string \<Rightarrow> string option"
  hidden_until :: "string \<Rightarrow> int"
  deleted :: "string list"
  held :: leases
  posts :: "post list"
  metrics :: "metric list"

datatype call_site =
  ReadCircuit | ConsumeToken | FindExisting | MarkProbe | FindForUpsert | WriteInFlight
| FindSecret | GetPayload | RecordCircuit | PutArchive | WriteDeadLetter | WriteStatus
| ChangeMessageVisibility | DeleteMessage | PostWebhook | WaitRelease

datatype fetch_result = Status int | Network_error bool string

record env =
  outcome :: "call_site \<Rightarrow> (bool \<times> exn) outcome"
  elapse :: "call_site \<Rightarrow> nat"
  receiver :: "string \<Rightarrow> string \<Rightarrow> string \<Rightarrow> fetch_result"
  random :: rat
  digest :: hmac
  max_attempts :: "string option"
  limit_capacity :: "string option"
  limit_refill :: "string option"
  bucket_name :: "string option"
  body_missing :: bool
  metrics_on :: bool
  racing :: "database \<Rightarrow> database"

type_synonym 'a act = "(exn, world, 'a) io"

fun exn_message :: "exn \<Rightarrow> string" where
  "exn_message (Error m) = m"

definition AWS_TIMEOUT_MS :: nat where
  "AWS_TIMEOUT_MS = 25000"

fun without_abort :: "(bool \<times> exn) outcome \<Rightarrow> exn outcome" where
  "without_abort Completes = Completes"
| "without_abort (Refused (_, e)) = Refused e"
| "without_abort (Unconfirmed (_, e)) = Unconfirmed e"

definition tick_for :: "env \<Rightarrow> call_site \<Rightarrow> 'a act \<Rightarrow> 'a act" where
  "tick_for env c m = andThen (modify (\<lambda>w. w\<lparr>now := now w + int (elapse env c)\<rparr>)) (\<lambda>_. m)"

text \<open>A call to the database or to Redis.\<close>

definition service :: "env \<Rightarrow> call_site \<Rightarrow> 'a act \<Rightarrow> 'a act" where
  "service env c m = tick_for env c (external (without_abort (outcome env c)) m)"

text \<open>A call to S3 or SQS under the handler's timer.\<close>

definition timeout_message :: "string \<Rightarrow> nat \<Rightarrow> bool \<times> exn \<Rightarrow> exn" where
  "timeout_message label ms ae =
     (if fst ae then Error (label @ '' timed out after '' @ js_String_nat ms @ ''ms'') else snd ae)"

definition sendWithTimeout :: "env \<Rightarrow> call_site \<Rightarrow> 'a act \<Rightarrow> string \<Rightarrow> 'a act" where
  "sendWithTimeout env c send label =
     tick_for env c
       (case outcome env c of
          Completes \<Rightarrow> send
        | Refused ae \<Rightarrow> throw (timeout_message label AWS_TIMEOUT_MS ae)
        | Unconfirmed ae \<Rightarrow> (\<lambda>w. (Inl (timeout_message label AWS_TIMEOUT_MS ae), snd (send w))))"

definition recordMetric :: "env \<Rightarrow> metric \<Rightarrow> unit act" where
  "recordMetric env m = modify (\<lambda>w. if metrics_on env then w\<lparr>metrics := metrics w @ [m]\<rparr> else w)"

definition observeSqsOperation :: "env \<Rightarrow> sqs_operation \<Rightarrow> 'a act \<Rightarrow> ('a \<Rightarrow> bool) \<Rightarrow> 'a act" where
  "observeSqsOperation env operation send confirmed =
     andThen (catching send (\<lambda>e. andThen (recordMetric env (SqsMetric operation False)) (\<lambda>_. throw e)))
       (\<lambda>result. andThen (recordMetric env (SqsMetric operation (confirmed result))) (\<lambda>_. ret result))"

definition db_message :: "db_exn \<Rightarrow> exn" where
  "db_message e =
     (case e of P2002 \<Rightarrow> Error ''Unique constraint failed'' | P2003 \<Rightarrow> Error ''Foreign key constraint violated''
      | P2025 \<Rightarrow> Error ''Record to update not found'' | DbError m \<Rightarrow> Error m)"

definition db_act :: "'a db_op \<Rightarrow> 'a act" where
  "db_act m = (\<lambda>w. case m (db w) of Inl e \<Rightarrow> (Inl (db_message e), w) | Inr (x, d) \<Rightarrow> (Inr x, w\<lparr>db := d\<rparr>))"

section \<open>Queue messages\<close>

record queue_message =
  qm_eventId :: string
  qm_tenantId :: string
  qm_type :: string
  qm_payload :: json
  qm_payloadS3Key :: "string option"

fun string_of :: "json option \<Rightarrow> string option" where
  "string_of (Some (JStr s)) = Some s"
| "string_of _ = None"

definition parseQueueMessage :: "string \<Rightarrow> queue_message option" where
  "parseQueueMessage body =
     (case json_parse body of
        Some (JObj value) \<Rightarrow>
          (case (string_of (map_of value ''eventId''), string_of (map_of value ''tenantId''),
                 string_of (map_of value ''type'')) of
             (Some e, Some t, Some ty) \<Rightarrow>
               Some \<lparr>qm_eventId = e, qm_tenantId = t, qm_type = ty,
                 qm_payload = (case map_of value ''payload'' of None \<Rightarrow> JNull | Some p \<Rightarrow> p),
                 qm_payloadS3Key = string_of (map_of value ''payloadS3Key'')\<rparr>
           | _ \<Rightarrow> None)
      | _ \<Rightarrow> None)"

text \<open>The truth value of an optional text: absent and empty are false.\<close>

definition truthy_text :: "string option \<Rightarrow> bool" where
  "truthy_text s \<longleftrightarrow> s \<noteq> None \<and> s \<noteq> Some []"

definition requireBucket :: "env \<Rightarrow> string act" where
  "requireBucket env =
     (if truthy_text (bucket_name env) then ret (the (bucket_name env))
      else throw (Error ''Missing required env var: S3_BUCKET_NAME''))"

definition loadPayload :: "env \<Rightarrow> queue_message \<Rightarrow> json act" where
  "loadPayload env message =
     (if \<not> truthy_text (qm_payloadS3Key message) then ret (qm_payload message)
      else (let key = the (qm_payloadS3Key message)
            in andThen
                 (sendWithTimeout env GetPayload
                    (andThen (requireBucket env)
                       (\<lambda>_ w. case objects w key of None \<Rightarrow> (Inl (Error ''NoSuchKey''), w)
                              | Some text \<Rightarrow> (Inr (if body_missing env then None else Some text), w)))
                    ''S3 GetObject'')
                 (\<lambda>text. case text of
                    None \<Rightarrow> throw (Error (''S3 object empty: '' @ key))
                  | Some t \<Rightarrow> (case json_parse t of None \<Rightarrow> throw (Error ''SyntaxError'') | Some v \<Rightarrow> ret v))))"

section \<open>Leases and the queue\<close>

definition releaseLease :: "env \<Rightarrow> string \<Rightarrow> unit act" where
  "releaseLease env receipt = tick_for env WaitRelease (modify (\<lambda>w. w\<lparr>held := fst (release receipt (held w))\<rparr>))"

definition changeVisibility :: "string \<Rightarrow> jsnum \<Rightarrow> unit act" where
  "changeVisibility receipt seconds =
     (case seconds of
        Num q \<Rightarrow> modify (\<lambda>w. w\<lparr>hidden_until := (hidden_until w)(receipt := now w + 1000 * \<lfloor>q\<rfloor>)\<rparr>)
      | _ \<Rightarrow> throw (Error ''InvalidParameterValue''))"

definition hideUntil :: "env \<Rightarrow> string \<Rightarrow> jsnum \<Rightarrow> deferral_reason option \<Rightarrow> unit act" where
  "hideUntil env receipt delay reason =
     andThen (releaseLease env receipt) (\<lambda>_.
     andThen (observeSqsOperation env ChangeVisibility
       (sendWithTimeout env ChangeMessageVisibility (changeVisibility receipt (visibilityTimeoutSeconds delay))
          ''SQS ChangeMessageVisibility'') (\<lambda>_. True)) (\<lambda>_.
     (case reason of None \<Rightarrow> ret () | Some r \<Rightarrow> recordMetric env (DeferralMetric r 1))))"

definition acknowledgeMessage :: "env \<Rightarrow> string \<Rightarrow> unit act" where
  "acknowledgeMessage env receipt =
     andThen (releaseLease env receipt) (\<lambda>_.
     observeSqsOperation env Delete
       (sendWithTimeout env DeleteMessage (modify (\<lambda>w. w\<lparr>deleted := deleted w @ [receipt]\<rparr>)) ''SQS DeleteMessage'')
       (\<lambda>_. True))"

section \<open>Archiving and retrying\<close>

definition archivePayload :: "env \<Rightarrow> queue_message \<Rightarrow> string act" where
  "archivePayload env message =
     (if truthy_text (qm_payloadS3Key message) then ret (the (qm_payloadS3Key message))
      else (let key = ''dead-letters/'' @ qm_eventId message @ ''.json''
            in andThen
                 (sendWithTimeout env PutArchive
                    (andThen (requireBucket env)
                       (\<lambda>_. modify (\<lambda>w. w\<lparr>objects := (objects w)(key := Some (stringify (qm_payload message)))\<rparr>)))
                    ''S3 PutObject'')
                 (\<lambda>_. ret key)))"

definition dead_letter_input :: "delivery \<Rightarrow> string \<Rightarrow> string \<Rightarrow> string \<Rightarrow> int \<Rightarrow> dead_letter" where
  "dead_letter_input delivery targetUrl err payloadS3Key t =
     \<lparr>le_id = [], le_eventId = dl_eventId delivery, le_deliveryId = dl_id delivery,
      le_tenantId = dl_tenantId delivery, le_targetUrl = targetUrl, le_lastError = Some (take 500 err),
      le_attemptCount = dl_attemptCount delivery, le_payloadS3Key = payloadS3Key, le_createdAt = t\<rparr>"

lemma dead_letter_input_simps [simp]:
  "le_deliveryId (dead_letter_input dl u err key t) = dl_id dl"
  "le_eventId (dead_letter_input dl u err key t) = dl_eventId dl"
  "le_tenantId (dead_letter_input dl u err key t) = dl_tenantId dl"
  "le_targetUrl (dead_letter_input dl u err key t) = u"
  "le_lastError (dead_letter_input dl u err key t) = Some (take 500 err)"
  "le_attemptCount (dead_letter_input dl u err key t) = dl_attemptCount dl"
  "le_payloadS3Key (dead_letter_input dl u err key t) = key"
  by (simp_all add: dead_letter_input_def)

definition moveToDeadLetter ::
  "env \<Rightarrow> delivery \<Rightarrow> string \<Rightarrow> string \<Rightarrow> queue_message \<Rightarrow> string \<Rightarrow> unit act" where
  "moveToDeadLetter env delivery targetUrl err message receipt =
     andThen (archivePayload env message) (\<lambda>payloadS3Key.
     andThen (service env WriteDeadLetter
       (\<lambda>w. db_act (createDeadLetter (dead_letter_input delivery targetUrl err payloadS3Key (now w))) w)) (\<lambda>_.
     andThen (service env WriteStatus (db_act (markDeadLettered (dl_id delivery) err))) (\<lambda>_.
     andThen (recordMetric env (TerminalMetric DeadLettered)) (\<lambda>_.
     acknowledgeMessage env receipt))))"

definition scheduleRetry ::
  "env \<Rightarrow> string \<Rightarrow> int \<Rightarrow> string \<Rightarrow> string \<Rightarrow> retry_reason \<Rightarrow> int act" where
  "scheduleRetry env deliveryId attemptCount err receipt reason =
     andThen (reading now) (\<lambda>t.
     let when = nextAttemptAt (random env) attemptCount t;
         delay = max (when - t) 1000
     in andThen (service env WriteStatus (db_act (markFailed deliveryId err when))) (\<lambda>_.
        andThen (recordMetric env (RetryMetric reason)) (\<lambda>_.
        andThen (hideUntil env receipt (Num (of_int delay)) None) (\<lambda>_.
        ret when))))"

section \<open>Webhook calls\<close>

datatype webhook_result = WebhookOk int | WebhookFail "int option" string

definition HTTP_TIMEOUT_MS :: nat where
  "HTTP_TIMEOUT_MS = 10000"

definition webhook_body :: "queue_message \<Rightarrow> json \<Rightarrow> json" where
  "webhook_body message payload =
     JObj [(''eventId'', JStr (qm_eventId message)), (''tenantId'', JStr (qm_tenantId message)),
           (''type'', JStr (qm_type message)), (''payload'', payload)]"

definition postWebhook :: "env \<Rightarrow> string \<Rightarrow> json \<Rightarrow> string \<Rightarrow> webhook_result act" where
  "postWebhook env url body secret =
     (let serialized = stringify body
      in case signWebhook (digest env) serialized secret of
           Inl e \<Rightarrow> ret (WebhookFail None (exn_message e))
         | Inr signature \<Rightarrow>
             tick_for env PostWebhook (andThen
               (modify (\<lambda>w. w\<lparr>posts := posts w @ [\<lparr>po_url = url, po_body = serialized, po_signature = signature\<rparr>]\<rparr>))
               (\<lambda>_. case receiver env url serialized signature of
                  Status s \<Rightarrow>
                    if 200 \<le> s \<and> s \<le> 299 then ret (WebhookOk s)
                    else ret (WebhookFail (Some s) (''receiver returned '' @ js_String_int s))
                | Network_error aborted m \<Rightarrow>
                    if aborted then ret (WebhookFail None
                      (''webhook POST timed out after '' @ js_String_nat HTTP_TIMEOUT_MS @ ''ms''))
                    else ret (WebhookFail None m))))"

section \<open>The handler\<close>

text \<open>An SQS message; a returned acknowledgement is the data its closure captures.\<close>

record sqs_message =
  ReceiptHandle :: "string option"
  Body :: "string option"

datatype acknowledge = Acknowledge string

definition runAcknowledge :: "env \<Rightarrow> acknowledge \<Rightarrow> unit act" where
  "runAcknowledge env a = (case a of Acknowledge receipt \<Rightarrow> acknowledgeMessage env receipt)"

definition workerRateLimitConfig :: "env \<Rightarrow> rate_overrides" where
  "workerRateLimitConfig env =
     \<lparr>ov_capacity = Some (case limit_capacity env of None \<Rightarrow> Num 10 | Some v \<Rightarrow> js_Number v),
      ov_refillPerSecond = Some (case limit_refill env of None \<Rightarrow> Num 10 | Some v \<Rightarrow> js_Number v)\<rparr>"

definition readCircuit :: "env \<Rightarrow> string \<Rightarrow> circuit_snapshot act" where
  "readCircuit env targetUrl = service env ReadCircuit (reading (\<lambda>w. readCircuitState (now w) (circuits w) targetUrl))"

definition consumeDeliveryToken :: "env \<Rightarrow> string \<Rightarrow> token_decision act" where
  "consumeDeliveryToken env tenantId =
     service env ConsumeToken
       (\<lambda>w. case consumeTenantToken (now w) tenantId Delivery (workerRateLimitConfig env) (Num (of_int (now w))) (buckets w)
             of (r, b) \<Rightarrow> (r, w\<lparr>buckets := b\<rparr>))"

definition markProbe :: "env \<Rightarrow> string \<Rightarrow> unit act" where
  "markProbe env targetUrl =
     service env MarkProbe (modify (\<lambda>w. w\<lparr>circuits := markProbeInFlight (now w) (circuits w) targetUrl\<rparr>))"

definition recordCircuit ::
  "env \<Rightarrow> (int \<Rightarrow> int \<Rightarrow> string redis \<Rightarrow> string \<Rightarrow> circuit_overrides \<Rightarrow> circuit_snapshot \<times> string redis)
   \<Rightarrow> string \<Rightarrow> circuit_snapshot act" where
  "recordCircuit env record targetUrl =
     service env RecordCircuit
       (\<lambda>w. case record (now w) (now w) (circuits w) targetUrl no_overrides of
              (snapshot, r) \<Rightarrow> (Inr snapshot, w\<lparr>circuits := r\<rparr>))"

definition upsertDelivery :: "env \<Rightarrow> queue_message \<Rightarrow> string \<Rightarrow> delivery act" where
  "upsertDelivery env message targetUrl =
     andThen (service env FindForUpsert (reading (\<lambda>w. findByEventAndUrl (qm_eventId message) targetUrl (db w))))
       (\<lambda>existing. andThen (modify (\<lambda>w. w\<lparr>db := racing env (db w)\<rparr>)) (\<lambda>_. service env WriteInFlight
          (\<lambda>w. db_act (writeInFlight existing (qm_eventId message) (qm_tenantId message) targetUrl (now w)) w)))"

text \<open>A failed attempt ends in a dead letter when the budget is used up, else in a retry.\<close>

definition failAttempt ::
  "env \<Rightarrow> delivery \<Rightarrow> string \<Rightarrow> string \<Rightarrow> queue_message \<Rightarrow> string \<Rightarrow> retry_reason \<Rightarrow> acknowledge option act" where
  "failAttempt env delivery targetUrl err message receipt reason =
     andThen (lift_sum (isExhausted (max_attempts env) (dl_attemptCount delivery))) (\<lambda>exhausted.
     if exhausted
     then andThen (moveToDeadLetter env delivery targetUrl err message receipt) (\<lambda>_. ret None)
     else andThen (scheduleRetry env (dl_id delivery) (dl_attemptCount delivery) err receipt reason) (\<lambda>_. ret None))"

definition prepareWebhook :: "env \<Rightarrow> queue_message \<Rightarrow> (exn + string \<times> json) act" where
  "prepareWebhook env message =
     catching
       (andThen (service env FindSecret (\<lambda>w. (findTenantSigningSecret (qm_tenantId message) (db w), w))) (\<lambda>secret.
        andThen (loadPayload env message) (\<lambda>payload.
        ret (Inr (secret, payload)))))
       (\<lambda>e. ret (Inl e))"

definition attemptDelivery :: "env \<Rightarrow> string \<Rightarrow> queue_message \<Rightarrow> string \<Rightarrow> acknowledge option act" where
  "attemptDelivery env targetUrl parsed receipt =
     andThen (upsertDelivery env parsed targetUrl) (\<lambda>delivery.
     andThen (prepareWebhook env parsed) (\<lambda>prepared.
     case prepared of
       Inl e \<Rightarrow> failAttempt env delivery targetUrl (exn_message e) parsed receipt Preparation
     | Inr (secret, payload) \<Rightarrow>
         andThen (postWebhook env targetUrl (webhook_body parsed payload) secret) (\<lambda>result.
         case result of
           WebhookFail _ err \<Rightarrow>
             andThen (recordMetric env (WebhookMetric False)) (\<lambda>_.
             andThen (recordCircuit env recordDeliveryFailure targetUrl) (\<lambda>_.
             failAttempt env delivery targetUrl err parsed receipt Webhook))
         | WebhookOk _ \<Rightarrow>
             andThen (recordMetric env (WebhookMetric True)) (\<lambda>_.
             andThen (recordCircuit env recordDeliverySuccess targetUrl) (\<lambda>_.
             andThen (service env WriteStatus (db_act (markSucceeded (dl_id delivery)))) (\<lambda>_.
             andThen (recordMetric env (TerminalMetric Succeeded)) (\<lambda>_.
             ret (Some (Acknowledge receipt)))))))))"

definition probeAndAttempt ::
  "env \<Rightarrow> string \<Rightarrow> circuit_decision \<Rightarrow> queue_message \<Rightarrow> string \<Rightarrow> acknowledge option act" where
  "probeAndAttempt env targetUrl decision parsed receipt =
     andThen (if d_state decision = HalfOpen then markProbe env targetUrl else ret ())
       (\<lambda>_. attemptDelivery env targetUrl parsed receipt)"

definition handleExisting ::
  "env \<Rightarrow> string \<Rightarrow> circuit_decision \<Rightarrow> queue_message \<Rightarrow> string \<Rightarrow> delivery option \<Rightarrow> acknowledge option act" where
  "handleExisting env targetUrl decision parsed receipt existing =
     (if map_option dl_status existing = Some DEAD_LETTERED \<or> map_option dl_status existing = Some SUCCEEDED
      then andThen (acknowledgeMessage env receipt) (\<lambda>_. ret None)
      else andThen (reading now) (\<lambda>t.
        case Option.bind existing dl_nextAttemptAt of
          Some due \<Rightarrow>
            if t < due then andThen (hideUntil env receipt (Num (of_int (due - t))) (Some NotDue)) (\<lambda>_. ret None)
            else probeAndAttempt env targetUrl decision parsed receipt
        | None \<Rightarrow> probeAndAttempt env targetUrl decision parsed receipt))"

definition handleParsed ::
  "env \<Rightarrow> string \<Rightarrow> circuit_decision \<Rightarrow> queue_message \<Rightarrow> string \<Rightarrow> acknowledge option act" where
  "handleParsed env targetUrl decision parsed receipt =
     andThen (consumeDeliveryToken env (qm_tenantId parsed)) (\<lambda>rateLimit.
     if \<not> t_allowed rateLimit
     then andThen (hideUntil env receipt (js_max (retryAfterMs rateLimit) (Num 1000)) (Some RateLimited)) (\<lambda>_. ret None)
     else andThen (service env FindExisting (reading (\<lambda>w. findByEventAndUrl (qm_eventId parsed) targetUrl (db w))))
            (handleExisting env targetUrl decision parsed receipt))"

definition message_body :: "sqs_message \<Rightarrow> string" where
  "message_body sqsMessage = (case Body sqsMessage of None \<Rightarrow> [] | Some b \<Rightarrow> b)"

definition handleMessage :: "env \<Rightarrow> string \<Rightarrow> sqs_message \<Rightarrow> acknowledge option act" where
  "handleMessage env targetUrl sqsMessage =
     (if \<not> truthy_text (ReceiptHandle sqsMessage) then throw (Error ''SQS message missing ReceiptHandle'')
      else let receipt = the (ReceiptHandle sqsMessage) in
      andThen (readCircuit env targetUrl) (\<lambda>breaker.
      andThen (reading (\<lambda>w. getCircuitDecision breaker (now w) no_overrides)) (\<lambda>decision.
      if \<not> allowed decision
      then andThen (hideUntil env receipt (js_max (delayMs decision) (Num 1000)) (Some CircuitOpen)) (\<lambda>_. ret None)
      else (case parseQueueMessage (message_body sqsMessage) of
              None \<Rightarrow> andThen (acknowledgeMessage env receipt) (\<lambda>_. ret None)
            | Some parsed \<Rightarrow> handleParsed env targetUrl decision parsed receipt))))"

end
