(* ===== verification/Archive.thy ===== *)
theory Archive
  imports Json
begin

text \<open>
  Reading an archived payload (\<open>packages/api/src/services/archive-json.ts\<close>): the bytes of the object
  arrive in chunks, under a size limit and a deadline, and are decoded and parsed at the end.

  \<^item> A run of the reader is given by what it meets, in order: a chunk, the end of the body, an error of
    the stream, or the deadline.  Events that stop before the end stand for a stream that stalls, and
    the deadline then ends the read.
  \<^item> The result also says how the stream was left: released after its end, cancelled otherwise.
  \<^item> Text is over the code points below 256, as in the theory of JSON; bytes are numbers below 256.
\<close>

section \<open>UTF-8\<close>

definition utf8_char :: "char \<Rightarrow> nat list" where
  "utf8_char c = (let k = (of_char c :: nat) in if k < 128 then [k] else [192 + k div 64, 128 + k mod 64])"

definition utf8_encode :: "string \<Rightarrow> nat list" where
  "utf8_encode s = concat (map utf8_char s)"

fun utf8_decode :: "nat list \<Rightarrow> string option" where
  "utf8_decode [] = Some []"
| "utf8_decode (a # bs) =
     (if a < 128 then map_option ((#) (char_of a)) (utf8_decode bs)
      else if a = 194 \<or> a = 195
      then (case bs of
              [] \<Rightarrow> None
            | b # cs \<Rightarrow> if 128 \<le> b \<and> b < 192
                then map_option ((#) (char_of (64 * (a - 192) + (b - 128)))) (utf8_decode cs) else None)
      else None)"

lemma utf8_bytes: "b \<in> set (utf8_encode s) \<Longrightarrow> b < 256"
proof -
  have "(of_char c :: nat) div 64 < 4" for c by (simp add: less_mult_imp_div_less)
  then have "192 + (of_char c :: nat) div 64 < 256" "128 + (of_char c :: nat) mod 64 < 256" for c
    by (simp_all add: less_trans [OF _ less_numeral_extra(1)] add_strict_mono less_trans [of _ 4 64])
  then have "b \<in> set (utf8_char c) \<Longrightarrow> b < 256" for c
    by (auto simp: utf8_char_def Let_def split: if_splits)
  then show "b \<in> set (utf8_encode s) \<Longrightarrow> b < 256" by (auto simp: utf8_encode_def)
qed

lemma utf8_decode_char: "utf8_decode (utf8_char c @ bs) = map_option ((#) c) (utf8_decode bs)"
proof -
  have k: "(of_char c :: nat) < 256" by simp
  then have c: "char_of (of_char c :: nat) = c" by simp
  show ?thesis
  proof (cases "(of_char c :: nat) < 128")
    case False
    have q: "(of_char c :: nat) div 64 = 2 \<or> (of_char c :: nat) div 64 = 3" using False k by linarith
    have e: "64 * ((of_char c :: nat) div 64) + (of_char c :: nat) mod 64 = of_char c" by simp
    have "char_of (64 * ((of_char c :: nat) div 64) + (of_char c :: nat) mod 64) = c" unfolding e by (rule c)
    then show ?thesis using False q by (auto simp: utf8_char_def Let_def)
  qed (simp add: utf8_char_def)
qed

lemma utf8_round_trip: "utf8_decode (utf8_encode s) = Some s"
  by (induction s) (simp_all add: utf8_encode_def utf8_decode_char)

section \<open>The reader\<close>

datatype archive_error = Invalid string | ReadFailed exn

datatype stream_event = Chunk "nat list" | EndOfBody | StreamError exn | Deadline

datatype stream_end = Released | Cancelled

definition MAX_ARCHIVE_BYTES :: nat where
  "MAX_ARCHIVE_BYTES = 4194304"

definition deadline_error :: archive_error where
  "deadline_error = ReadFailed (Error ''Archive read deadline exceeded'')"

definition too_large :: archive_error where
  "too_large = Invalid ''Archive exceeds the inspection size limit''"

fun read_chunks :: "nat \<Rightarrow> nat list list \<Rightarrow> stream_event list \<Rightarrow> (archive_error + nat list) \<times> stream_end" where
  "read_chunks n got [] = (Inl deadline_error, Cancelled)"
| "read_chunks n got (Deadline # es) = (Inl deadline_error, Cancelled)"
| "read_chunks n got (StreamError e # es) = (Inl (ReadFailed e), Cancelled)"
| "read_chunks n got (EndOfBody # es) = (Inr (concat (rev got)), Released)"
| "read_chunks n got (Chunk b # es) =
     (if MAX_ARCHIVE_BYTES < n + length b then (Inl too_large, Cancelled)
      else read_chunks (n + length b) (b # got) es)"

definition readArchiveJson ::
  "stream_event list \<Rightarrow> bool \<Rightarrow> nat option \<Rightarrow> (archive_error + json) \<times> stream_end" where
  "readArchiveJson es aborted contentLength =
     (if aborted then (Inl deadline_error, Cancelled)
      else if (case contentLength of None \<Rightarrow> False | Some n \<Rightarrow> MAX_ARCHIVE_BYTES < n) then (Inl too_large, Cancelled)
      else (case read_chunks 0 [] es of
              (Inl e, s) \<Rightarrow> (Inl e, s)
            | (Inr bytes, s) \<Rightarrow>
                (case Option.bind (utf8_decode bytes) json_parse of
                   None \<Rightarrow> (Inl (Invalid ''Archive is not valid UTF-8 JSON''), s)
                 | Some v \<Rightarrow> (Inr v, s))))"

section \<open>Lemmas\<close>

fun chunk_bytes :: "stream_event list \<Rightarrow> nat list" where
  "chunk_bytes (Chunk b # es) = b @ chunk_bytes es"
| "chunk_bytes _ = []"

lemma read_chunks_complete:
  "n + length (concat bs) \<le> MAX_ARCHIVE_BYTES \<Longrightarrow>
   read_chunks n got (map Chunk bs @ EndOfBody # es) = (Inr (concat (rev got) @ concat bs), Released)"
  by (induction bs arbitrary: n got) auto

lemma read_chunks_value:
  "read_chunks n got es = (Inr bytes, s) \<Longrightarrow> n \<le> MAX_ARCHIVE_BYTES \<Longrightarrow>
   s = Released \<and> bytes = concat (rev got) @ chunk_bytes es \<and> n + length (chunk_bytes es) \<le> MAX_ARCHIVE_BYTES"
  by (induction n got es rule: read_chunks.induct) (auto split: if_splits)

section \<open>Properties\<close>

text \<open>C16: an archive reads back: the bytes of a printed value, cut in chunks in any way, within the size limit
  and before the deadline, give the value, and the stream is released.\<close>

theorem archive_reads_back:
  assumes "printable v" and "concat bs = utf8_encode (stringify v)"
    and "length (utf8_encode (stringify v)) \<le> MAX_ARCHIVE_BYTES"
    and "contentLength = None \<or> contentLength = Some (length (utf8_encode (stringify v)))"
  shows "readArchiveJson (map Chunk bs @ EndOfBody # es) False contentLength = (Inr v, Released)"
  using assms read_chunks_complete [of 0 bs "[]" es]
  by (auto simp: readArchiveJson_def utf8_round_trip json_parse_stringify)

theorem archive_reads_back_witness:
  "readArchiveJson (map Chunk [[91], [110, 117], [108, 108, 93]] @ EndOfBody # []) False (Some 6)
   = (Inr (JArr [JNull]), Released)"
proof (rule archive_reads_back)
  have e: "utf8_encode (stringify (JArr [JNull])) = [91, 110, 117, 108, 108, 93]" by code_simp
  then show "concat [[91], [110, 117], [108, 108, 93]] = utf8_encode (stringify (JArr [JNull]))" by simp
  show "length (utf8_encode (stringify (JArr [JNull]))) \<le> MAX_ARCHIVE_BYTES" unfolding e by (simp add: MAX_ARCHIVE_BYTES_def)
  show "Some 6 = None \<or> Some 6 = Some (length (utf8_encode (stringify (JArr [JNull]))))" unfolding e by simp
qed simp

text \<open>An inspection never takes in more than the limit: whatever arrives, in whatever chunks and whatever
  length was announced, a value is only returned for a body of at most four mebibytes read to its end,
  before the deadline, and then the stream is released.\<close>

theorem archive_read_is_bounded:
  assumes "readArchiveJson es aborted contentLength = (Inr v, s)"
  shows "s = Released \<and> \<not> aborted \<and> length (chunk_bytes es) \<le> MAX_ARCHIVE_BYTES
    \<and> Option.bind (utf8_decode (chunk_bytes es)) json_parse = Some v"
  using assms read_chunks_value [of 0 "[]" es]
  by (auto simp: readArchiveJson_def split: if_splits sum.splits prod.splits option.splits)

theorem archive_read_is_bounded_witness:
  "Released = Released \<and> \<not> False \<and> length (chunk_bytes [Chunk [110, 117], Chunk [108, 108], EndOfBody]) \<le> MAX_ARCHIVE_BYTES
    \<and> Option.bind (utf8_decode (chunk_bytes [Chunk [110, 117], Chunk [108, 108], EndOfBody])) json_parse = Some JNull"
proof (rule archive_read_is_bounded)
  have "utf8_encode ''null'' = [110, 117, 108, 108]" by code_simp
  then have "readArchiveJson (map Chunk [[110, 117], [108, 108]] @ EndOfBody # []) False None = (Inr JNull, Released)"
    using read_chunks_complete [of 0 "[[110, 117], [108, 108]]" "[]" "[]"] utf8_round_trip [of "''null''"]
      json_parse_stringify [of JNull]
    by (simp add: readArchiveJson_def MAX_ARCHIVE_BYTES_def)
  then show "readArchiveJson [Chunk [110, 117], Chunk [108, 108], EndOfBody] False None = (Inr JNull, Released)" by simp
qed

end
