(* ===== verification/ApiWorld.thy ===== *)
theory ApiWorld
  imports Worker Archive
begin

text \<open>
  What the API's request handlers share (\<open>packages/api/src/\<close>): the state they read and write, the
  outcomes of their calls, their errors and the HTTP response.

  \<^item> Each request is one run.  Other clients of the database act between its calls: \<open>meanwhile\<close>
    says what they have done by the time of a call, and the theorems say what they assume of it.
  \<^item> An error class of the source is a constructor of \<open>api_exn\<close>; its message is the class's own
    text or the argument.  \<open>Other\<close> is any other error.
  \<^item> The validation library \<open>zod\<close> is not part of the repository: that a text is a UUID and the wording
    of an issue are parameters, the length and type checks are its documented meaning.
\<close>

section \<open>State, environment, errors\<close>

record api_world =
  a_now :: int
  a_db :: database
  a_buckets :: "jsnum redis"
  a_objects :: "string \<Rightarrow> string option"

datatype api_site =
  ConnectRedis | FindTenant | EvalToken | PutPayload | InsertEvent
| FindReplay | FindSource | GetArchive | InsertReplay | FindRepeated
| ReadReplica

datatype issue =
  InvalidType string
| InvalidUuid string
| TooSmall string
| TooBig string

record api_env =
  a_outcome :: "api_site \<Rightarrow> (bool \<times> exn) outcome"
  a_elapse :: "api_site \<Rightarrow> nat"
  meanwhile :: "api_site \<Rightarrow> database \<Rightarrow> database"
  random_uuid :: string
  ingestion_capacity :: "string option"
  ingestion_refill :: "string option"
  s3_bucket :: "string option"
  sqs_max_message_bytes :: "string option"
  receiver_url :: "string option"
  body_absent :: bool
  body_stream :: "nat list \<Rightarrow> stream_event list"
  content_length :: "nat list \<Rightarrow> nat option"
  is_uuid :: "string \<Rightarrow> bool"
  is_datetime :: "string \<Rightarrow> bool"
  issue_message :: "issue \<Rightarrow> string"

datatype api_exn =
  ValidationError string
| TenantNotFoundError string
| IngestionRateLimitError jsnum
| DeadLetterValidationError string
| DeliveryHistoryValidationError string
| DeadLetterNotFoundError string
| ReplayConflictError string
| ArchivedPayloadGoneError string
| ArchivedPayloadInvalidError string
| DeadLetterUnavailableError
| DeliveryHistoryUnavailableError
| DeliverySummaryUnavailableError
| ArchiveNotFoundError
| InvalidArchiveError string
| KnownRequestError db_exn
| Other exn

type_synonym 'a api = "(api_exn, api_world, 'a) io"

definition api_call :: "api_env \<Rightarrow> api_site \<Rightarrow> 'a api \<Rightarrow> 'a api" where
  "api_call env c m =
     andThen (modify (\<lambda>w. w\<lparr>a_now := a_now w + int (a_elapse env c), a_db := meanwhile env c (a_db w)\<rparr>)) (\<lambda>_.
       external (case a_outcome env c of Completes \<Rightarrow> Completes
                 | Refused ae \<Rightarrow> Refused (Other (snd ae)) | Unconfirmed ae \<Rightarrow> Unconfirmed (Other (snd ae))) m)"

text \<open>A call under an abort timer, whose firing replaces the error.\<close>

definition timed_call :: "api_env \<Rightarrow> api_site \<Rightarrow> exn \<Rightarrow> 'a api \<Rightarrow> 'a api" where
  "timed_call env c timeout m =
     andThen (modify (\<lambda>w. w\<lparr>a_now := a_now w + int (a_elapse env c), a_db := meanwhile env c (a_db w)\<rparr>)) (\<lambda>_.
       external (let err = (\<lambda>ae. Other (if fst ae then timeout else snd ae))
                 in case a_outcome env c of Completes \<Rightarrow> Completes
                    | Refused ae \<Rightarrow> Refused (err ae) | Unconfirmed ae \<Rightarrow> Unconfirmed (err ae)) m)"

definition api_db :: "'a db_op \<Rightarrow> 'a api" where
  "api_db m = (\<lambda>w. case m (a_db w) of
     Inl e \<Rightarrow> (Inl (KnownRequestError e), w) | Inr (x, d) \<Rightarrow> (Inr x, w\<lparr>a_db := d\<rparr>))"

record response =
  status :: nat
  headers :: "(string \<times> string) list"
  body :: "json option"

definition respond :: "nat \<Rightarrow> json \<Rightarrow> response" where
  "respond n v = \<lparr>status = n, headers = [], body = Some v\<rparr>"

definition error_response :: "nat \<Rightarrow> string \<Rightarrow> response" where
  "error_response n message = respond n (JObj [(''error'', JStr message)])"

lemma response_simps [simp]:
  "status (respond n v) = n" "status (error_response n m) = n" "body (respond n v) = Some v"
  by (simp_all add: respond_def error_response_def)

section \<open>Reading archives\<close>

text \<open>\<open>repositories/archived-payloads.ts\<close>; how the body arrives is a parameter.\<close>

definition readArchivedPayload :: "api_env \<Rightarrow> string \<Rightarrow> json api" where
  "readArchivedPayload env key =
     (if \<not> truthy_text (s3_bucket env) then throw (Other (Error ''S3_BUCKET_NAME is required''))
      else api_call env GetArchive
        (\<lambda>w. (case a_objects w key of
                None \<Rightarrow> Inl ArchiveNotFoundError
              | Some t \<Rightarrow>
                  if body_absent env then Inl (InvalidArchiveError ''Archive body is missing'')
                  else let bytes = utf8_encode t in
                    (case fst (readArchiveJson (body_stream env bytes) False (content_length env bytes)) of
                       Inl (Invalid m) \<Rightarrow> Inl (InvalidArchiveError m)
                     | Inl (ReadFailed e) \<Rightarrow> Inl (Other e)
                     | Inr v \<Rightarrow> Inr v), w)))"

section \<open>Writing events\<close>

text \<open>\<open>repositories/events.ts\<close>; a foreign key or a unique constraint refuses the row.\<close>

definition findTenantById :: "string \<Rightarrow> database \<Rightarrow> tenant option" where
  "findTenantById i d = find (\<lambda>t. tn_id t = i) (tenants d)"

record create_event =
  ce_id :: string
  ce_tenantId :: string
  ce_type :: string
  ce_payload :: json
  ce_payloadS3Key :: "string option"

definition createEvent :: "create_event \<Rightarrow> int \<Rightarrow> event db_op" where
  "createEvent input t d =
     (if find (\<lambda>e. ev_id e = ce_id input) (events d) \<noteq> None then Inl P2002
      else if find (\<lambda>n. tn_id n = ce_tenantId input) (tenants d) = None then Inl P2003
      else (let e = \<lparr>ev_id = ce_id input, ev_tenantId = ce_tenantId input, ev_type = ce_type input,
                     ev_payload = (if ce_payload input = JNull then None else Some (ce_payload input)),
                     ev_payloadS3Key = ce_payloadS3Key input, ev_createdAt = t\<rparr>
            in Inr (e, d\<lparr>events := events d @ [e]\<rparr>)))"

definition createOutbox :: "string \<Rightarrow> int \<Rightarrow> outbox db_op" where
  "createOutbox eventId t d =
     (if find (\<lambda>r. ob_eventId r = eventId) (outboxes d) \<noteq> None then Inl P2002
      else if find (\<lambda>e. ev_id e = eventId) (events d) = None then Inl P2003
      else (let r = \<lparr>ob_id = fresh_id d, ob_eventId = eventId, ob_published = False, ob_createdAt = t,
                     ob_publishedAt = None\<rparr>
            in Inr (r, d\<lparr>outboxes := outboxes d @ [r], next_id := next_id d + 1\<rparr>)))"

lemma createEvent_ok:
  "createEvent input t d = Inr (e, d') \<longleftrightarrow>
     find (\<lambda>e. ev_id e = ce_id input) (events d) = None
     \<and> find (\<lambda>n. tn_id n = ce_tenantId input) (tenants d) \<noteq> None
     \<and> e = \<lparr>ev_id = ce_id input, ev_tenantId = ce_tenantId input, ev_type = ce_type input,
            ev_payload = (if ce_payload input = JNull then None else Some (ce_payload input)),
            ev_payloadS3Key = ce_payloadS3Key input, ev_createdAt = t\<rparr>
     \<and> d' = d\<lparr>events := events d @ [e]\<rparr>"
  by (auto simp: createEvent_def Let_def)

lemma createOutbox_ok:
  "createOutbox i t d = Inr (r, d') \<longleftrightarrow>
     find (\<lambda>r. ob_eventId r = i) (outboxes d) = None \<and> find (\<lambda>e. ev_id e = i) (events d) \<noteq> None
     \<and> r = \<lparr>ob_id = fresh_id d, ob_eventId = i, ob_published = False, ob_createdAt = t, ob_publishedAt = None\<rparr>
     \<and> d' = d\<lparr>outboxes := outboxes d @ [r], next_id := next_id d + 1\<rparr>"
  by (auto simp: createOutbox_def Let_def)

end
