(* ===== verification/Outbox.thy ===== *)
theory Outbox
  imports Worker "HOL-Library.List_Lexorder" "HOL-Library.Product_Lexorder"
begin

text \<open>
  The outbox publisher (\<open>packages/worker/src/outbox-poller.ts\<close>,
  \<open>packages/worker/src/repositories/outbox.ts\<close>): it reads unpublished rows in a fair order, sends each
  to the queue and marks it published.

  \<^item> The SQL query of \<open>listUnpublished\<close> is a function of the database; text is compared character by
    character.  Its second query may see a later database.
  \<^item> \<open>tick\<close> publishes its rows concurrently.  A schedule says which row takes its next step, the send
    or the update; the theorems hold for every schedule.
  \<^item> The advisory lock of PostgreSQL belongs to a session; the last section runs several pollers
    against it.
\<close>

section \<open>Reading unpublished rows\<close>

definition event_of :: "database \<Rightarrow> outbox \<Rightarrow> event option" where
  "event_of d r = find (\<lambda>e. ev_id e = ob_eventId r) (events d)"

definition pending_rows :: "database \<Rightarrow> (outbox \<times> event) list" where
  "pending_rows d =
     List.map_filter (\<lambda>r. if ob_published r then None else map_option (Pair r) (event_of d r)) (outboxes d)"

definition tenant_of :: "outbox \<times> event \<Rightarrow> string" where
  "tenant_of r = ev_tenantId (snd r)"

definition row_order :: "outbox \<times> event \<Rightarrow> int \<times> string" where
  "row_order r = (ob_createdAt (fst r), ob_id (fst r))"

text \<open>\<open>ROW_NUMBER()\<close> in the partition of the row's tenant.\<close>

definition tenant_position :: "(outbox \<times> event) list \<Rightarrow> outbox \<times> event \<Rightarrow> nat" where
  "tenant_position rows r =
     length (filter (\<lambda>s. tenant_of s = tenant_of r \<and> row_order s \<le> row_order r) rows)"

definition rotation :: "string \<Rightarrow> string \<Rightarrow> nat \<times> string" where
  "rotation afterTenantId t = (if afterTenantId < t then 0 else 1, t)"

definition selection_order :: "(outbox \<times> event) list \<Rightarrow> string \<Rightarrow> outbox \<times> event \<Rightarrow> nat \<times> nat \<times> string" where
  "selection_order rows afterTenantId r = (tenant_position rows r, rotation afterTenantId (tenant_of r))"

definition select_rows :: "database \<Rightarrow> nat \<Rightarrow> string \<Rightarrow> (outbox \<times> event) list" where
  "select_rows d n afterTenantId =
     (let rows = pending_rows d in take n (sort_key (selection_order rows afterTenantId) rows))"

definition refetch :: "database \<Rightarrow> string \<Rightarrow> (outbox \<times> event) option" where
  "refetch d i =
     (case find (\<lambda>r. ob_id r = i \<and> \<not> ob_published r) (outboxes d) of None \<Rightarrow> None
      | Some r \<Rightarrow> map_option (Pair r) (event_of d r))"

definition listUnpublished :: "database \<Rightarrow> database \<Rightarrow> nat \<Rightarrow> string \<Rightarrow> (outbox \<times> event) list" where
  "listUnpublished d d' n afterTenantId =
     List.map_filter (\<lambda>r. refetch d' (ob_id (fst r))) (select_rows d n afterTenantId)"

definition markPublished :: "string \<Rightarrow> int \<Rightarrow> nat db_op" where
  "markPublished i t d =
     (let hit = (\<lambda>r. ob_id r = i \<and> \<not> ob_published r)
      in Inr (length (filter hit (outboxes d)),
              d\<lparr>outboxes := update_where hit (\<lambda>r. r\<lparr>ob_published := True, ob_publishedAt := Some t\<rparr>) (outboxes d)\<rparr>))"

section \<open>Publishing a row\<close>

definition queue_message_json :: "queue_message \<Rightarrow> json" where
  "queue_message_json m =
     JObj [(''eventId'', JStr (qm_eventId m)), (''tenantId'', JStr (qm_tenantId m)), (''type'', JStr (qm_type m)),
           (''payload'', qm_payload m),
           (''payloadS3Key'', case qm_payloadS3Key m of None \<Rightarrow> JNull | Some k \<Rightarrow> JStr k)]"

definition message_of_event :: "event \<Rightarrow> queue_message" where
  "message_of_event e =
     \<lparr>qm_eventId = ev_id e, qm_tenantId = ev_tenantId e, qm_type = ev_type e,
      qm_payload = (if truthy_text (ev_payloadS3Key e) then JNull
                    else (case ev_payload e of None \<Rightarrow> JNull | Some p \<Rightarrow> p)),
      qm_payloadS3Key = ev_payloadS3Key e\<rparr>"

datatype publication = Published | AlreadyPublished | SendFailed | PersistFailed

record sent_message =
  sm_group :: string
  sm_body :: string

record publisher_world =
  p_db :: database
  p_queue :: "sent_message list"
  p_now :: int
  p_sqs :: "bool list"
  p_publications :: "publication list"

record publisher_env =
  queue_url :: "string option"
  send_outcome :: "string \<Rightarrow> (bool \<times> exn) outcome"
  mark_outcome :: "string \<Rightarrow> exn outcome"
  p_metrics_on :: bool

type_synonym 'a pub = "(exn, publisher_world, 'a) io"

definition SQS_TIMEOUT_MS :: nat where
  "SQS_TIMEOUT_MS = 8000"

definition recordPublication :: "publisher_env \<Rightarrow> publication \<Rightarrow> unit pub" where
  "recordPublication env k =
     modify (\<lambda>w. if p_metrics_on env then w\<lparr>p_publications := p_publications w @ [k]\<rparr> else w)"

definition recordSend :: "publisher_env \<Rightarrow> bool \<Rightarrow> unit pub" where
  "recordSend env ok = modify (\<lambda>w. if p_metrics_on env then w\<lparr>p_sqs := p_sqs w @ [ok]\<rparr> else w)"

definition sendTimed :: "(bool \<times> exn) outcome \<Rightarrow> unit pub \<Rightarrow> unit pub" where
  "sendTimed out send =
     (case out of
        Completes \<Rightarrow> send
      | Refused ae \<Rightarrow> throw (timeout_message ''SQS SendMessage'' SQS_TIMEOUT_MS ae)
      | Unconfirmed ae \<Rightarrow> (\<lambda>w. (Inl (timeout_message ''SQS SendMessage'' SQS_TIMEOUT_MS ae), snd (send w))))"

text \<open>The first half of \<open>publishOne\<close>, up to the answer of the queue.\<close>

definition publishSend :: "publisher_env \<Rightarrow> outbox \<times> event \<Rightarrow> unit pub" where
  "publishSend env row =
     (if \<not> truthy_text (queue_url env) then throw (Error ''Missing required env var: SQS_QUEUE_URL'')
      else
        catching
          (andThen
             (catching
                (sendTimed (send_outcome env (ob_id (fst row)))
                   (modify (\<lambda>w. w\<lparr>p_queue := p_queue w @ [\<lparr>sm_group = tenant_of row,
                      sm_body = stringify (queue_message_json (message_of_event (snd row)))\<rparr>]\<rparr>)))
                (\<lambda>e. andThen (recordSend env False) (\<lambda>_. throw e)))
             (\<lambda>_. recordSend env True))
          (\<lambda>e. andThen (recordPublication env SendFailed) (\<lambda>_. throw e)))"

text \<open>The second half, the update of the row.\<close>

definition publishMark :: "publisher_env \<Rightarrow> outbox \<times> event \<Rightarrow> unit pub" where
  "publishMark env row =
     andThen
       (catching
          (external (mark_outcome env (ob_id (fst row)))
             (\<lambda>w. case markPublished (ob_id (fst row)) (p_now w) (p_db w) of
                    Inl _ \<Rightarrow> (Inr 0, w) | Inr (n, d) \<Rightarrow> (Inr n, w\<lparr>p_db := d\<rparr>)))
          (\<lambda>e. andThen (recordPublication env PersistFailed) (\<lambda>_. throw e)))
       (\<lambda>n. recordPublication env (if n = 0 then AlreadyPublished else Published))"

definition publishOne :: "publisher_env \<Rightarrow> outbox \<times> event \<Rightarrow> unit pub" where
  "publishOne env row = andThen (publishSend env row) (\<lambda>_. publishMark env row)"

section \<open>A tick\<close>

datatype progress = ToSend | ToMark | Fulfilled | Rejected exn

definition advance :: "publisher_env \<Rightarrow> outbox \<times> event \<Rightarrow> progress \<Rightarrow> publisher_world \<Rightarrow> progress \<times> publisher_world" where
  "advance env row p w =
     (case p of
        ToSend \<Rightarrow> (case publishSend env row w of (Inl e, w') \<Rightarrow> (Rejected e, w') | (Inr _, w') \<Rightarrow> (ToMark, w'))
      | ToMark \<Rightarrow> (case publishMark env row w of (Inl e, w') \<Rightarrow> (Rejected e, w') | (Inr _, w') \<Rightarrow> (Fulfilled, w'))
      | _ \<Rightarrow> (p, w))"

fun run_schedule ::
  "publisher_env \<Rightarrow> (outbox \<times> event) list \<Rightarrow> nat list \<Rightarrow> progress list \<Rightarrow> publisher_world
   \<Rightarrow> progress list \<times> publisher_world" where
  "run_schedule env rows [] ps w = (ps, w)"
| "run_schedule env rows (i # is) ps w =
     (if i < length rows \<and> i < length ps
      then (case advance env (rows ! i) (ps ! i) w of (p, w') \<Rightarrow> run_schedule env rows is (ps[i := p]) w')
      else run_schedule env rows is ps w)"

record tick_result =
  t_count :: nat
  t_failed :: bool
  t_afterTenantId :: string

definition BATCH_SIZE :: nat where
  "BATCH_SIZE = 10"

text \<open>\<open>tick\<close> returns when every row is settled.\<close>

fun is_settled :: "progress \<Rightarrow> bool" where
  "is_settled Fulfilled \<longleftrightarrow> True"
| "is_settled (Rejected _) \<longleftrightarrow> True"
| "is_settled _ \<longleftrightarrow> False"

definition tick :: "publisher_env \<Rightarrow> database \<Rightarrow> string \<Rightarrow> nat list \<Rightarrow> publisher_world \<Rightarrow> tick_result option \<times> publisher_world" where
  "tick env seen afterTenantId schedule w =
     (let rows = listUnpublished seen (p_db w) BATCH_SIZE afterTenantId;
          (ps, w') = run_schedule env rows schedule (replicate (length rows) ToSend) w
      in (if list_all is_settled ps
          then Some \<lparr>t_count = length rows, t_failed = (\<exists>p \<in> set ps. p \<noteq> Fulfilled),
                 t_afterTenantId = (if rows = [] then afterTenantId else tenant_of (last rows))\<rparr>
          else None, w'))"

section \<open>Published means sent\<close>

definition sent_for :: "outbox \<times> event \<Rightarrow> sent_message" where
  "sent_for row = \<lparr>sm_group = tenant_of row, sm_body = stringify (queue_message_json (message_of_event (snd row)))\<rparr>"

definition published_ids :: "database \<Rightarrow> string set" where
  "published_ids d = {ob_id r | r. r \<in> set (outboxes d) \<and> ob_published r}"

lemma publishSend_effect:
  "publishSend env row w = (res, w') \<Longrightarrow>
   p_db w' = p_db w \<and> (p_queue w' = p_queue w \<or> p_queue w' = p_queue w @ [sent_for row])
   \<and> (res = Inr () \<longrightarrow> p_queue w' = p_queue w @ [sent_for row])"
  by (auto simp: publishSend_def catching_def andThen_def sendTimed_def recordSend_def recordPublication_def sent_for_def
      split: if_splits Prelude.outcome.splits)

lemma published_ids_mark:
  "markPublished i t d = Inr (n, d') \<Longrightarrow> published_ids d' \<subseteq> insert i (published_ids d)"
  by (fastforce simp: markPublished_def published_ids_def set_update_where Let_def)

lemma publishMark_effect:
  "publishMark env row w = (res, w') \<Longrightarrow>
   p_queue w' = p_queue w \<and> published_ids (p_db w') \<subseteq> insert (ob_id (fst row)) (published_ids (p_db w))"
  by (cases "mark_outcome env (ob_id (fst row))")
    (auto simp: publishMark_def catching_def andThen_def recordPublication_def
      dest: published_ids_mark [THEN subsetD] split: if_splits sum.splits prod.splits)

text \<open>The rows that wait for their update, or had it, are in the queue; every newly published
  identifier belongs to one of them.\<close>

definition sent_before_marked ::
  "(outbox \<times> event) list \<Rightarrow> string set \<Rightarrow> sent_message set \<Rightarrow> progress list \<Rightarrow> publisher_world \<Rightarrow> bool" where
  "sent_before_marked rows old queued ps w \<longleftrightarrow> length ps = length rows
     \<and> queued \<subseteq> set (p_queue w)
     \<and> (\<forall>i < length ps. ps ! i = ToMark \<longrightarrow> sent_for (rows ! i) \<in> set (p_queue w))
     \<and> (\<forall>k \<in> published_ids (p_db w). k \<in> old
          \<or> (\<exists>row \<in> set rows. ob_id (fst row) = k \<and> sent_for row \<in> set (p_queue w)))"

lemma sent_before_marked_advance:
  assumes inv: "sent_before_marked rows old queued ps w" and i: "i < length rows"
    and a: "advance env (rows ! i) (ps ! i) w = (p, w')"
  shows "sent_before_marked rows old queued (ps[i := p]) w'"
proof (cases "ps ! i")
  case ToSend
  obtain res v where s: "publishSend env (rows ! i) w = (res, v)" by (cases "publishSend env (rows ! i) w")
  with a ToSend have v: "w' = v" "p = ToMark \<longrightarrow> res = Inr ()"
    by (auto simp: advance_def split: sum.splits)
  from publishSend_effect [OF s] v inv i show ?thesis
    by (auto simp: sent_before_marked_def nth_list_update)
next
  case ToMark
  obtain res v where s: "publishMark env (rows ! i) w = (res, v)" by (cases "publishMark env (rows ! i) w")
  with a ToMark have v: "w' = v" "p \<noteq> ToMark"
    by (auto simp: advance_def split: sum.splits)
  have "rows ! i \<in> set rows" "sent_for (rows ! i) \<in> set (p_queue w)"
    using inv i ToMark by (auto simp: sent_before_marked_def)
  with publishMark_effect [OF s] v inv i show ?thesis
    unfolding sent_before_marked_def by (auto simp: nth_list_update)
qed (use a inv list_update_id [of ps i] in \<open>auto simp: advance_def\<close>)

lemma sent_before_marked_run:
  "sent_before_marked rows old queued ps w \<Longrightarrow> run_schedule env rows schedule ps w = (ps', w') \<Longrightarrow>
   sent_before_marked rows old queued ps' w'"
proof (induction env rows schedule ps w rule: run_schedule.induct)
  case (2 env rows i "is" ps w)
  show ?case
  proof (cases "i < length rows \<and> i < length ps")
    case True
    obtain p v where a: "advance env (rows ! i) (ps ! i) w = (p, v)" by (cases "advance env (rows ! i) (ps ! i) w")
    have "sent_before_marked rows old queued (ps[i := p]) v"
      using sent_before_marked_advance [OF 2(3) _ a] True by blast
    moreover have "run_schedule env rows is (ps[i := p]) v = (ps', w')" using 2(4) True a by simp
    ultimately show ?thesis using 2(1) [OF True a [symmetric]] by blast
  next
    case False
    then have "run_schedule env rows is ps w = (ps', w')" using 2(4) by (simp split: if_splits)
    with 2(2) [OF False] 2(3) show ?thesis by blast
  qed
qed simp

section \<open>The order of selection\<close>

lemma takeWhile_eq_filter_sorted:
  "sorted (map f xs) \<Longrightarrow> takeWhile (\<lambda>y. f y \<le> k) xs = filter (\<lambda>y. f y \<le> k) xs" for f :: "'a \<Rightarrow> 'b :: linorder"
proof (induction xs)
  case (Cons x xs)
  show ?case
  proof (cases "f x \<le> k")
    case False
    with Cons.prems have "\<forall>y \<in> set (x # xs). \<not> f y \<le> k" by (auto dest: order_trans)
    then have "filter (\<lambda>y. f y \<le> k) (x # xs) = []" by (simp add: filter_empty_conv)
    with False show ?thesis by simp
  qed (use Cons in simp)
qed simp

lemma in_take_sort_key:
  assumes "x \<in> set xs" and "length (filter (\<lambda>y. f y \<le> f x) xs) \<le> n"
  shows "x \<in> set (take n (sort_key f xs))"
proof -
  let ?ys = "sort_key f xs"
  have "takeWhile (\<lambda>y. f y \<le> f x) ?ys = filter (\<lambda>y. f y \<le> f x) ?ys"
    by (rule takeWhile_eq_filter_sorted) simp
  moreover have "length (filter (\<lambda>y. f y \<le> f x) ?ys) = length (filter (\<lambda>y. f y \<le> f x) xs)"
    by (metis mset_filter mset_sort size_mset)
  ultimately have "length (takeWhile (\<lambda>y. f y \<le> f x) ?ys) \<le> n" and "x \<in> set (takeWhile (\<lambda>y. f y \<le> f x) ?ys)"
    using assms by auto
  moreover have "takeWhile (\<lambda>y. f y \<le> f x) ?ys = take (length (takeWhile (\<lambda>y. f y \<le> f x) ?ys)) ?ys"
    by (rule takeWhile_eq_take)
  ultimately show ?thesis by (metis set_take_subset_set_take subsetD)
qed

definition pending_tenants :: "database \<Rightarrow> string set" where
  "pending_tenants d = tenant_of ` set (pending_rows d)"

text \<open>A tenant's rank in the rotation: how many pending tenants come before it, itself included.\<close>

definition rank :: "string set \<Rightarrow> string \<Rightarrow> string \<Rightarrow> nat" where
  "rank ts afterTenantId t = card {t' \<in> ts. rotation afterTenantId t' \<le> rotation afterTenantId t}"

lemma rotation_inject: "rotation a t = rotation a t' \<longleftrightarrow> t = t'"
  by (auto simp: rotation_def)

lemma pending_rows_distinct:
  "distinct (map ob_id (outboxes d)) \<Longrightarrow> distinct (map (\<lambda>r. ob_id (fst r)) (pending_rows d))"
proof -
  have sub: "(\<lambda>r. ob_id (fst r)) ` set (List.map_filter (\<lambda>r. if ob_published r then None else map_option (Pair r) (event_of d r)) xs)
      \<subseteq> ob_id ` set xs" for xs
    by (induction xs) (auto simp: List.map_filter_simps split: option.splits if_splits)
  have "distinct (map ob_id xs) \<Longrightarrow> distinct (map (\<lambda>r. ob_id (fst r))
      (List.map_filter (\<lambda>r. if ob_published r then None else map_option (Pair r) (event_of d r)) xs))" for xs
  proof (induction xs)
    case (Cons x xs)
    then show ?case using sub [of xs] by (auto simp: List.map_filter_simps split: option.splits)
  qed (simp add: List.map_filter_simps)
  then show "distinct (map ob_id (outboxes d)) \<Longrightarrow> distinct (map (\<lambda>r. ob_id (fst r)) (pending_rows d))"
    by (simp add: pending_rows_def)
qed

lemma row_order_inject:
  assumes "distinct (map (\<lambda>r. ob_id (fst r)) rows)" and "r \<in> set rows" and "s \<in> set rows" and "row_order r = row_order s"
  shows "r = s"
  using assms by (auto simp: row_order_def distinct_map dest: inj_onD)

lemma tenant_position_pos: "r \<in> set rows \<Longrightarrow> 1 \<le> tenant_position rows r"
proof -
  assume "r \<in> set rows"
  then have "filter (\<lambda>s. tenant_of s = tenant_of r \<and> row_order s \<le> row_order r) rows \<noteq> []"
    by (auto simp: filter_empty_conv)
  then show ?thesis by (cases "filter (\<lambda>s. tenant_of s = tenant_of r \<and> row_order s \<le> row_order r) rows")
    (auto simp: tenant_position_def)
qed

lemma length_filter_distinct: "distinct xs \<Longrightarrow> length (filter P xs) = card {x \<in> set xs. P x}"
  by (metis distinct_card distinct_filter set_filter)

text \<open>A row is first of its tenant exactly when no other row of the tenant is older.\<close>

lemma tenant_position_1:
  assumes "distinct (map (\<lambda>r. ob_id (fst r)) rows)" and "r \<in> set rows"
  shows "tenant_position rows r = 1 \<longleftrightarrow> (\<forall>s \<in> set rows. tenant_of s = tenant_of r \<longrightarrow> row_order r \<le> row_order s)"
proof -
  let ?A = "{s \<in> set rows. tenant_of s = tenant_of r \<and> row_order s \<le> row_order r}"
  have "distinct rows" using assms(1) by (simp add: distinct_map)
  then have p: "tenant_position rows r = card ?A"
    by (simp add: tenant_position_def length_filter_distinct)
  have r: "r \<in> ?A" using assms(2) by simp
  show ?thesis
  proof
    assume "tenant_position rows r = 1"
    with p have "card ?A = 1" by argo
    then obtain x where "?A = {x}" by (rule card_1_singletonE)
    with r have A: "?A = {r}" by (metis (no_types, lifting) singletonD)
    show "\<forall>s \<in> set rows. tenant_of s = tenant_of r \<longrightarrow> row_order r \<le> row_order s"
    proof (intro ballI impI)
      fix s assume s: "s \<in> set rows" "tenant_of s = tenant_of r"
      show "row_order r \<le> row_order s"
      proof (rule ccontr)
        assume "\<not> row_order r \<le> row_order s"
        then have "row_order s \<le> row_order r" "s \<noteq> r" by (simp_all only: not_le less_imp_le) auto
        with s have "s \<in> ?A" by blast
        with A have "s \<in> {r}" by (simp only:)
        with \<open>s \<noteq> r\<close> show False by (simp only: singleton_iff)
      qed
    qed
  next
    assume min: "\<forall>s \<in> set rows. tenant_of s = tenant_of r \<longrightarrow> row_order r \<le> row_order s"
    have "s = r" if "s \<in> ?A" for s
    proof (rule row_order_inject [OF assms(1)])
      show "s \<in> set rows" "r \<in> set rows" using that assms(2) by blast+
      have "row_order s \<le> row_order r" "row_order r \<le> row_order s" using that min by blast+
      then show "row_order s = row_order r" by (rule antisym)
    qed
    with r have "?A = {r}" by blast
    with p show "tenant_position rows r = 1" by simp
  qed
qed

lemma oldest_row_exists:
  assumes "t \<in> tenant_of ` set rows"
  shows "\<exists>r \<in> set rows. tenant_of r = t \<and> (\<forall>s \<in> set rows. tenant_of s = t \<longrightarrow> row_order r \<le> row_order s)"
proof -
  let ?B = "row_order ` {s \<in> set rows. tenant_of s = t}"
  have "finite ?B" "?B \<noteq> {}" using assms by auto
  then have "Min ?B \<in> ?B" "\<forall>k \<in> ?B. Min ?B \<le> k" by auto
  then show ?thesis by fastforce
qed

text \<open>The rows that precede a tenant's oldest row are the oldest rows of the tenants before it.\<close>

lemma count_before_oldest:
  assumes d: "distinct (map (\<lambda>r. ob_id (fst r)) rows)" and r: "r \<in> set rows" "tenant_position rows r = 1"
  shows "length (filter (\<lambda>y. selection_order rows a y \<le> selection_order rows a r) rows)
    = rank (tenant_of ` set rows) a (tenant_of r)"
proof -
  let ?F = "{y \<in> set rows. tenant_position rows y = 1 \<and> rotation a (tenant_of y) \<le> rotation a (tenant_of r)}"
  have "selection_order rows a y \<le> selection_order rows a r
      \<longleftrightarrow> tenant_position rows y = 1 \<and> rotation a (tenant_of y) \<le> rotation a (tenant_of r)" if "y \<in> set rows" for y
    using tenant_position_pos [OF that] r(2) by (auto simp: selection_order_def)
  then have F: "{y \<in> set rows. selection_order rows a y \<le> selection_order rows a r} = ?F" by blast
  have "distinct rows" using d by (simp add: distinct_map)
  then have "length (filter (\<lambda>y. selection_order rows a y \<le> selection_order rows a r) rows) = card ?F"
    by (simp add: length_filter_distinct F)
  also have "\<dots> = card (tenant_of ` ?F)"
  proof (rule card_image [symmetric], rule inj_onI)
    fix x y assume x: "x \<in> ?F" and y: "y \<in> ?F" and t: "tenant_of x = tenant_of y"
    have "row_order x \<le> row_order y" using tenant_position_1 [OF d, of x] x y t [symmetric] by blast
    moreover have "row_order y \<le> row_order x" using tenant_position_1 [OF d, of y] x y t by blast
    ultimately have "row_order x = row_order y" by (rule antisym)
    with x y show "x = y" using row_order_inject [OF d, of x y] by blast
  qed
  also have "tenant_of ` ?F = {t' \<in> tenant_of ` set rows. rotation a t' \<le> rotation a (tenant_of r)}"
  proof (intro set_eqI iffI)
    fix t' assume "t' \<in> {t' \<in> tenant_of ` set rows. rotation a t' \<le> rotation a (tenant_of r)}"
    then have t': "t' \<in> tenant_of ` set rows" "rotation a t' \<le> rotation a (tenant_of r)" by blast+
    from oldest_row_exists [OF t'(1)] obtain y where y: "y \<in> set rows" "tenant_of y = t'"
      and "\<forall>s \<in> set rows. tenant_of s = t' \<longrightarrow> row_order y \<le> row_order s" by blast
    then have "tenant_position rows y = 1" using tenant_position_1 [OF d y(1)] by blast
    with y t'(2) have "y \<in> ?F" by blast
    with y(2) show "t' \<in> tenant_of ` ?F" by blast
  qed auto
  finally show ?thesis by (simp add: rank_def)
qed

lemma oldest_row_selected:
  assumes "distinct (map ob_id (outboxes d))" and "t \<in> pending_tenants d" and "rank (pending_tenants d) a t \<le> n"
  shows "\<exists>r \<in> set (select_rows d n a). tenant_of r = t
    \<and> (\<forall>s \<in> set (pending_rows d). tenant_of s = t \<longrightarrow> row_order r \<le> row_order s)"
proof -
  have d: "distinct (map (\<lambda>r. ob_id (fst r)) (pending_rows d))" by (rule pending_rows_distinct [OF assms(1)])
  obtain r where r: "r \<in> set (pending_rows d)" "tenant_of r = t"
    and min: "\<forall>s \<in> set (pending_rows d). tenant_of s = t \<longrightarrow> row_order r \<le> row_order s"
    using oldest_row_exists assms(2) unfolding pending_tenants_def by blast
  then have "tenant_position (pending_rows d) r = 1" using tenant_position_1 [OF d] by blast
  from count_before_oldest [OF d r(1) this] assms(3) r
  have "r \<in> set (select_rows d n a)"
    unfolding select_rows_def Let_def by (intro in_take_sort_key) (simp_all add: pending_tenants_def)
  with r min show ?thesis by blast
qed

text \<open>Two rows with one selection key are the same row.\<close>

lemma tenant_position_mono:
  assumes d: "distinct (map (\<lambda>r. ob_id (fst r)) rows)" and "s \<in> set rows"
    and "tenant_of r = tenant_of s" and "row_order r < row_order s"
  shows "tenant_position rows r < tenant_position rows s"
proof -
  let ?B = "\<lambda>x. {y \<in> set rows. tenant_of y = tenant_of x \<and> row_order y \<le> row_order x}"
  have "distinct rows" using d by (simp add: distinct_map)
  then have p: "tenant_position rows x = card (?B x)" for x
    by (simp add: tenant_position_def length_filter_distinct)
  have "s \<in> ?B s" "s \<notin> ?B r" using assms(2,4) by (simp_all add: not_le)
  moreover have "?B r \<subseteq> ?B s" using assms(3,4) by (auto intro: order_trans less_imp_le)
  ultimately have "?B r \<subset> ?B s" by blast
  then show ?thesis unfolding p by (rule psubset_card_mono [rotated]) simp
qed

lemma selection_order_inject:
  assumes d: "distinct (map (\<lambda>r. ob_id (fst r)) rows)" and r: "r \<in> set rows" and s: "s \<in> set rows"
    and eq: "selection_order rows a r = selection_order rows a s"
  shows "r = s"
proof (rule row_order_inject [OF d r s])
  have t: "tenant_of r = tenant_of s" and p: "tenant_position rows r = tenant_position rows s"
    using eq by (simp_all add: selection_order_def rotation_inject)
  show "row_order r = row_order s"
    using tenant_position_mono [OF d s t] tenant_position_mono [OF d r t [symmetric]] p
    by (metis less_irrefl linorder_neqE)
qed

lemma length_filter_mono: "(\<And>y. P y \<Longrightarrow> Q y) \<Longrightarrow> length (filter P xs) \<le> length (filter Q xs)"
  by (induction xs) (auto intro: le_SucI)

text \<open>In a list sorted by an injective key, the \<open>n\<close>-th element has \<open>n\<close> elements up to it.\<close>

lemma count_upto_nth:
  fixes f :: "'a \<Rightarrow> 'b :: linorder"
  assumes "distinct xs" and "inj_on f (set xs)" and "i < length xs"
  shows "length (filter (\<lambda>y. f y \<le> f (sort_key f xs ! i)) xs) = Suc i"
proof -
  let ?ys = "sort_key f xs"
  have le: "f (?ys ! j) \<le> f (?ys ! i) \<longleftrightarrow> j \<le> i" if "j < length xs" for j
  proof
    assume "j \<le> i"
    then show "f (?ys ! j) \<le> f (?ys ! i)"
      using sorted_nth_mono [of "map f ?ys" j i] assms(3) by simp
  next
    assume a: "f (?ys ! j) \<le> f (?ys ! i)"
    show "j \<le> i"
    proof (rule ccontr)
      assume "\<not> j \<le> i"
      then have "f (?ys ! i) \<le> f (?ys ! j)"
        using sorted_nth_mono [of "map f ?ys" i j] that by simp
      with a have "f (?ys ! i) = f (?ys ! j)" by (rule antisym [rotated])
      moreover have "?ys ! i \<in> set xs" "?ys ! j \<in> set xs"
        using nth_mem [of i ?ys] nth_mem [of j ?ys] assms(3) that by simp_all
      ultimately have "?ys ! i = ?ys ! j" using assms(2) by (simp add: inj_on_def)
      with \<open>\<not> j \<le> i\<close> show False using assms(1,3) that by (simp add: nth_eq_iff_index_eq)
    qed
  qed
  have "length (filter (\<lambda>y. f y \<le> f (?ys ! i)) xs) = length (filter (\<lambda>y. f y \<le> f (?ys ! i)) ?ys)"
    by (metis mset_filter mset_sort size_mset)
  also have "\<dots> = card {j. j < length xs \<and> f (?ys ! j) \<le> f (?ys ! i)}"
    by (simp add: length_filter_conv_card)
  also have "{j. j < length xs \<and> f (?ys ! j) \<le> f (?ys ! i)} = {..i}"
    using le assms(3) by auto
  finally show ?thesis by simp
qed

text \<open>When a tenant ranks behind the batch, the batch ends with the \<open>n\<close>-th tenant of the rotation.\<close>

lemma last_selected:
  assumes u: "distinct (map ob_id (outboxes d))" and t: "t \<in> pending_tenants d"
    and n: "0 < n" "n < rank (pending_tenants d) a t"
  shows "select_rows d n a \<noteq> []"
    and "rank (pending_tenants d) a (tenant_of (last (select_rows d n a))) = n"
    and "rotation a (tenant_of (last (select_rows d n a))) < rotation a t"
proof -
  let ?rows = "pending_rows d" and ?key = "selection_order (pending_rows d) a"
  let ?ys = "sort_key ?key ?rows"
  let ?upto = "\<lambda>r. length (filter (\<lambda>y. ?key y \<le> ?key r) ?rows)"
  have d: "distinct (map (\<lambda>r. ob_id (fst r)) ?rows)" by (rule pending_rows_distinct [OF u])
  then have "distinct ?rows" by (simp add: distinct_map)
  have "inj_on ?key (set ?rows)" using selection_order_inject [OF d] by (simp add: inj_on_def)
  obtain r where r: "r \<in> set ?rows" "tenant_of r = t"
    and min: "\<forall>s \<in> set ?rows. tenant_of s = t \<longrightarrow> row_order r \<le> row_order s"
    using oldest_row_exists t unfolding pending_tenants_def by blast
  then have r1: "tenant_position ?rows r = 1" using tenant_position_1 [OF d r(1)] by blast
  have up_r: "?upto r = rank (pending_tenants d) a t"
    using count_before_oldest [OF d r(1) r1] r(2) by (simp add: pending_tenants_def)
  then have len: "n < length ?rows" using n(2) length_filter_le [of _ ?rows] by (metis le_less_trans not_le)
  then have sel: "select_rows d n a = take n ?ys" by (simp add: select_rows_def Let_def)
  have "length (select_rows d n a) = n" unfolding sel using len by simp
  with n(1) show ne: "select_rows d n a \<noteq> []" by force
  have x: "last (select_rows d n a) = ?ys ! (n - 1)"
    using last_conv_nth [OF ne] n(1) len by (simp add: sel min_def del: last_conv_nth)
  let ?x = "last (select_rows d n a)"
  have mem: "?x \<in> set ?rows" unfolding x using nth_mem [of "n - 1" ?ys] len by simp
  have up_x: "?upto ?x = n" unfolding x
    using count_upto_nth [OF \<open>distinct ?rows\<close> \<open>inj_on ?key (set ?rows)\<close>, of "n - 1"] n(1) len by simp
  have lt: "?key ?x < ?key r"
  proof (rule ccontr)
    assume "\<not> ?key ?x < ?key r"
    then have le: "?key r \<le> ?key ?x" by (simp add: not_less)
    have "length (filter (\<lambda>y. ?key y \<le> ?key r) ?rows) \<le> length (filter (\<lambda>y. ?key y \<le> ?key ?x) ?rows)"
      by (rule length_filter_mono) (rule order_trans [OF _ le])
    with up_r up_x n(2) show False by simp
  qed
  have x1: "tenant_position ?rows ?x = 1"
    using lt tenant_position_pos [OF mem] r1 by (auto simp: selection_order_def)
  then show "rank (pending_tenants d) a (tenant_of ?x) = n"
    using count_before_oldest [OF d mem x1] up_x by (simp add: pending_tenants_def)
  show "rotation a (tenant_of ?x) < rotation a t"
    using lt x1 r1 r(2) by (simp add: selection_order_def)
qed

lemma rotation_shift:
  assumes "rotation a b < rotation a t" and "rotation b s \<le> rotation b t"
  shows "rotation a s \<le> rotation a t" and "rotation a b < rotation a s"
  using assms unfolding rotation_def by (auto split: if_splits)

lemma rank_shift:
  assumes "finite ts" and "ts' \<subseteq> ts" and "rotation a b < rotation a t" and "b \<in> ts"
  shows "rank ts' b t + rank ts a b \<le> rank ts a t"
proof -
  let ?A = "{s \<in> ts'. rotation b s \<le> rotation b t}" and ?B = "{s \<in> ts. rotation a s \<le> rotation a b}"
  have "?A \<union> ?B \<subseteq> {s \<in> ts. rotation a s \<le> rotation a t}"
    using rotation_shift(1) [OF assms(3)] assms(2) order_trans [OF _ less_imp_le [OF assms(3)]] by blast
  moreover have "?A \<inter> ?B = {}"
    using rotation_shift(2) [OF assms(3)] not_le by blast
  moreover have "finite ?A" "finite ?B" using assms(1) finite_subset [OF assms(2)] by simp_all
  ultimately have "card ?A + card ?B \<le> card {s \<in> ts. rotation a s \<le> rotation a t}"
    using card_Un_disjoint [of ?A ?B] card_mono [of "{s \<in> ts. rotation a s \<le> rotation a t}" "?A \<union> ?B"] assms(1)
    by simp
  then show ?thesis by (simp add: rank_def)
qed

end
