(* ===== verification/Ingest.thy ===== *)
theory Ingest
  imports ApiWorld Outbox
begin

text \<open>
  Accepting an event (\<open>packages/api/src/services/events.ts\<close>, \<open>rate-limit.ts\<close>,
  \<open>controllers/events.ts\<close>): validation, the tenant's rate limit, the choice between the database and
  the object store, and the transaction that writes the event with its outbox row.
\<close>

section \<open>Rate limit\<close>

definition ingestionRateLimitConfig :: "api_env \<Rightarrow> rate_overrides" where
  "ingestionRateLimitConfig env =
     \<lparr>ov_capacity = Some (case ingestion_capacity env of None \<Rightarrow> Num 10 | Some v \<Rightarrow> js_Number v),
      ov_refillPerSecond = Some (case ingestion_refill env of None \<Rightarrow> Num 10 | Some v \<Rightarrow> js_Number v)\<rparr>"

definition enforceIngestionRateLimit :: "api_env \<Rightarrow> string \<Rightarrow> token_decision api" where
  "enforceIngestionRateLimit env tenantId =
     andThen (api_call env ConnectRedis (ret ())) (\<lambda>_.
     andThen (api_call env EvalToken
       (\<lambda>w. case consumeTenantToken (a_now w) tenantId Ingestion (ingestionRateLimitConfig env)
                  (Num (of_int (a_now w))) (a_buckets w) of
              (Inl e, b) \<Rightarrow> (Inl (Other e), w\<lparr>a_buckets := b\<rparr>)
            | (Inr x, b) \<Rightarrow> (Inr x, w\<lparr>a_buckets := b\<rparr>))) (\<lambda>decision.
     if t_allowed decision then ret decision else throw (IngestionRateLimitError (retryAfterMs decision))))"

section \<open>Validation and sizes\<close>

definition check_uuid :: "api_env \<Rightarrow> string \<Rightarrow> json option \<Rightarrow> issue list + string" where
  "check_uuid env name v =
     (case v of Some (JStr s) \<Rightarrow> if is_uuid env s then Inr s else Inl [InvalidUuid name]
      | _ \<Rightarrow> Inl [InvalidType name])"

definition check_text :: "string \<Rightarrow> nat \<Rightarrow> nat \<Rightarrow> json option \<Rightarrow> issue list + string" where
  "check_text name lo hi v =
     (case v of Some (JStr s) \<Rightarrow>
        if length s < lo then Inl [TooSmall name] else if hi < length s then Inl [TooBig name] else Inr s
      | _ \<Rightarrow> Inl [InvalidType name])"

definition issues_of :: "issue list + 'a \<Rightarrow> issue list" where
  "issues_of r = (case r of Inl is \<Rightarrow> is | Inr _ \<Rightarrow> [])"

definition ingestSchema :: "api_env \<Rightarrow> json option \<Rightarrow> issue list + string \<times> string \<times> json option" where
  "ingestSchema env input =
     (case input of
        Some (JObj ms) \<Rightarrow>
          (case (check_uuid env ''tenantId'' (map_of ms ''tenantId''), check_text ''type'' 1 200 (map_of ms ''type'')) of
             (Inr t, Inr ty) \<Rightarrow> Inr (t, ty, map_of ms ''payload'')
           | (r, q) \<Rightarrow> Inl (issues_of r @ issues_of q))
      | _ \<Rightarrow> Inl [InvalidType []])"

text \<open>\<open>TextEncoder\<close>, for code points below 256.\<close>

definition utf8_length :: "string \<Rightarrow> nat" where
  "utf8_length s = sum_list (map (\<lambda>c. if (of_char c :: nat) < 128 then 1 else 2) s)"

definition payloadBytes :: "json \<Rightarrow> nat" where
  "payloadBytes payload = utf8_length (stringify payload)"

definition DEFAULT_SQS_MAX_MESSAGE_BYTES :: jsnum where
  "DEFAULT_SQS_MAX_MESSAGE_BYTES = Num 262144"

definition sqsMaxBytes :: "api_env \<Rightarrow> exn + jsnum" where
  "sqsMaxBytes env =
     (if \<not> truthy_text (sqs_max_message_bytes env) then Inr DEFAULT_SQS_MAX_MESSAGE_BYTES
      else let parsed = js_Number (the (sqs_max_message_bytes env))
           in if \<not> js_isFinite parsed \<or> js_le parsed (Num 0)
              then Inl (Error ''SQS_MAX_MESSAGE_BYTES must be a positive number'')
              else Inr parsed)"

fun separated :: "string \<Rightarrow> string list \<Rightarrow> string" where
  "separated sep [] = []"
| "separated sep [s] = s"
| "separated sep (s # ss) = s @ sep @ separated sep ss"

section \<open>Storing\<close>

definition S3_TIMEOUT_MS :: nat where
  "S3_TIMEOUT_MS = 15000"

definition uploadPayloadToS3 :: "api_env \<Rightarrow> string \<Rightarrow> string \<Rightarrow> unit api" where
  "uploadPayloadToS3 env key text =
     timed_call env PutPayload (Error (''S3 PutObject timed out after '' @ js_String_nat S3_TIMEOUT_MS @ ''ms''))
       (if \<not> truthy_text (s3_bucket env) then throw (Other (Error ''Missing required env var: S3_BUCKET_NAME''))
        else modify (\<lambda>w. w\<lparr>a_objects := (a_objects w)(key := Some text)\<rparr>))"

datatype stored_in = Postgres | S3

record ingested =
  in_eventId :: string
  in_outboxId :: string
  in_storedIn :: stored_in

definition payload_key :: "string \<Rightarrow> string \<Rightarrow> string" where
  "payload_key tenantId eventId = ''events/'' @ tenantId @ ''/'' @ eventId @ ''.json''"

text \<open>The event row of the request and where its payload goes.\<close>

definition storePayload :: "api_env \<Rightarrow> string \<Rightarrow> json \<Rightarrow> (json \<times> string option \<times> stored_in) api" where
  "storePayload env tenantId payload =
     andThen (lift_sum (map_sum Other id (sqsMaxBytes env))) (\<lambda>max_bytes.
     case json_parse (stringify payload) of
       None \<Rightarrow> throw (Other (Error ''SyntaxError''))
     | Some inlinePayload \<Rightarrow>
         if js_lt max_bytes (Num (of_nat (payloadBytes payload)))
         then (let key = payload_key tenantId (random_uuid env)
               in andThen (uploadPayloadToS3 env key (stringify payload)) (\<lambda>_. ret (JNull, Some key, S3)))
         else ret (inlinePayload, None, Postgres))"

definition insertEvent :: "create_event \<Rightarrow> int \<Rightarrow> (event \<times> outbox) db_op" where
  "insertEvent input t =
     db_bind (createEvent input t) (\<lambda>event.
     db_bind (createOutbox (ev_id event) t) (\<lambda>outbox. db_return (event, outbox)))"

definition acceptEvent :: "api_env \<Rightarrow> string \<Rightarrow> string \<Rightarrow> json \<Rightarrow> ingested api" where
  "acceptEvent env tenantId type payload =
     andThen (api_call env FindTenant (reading (\<lambda>w. findTenantById tenantId (a_db w)))) (\<lambda>tenant.
     if tenant = None then throw (TenantNotFoundError (''Tenant not found: '' @ tenantId))
     else andThen (enforceIngestionRateLimit env tenantId) (\<lambda>_.
          andThen (storePayload env tenantId payload) (\<lambda>(inlinePayload, payloadS3Key, storedIn).
          andThen (api_call env InsertEvent (\<lambda>w. api_db (insertEvent
            \<lparr>ce_id = random_uuid env, ce_tenantId = tenantId, ce_type = type, ce_payload = inlinePayload,
             ce_payloadS3Key = payloadS3Key\<rparr> (a_now w)) w)) (\<lambda>(event, outbox).
          ret \<lparr>in_eventId = ev_id event, in_outboxId = ob_id outbox, in_storedIn = storedIn\<rparr>))))"

definition ingestEvent :: "api_env \<Rightarrow> json option \<Rightarrow> ingested api" where
  "ingestEvent env input =
     (case ingestSchema env input of
        Inl issues \<Rightarrow> throw (ValidationError (separated ''; '' (map (issue_message env) issues)))
      | Inr (tenantId, type, payload) \<Rightarrow>
          (case payload of None \<Rightarrow> throw (ValidationError ''payload is required'')
           | Some v \<Rightarrow> acceptEvent env tenantId type v))"

section \<open>The controller\<close>

definition ingested_json :: "ingested \<Rightarrow> json" where
  "ingested_json r = JObj [(''eventId'', JStr (in_eventId r)), (''outboxId'', JStr (in_outboxId r)),
     (''storedIn'', JStr (case in_storedIn r of Postgres \<Rightarrow> ''postgres'' | S3 \<Rightarrow> ''s3''))]"

definition ingest_error :: "api_exn \<Rightarrow> response" where
  "ingest_error e =
     (case e of
        ValidationError m \<Rightarrow> error_response 400 m
      | TenantNotFoundError m \<Rightarrow> error_response 404 m
      | IngestionRateLimitError ms \<Rightarrow>
          (error_response 429 ''tenant ingestion rate limit exceeded'')
            \<lparr>headers := [(''Retry-After'', js_String (js_max (Num 1) (js_ceil (js_div ms (Num 1000)))))]\<rparr>
      | _ \<Rightarrow> error_response 500 ''internal error'')"

definition postEvent :: "api_env \<Rightarrow> json option \<Rightarrow> response api" where
  "postEvent env input =
     catching (andThen (ingestEvent env input) (\<lambda>result. ret (respond 201 (ingested_json result))))
       (\<lambda>e. ret (ingest_error e))"

section \<open>Lemmas\<close>

definition undisturbed :: "api_env \<Rightarrow> bool" where
  "undisturbed env \<longleftrightarrow> (\<forall>c d. meanwhile env c d = d)"

lemma undisturbedD: "undisturbed env \<Longrightarrow> meanwhile env c d = d"
  by (simp add: undisturbed_def)

lemma triple_api_call_rely:
  assumes "\<And>w t. P w \<Longrightarrow> P (w\<lparr>a_now := t, a_db := meanwhile env c (a_db w)\<rparr>)"
    and "triple P m Q E" and "\<And>w. P w \<Longrightarrow> E w" and "\<And>x w. Q x w \<Longrightarrow> E w"
  shows "triple P (api_call env c m) Q E"
  unfolding api_call_def
  by (rule triple_andThen [where R = "\<lambda>_. P"])
    (auto intro!: triple_modify assms(1) triple_external [OF assms(2,3,4)])

lemma triple_api_call:
  assumes "\<And>w t. P w \<Longrightarrow> P (w\<lparr>a_now := t\<rparr>)" and "undisturbed env"
    and "triple P m Q E" and "\<And>w. P w \<Longrightarrow> E w" and "\<And>x w. Q x w \<Longrightarrow> E w"
  shows "triple P (api_call env c m) Q E"
  by (rule triple_api_call_rely) (use assms in \<open>auto simp: undisturbedD\<close>)

lemma triple_timed_call:
  assumes "\<And>w t. P w \<Longrightarrow> P (w\<lparr>a_now := t\<rparr>)" and "undisturbed env"
    and "triple P m Q E" and "\<And>w. P w \<Longrightarrow> E w" and "\<And>x w. Q x w \<Longrightarrow> E w"
  shows "triple P (timed_call env c timeout m) Q E"
  unfolding timed_call_def
proof (rule triple_andThen [where R = "\<lambda>_. P"])
  show "triple P (modify (\<lambda>w. w\<lparr>a_now := a_now w + int (a_elapse env c), a_db := meanwhile env c (a_db w)\<rparr>)) (\<lambda>_. P) E"
    using assms(1,2) by (intro triple_modify) (simp add: undisturbedD)
qed (rule triple_external [OF assms(3,4,5)])

lemma triple_enforce:
  assumes "undisturbed env" and "\<And>w t. P w \<Longrightarrow> P (w\<lparr>a_now := t\<rparr>)" and "\<And>w b. P w \<Longrightarrow> P (w\<lparr>a_buckets := b\<rparr>)"
  shows "triple P (enforceIngestionRateLimit env t) (\<lambda>_. P) P"
  unfolding enforceIngestionRateLimit_def
proof (rule triple_andThen [where R = "\<lambda>_. P"])
  show "triple P (api_call env ConnectRedis (ret ())) (\<lambda>_. P) P"
    by (rule triple_api_call) (use assms in \<open>auto intro: triple_ret\<close>)
  fix u :: unit
  show "triple P (andThen (api_call env EvalToken
       (\<lambda>w. case consumeTenantToken (a_now w) t Ingestion (ingestionRateLimitConfig env)
                  (Num (of_int (a_now w))) (a_buckets w) of
              (Inl e, b) \<Rightarrow> (Inl (Other e), w\<lparr>a_buckets := b\<rparr>)
            | (Inr x, b) \<Rightarrow> (Inr x, w\<lparr>a_buckets := b\<rparr>))) (\<lambda>decision.
     if t_allowed decision then ret decision else throw (IngestionRateLimitError (retryAfterMs decision)))) (\<lambda>_. P) P"
  proof (rule triple_andThen [where R = "\<lambda>_. P"], rule triple_api_call)
    show "triple P (\<lambda>w. case consumeTenantToken (a_now w) t Ingestion (ingestionRateLimitConfig env)
                  (Num (of_int (a_now w))) (a_buckets w) of
              (Inl e, b) \<Rightarrow> (Inl (Other e), w\<lparr>a_buckets := b\<rparr>)
            | (Inr x, b) \<Rightarrow> (Inr x, w\<lparr>a_buckets := b\<rparr>)) (\<lambda>_. P) P"
      by (rule tripleI) (auto intro: assms(3) split: prod.splits sum.splits)
    show "triple P (if t_allowed x then ret x else throw (IngestionRateLimitError (retryAfterMs x))) (\<lambda>_. P) P" for x
      by (auto intro: triple_ret triple_throw)
  qed (use assms in auto)
qed

text \<open>The payload is where the event says.\<close>

definition payload_placed :: "(string \<Rightarrow> string option) \<Rightarrow> json \<Rightarrow> json \<times> string option \<Rightarrow> bool" where
  "payload_placed store v p \<longleftrightarrow>
     (case p of (inline, None) \<Rightarrow> json_parse (stringify v) = Some inline
      | (inline, Some k) \<Rightarrow> inline = JNull \<and> k \<noteq> [] \<and> store k = Some (stringify v))"

lemma triple_storePayload:
  assumes "undisturbed env"
  shows "triple (\<lambda>w. a_db w = d) (storePayload env t v)
    (\<lambda>(inline, k, st) w. a_db w = d \<and> payload_placed (a_objects w) v (inline, k)
       \<and> k \<in> {None, Some (payload_key t (random_uuid env))}) (\<lambda>w. a_db w = d)"
proof -
  have put: "triple (\<lambda>w. a_db w = d) (uploadPayloadToS3 env k c)
      (\<lambda>_ w. a_db w = d \<and> a_objects w k = Some c) (\<lambda>w. a_db w = d)" for k c
    unfolding uploadPayloadToS3_def
    by (rule triple_timed_call) (auto simp: assms intro!: triple_throw triple_modify)
  show ?thesis
    unfolding storePayload_def
  proof (rule triple_andThen [where R = "\<lambda>_ w. a_db w = d"])
    show "triple (\<lambda>w. a_db w = d) (lift_sum (map_sum Other id (sqsMaxBytes env))) (\<lambda>_ w. a_db w = d) (\<lambda>w. a_db w = d)"
      by (auto intro!: tripleI split: sum.splits)
    fix m :: jsnum
    let ?k = "payload_key t (random_uuid env)"
    have "triple (\<lambda>w. a_db w = d) (andThen (uploadPayloadToS3 env ?k (stringify v)) (\<lambda>_. ret (JNull, Some ?k, S3)))
        (\<lambda>(inline, k, st) w. a_db w = d \<and> payload_placed (a_objects w) v (inline, k) \<and> k \<in> {None, Some ?k})
        (\<lambda>w. a_db w = d)"
      by (rule triple_andThen [OF put], rule triple_ret) (auto simp: payload_placed_def payload_key_def)
    then show "triple (\<lambda>w. a_db w = d)
        (case json_parse (stringify v) of None \<Rightarrow> throw (Other (Error ''SyntaxError''))
         | Some inlinePayload \<Rightarrow>
             if js_lt m (Num (of_nat (payloadBytes v)))
             then (let key = ?k in andThen (uploadPayloadToS3 env key (stringify v)) (\<lambda>_. ret (JNull, Some key, S3)))
             else ret (inlinePayload, None, Postgres))
        (\<lambda>(inline, k, st) w. a_db w = d \<and> payload_placed (a_objects w) v (inline, k) \<and> k \<in> {None, Some ?k})
        (\<lambda>w. a_db w = d)"
    proof (cases "json_parse (stringify v)")
      case (Some x)
      show ?thesis if "triple (\<lambda>w. a_db w = d) (andThen (uploadPayloadToS3 env ?k (stringify v)) (\<lambda>_. ret (JNull, Some ?k, S3)))
        (\<lambda>(inline, k, st) w. a_db w = d \<and> payload_placed (a_objects w) v (inline, k) \<and> k \<in> {None, Some ?k})
        (\<lambda>w. a_db w = d)"
        using that Some by (cases "js_lt m (Num (of_nat (payloadBytes v)))")
          (simp_all add: Let_def triple_ret payload_placed_def)
    qed (simp add: triple_throw)
  qed
qed

text \<open>The effect of an accepted request: one event and one unpublished outbox row.\<close>

definition accepted :: "api_env \<Rightarrow> string \<Rightarrow> string \<Rightarrow> json \<Rightarrow> database \<Rightarrow> event \<Rightarrow> outbox \<Rightarrow> api_world \<Rightarrow> bool" where
  "accepted env t ty v d e r w \<longleftrightarrow>
     a_db w = d\<lparr>events := events d @ [e], outboxes := outboxes d @ [r], next_id := next_id d + 1\<rparr>
     \<and> find (\<lambda>x. ev_id x = ev_id e) (events d) = None \<and> findTenantById t d \<noteq> None
     \<and> ev_id e = random_uuid env \<and> ev_tenantId e = t \<and> ev_type e = ty
     \<and> ob_eventId r = ev_id e \<and> \<not> ob_published r
     \<and> payload_placed (a_objects w) v (case ev_payload e of None \<Rightarrow> JNull | Some p \<Rightarrow> p, ev_payloadS3Key e)"

lemma insertEvent_ok:
  assumes "insertEvent input n d = Inr ((e, r), d')"
  shows "d' = d\<lparr>events := events d @ [e], outboxes := outboxes d @ [r], next_id := next_id d + 1\<rparr>
    \<and> find (\<lambda>x. ev_id x = ev_id e) (events d) = None \<and> findTenantById (ce_tenantId input) d \<noteq> None
    \<and> ev_id e = ce_id input \<and> ev_tenantId e = ce_tenantId input \<and> ev_type e = ce_type input
    \<and> ob_eventId r = ev_id e \<and> \<not> ob_published r \<and> ev_payloadS3Key e = ce_payloadS3Key input
    \<and> (case ev_payload e of None \<Rightarrow> JNull | Some p \<Rightarrow> p) = ce_payload input"
  using assms
  by (auto simp: insertEvent_def db_bind_def db_return_def createEvent_ok createOutbox_ok fresh_id_def findTenantById_def
      split: sum.splits)

lemma triple_acceptEvent:
  assumes u: "undisturbed env"
  shows "triple (\<lambda>w. a_db w = d) (acceptEvent env t ty v)
    (\<lambda>x w. \<exists>e r. accepted env t ty v d e r w \<and> in_eventId x = ev_id e \<and> in_outboxId x = ob_id r)
    (\<lambda>w. a_db w = d \<or> (\<exists>e r. accepted env t ty v d e r w))"
    (is "triple ?P _ ?Q ?E")
  unfolding acceptEvent_def
proof (rule triple_andThen [where R = "\<lambda>_. ?P"])
  show "triple ?P (api_call env FindTenant (reading (\<lambda>w. findTenantById t (a_db w)))) (\<lambda>_. ?P) ?E"
    by (rule triple_api_call) (auto simp: u intro!: triple_reading)
  fix tn
  show "triple ?P (if tn = None then throw (TenantNotFoundError (''Tenant not found: '' @ t))
     else andThen (enforceIngestionRateLimit env t) (\<lambda>_.
          andThen (storePayload env t v) (\<lambda>(inlinePayload, payloadS3Key, storedIn).
          andThen (api_call env InsertEvent (\<lambda>w. api_db (insertEvent
            \<lparr>ce_id = random_uuid env, ce_tenantId = t, ce_type = ty, ce_payload = inlinePayload,
             ce_payloadS3Key = payloadS3Key\<rparr> (a_now w)) w)) (\<lambda>(event, outbox).
          ret \<lparr>in_eventId = ev_id event, in_outboxId = ob_id outbox, in_storedIn = storedIn\<rparr>)))) ?Q ?E"
  proof (cases tn)
    case (Some x)
    let ?R = "\<lambda>(inline, k, st :: stored_in) w. a_db w = d \<and> payload_placed (a_objects w) v (inline, k)"
    have enf: "triple ?P (enforceIngestionRateLimit env t) (\<lambda>_. ?P) ?E"
      by (rule triple_conseq [OF triple_enforce [OF u, of ?P]]) auto
    have store: "triple ?P (storePayload env t v) ?R ?E"
      by (rule triple_conseq [OF triple_storePayload [OF u, of d]]) auto
    have ins: "triple (?R (inline, k, st))
        (andThen (api_call env InsertEvent (\<lambda>w. api_db (insertEvent
            \<lparr>ce_id = random_uuid env, ce_tenantId = t, ce_type = ty, ce_payload = inline,
             ce_payloadS3Key = k\<rparr> (a_now w)) w)) (\<lambda>(event, outbox).
          ret \<lparr>in_eventId = ev_id event, in_outboxId = ob_id outbox, in_storedIn = st\<rparr>)) ?Q ?E" for inline k st
    proof (rule triple_andThen [where R = "\<lambda>(e, r). accepted env t ty v d e r"])
      show "triple (?R (inline, k, st)) (api_call env InsertEvent (\<lambda>w. api_db (insertEvent
            \<lparr>ce_id = random_uuid env, ce_tenantId = t, ce_type = ty, ce_payload = inline,
             ce_payloadS3Key = k\<rparr> (a_now w)) w)) (\<lambda>(e, r). accepted env t ty v d e r) ?E"
      proof (rule triple_api_call)
        show "triple (?R (inline, k, st)) (\<lambda>w. api_db (insertEvent
            \<lparr>ce_id = random_uuid env, ce_tenantId = t, ce_type = ty, ce_payload = inline,
             ce_payloadS3Key = k\<rparr> (a_now w)) w) (\<lambda>(e, r). accepted env t ty v d e r) ?E"
          by (rule tripleI) (auto simp: api_db_def accepted_def split: sum.splits dest!: insertEvent_ok)
      qed (use u in auto)
    qed (auto intro!: triple_ret, blast)
    show ?thesis using Some
      by (simp, intro triple_andThen [OF enf] triple_andThen [OF store]) (use ins in \<open>auto split: prod.split\<close>)
  qed (auto intro: triple_throw)
qed


lemma ingest_acceptE:
  assumes "ingestEvent env input w = (res, w')"
  obtains (invalid) m where "res = Inl (ValidationError m)" and "w' = w"
  | (valid) t ty v where "ingestSchema env input = Inr (t, ty, Some v)" and "acceptEvent env t ty v w = (res, w')"
  using assms by (auto simp: ingestEvent_def split: sum.splits option.splits)

text \<open>The errors that carry their own status are raised before anything is stored.\<close>

definition early_error :: "api_exn \<Rightarrow> bool" where
  "early_error e \<longleftrightarrow> (\<exists>m. e = ValidationError m \<or> e = TenantNotFoundError m) \<or> (\<exists>n. e = IngestionRateLimitError n)"

definition late :: "'a api \<Rightarrow> bool" where
  "late m \<longleftrightarrow> (\<forall>w e w'. m w = (Inl e, w') \<longrightarrow> \<not> early_error e)"

lemma late_andThen: "late m \<Longrightarrow> (\<And>x. late (f x)) \<Longrightarrow> late (andThen m f)"
  by (fastforce simp: late_def elim!: andThen_InlE)

lemma late_ret: "late (ret x)"
  by (simp add: late_def)

lemma late_external: "late m \<Longrightarrow> (\<And>e. out = Refused e \<or> out = Unconfirmed e \<Longrightarrow> \<not> early_error e) \<Longrightarrow> late (external out m)"
  by (cases out) (auto simp: late_def)

lemma late_api_call: "late m \<Longrightarrow> late (api_call env c m)"
  unfolding api_call_def
  by (intro late_andThen late_external) (auto simp: late_def early_error_def split: Prelude.outcome.splits)

lemma late_timed_call: "late m \<Longrightarrow> late (timed_call env c timeout m)"
  unfolding timed_call_def
  by (intro late_andThen late_external) (auto simp: late_def early_error_def Let_def split: Prelude.outcome.splits)

lemma late_lift: "late (lift_sum (map_sum Other id r))"
  by (cases r) (auto simp: late_def early_error_def)

lemma late_throw: "\<not> early_error e \<Longrightarrow> late (throw e)"
  by (simp add: late_def)

lemma late_upload: "late (uploadPayloadToS3 env k c)"
  unfolding uploadPayloadToS3_def
  by (rule late_timed_call) (simp add: late_def early_error_def)

lemma late_storePayload: "late (storePayload env t v)"
  unfolding storePayload_def
  by (intro late_andThen late_lift)
    (auto simp: early_error_def Let_def intro!: late_throw late_andThen late_upload late_ret split: option.split)

lemma late_insert: "late (api_call env c (\<lambda>w. api_db (m w) w))"
  by (rule late_api_call) (auto simp: late_def api_db_def early_error_def split: sum.splits)

lemma acceptEvent_early:
  assumes u: "undisturbed env" and r: "acceptEvent env t ty v w = (Inl e, w')" and e: "early_error e"
  shows "a_db w' = a_db w \<and> a_objects w' = a_objects w"
proof -
  let ?P = "\<lambda>x. a_db x = a_db w \<and> a_objects x = a_objects w"
  let ?store = "andThen (storePayload env t v) (\<lambda>(inlinePayload, payloadS3Key, storedIn).
          andThen (api_call env InsertEvent (\<lambda>w. api_db (insertEvent
            \<lparr>ce_id = random_uuid env, ce_tenantId = t, ce_type = ty, ce_payload = inlinePayload,
             ce_payloadS3Key = payloadS3Key\<rparr> (a_now w)) w)) (\<lambda>(event, outbox).
          ret \<lparr>in_eventId = ev_id event, in_outboxId = ob_id outbox, in_storedIn = storedIn\<rparr>))"
  have "late ?store"
    by (intro late_andThen late_storePayload) (auto intro!: late_andThen late_insert late_ret split: prod.split)
  then have store: "?store x \<noteq> (Inl e, y)" for x y using e by (auto simp: late_def)
  have enf: "triple ?P (enforceIngestionRateLimit env t) (\<lambda>_. ?P) ?P" by (rule triple_enforce [OF u]) auto
  have find: "triple ?P (api_call env FindTenant (reading (\<lambda>w. findTenantById t (a_db w)))) (\<lambda>_. ?P) ?P"
    by (rule triple_api_call) (auto simp: u intro!: triple_reading)
  from r show ?thesis
    unfolding acceptEvent_def
  proof (cases rule: andThen_InlE)
    case first
    show ?thesis by (rule triple_same [OF find _ first]) simp
  next
    case (second tn x)
    have x: "?P x" by (rule triple_same [OF find _ second(1)]) simp
    show ?thesis
    proof (cases "tn = None")
      case True
      with second(2) x show ?thesis by simp
    next
      case False
      with second(2) have "andThen (enforceIngestionRateLimit env t) (\<lambda>_. ?store) x = (Inl e, w')" by simp
      then show ?thesis
      proof (cases rule: andThen_InlE)
        case first
        show ?thesis by (rule triple_same [OF enf x first])
      qed (use store in simp)
    qed
  qed
qed

section \<open>Examples\<close>

definition api_example :: "string option \<Rightarrow> api_env" where
  "api_example limit =
     \<lparr>a_outcome = (\<lambda>_. Completes), a_elapse = (\<lambda>_. 1), meanwhile = (\<lambda>_ d. d), random_uuid = ''e9'',
      ingestion_capacity = None, ingestion_refill = None, s3_bucket = Some ''b'', sqs_max_message_bytes = limit,
      receiver_url = Some ''u'', body_absent = False, body_stream = (\<lambda>b. [Chunk b, EndOfBody]),
      content_length = (\<lambda>_. None), is_uuid = (\<lambda>s. s = ''t'' \<or> s = ''l'' \<or> s = ''k''), is_datetime = (\<lambda>_. True),
      issue_message = (\<lambda>_. ''Invalid'')\<rparr>"

lemma api_example_simps [simp]:
  "a_outcome (api_example l) c = Completes" "a_elapse (api_example l) c = 1" "meanwhile (api_example l) c d = d"
  "random_uuid (api_example l) = ''e9''" "s3_bucket (api_example l) = Some ''b''" "receiver_url (api_example l) = Some ''u''"
  "body_absent (api_example l) = False" "body_stream (api_example l) bs = [Chunk bs, EndOfBody]"
  "content_length (api_example l) bs = None" "is_uuid (api_example l) s \<longleftrightarrow> s = ''t'' \<or> s = ''l'' \<or> s = ''k''"
  by (simp_all add: api_example_def)

definition api_start :: "database \<Rightarrow> api_world" where
  "api_start d = \<lparr>a_now = 0, a_db = d, a_buckets = (\<lambda>_. None), a_objects = (\<lambda>_. None)\<rparr>"

lemma undisturbed_example: "undisturbed (api_example limit)"
  by (simp add: undisturbed_def api_example_def)

definition one_tenant :: database where
  "one_tenant = \<lparr>tenants = [\<lparr>tn_id = ''t'', tn_name = ''T'', tn_hmacSecret = ''s''\<rparr>], events = [], deliveries = [],
     outboxes = [], deadLetters = [], replays = [], next_id = 0\<rparr>"

definition example_event :: json where
  "example_event = JObj [(''tenantId'', JStr ''t''), (''type'', JStr ''x''), (''payload'', JStr ''abc'')]"

section \<open>Properties\<close>

lemma postEvent_result: "postEvent env input w = (res, w') \<Longrightarrow> \<exists>r. res = Inr r
   \<and> (\<exists>x. ingestEvent env input w = (x, w') \<and> r = (case x of Inl e \<Rightarrow> ingest_error e | Inr y \<Rightarrow> respond 201 (ingested_json y)))"
  by (auto simp: postEvent_def catching_def andThen_def split: prod.splits sum.splits)

text \<open>C10: accepting an event is atomic: whatever the services answer, a request leaves the database as it
  was or with exactly one event row and its one unpublished outbox row, never one without the other,
  and then the payload already is where the row says, inline or in the object store; and the answer
  201 is given only with both rows written.\<close>

theorem ingestion_is_atomic:
  assumes "undisturbed env" and "postEvent env input w = (res, w')"
  shows "a_db w' = a_db w \<and> (\<forall>r. res = Inr r \<longrightarrow> status r \<noteq> 201)
    \<or> (\<exists>t ty v e ob. ingestSchema env input = Inr (t, ty, Some v) \<and> accepted env t ty v (a_db w) e ob w'
        \<and> (\<forall>r. res = Inr r \<and> status r = 201 \<longrightarrow>
             (\<exists>st. body r = Some (ingested_json \<lparr>in_eventId = ev_id e, in_outboxId = ob_id ob, in_storedIn = st\<rparr>))))"
proof -
  have err: "status (ingest_error e) \<noteq> 201" for e by (auto simp: ingest_error_def error_response_def respond_def split: api_exn.split)
  obtain r x where r: "res = Inr r" and x: "ingestEvent env input w = (x, w')"
    and rx: "r = (case x of Inl e \<Rightarrow> ingest_error e | Inr y \<Rightarrow> respond 201 (ingested_json y))"
    using postEvent_result [OF assms(2)] by blast
  from x show ?thesis
  proof (cases rule: ingest_acceptE)
    case (invalid m)
    then show ?thesis using r rx err by simp
  next
    case (valid t ty v)
    from tripleD [OF triple_acceptEvent [OF assms(1), of "a_db w" t ty v], of w] valid(2)
    consider e where "x = Inl e" "a_db w' = a_db w \<or> (\<exists>e r. accepted env t ty v (a_db w) e r w')"
      | y e ob where "x = Inr y" "accepted env t ty v (a_db w) e ob w'" "in_eventId y = ev_id e" "in_outboxId y = ob_id ob"
      by (cases x) auto
    then show ?thesis
    proof cases
      case 1
      then show ?thesis using r rx err valid(1) by auto
    next
      case 2
      have y: "y = \<lparr>in_eventId = ev_id e, in_outboxId = ob_id ob, in_storedIn = in_storedIn y\<rparr>" using 2(3,4) by simp
      have "\<exists>st. body r = Some (ingested_json \<lparr>in_eventId = ev_id e, in_outboxId = ob_id ob, in_storedIn = st\<rparr>)"
        using rx 2(1) y by (intro exI [of _ "in_storedIn y"]) simp
      then show ?thesis using valid(1) 2(2) r by blast
    qed
  qed
qed

definition example_run :: "(api_exn + response) \<times> api_world" where
  "example_run = postEvent (api_example None) (Some example_event) (api_start one_tenant)"

theorem ingestion_is_atomic_witness:
  "a_db (snd example_run) = one_tenant \<and> (\<forall>r. fst example_run = Inr r \<longrightarrow> status r \<noteq> 201)
    \<or> (\<exists>t ty v e ob. ingestSchema (api_example None) (Some example_event) = Inr (t, ty, Some v)
        \<and> accepted (api_example None) t ty v one_tenant e ob (snd example_run)
        \<and> (\<forall>r. fst example_run = Inr r \<and> status r = 201 \<longrightarrow>
             (\<exists>st. body r = Some (ingested_json \<lparr>in_eventId = ev_id e, in_outboxId = ob_id ob, in_storedIn = st\<rparr>))))"
  using ingestion_is_atomic [OF undisturbed_example, of None "Some example_event" "api_start one_tenant"
      "fst example_run" "snd example_run"]
  by (simp add: example_run_def api_start_def)

text \<open>A request the API turns away stores nothing: with the answer 400, 404 or 429 the database and the
  object store are as before.\<close>

theorem turned_away_request_stores_nothing:
  assumes "undisturbed env" and "postEvent env input w = (Inr r, w')" and "status r \<in> {400, 404, 429}"
  shows "a_db w' = a_db w \<and> a_objects w' = a_objects w"
proof -
  obtain x where x: "ingestEvent env input w = (x, w')"
    and rx: "r = (case x of Inl e \<Rightarrow> ingest_error e | Inr y \<Rightarrow> respond 201 (ingested_json y))"
    using postEvent_result [OF assms(2)] by blast
  with assms(3) obtain e where e: "x = Inl e" "early_error e"
    by (auto simp: ingest_error_def early_error_def error_response_def respond_def split: sum.splits api_exn.splits)
  from x show ?thesis
  proof (cases rule: ingest_acceptE)
    case (valid t ty v)
    then show ?thesis using acceptEvent_early [OF assms(1)] e by blast
  qed (use e in simp)
qed

theorem turned_away_request_stores_nothing_witness:
  "a_db (snd (postEvent (api_example None) (Some (JObj [])) (api_start one_tenant))) = one_tenant
   \<and> a_objects (snd (postEvent (api_example None) (Some (JObj [])) (api_start one_tenant))) = (\<lambda>_. None)"
proof -
  let ?run = "postEvent (api_example None) (Some (JObj [])) (api_start one_tenant)"
  have run: "?run = (Inr (error_response 400 ''Invalid; Invalid''), api_start one_tenant)"
    by (simp add: postEvent_def catching_def andThen_def ingestEvent_def ingestSchema_def check_uuid_def check_text_def
        issues_of_def ingest_error_def api_example_def)
  have "a_db (api_start one_tenant) = a_db (api_start one_tenant) \<and> a_objects (api_start one_tenant) = a_objects (api_start one_tenant)"
    by (rule turned_away_request_stores_nothing [OF undisturbed_example run]) simp
  then show ?thesis unfolding run by (simp add: api_start_def)
qed

section \<open>The size limit\<close>

lemma utf8_length_append [simp]: "utf8_length (s @ s') = utf8_length s + utf8_length s'"
  by (simp add: utf8_length_def)

lemma utf8_length_Cons [simp]: "utf8_length (c # s) = (if (of_char c :: nat) < 128 then 1 else 2) + utf8_length s"
  by (simp add: utf8_length_def)

text \<open>The queue message wraps the payload in an envelope that the size check leaves out.\<close>

lemma message_longer_than_payload:
  assumes "qm_payloadS3Key m = None"
  shows "payloadBytes (qm_payload m) + 60 \<le> utf8_length (stringify (queue_message_json m))"
  using assms by (simp add: payloadBytes_def queue_message_json_def quote_def escape_char_def)

lemma sqsMaxBytes_numeral: "sqsMaxBytes (api_example (Some ''5'')) = Inr (Num 5)"
proof -
  have "js_String_int 5 = ''5''" by code_simp
  then have "js_Number ''5'' = Num 5" using js_Number_String_int [of 5] by simp
  then show ?thesis by (simp add: sqsMaxBytes_def api_example_def truthy_text_def)
qed

text \<open>C11: the size check is not enough: a payload that is kept inline because it fits the queue's limit,
  by less than the sixty bytes and more of the envelope, gives a queue message over that limit, which
  the queue refuses at every attempt to publish it.\<close>

theorem inline_message_can_exceed_limit:
  assumes "storePayload env t v w = (Inr (inline, None, st), w')" and "sqsMaxBytes env = Inr (Num n)"
    and "printable v" and "n < of_nat (payloadBytes v) + 60"
    and "ev_payloadS3Key e = None" and "ev_payload e = (if inline = JNull then None else Some inline)"
  shows "st = Postgres \<and> of_nat (payloadBytes v) \<le> n \<and> n < of_nat (utf8_length (sm_body (sent_for (ob, e))))"
proof -
  have st: "st = Postgres \<and> inline = v \<and> of_nat (payloadBytes v) \<le> n"
    using assms(1) json_parse_stringify [OF assms(3)]
    by (auto simp: storePayload_def andThen_def assms(2) Let_def split: if_splits prod.splits sum.splits)
  let ?m = "message_of_event e"
  have "qm_payloadS3Key ?m = None" "qm_payload ?m = v"
    using assms(5,6) st by (simp_all add: message_of_event_def truthy_text_def)
  with message_longer_than_payload [of ?m]
  have "payloadBytes v + 60 \<le> utf8_length (sm_body (sent_for (ob, e)))" by (simp add: sent_for_def)
  then have "of_nat (payloadBytes v) + 60 \<le> (of_nat (utf8_length (sm_body (sent_for (ob, e)))) :: rat)"
    by (metis of_nat_add of_nat_le_iff of_nat_numeral)
  with assms(4) st show ?thesis by linarith
qed

theorem inline_message_can_exceed_limit_witness:
  "Postgres = Postgres \<and> of_nat (payloadBytes (JStr ''abc'')) \<le> (5 :: rat)
   \<and> (5 :: rat) < of_nat (utf8_length (sm_body (sent_for
        (\<lparr>ob_id = ''0'', ob_eventId = ''e9'', ob_published = False, ob_createdAt = 0, ob_publishedAt = None\<rparr>,
         \<lparr>ev_id = ''e9'', ev_tenantId = ''t'', ev_type = ''x'', ev_payload = Some (JStr ''abc''),
          ev_payloadS3Key = None, ev_createdAt = 0\<rparr>))))"
proof (rule inline_message_can_exceed_limit [OF _ sqsMaxBytes_numeral, where t = "''t''"])
  have "payloadBytes (JStr ''abc'') = 5" by code_simp
  then show "storePayload (api_example (Some ''5'')) ''t'' (JStr ''abc'') (api_start one_tenant)
      = (Inr (JStr ''abc'', None, Postgres), api_start one_tenant)"
    using json_parse_stringify [of "JStr ''abc''"] by (simp add: storePayload_def andThen_def sqsMaxBytes_numeral)
  show "5 < of_nat (payloadBytes (JStr ''abc'')) + (60 :: rat)" by (simp add: payloadBytes_def)
qed simp_all

end
