(* ===== verification/Replay.thy ===== *)
theory Replay
  imports Ingest
begin

text \<open>
  Replaying a dead-lettered delivery (\<open>packages/api/src/services/replays.ts\<close>, \<open>replay-query.ts\<close>,
  \<open>repositories/replays.ts\<close>): a new event with the archived payload of the dead letter, at most once
  per dead letter and per idempotency key.

  The reads before the transaction are separate calls, and other clients may act between them; the
  transaction is one database operation, with the unique constraints of the table of replays.
\<close>

section \<open>Requests\<close>

record replay_query =
  rq_tenantId :: string
  rq_deadLetterId :: string
  rq_idempotencyKey :: string

text \<open>An object without members passes \<open>z.object({}).strict()\<close>.\<close>

definition empty_object :: "json option \<Rightarrow> bool" where
  "empty_object v \<longleftrightarrow> v = Some (JObj [])"

definition uuid_value :: "api_env \<Rightarrow> json option \<Rightarrow> string option" where
  "uuid_value env v = (case v of Some (JStr s) \<Rightarrow> if is_uuid env s then Some s else None | _ \<Rightarrow> None)"

definition parseReplayQuery ::
  "api_env \<Rightarrow> json option \<Rightarrow> json option \<Rightarrow> json option \<Rightarrow> json option \<Rightarrow> json option \<Rightarrow> api_exn + replay_query" where
  "parseReplayQuery env tenantId deadLetterId idempotencyKey content query =
     (case (uuid_value env tenantId, uuid_value env deadLetterId, uuid_value env idempotencyKey) of
        (Some t, Some d, Some k) \<Rightarrow>
          if (content = None \<or> empty_object content) \<and> empty_object query
          then Inr \<lparr>rq_tenantId = t, rq_deadLetterId = d, rq_idempotencyKey = k\<rparr>
          else Inl (DeadLetterValidationError ''Replay requires valid tenant and record IDs, a UUID Idempotency-Key, and no request fields'')
      | _ \<Rightarrow> Inl (DeadLetterValidationError ''Replay requires valid tenant and record IDs, a UUID Idempotency-Key, and no request fields''))"

section \<open>The repository\<close>

definition find_letter :: "string \<Rightarrow> database \<Rightarrow> dead_letter option" where
  "find_letter i d = find (\<lambda>l. le_id l = i) (deadLetters d)"

text \<open>\<open>replaySelect\<close>: a replay with the event of its dead letter.\<close>

definition replay_record :: "database \<Rightarrow> replay \<Rightarrow> replay \<times> string" where
  "replay_record d r = (r, case find_letter (rp_sourceDeadLetterId r) d of None \<Rightarrow> [] | Some l \<Rightarrow> le_eventId l)"

definition findReplayByKey :: "string \<Rightarrow> string \<Rightarrow> database \<Rightarrow> (replay \<times> string) option" where
  "findReplayByKey tenantId idempotencyKey d =
     map_option (replay_record d)
       (find (\<lambda>r. rp_tenantId r = tenantId \<and> rp_idempotencyKey r = idempotencyKey) (replays d))"

text \<open>\<open>sourceSelect\<close>: a dead letter with its event, its delivery's status and its replay.\<close>

record replay_source =
  so_letter :: dead_letter
  so_eventType :: string
  so_status :: DeliveryStatus
  so_replay :: "replay option"

definition findReplaySource :: "string \<Rightarrow> string \<Rightarrow> database \<Rightarrow> replay_source option" where
  "findReplaySource tenantId i d =
     (case find (\<lambda>l. le_tenantId l = tenantId \<and> le_id l = i) (deadLetters d) of None \<Rightarrow> None
      | Some l \<Rightarrow>
          (case (find (\<lambda>e. ev_id e = le_eventId l) (events d), find (\<lambda>x. dl_id x = le_deliveryId l) (deliveries d)) of
             (Some e, Some x) \<Rightarrow>
               Some \<lparr>so_letter = l, so_eventType = ev_type e, so_status = dl_status x,
                     so_replay = find (\<lambda>r. rp_sourceDeadLetterId r = le_id l) (replays d)\<rparr>
           | _ \<Rightarrow> None))"

definition insertReplay :: "replay \<Rightarrow> replay db_op" where
  "insertReplay r d =
     (if find (\<lambda>x. rp_sourceDeadLetterId x = rp_sourceDeadLetterId r \<or> rp_eventId x = rp_eventId r
               \<or> (rp_tenantId x = rp_tenantId r \<and> rp_idempotencyKey x = rp_idempotencyKey r)) (replays d) \<noteq> None
      then Inl P2002
      else (let r' = r\<lparr>rp_id := fresh_id d\<rparr> in Inr (r', d\<lparr>replays := replays d @ [r'], next_id := next_id d + 1\<rparr>)))"

datatype create_replay = Existing "replay \<times> string" | Missing | Conflict | Created "replay \<times> string"

text \<open>The event of a replay takes its identifier from the database, here the one of the request.\<close>

definition createReplay :: "api_env \<Rightarrow> replay_query \<Rightarrow> string \<Rightarrow> string \<Rightarrow> int \<Rightarrow> create_replay db_op" where
  "createReplay env input archiveKey targetUrl t d =
     (case findReplayByKey (rq_tenantId input) (rq_idempotencyKey input) d of
        Some existing \<Rightarrow> Inr (Existing existing, d)
      | None \<Rightarrow>
          (case findReplaySource (rq_tenantId input) (rq_deadLetterId input) d of
             None \<Rightarrow> Inr (Missing, d)
           | Some source \<Rightarrow>
               let l = so_letter source in
               if so_status source \<noteq> DEAD_LETTERED \<or> le_targetUrl l \<noteq> targetUrl \<or> le_payloadS3Key l \<noteq> archiveKey
               then Inr (Conflict, d)
               else db_bind (insertEvent \<lparr>ce_id = random_uuid env, ce_tenantId = le_tenantId l, ce_type = so_eventType source,
                        ce_payload = JNull, ce_payloadS3Key = Some (le_payloadS3Key l)\<rparr> t) (\<lambda>(event, outbox).
                    db_bind (insertReplay \<lparr>rp_id = [], rp_tenantId = rq_tenantId input, rp_sourceDeadLetterId = le_id l,
                        rp_eventId = ev_id event, rp_idempotencyKey = rq_idempotencyKey input, rp_createdAt = t\<rparr>)
                      (\<lambda>r d'. Inr (Created (replay_record d' r), d'))) d))"

section \<open>The service\<close>

record replay_response =
  re_replayId :: string
  re_deadLetterId :: string
  re_originalEventId :: string
  re_eventId :: string
  re_createdAt :: int

definition replay_response_of :: "replay \<times> string \<Rightarrow> string \<Rightarrow> api_exn + replay_response" where
  "replay_response_of r deadLetterId =
     (if rp_sourceDeadLetterId (fst r) \<noteq> deadLetterId
      then Inl (ReplayConflictError ''Idempotency key is already used for another dead-letter record'')
      else Inr \<lparr>re_replayId = rp_id (fst r), re_deadLetterId = rp_sourceDeadLetterId (fst r), re_originalEventId = snd r,
                re_eventId = rp_eventId (fst r), re_createdAt = rp_createdAt (fst r)\<rparr>)"

definition read_replay :: "api_env \<Rightarrow> api_site \<Rightarrow> replay_query \<Rightarrow> (replay \<times> string) option api" where
  "read_replay env c input =
     api_call env c (reading (\<lambda>w. findReplayByKey (rq_tenantId input) (rq_idempotencyKey input) (a_db w)))"

definition writeReplay :: "api_env \<Rightarrow> replay_query \<Rightarrow> string \<Rightarrow> string \<Rightarrow> replay_response api" where
  "writeReplay env input archiveKey targetUrl =
     catching
       (andThen (api_call env InsertReplay (\<lambda>w. api_db (createReplay env input archiveKey targetUrl (a_now w)) w)) (\<lambda>result.
        case result of
          Missing \<Rightarrow> throw (DeadLetterNotFoundError ''Dead-letter record not found'')
        | Conflict \<Rightarrow> throw (ReplayConflictError ''Source delivery changed; reload before replaying'')
        | Existing r \<Rightarrow> lift_sum (replay_response_of r (rq_deadLetterId input))
        | Created r \<Rightarrow> lift_sum (replay_response_of r (rq_deadLetterId input))))
       (\<lambda>e. if e = KnownRequestError P2002
            then andThen (read_replay env FindRepeated input) (\<lambda>repeated.
              case repeated of Some r \<Rightarrow> lift_sum (replay_response_of r (rq_deadLetterId input))
              | None \<Rightarrow> throw (ReplayConflictError ''This dead-letter record already has a replay''))
            else throw e)"

definition checkSource :: "api_env \<Rightarrow> replay_source option \<Rightarrow> dead_letter api" where
  "checkSource env source =
     (case source of
        None \<Rightarrow> throw (DeadLetterNotFoundError ''Dead-letter record not found'')
      | Some so \<Rightarrow>
          if so_status so \<noteq> DEAD_LETTERED
          then throw (ReplayConflictError ''Only a dead-lettered delivery can be replayed'')
          else if so_replay so \<noteq> None
          then throw (ReplayConflictError ''This dead-letter record already has a replay'')
          else if \<not> truthy_text (receiver_url env) then throw (Other (Error ''RECEIVER_URL is required for replay''))
          else if le_targetUrl (so_letter so) \<noteq> the (receiver_url env)
          then throw (ReplayConflictError ''Replay destination must match the configured receiver'')
          else ret (so_letter so))"

definition replay_failure :: "api_exn \<Rightarrow> api_exn" where
  "replay_failure cause =
     (case cause of
        ReplayConflictError m \<Rightarrow> ReplayConflictError m
      | DeadLetterNotFoundError m \<Rightarrow> DeadLetterNotFoundError m
      | ArchiveNotFoundError \<Rightarrow> ArchivedPayloadGoneError ''Archived payload is no longer available''
      | InvalidArchiveError _ \<Rightarrow> ArchivedPayloadInvalidError ''Archived payload cannot be replayed''
      | _ \<Rightarrow> DeadLetterUnavailableError)"

definition performReplay :: "api_env \<Rightarrow> replay_query \<Rightarrow> replay_response api" where
  "performReplay env input =
     andThen (read_replay env FindReplay input) (\<lambda>existing.
     case existing of
       Some r \<Rightarrow> lift_sum (replay_response_of r (rq_deadLetterId input))
     | None \<Rightarrow>
         andThen (api_call env FindSource
           (reading (\<lambda>w. findReplaySource (rq_tenantId input) (rq_deadLetterId input) (a_db w)))) (\<lambda>source.
         andThen (checkSource env source) (\<lambda>l.
         andThen (readArchivedPayload env (le_payloadS3Key l)) (\<lambda>_.
         writeReplay env input (le_payloadS3Key l) (the (receiver_url env))))))"

definition requestReplay ::
  "api_env \<Rightarrow> json option \<Rightarrow> json option \<Rightarrow> json option \<Rightarrow> json option \<Rightarrow> json option \<Rightarrow> replay_response api" where
  "requestReplay env tenantId deadLetterId idempotencyKey content query =
     (case parseReplayQuery env tenantId deadLetterId idempotencyKey content query of
        Inl e \<Rightarrow> throw e
      | Inr input \<Rightarrow> catching (performReplay env input) (\<lambda>cause. throw (replay_failure cause)))"

section \<open>The table of replays\<close>

definition replays_ok :: "database \<Rightarrow> bool" where
  "replays_ok d \<longleftrightarrow> distinct (map rp_sourceDeadLetterId (replays d)) \<and> distinct (map rp_eventId (replays d))
     \<and> distinct (map (\<lambda>r. (rp_tenantId r, rp_idempotencyKey r)) (replays d))
     \<and> (\<forall>r \<in> set (replays d). (\<exists>l \<in> set (deadLetters d). le_id l = rp_sourceDeadLetterId r \<and> le_tenantId l = rp_tenantId r)
          \<and> (\<exists>e \<in> set (events d). ev_id e = rp_eventId r \<and> ev_tenantId e = rp_tenantId r))"

text \<open>The effect of a replay.\<close>

definition replayed :: "replay_query \<Rightarrow> string \<Rightarrow> database \<Rightarrow> event \<Rightarrow> outbox \<Rightarrow> replay \<Rightarrow> database \<Rightarrow> bool" where
  "replayed input archiveKey d e ob r d' \<longleftrightarrow>
     d' = d\<lparr>events := events d @ [e], outboxes := outboxes d @ [ob], replays := replays d @ [r], next_id := next_id d + 2\<rparr>
     \<and> find (\<lambda>x. ev_id x = ev_id e) (events d) = None
     \<and> ob_eventId ob = ev_id e \<and> \<not> ob_published ob
     \<and> ev_tenantId e = rq_tenantId input \<and> ev_payload e = None \<and> ev_payloadS3Key e = Some archiveKey
     \<and> rp_tenantId r = rq_tenantId input \<and> rp_idempotencyKey r = rq_idempotencyKey input
     \<and> rp_sourceDeadLetterId r = rq_deadLetterId input \<and> rp_eventId r = ev_id e
     \<and> (\<forall>x \<in> set (replays d). rp_sourceDeadLetterId x \<noteq> rp_sourceDeadLetterId r \<and> rp_eventId x \<noteq> rp_eventId r
          \<and> \<not> (rp_tenantId x = rp_tenantId r \<and> rp_idempotencyKey x = rp_idempotencyKey r))
     \<and> (\<exists>so. findReplaySource (rq_tenantId input) (rq_deadLetterId input) d = Some so
          \<and> so_status so = DEAD_LETTERED \<and> le_payloadS3Key (so_letter so) = archiveKey \<and> ev_type e = so_eventType so)"

lemma findReplaySource_letter:
  "findReplaySource t i d = Some so \<Longrightarrow>
   so_letter so \<in> set (deadLetters d) \<and> le_tenantId (so_letter so) = t \<and> le_id (so_letter so) = i"
  by (auto simp: findReplaySource_def split: option.splits dest!: find_SomeD)

lemma insertReplay_ok:
  "insertReplay x d = Inr (r, d') \<Longrightarrow>
   r = x\<lparr>rp_id := fresh_id d\<rparr> \<and> d' = d\<lparr>replays := replays d @ [r], next_id := next_id d + 1\<rparr>
   \<and> (\<forall>y \<in> set (replays d). rp_sourceDeadLetterId y \<noteq> rp_sourceDeadLetterId r \<and> rp_eventId y \<noteq> rp_eventId r
          \<and> \<not> (rp_tenantId y = rp_tenantId r \<and> rp_idempotencyKey y = rp_idempotencyKey r))"
  by (auto simp: insertReplay_def Let_def find_None_iff split: if_splits)

lemma createReplay_created:
  assumes "createReplay env input k u t d = Inr (Created rec, d')"
  shows "\<exists>e ob r. replayed input k d e ob r d' \<and> rec = replay_record d' r"
proof -
  from assms obtain so where so: "findReplaySource (rq_tenantId input) (rq_deadLetterId input) d = Some so"
    and ok: "so_status so = DEAD_LETTERED" "le_payloadS3Key (so_letter so) = k"
    by (auto simp: createReplay_def Let_def split: option.splits if_splits)
  with assms obtain e ob d1 r where ins: "insertEvent \<lparr>ce_id = random_uuid env, ce_tenantId = le_tenantId (so_letter so),
        ce_type = so_eventType so, ce_payload = JNull, ce_payloadS3Key = Some k\<rparr> t d = Inr ((e, ob), d1)"
    and rep: "insertReplay \<lparr>rp_id = [], rp_tenantId = rq_tenantId input, rp_sourceDeadLetterId = le_id (so_letter so),
        rp_eventId = ev_id e, rp_idempotencyKey = rq_idempotencyKey input, rp_createdAt = t\<rparr> d1 = Inr (r, d')"
    and rec: "rec = replay_record d' r"
    by (auto simp: createReplay_def Let_def db_bind_def split: option.splits if_splits sum.splits)
  have p: "ev_payload e = None"
    using ins by (auto simp: insertEvent_def db_bind_def db_return_def createEvent_ok createOutbox_ok split: sum.splits)
  from insertEvent_ok [OF ins] insertReplay_ok [OF rep] findReplaySource_letter [OF so] so ok p
  have "replayed input k d e ob r d'" by (auto simp: replayed_def)
  with rec show ?thesis by blast
qed

lemma createReplay_other:
  "createReplay env input k u t d = Inr (x, d') \<Longrightarrow> (case x of Created _ \<Rightarrow> False | _ \<Rightarrow> True) \<Longrightarrow>
   d' = d \<and> (\<forall>rec. x = Existing rec \<longrightarrow> findReplayByKey (rq_tenantId input) (rq_idempotencyKey input) d = Some rec)"
  by (auto simp: createReplay_def Let_def db_bind_def split: option.splits if_splits sum.splits)

lemma replayed_ok:
  assumes ok: "replays_ok d" and r: "replayed input k d e ob r d'"
  shows "replays_ok d'"
proof -
  from r obtain so where so: "findReplaySource (rq_tenantId input) (rq_deadLetterId input) d = Some so"
    by (auto simp: replayed_def)
  from findReplaySource_letter [OF so] r ok show ?thesis
    unfolding replays_ok_def replayed_def by (auto simp: image_iff)
qed

section \<open>What a response says\<close>

definition stored_response :: "string \<Rightarrow> string \<Rightarrow> string \<Rightarrow> database \<Rightarrow> replay_response \<Rightarrow> bool" where
  "stored_response t i k d x \<longleftrightarrow>
     (\<exists>r \<in> set (replays d). rp_tenantId r = t \<and> rp_idempotencyKey r = k \<and> rp_sourceDeadLetterId r = i
        \<and> replay_response_of (replay_record d r) i = Inr x)"

lemma found_by_key:
  "findReplayByKey t k d = Some rec \<Longrightarrow>
   \<exists>r \<in> set (replays d). rp_tenantId r = t \<and> rp_idempotencyKey r = k \<and> rec = replay_record d r"
  by (auto simp: findReplayByKey_def dest!: find_SomeD)

lemma response_source: "replay_response_of (replay_record d r) i = Inr x \<Longrightarrow> rp_sourceDeadLetterId r = i"
  by (auto simp: replay_response_of_def replay_record_def split: if_splits)

lemma existing_stored:
  "findReplayByKey t k d = Some rec \<Longrightarrow> replay_response_of rec i = Inr x \<Longrightarrow> stored_response t i k d x"
  using found_by_key response_source unfolding stored_response_def by blast

lemma created_stored:
  "replayed input a d e ob r d' \<Longrightarrow> replay_response_of (replay_record d' r) (rq_deadLetterId input) = Inr x \<Longrightarrow>
   stored_response (rq_tenantId input) (rq_deadLetterId input) (rq_idempotencyKey input) d' x"
  unfolding stored_response_def by (rule bexI [of _ r]) (auto simp: replayed_def)

text \<open>
  One proof for every use: \<open>I\<close> holds of the database until the transaction, \<open>J\<close> from then on, and what
  other clients do keeps both.
\<close>

lemma triple_readArchive:
  assumes "\<And>w t. P w \<Longrightarrow> P (w\<lparr>a_now := t, a_db := meanwhile env GetArchive (a_db w)\<rparr>)" and "\<And>w. P w \<Longrightarrow> E w"
  shows "triple P (readArchivedPayload env key) (\<lambda>_. P) E"
proof -
  have t: "triple P (\<lambda>w. (f w, w)) (\<lambda>_. P) E" for f :: "api_world \<Rightarrow> api_exn + json"
    by (rule tripleI) (auto intro: assms(2) split: sum.split)
  show ?thesis
    unfolding readArchivedPayload_def by (auto intro!: triple_throw triple_api_call_rely t assms)
qed

lemma triple_read_replay:
  assumes "\<And>d. I d \<Longrightarrow> I (meanwhile env c d)" and "\<And>d. I d \<Longrightarrow> J d"
  shows "triple (\<lambda>w. I (a_db w)) (read_replay env c input)
    (\<lambda>r w. I (a_db w) \<and> (\<forall>rec. r = Some rec \<longrightarrow>
        findReplayByKey (rq_tenantId input) (rq_idempotencyKey input) (a_db w) = Some rec)) (\<lambda>w. J (a_db w))"
  unfolding read_replay_def by (rule triple_api_call_rely) (use assms in \<open>auto intro: triple_reading\<close>)

abbreviation answered :: "(database \<Rightarrow> bool) \<Rightarrow> replay_query \<Rightarrow> replay_response \<Rightarrow> api_world \<Rightarrow> bool" where
  "answered J input x w \<equiv> J (a_db w)
     \<and> stored_response (rq_tenantId input) (rq_deadLetterId input) (rq_idempotencyKey input) (a_db w) x"

lemma triple_respond_existing:
  "triple (\<lambda>w. J (a_db w) \<and> (\<forall>rec. Some r = Some rec \<longrightarrow>
        findReplayByKey (rq_tenantId input) (rq_idempotencyKey input) (a_db w) = Some rec))
     (lift_sum (replay_response_of r (rq_deadLetterId input))) (answered J input) (\<lambda>w. J (a_db w))"
  by (rule tripleI) (auto intro: existing_stored split: sum.split)

lemma triple_writeReplay:
  assumes I: "\<And>c d. I d \<Longrightarrow> I (meanwhile env c d)" and J: "\<And>c d. J d \<Longrightarrow> J (meanwhile env c d)"
    and IJ: "\<And>d. I d \<Longrightarrow> J d" and step: "\<And>d k e ob r d'. I d \<Longrightarrow> replayed input k d e ob r d' \<Longrightarrow> J d'"
  shows "triple (\<lambda>w. I (a_db w)) (writeReplay env input k u) (answered J input) (\<lambda>w. J (a_db w))"
  unfolding writeReplay_def
proof (rule triple_catching [where R = "\<lambda>w. J (a_db w)"])
  let ?Q = "\<lambda>x w. J (a_db w) \<and> (case x of
      Existing rec \<Rightarrow> findReplayByKey (rq_tenantId input) (rq_idempotencyKey input) (a_db w) = Some rec
    | Created rec \<Rightarrow> (\<forall>x. replay_response_of rec (rq_deadLetterId input) = Inr x \<longrightarrow> answered J input x w)
    | _ \<Rightarrow> True)"
  have core: "triple (\<lambda>w. I (a_db w)) (\<lambda>w. api_db (createReplay env input k u (a_now w)) w) ?Q (\<lambda>w. J (a_db w))"
  proof (rule tripleI)
    fix w :: api_world assume i: "I (a_db w)"
    show "case api_db (createReplay env input k u (a_now w)) w of (Inl _, w') \<Rightarrow> J (a_db w') | (Inr x, w') \<Rightarrow> ?Q x w'"
    proof (cases "createReplay env input k u (a_now w) (a_db w)")
      case (Inr p)
      obtain x d' where p: "p = (x, d')" by (cases p)
      show ?thesis
      proof (cases "\<exists>rec. x = Created rec")
        case True
        then obtain rec where x: "x = Created rec" by blast
        with createReplay_created [of env input k u "a_now w" "a_db w" rec d'] Inr p
        obtain e ob r where r: "replayed input k (a_db w) e ob r d'" "rec = replay_record d' r" by auto
        with step [OF i r(1)] created_stored [OF r(1)] show ?thesis by (simp add: api_db_def Inr p x)
      next
        case False
        then have "case x of Created _ \<Rightarrow> False | _ \<Rightarrow> True" by (cases x) auto
        with createReplay_other [of env input k u "a_now w" "a_db w" x d'] Inr p
        have "d' = a_db w" "\<And>rec. x = Existing rec \<Longrightarrow> findReplayByKey (rq_tenantId input) (rq_idempotencyKey input) (a_db w) = Some rec"
          by auto
        with False IJ [OF i] show ?thesis by (auto simp: api_db_def Inr p split: create_replay.split)
      qed
    qed (simp add: api_db_def IJ [OF i])
  qed
  show "triple (\<lambda>w. I (a_db w))
      (andThen (api_call env InsertReplay (\<lambda>w. api_db (createReplay env input k u (a_now w)) w)) (\<lambda>result.
        case result of
          Missing \<Rightarrow> throw (DeadLetterNotFoundError ''Dead-letter record not found'')
        | Conflict \<Rightarrow> throw (ReplayConflictError ''Source delivery changed; reload before replaying'')
        | Existing r \<Rightarrow> lift_sum (replay_response_of r (rq_deadLetterId input))
        | Created r \<Rightarrow> lift_sum (replay_response_of r (rq_deadLetterId input))))
      (answered J input) (\<lambda>w. J (a_db w))"
  proof (rule triple_andThen [where R = ?Q])
    show "triple (\<lambda>w. I (a_db w)) (api_call env InsertReplay (\<lambda>w. api_db (createReplay env input k u (a_now w)) w)) ?Q (\<lambda>w. J (a_db w))"
      by (rule triple_api_call_rely [OF _ core]) (use I IJ in auto)
    show "triple (?Q x) (case x of
          Missing \<Rightarrow> throw (DeadLetterNotFoundError ''Dead-letter record not found'')
        | Conflict \<Rightarrow> throw (ReplayConflictError ''Source delivery changed; reload before replaying'')
        | Existing r \<Rightarrow> lift_sum (replay_response_of r (rq_deadLetterId input))
        | Created r \<Rightarrow> lift_sum (replay_response_of r (rq_deadLetterId input))) (answered J input) (\<lambda>w. J (a_db w))" for x
      by (cases x) (auto intro!: triple_throw tripleI intro: existing_stored split: sum.split)
  qed
  let ?again = "andThen (read_replay env FindRepeated input) (\<lambda>repeated.
              case repeated of Some r \<Rightarrow> lift_sum (replay_response_of r (rq_deadLetterId input))
              | None \<Rightarrow> throw (ReplayConflictError ''This dead-letter record already has a replay''))"
  have again: "triple (\<lambda>w. J (a_db w)) ?again (answered J input) (\<lambda>w. J (a_db w))"
  proof (rule triple_andThen [OF triple_read_replay [where J = J and I = J]])
    fix y
    show "triple (\<lambda>w. J (a_db w) \<and> (\<forall>rec. y = Some rec \<longrightarrow>
        findReplayByKey (rq_tenantId input) (rq_idempotencyKey input) (a_db w) = Some rec))
       (case y of Some r \<Rightarrow> lift_sum (replay_response_of r (rq_deadLetterId input))
              | None \<Rightarrow> throw (ReplayConflictError ''This dead-letter record already has a replay''))
       (answered J input) (\<lambda>w. J (a_db w))"
    proof (cases y)
      case None
      show ?thesis unfolding None option.case by (rule triple_throw) simp
    next
      case (Some r)
      show ?thesis unfolding Some option.case by (rule triple_respond_existing)
    qed
  qed (use J in auto)
  show "triple (\<lambda>w. J (a_db w)) (if e = KnownRequestError P2002 then ?again else throw e)
      (answered J input) (\<lambda>w. J (a_db w))" for e
    using again triple_throw [of "\<lambda>w. J (a_db w)" "\<lambda>w. J (a_db w)"] by (cases "e = KnownRequestError P2002") simp_all
qed

lemma triple_performReplay:
  assumes I: "\<And>c d. I d \<Longrightarrow> I (meanwhile env c d)" and J: "\<And>c d. J d \<Longrightarrow> J (meanwhile env c d)"
    and IJ: "\<And>d. I d \<Longrightarrow> J d" and step: "\<And>d k e ob r d'. I d \<Longrightarrow> replayed input k d e ob r d' \<Longrightarrow> J d'"
  shows "triple (\<lambda>w. I (a_db w)) (performReplay env input) (answered J input) (\<lambda>w. J (a_db w))"
  unfolding performReplay_def
proof (rule triple_andThen [OF triple_read_replay [where J = J]])
  fix x
  let ?R = "\<lambda>w. I (a_db w) \<and> (\<forall>rec. x = Some rec \<longrightarrow>
        findReplayByKey (rq_tenantId input) (rq_idempotencyKey input) (a_db w) = Some rec)"
  have find: "triple (\<lambda>w. I (a_db w)) (api_call env FindSource
           (reading (\<lambda>w. findReplaySource (rq_tenantId input) (rq_deadLetterId input) (a_db w)))) (\<lambda>_ w. I (a_db w)) (\<lambda>w. J (a_db w))"
    by (rule triple_api_call_rely) (use I IJ in \<open>auto intro: triple_reading\<close>)
  have check: "triple (\<lambda>w. I (a_db w)) (checkSource env so) (\<lambda>_ w. I (a_db w)) (\<lambda>w. J (a_db w))" for so
    unfolding checkSource_def by (auto intro!: triple_throw triple_ret IJ split: option.split)
  have arch: "triple (\<lambda>w. I (a_db w)) (readArchivedPayload env k) (\<lambda>_ w. I (a_db w)) (\<lambda>w. J (a_db w))" for k
    by (rule triple_readArchive) (use I IJ in auto)
  have wr: "triple (\<lambda>w. I (a_db w)) (writeReplay env input k u) (answered J input) (\<lambda>w. J (a_db w))" for k u
    by (rule triple_writeReplay [where I = I and J = J]) (fact I J IJ step)+
  have new: "triple (\<lambda>w. I (a_db w)) (andThen (api_call env FindSource
           (reading (\<lambda>w. findReplaySource (rq_tenantId input) (rq_deadLetterId input) (a_db w)))) (\<lambda>source.
         andThen (checkSource env source) (\<lambda>l.
         andThen (readArchivedPayload env (le_payloadS3Key l)) (\<lambda>_.
         writeReplay env input (le_payloadS3Key l) (the (receiver_url env)))))) (answered J input) (\<lambda>w. J (a_db w))"
    by (intro triple_andThen [OF find] triple_andThen [OF check] triple_andThen [OF arch] wr)
  have old: "triple (\<lambda>w. I (a_db w) \<and> (\<forall>rec. Some r = Some rec \<longrightarrow>
        findReplayByKey (rq_tenantId input) (rq_idempotencyKey input) (a_db w) = Some rec))
     (lift_sum (replay_response_of r (rq_deadLetterId input))) (answered J input) (\<lambda>w. J (a_db w))" for r
    by (rule triple_conseq [OF triple_respond_existing [where J = J]]) (use IJ in auto)
  show "triple ?R (case x of Some r \<Rightarrow> lift_sum (replay_response_of r (rq_deadLetterId input))
     | None \<Rightarrow> andThen (api_call env FindSource
           (reading (\<lambda>w. findReplaySource (rq_tenantId input) (rq_deadLetterId input) (a_db w)))) (\<lambda>source.
         andThen (checkSource env source) (\<lambda>l.
         andThen (readArchivedPayload env (le_payloadS3Key l)) (\<lambda>_.
         writeReplay env input (le_payloadS3Key l) (the (receiver_url env))))))
      (answered J input) (\<lambda>w. J (a_db w))"
  proof (cases x)
    case None
    then show ?thesis using triple_pre [OF new] by simp
  qed (use old in simp)
qed (use I IJ in auto)

lemma requestReplayE:
  assumes "requestReplay env t i k c q w = (res, w')"
  obtains (refused) e where "parseReplayQuery env t i k c q = Inl e" and "res = Inl e" and "w' = w"
  | (performed) input r where "parseReplayQuery env t i k c q = Inr input" and "performReplay env input w = (r, w')"
      and "res = (case r of Inl e \<Rightarrow> Inl (replay_failure e) | Inr x \<Rightarrow> Inr x)"
  using assms by (cases "parseReplayQuery env t i k c q")
    (auto simp: requestReplay_def catching_def split: prod.splits sum.splits)

lemma parse_fields:
  "parseReplayQuery env t i k c q = Inr input \<Longrightarrow>
   t = Some (JStr (rq_tenantId input)) \<and> i = Some (JStr (rq_deadLetterId input)) \<and> k = Some (JStr (rq_idempotencyKey input))"
  by (auto simp: parseReplayQuery_def uuid_value_def split: option.splits json.splits if_splits)

lemma requestReplay_consistent:
  assumes "replays_ok (a_db w)" and "\<And>s d. replays_ok d \<Longrightarrow> replays_ok (meanwhile env s d)"
  shows "replays_ok (a_db (snd (requestReplay env t i k c q w)))"
proof -
  obtain res w' where run: "requestReplay env t i k c q w = (res, w')" by (cases "requestReplay env t i k c q w")
  have "replays_ok (a_db w')"
    using run
  proof (cases rule: requestReplayE)
    case (performed input r)
    have "triple (\<lambda>v. replays_ok (a_db v)) (performReplay env input) (answered replays_ok input) (\<lambda>v. replays_ok (a_db v))"
      by (rule triple_performReplay) (use assms(2) replayed_ok in auto)
    from tripleD [OF this, of w] assms(1) performed(2) show ?thesis by (auto split: sum.splits)
  qed (use assms(1) in simp)
  with run show ?thesis by simp
qed

section \<open>Examples\<close>

definition dead_database :: database where
  "dead_database = one_tenant
     \<lparr>events := [\<lparr>ev_id = ''e1'', ev_tenantId = ''t'', ev_type = ''x'', ev_payload = Some JNull, ev_payloadS3Key = None,
        ev_createdAt = 0\<rparr>],
      deliveries := [\<lparr>dl_id = ''d1'', dl_eventId = ''e1'', dl_tenantId = ''t'', dl_targetUrl = ''u'', dl_status = DEAD_LETTERED,
        dl_attemptCount = 8, dl_lastAttemptAt = None, dl_nextAttemptAt = None, dl_lastError = None, dl_createdAt = 0\<rparr>],
      deadLetters := [\<lparr>le_id = ''l'', le_eventId = ''e1'', le_deliveryId = ''d1'', le_tenantId = ''t'', le_targetUrl = ''u'',
        le_lastError = None, le_attemptCount = 8, le_payloadS3Key = ''a'', le_createdAt = 0\<rparr>]\<rparr>"

definition replay_start :: api_world where
  "replay_start = (api_start dead_database)\<lparr>a_objects := [''a'' \<mapsto> ''null'']\<rparr>"

abbreviation example_request_replay :: "api_world \<Rightarrow> (api_exn + replay_response) \<times> api_world" where
  "example_request_replay \<equiv>
     requestReplay (api_example None) (Some (JStr ''t'')) (Some (JStr ''l'')) (Some (JStr ''k'')) None (Some (JObj []))"

definition replay_run :: "(api_exn + replay_response) \<times> api_world" where
  "replay_run = example_request_replay replay_start"

lemma read_example:
  assumes "a_objects w key = Some ''null''"
  shows "readArchivedPayload (api_example limit) key w = (Inr JNull, w\<lparr>a_now := a_now w + 1\<rparr>)"
proof -
  have "length (utf8_encode ''null'') \<le> MAX_ARCHIVE_BYTES" by (simp add: utf8_encode_def utf8_char_def MAX_ARCHIVE_BYTES_def Let_def)
  then have "read_chunks 0 [] [Chunk (utf8_encode ''null''), EndOfBody] = (Inr (utf8_encode ''null''), Released)"
    using read_chunks_complete [of 0 "[utf8_encode ''null'']" "[]" "[]"] by simp
  then have "readArchiveJson [Chunk (utf8_encode ''null''), EndOfBody] False None = (Inr JNull, Released)"
    using utf8_round_trip [of "''null''"] json_parse_stringify [of JNull] by (simp add: readArchiveJson_def)
  then show ?thesis using assms
    by (simp add: readArchivedPayload_def truthy_text_def api_call_def andThen_def)
qed

lemma replay_run_success: "\<exists>x. fst replay_run = Inr x"
  by (simp add: replay_run_def requestReplay_def parseReplayQuery_def uuid_value_def empty_object_def catching_def
      performReplay_def andThen_def read_replay_def api_call_def read_example checkSource_def writeReplay_def api_db_def
      replay_start_def api_start_def dead_database_def one_tenant_def findReplayByKey_def findReplaySource_def
      createReplay_def db_bind_def insertEvent_def db_return_def createEvent_def createOutbox_def insertReplay_def
      replay_response_of_def replay_record_def find_letter_def truthy_text_def fresh_id_def Let_def)

lemma replays_ok_start: "replays_ok (a_db replay_start)"
  by (simp add: replays_ok_def replay_start_def api_start_def dead_database_def one_tenant_def)

section \<open>Properties\<close>

text \<open>C12: a replay is atomic and truthful: whatever the services answer, the request leaves the database as it
  was or with exactly one new event of the tenant that reuses the archived payload, its unpublished
  outbox row and the replay row that ties it to the dead letter, of a delivery that is dead-lettered
  and had no replay; and a success describes a replay row that is stored.\<close>

theorem replay_is_atomic:
  assumes "undisturbed env" and "requestReplay env t i k c q w = (res, w')"
  shows "(a_db w' = a_db w \<or> (\<exists>input archiveKey e ob r. parseReplayQuery env t i k c q = Inr input
            \<and> replayed input archiveKey (a_db w) e ob r (a_db w')))
    \<and> (\<forall>x. res = Inr x \<longrightarrow> (\<exists>input. parseReplayQuery env t i k c q = Inr input
            \<and> stored_response (rq_tenantId input) (rq_deadLetterId input) (rq_idempotencyKey input) (a_db w') x))"
  using assms(2)
proof (cases rule: requestReplayE)
  case (performed input r)
  let ?J = "\<lambda>d'. d' = a_db w \<or> (\<exists>archiveKey e ob r. replayed input archiveKey (a_db w) e ob r d')"
  have "triple (\<lambda>v. a_db v = a_db w) (performReplay env input) (answered ?J input) (\<lambda>v. ?J (a_db v))"
    by (rule triple_performReplay [where I = "\<lambda>d. d = a_db w"]) (auto simp: undisturbedD [OF assms(1)])
  from tripleD [OF this, of w] performed show ?thesis by (auto split: sum.splits)
qed simp

text \<open>What a repeated request finds.\<close>

lemma replay_repeated:
  assumes "requestReplay env t i k c q w = (Inr x, w')" and "undisturbed env'"
    and "requestReplay env' t i k c' q' v = (res, v')"
    and "replays_ok (a_db v)" and "set (replays (a_db w')) \<subseteq> set (replays (a_db v))"
    and "\<And>j. map_option le_eventId (find_letter j (a_db v)) = map_option le_eventId (find_letter j (a_db w'))"
  shows "a_db v' = a_db v \<and> (\<forall>y. res = Inr y \<longrightarrow> y = x)
    \<and> (a_outcome env' FindReplay = Completes \<and> parseReplayQuery env' t i k c' q' = Inr input' \<longrightarrow> res = Inr x)"
proof -
  obtain input where p: "parseReplayQuery env t i k c q = Inr input"
    and x: "stored_response (rq_tenantId input) (rq_deadLetterId input) (rq_idempotencyKey input) (a_db w') x"
  proof (cases rule: requestReplayE [OF assms(1)])
    case (2 input r)
    have "triple (\<lambda>_. True) (performReplay env input) (answered (\<lambda>_. True) input) (\<lambda>_. True)"
      using triple_performReplay [of "\<lambda>_. True" env "\<lambda>_. True" input] by simp
    from tripleD [OF this, of w] 2 show ?thesis by (auto split: sum.splits intro: that)
  qed simp
  then obtain r where r: "r \<in> set (replays (a_db w'))" "rp_tenantId r = rq_tenantId input"
    "rp_idempotencyKey r = rq_idempotencyKey input" "rp_sourceDeadLetterId r = rq_deadLetterId input"
    and rx: "replay_response_of (replay_record (a_db w') r) (rq_deadLetterId input) = Inr x"
    by (auto simp: stored_response_def)
  have rv: "r \<in> set (replays (a_db v))" using r(1) assms(5) by blast
  have inj: "s = r" if "s \<in> set (replays (a_db v))" "rp_tenantId s = rp_tenantId r" "rp_idempotencyKey s = rp_idempotencyKey r" for s
  proof -
    have "inj_on (\<lambda>r. (rp_tenantId r, rp_idempotencyKey r)) (set (replays (a_db v)))"
      using assms(4) by (simp add: replays_ok_def distinct_map)
    then show ?thesis using that rv by (auto dest: inj_onD)
  qed
  from assms(3) show ?thesis
  proof (cases rule: requestReplayE)
    case (performed input' r')
    have input: "input' = input" using parse_fields [OF p] parse_fields [OF performed(1)] by (cases input; cases input') simp
    let ?J = "\<lambda>d'. d' = a_db v"
    have "triple (\<lambda>u. a_db u = a_db v) (performReplay env' input) (answered ?J input) (\<lambda>u. ?J (a_db u))"
    proof (rule triple_performReplay [where I = "\<lambda>d. d = a_db v"])
      fix d a e ob s d' assume "d = a_db v" "replayed input a d e ob s d'"
      then show "d' = a_db v" using rv r by (auto simp: replayed_def)
    qed (auto simp: undisturbedD [OF assms(2)])
    from tripleD [OF this, of v] performed(2,3)
    have v: "a_db v' = a_db v" and y: "\<And>y. res = Inr y \<Longrightarrow>
        stored_response (rq_tenantId input) (rq_deadLetterId input) (rq_idempotencyKey input) (a_db v) y"
      by (auto simp: input split: sum.splits)
    have "y = x" if "res = Inr y" for y
    proof -
      from y [OF that] obtain s where s: "s \<in> set (replays (a_db v))" "rp_tenantId s = rq_tenantId input"
        "rp_idempotencyKey s = rq_idempotencyKey input"
        and sy: "replay_response_of (replay_record (a_db v) s) (rq_deadLetterId input) = Inr y"
        by (auto simp: stored_response_def)
      have "s = r" by (rule inj) (simp_all add: s r)
      have "replay_record (a_db v) r = replay_record (a_db w') r"
        using assms(6) [of "rp_sourceDeadLetterId r"] by (auto simp: replay_record_def split: option.splits)
      with sy rx \<open>s = r\<close> show ?thesis by simp
    qed
    moreover have "res = Inr x" if c: "a_outcome env' FindReplay = Completes"
    proof -
      obtain s where s: "find (\<lambda>r. rp_tenantId r = rq_tenantId input \<and> rp_idempotencyKey r = rq_idempotencyKey input) (replays (a_db v)) = Some s"
        using rv r(2,3) by (cases "find (\<lambda>r. rp_tenantId r = rq_tenantId input \<and> rp_idempotencyKey r = rq_idempotencyKey input) (replays (a_db v))")
          (auto simp: find_None_iff)
      have "s = r" by (rule inj) (use find_SomeD [OF s] r in simp_all)
      then have "findReplayByKey (rq_tenantId input) (rq_idempotencyKey input) (a_db v) = Some (replay_record (a_db v) r)"
        using s by (simp add: findReplayByKey_def)
      then have "fst (performReplay env' input v) = replay_response_of (replay_record (a_db v) r) (rq_deadLetterId input)"
        by (simp add: performReplay_def read_replay_def api_call_def andThen_def c undisturbedD [OF assms(2)] reading_def)
      also have "replay_record (a_db v) r = replay_record (a_db w') r"
        using assms(6) [of "rp_sourceDeadLetterId r"] by (auto simp: replay_record_def split: option.splits)
      finally show ?thesis using rx performed(2,3) input by simp
    qed
    ultimately show ?thesis using v by blast
  next
    case (refused e)
    then show ?thesis by simp
  qed
qed

text \<open>C13: replaying is idempotent: once a request has succeeded, repeating it with the same key for the same dead
  letter writes nothing, whatever the services answer; it is answered with success and the very answer of the
  first request whenever the repetition is well formed and its first query is answered; and it is never
  answered with another replay.  In between other clients may add replays but remove none, and none of them
  writes while the repetition runs.\<close>

theorem replay_is_idempotent:
  assumes "requestReplay env t i k c q w = (Inr x, w')" and "undisturbed env'"
    and "requestReplay env' t i k c' q' v = (res, v')"
    and "replays_ok (a_db v)" and "set (replays (a_db w')) \<subseteq> set (replays (a_db v))"
    and "\<And>j. map_option le_eventId (find_letter j (a_db v)) = map_option le_eventId (find_letter j (a_db w'))"
  shows "a_db v' = a_db v \<and> (\<forall>y. res = Inr y \<longrightarrow> y = x)
    \<and> (a_outcome env' FindReplay = Completes \<and> parseReplayQuery env' t i k c' q' = Inr input' \<longrightarrow> res = Inr x)"
  by (rule replay_repeated [OF assms])

text \<open>C14: the table of replays stays consistent with any other clients at work, as long as they keep it so: one
  replay per dead letter, per idempotency key of a tenant and per event, each of a dead letter and with
  an event of its own tenant.\<close>

theorem replays_stay_consistent:
  assumes "replays_ok (a_db w)" and "\<And>s d. replays_ok d \<Longrightarrow> replays_ok (meanwhile env s d)"
  shows "replays_ok (a_db (snd (requestReplay env t i k c q w)))"
  by (rule requestReplay_consistent [OF assms])

section \<open>Witnesses\<close>

lemma replays_ok_run: "replays_ok (a_db (snd replay_run))"
  unfolding replay_run_def by (rule requestReplay_consistent) (simp_all add: replays_ok_start)

theorem replay_is_atomic_witness:
  "(a_db (snd replay_run) = dead_database \<or> (\<exists>input archiveKey e ob r.
        parseReplayQuery (api_example None) (Some (JStr ''t'')) (Some (JStr ''l'')) (Some (JStr ''k'')) None (Some (JObj [])) = Inr input
        \<and> replayed input archiveKey dead_database e ob r (a_db (snd replay_run))))
    \<and> (case fst replay_run of Inl _ \<Rightarrow> False | Inr x \<Rightarrow> (\<exists>input.
        parseReplayQuery (api_example None) (Some (JStr ''t'')) (Some (JStr ''l'')) (Some (JStr ''k'')) None (Some (JObj [])) = Inr input
        \<and> stored_response (rq_tenantId input) (rq_deadLetterId input) (rq_idempotencyKey input) (a_db (snd replay_run)) x))"
  using replay_is_atomic [OF undisturbed_example, of None "Some (JStr ''t'')" "Some (JStr ''l'')" "Some (JStr ''k'')" None
      "Some (JObj [])" replay_start "fst replay_run" "snd replay_run"]
    replay_run_success
  by (auto simp: replay_run_def replay_start_def api_start_def)

theorem replay_is_idempotent_witness:
  "\<exists>x. fst replay_run = Inr x \<and> fst (example_request_replay (snd replay_run)) = Inr x
     \<and> a_db (snd (example_request_replay (snd replay_run))) = a_db (snd replay_run)"
proof -
  obtain x where x: "fst replay_run = Inr x" using replay_run_success by blast
  have first: "example_request_replay replay_start = (Inr x, snd replay_run)"
    using x by (simp add: replay_run_def prod_eq_iff)
  obtain again v' where again: "example_request_replay (snd replay_run) = (again, v')" by fastforce
  obtain input where p: "parseReplayQuery (api_example None) (Some (JStr ''t'')) (Some (JStr ''l'')) (Some (JStr ''k'')) None
      (Some (JObj [])) = Inr input"
    by (simp add: parseReplayQuery_def uuid_value_def empty_object_def)
  have c: "a_outcome (api_example None) FindReplay = Completes" by simp
  have "a_db v' = a_db (snd replay_run) \<and> again = Inr x"
    using replay_is_idempotent [OF first undisturbed_example again replays_ok_run, of input] p c by blast
  with x again show ?thesis by simp
qed

theorem replays_stay_consistent_witness:
  "replays_ok (a_db (snd (example_request_replay replay_start)))"
  by (rule replays_stay_consistent) (simp_all add: replays_ok_start)

end
