(* ===== verification/Cursor.thy ===== *)
theory Cursor
  imports Archive "HOL-Library.Product_Lexorder" "HOL-Library.List_Lexorder"
begin

text \<open>
  What the list queries of the API use of the language's library: \<open>base64url\<close> text of bytes
  (\<open>Buffer\<close>), the text of a date (\<open>Date.prototype.toISOString\<close>) and its reading, and the selection of
  a page by a key.

  \<^item> A date is its milliseconds; only dates from 1970 on are printed, as those of database rows are.
    Reading accepts the UTC form with or without seconds and fraction; the days of a month are not
    checked, as in \<open>Date\<close>, which counts on into the next month.
  \<^item> \<open>select_page\<close> is the query with \<open>orderBy\<close> descending and \<open>take\<close>, \<open>page_of\<close> the answer of the
    services: the page and the key of its last row when there are more.
\<close>

section \<open>Base64url\<close>

definition base64_char :: "nat \<Rightarrow> char" where
  "base64_char n =
     (if n < 26 then char_of (65 + n) else if n < 52 then char_of (71 + n)
      else if n < 62 then char_of (n - 4) else if n = 62 then CHR ''-'' else CHR ''_'')"

definition base64_value :: "char \<Rightarrow> nat option" where
  "base64_value c =
     (let k = (of_char c :: nat) in
      if 65 \<le> k \<and> k < 91 then Some (k - 65) else if 97 \<le> k \<and> k < 123 then Some (k - 71)
      else if 48 \<le> k \<and> k < 58 then Some (k + 4) else if k = 45 then Some 62 else if k = 95 then Some 63 else None)"

definition six :: "char \<Rightarrow> nat" where
  "six c = (case base64_value c of None \<Rightarrow> 0 | Some n \<Rightarrow> n)"

fun base64url_encode :: "nat list \<Rightarrow> string" where
  "base64url_encode [] = []"
| "base64url_encode [a] = [base64_char (a div 4), base64_char (a mod 4 * 16)]"
| "base64url_encode [a, b] =
     [base64_char (a div 4), base64_char (a mod 4 * 16 + b div 16), base64_char (b mod 16 * 4)]"
| "base64url_encode (a # b # c # bs) =
     base64_char (a div 4) # base64_char (a mod 4 * 16 + b div 16) # base64_char (b mod 16 * 4 + c div 64)
       # base64_char (c mod 64) # base64url_encode bs"

fun base64url_decode :: "string \<Rightarrow> nat list" where
  "base64url_decode [] = []"
| "base64url_decode [w] = []"
| "base64url_decode [w, x] = [six w * 4 + six x div 16]"
| "base64url_decode [w, x, y] = [six w * 4 + six x div 16, six x mod 16 * 16 + six y div 4]"
| "base64url_decode (w # x # y # z # s) =
     (six w * 4 + six x div 16) # (six x mod 16 * 16 + six y div 4) # (six y mod 4 * 64 + six z) # base64url_decode s"

lemma six_char [simp]: "n < 64 \<Longrightarrow> six (base64_char n) = n"
  by (auto simp: six_def base64_char_def base64_value_def Let_def)

lemma base64_char_valid: "n < 64 \<Longrightarrow> base64_value (base64_char n) \<noteq> None"
  by (auto simp: base64_char_def base64_value_def Let_def)

lemma base64_round_trip: "\<forall>b \<in> set bs. b < 256 \<Longrightarrow> base64url_decode (base64url_encode bs) = bs"
proof (induction bs rule: base64url_encode.induct)
  case (2 a)
  then have "a div 4 < 64" "a mod 4 * 16 < 64" by auto
  then show ?case by simp
next
  case (3 a b)
  then have "a div 4 < 64" "a mod 4 * 16 + b div 16 < 64" "b mod 16 * 4 < 64" "b div 16 < 16" by auto
  then show ?case by simp
next
  case (4 a b c bs)
  then have "a div 4 < 64" "a mod 4 * 16 + b div 16 < 64" "b mod 16 * 4 + c div 64 < 64" "c mod 64 < 64" "b div 16 < 16" "c div 64 < 4" by auto
  with 4 show ?case by simp
qed simp

lemma base64_alphabet: "\<forall>b \<in> set bs. b < 256 \<Longrightarrow> list_all (\<lambda>c. base64_value c \<noteq> None) (base64url_encode bs)"
proof (induction bs rule: base64url_encode.induct)
  case (2 a)
  then have "a div 4 < 64" "a mod 4 * 16 < 64" by auto
  then show ?case using base64_char_valid by simp
next
  case (3 a b)
  then have "a div 4 < 64" "a mod 4 * 16 + b div 16 < 64" "b mod 16 * 4 < 64" by auto
  then show ?case using base64_char_valid by simp
next
  case (4 a b c bs)
  then have "a div 4 < 64" "a mod 4 * 16 + b div 16 < 64" "b mod 16 * 4 + c div 64 < 64" "c mod 64 < 64" by auto
  with 4 show ?case using base64_char_valid by simp
qed simp

section \<open>Dates\<close>

definition leap_year :: "nat \<Rightarrow> bool" where
  "leap_year y \<longleftrightarrow> y mod 4 = 0 \<and> (y mod 100 \<noteq> 0 \<or> y mod 400 = 0)"

definition year_length :: "nat \<Rightarrow> nat" where
  "year_length y = (if leap_year y then 366 else 365)"

definition month_lengths :: "nat \<Rightarrow> nat list" where
  "month_lengths y = [31, if leap_year y then 29 else 28, 31, 30, 31, 30, 31, 31, 30, 31, 30, 31]"

lemma year_length_pos: "0 < year_length y"
  by (simp add: year_length_def)

function split_year :: "nat \<Rightarrow> nat \<Rightarrow> nat \<times> nat" where
  "split_year y d = (if d < year_length y then (y, d) else split_year (y + 1) (d - year_length y))"
  by pat_completeness auto
termination
  by (relation "measure snd") (auto simp: year_length_def)

declare split_year.simps [simp del]

fun split_month :: "nat list \<Rightarrow> nat \<Rightarrow> nat \<Rightarrow> nat \<times> nat" where
  "split_month [] m d = (m, d)"
| "split_month (l # ls) m d = (if d < l then (m, d) else split_month ls (m + 1) (d - l))"

definition two_digits :: "nat \<Rightarrow> string" where
  "two_digits n = [digit_char (n div 10), digit_char (n mod 10)]"

definition three_digits :: "nat \<Rightarrow> string" where
  "three_digits n = digit_char (n div 100) # two_digits (n mod 100)"

definition four_digits :: "nat \<Rightarrow> string" where
  "four_digits n = two_digits (n div 100) @ two_digits (n mod 100)"

definition toISOString :: "nat \<Rightarrow> string" where
  "toISOString ms =
     (let (y, d) = split_year 1970 (ms div 86400000); (m, k) = split_month (month_lengths y) 1 d; t = ms mod 86400000
      in four_digits y @ ''-'' @ two_digits m @ ''-'' @ two_digits (k + 1) @ ''T'' @ two_digits (t div 3600000) @ '':''
         @ two_digits (t div 60000 mod 60) @ '':'' @ two_digits (t div 1000 mod 60) @ ''.'' @ three_digits (t mod 1000) @ ''Z'')"

text \<open>Days before a year, from 1970, and before a month of it.\<close>

definition days_to_year :: "nat \<Rightarrow> nat" where
  "days_to_year y = sum_list (map year_length [1970 ..< y])"

definition days_to_month :: "nat \<Rightarrow> nat \<Rightarrow> nat" where
  "days_to_month y m = sum_list (take (m - 1) (month_lengths y))"

definition date_time :: "nat \<Rightarrow> nat \<Rightarrow> nat \<Rightarrow> nat \<Rightarrow> nat \<Rightarrow> nat \<Rightarrow> nat \<Rightarrow> nat" where
  "date_time y m k h n s f =
     (days_to_year y + days_to_month y m + (k - 1)) * 86400000 + h * 3600000 + n * 60000 + s * 1000 + f"

definition decimal_value :: "string \<Rightarrow> nat" where
  "decimal_value s = digits_value 10 (map digit_value s)"

definition read_fraction :: "string \<Rightarrow> nat" where
  "read_fraction s = decimal_value (take 3 (s @ ''00''))"

definition parse_seconds :: "string \<Rightarrow> (nat \<times> nat) option" where
  "parse_seconds s =
     (if s = ''Z'' then Some (0, 0)
      else case s of
        c # s1 # s2 # r \<Rightarrow>
          if c \<noteq> CHR '':'' \<or> \<not> is_digit s1 \<or> \<not> is_digit s2 then None
          else if r = ''Z'' then Some (decimal_value [s1, s2], 0)
          else (case r of
                  d # fs \<Rightarrow> if d = CHR ''.'' \<and> 2 \<le> length fs \<and> last fs = CHR ''Z'' \<and> list_all is_digit (butlast fs)
                             then Some (decimal_value [s1, s2], read_fraction (butlast fs)) else None
                | [] \<Rightarrow> None)
      | _ \<Rightarrow> None)"

definition parse_date :: "string \<Rightarrow> nat option" where
  "parse_date s =
     (let part = (\<lambda>i n. take n (drop i s)) in
      if length s < 17 \<or> \<not> list_all is_digit (concat [part 0 4, part 5 2, part 8 2, part 11 2, part 14 2])
         \<or> part 4 1 \<noteq> ''-'' \<or> part 7 1 \<noteq> ''-'' \<or> part 10 1 \<noteq> ''T'' \<or> part 13 1 \<noteq> '':''
      then None
      else map_option (\<lambda>(sec, f). date_time (decimal_value (part 0 4)) (decimal_value (part 5 2)) (decimal_value (part 8 2))
             (decimal_value (part 11 2)) (decimal_value (part 14 2)) sec f) (parse_seconds (drop 16 s)))"

section \<open>A printed date reads back\<close>

lemma split_year_sum:
  "split_year y d = (y', d') \<Longrightarrow> y \<le> y' \<and> d' < year_length y' \<and> d = sum_list (map year_length [y ..< y']) + d'"
proof (induction y d arbitrary: y' d' rule: split_year.induct)
  case (1 y d)
  show ?case
  proof (cases "d < year_length y")
    case True
    with 1(2) show ?thesis by (auto simp: split_year.simps [of y d])
  next
    case False
    with 1(2) have "split_year (y + 1) (d - year_length y) = (y', d')" by (simp add: split_year.simps [of y d])
    from 1(1) [OF False this] False show ?thesis by (auto simp: upt_conv_Cons [of y y'])
  qed
qed

lemma split_month_sum:
  "split_month ls m d = (m', k) \<Longrightarrow> d < sum_list ls \<Longrightarrow>
   m \<le> m' \<and> m' < m + length ls \<and> k < ls ! (m' - m) \<and> d = sum_list (take (m' - m) ls) + k"
proof (induction ls m d arbitrary: m' k rule: split_month.induct)
  case (2 l ls m d)
  show ?case
  proof (cases "d < l")
    case False
    with 2(2,3) have "split_month ls (m + 1) (d - l) = (m', k)" "d - l < sum_list ls" by auto
    from 2(1) [OF False this] False have "m + 1 \<le> m'" "m' < m + 1 + length ls" "k < ls ! (m' - (m + 1))"
      "d - l = sum_list (take (m' - (m + 1)) ls) + k" by auto
    moreover from this(1) have "m' - m = Suc (m' - (m + 1))" by simp
    ultimately show ?thesis using False by simp
  qed (use 2 in auto)
qed simp

lemma month_sum: "sum_list (month_lengths y) = year_length y"
  by (simp add: month_lengths_def year_length_def)

lemma month_bound: "i < 12 \<Longrightarrow> month_lengths y ! i \<le> 31"
  by (auto simp: month_lengths_def less_Suc_eq eval_nat_numeral nth_Cons split: nat.split)

lemma decimal_two [simp]: "n < 100 \<Longrightarrow> decimal_value (two_digits n) = n"
proof -
  assume "n < 100"
  then have "n div 10 < 10" "n mod 10 < 10" by auto
  then show ?thesis by (simp add: decimal_value_def two_digits_def digits_value_def)
qed

lemma decimal_append: "decimal_value (s @ s') = decimal_value s * 10 ^ length s' + decimal_value s'"
proof -
  have "foldl (\<lambda>a d. a * 10 + d) a ds = a * 10 ^ length ds + foldl (\<lambda>a d. a * 10 + d) 0 ds" for a :: nat and ds
  proof (induction ds arbitrary: a)
    case (Cons d ds)
    show ?case using Cons [of "a * 10 + d"] Cons [of d] by (simp add: algebra_simps)
  qed simp
  from this [of "foldl (\<lambda>a d. a * 10 + d) 0 (map digit_value s)" "map digit_value s'"]
  show ?thesis by (simp add: decimal_value_def digits_value_def)
qed

lemma decimal_four: "n < 10000 \<Longrightarrow> decimal_value (four_digits n) = n"
  by (simp add: four_digits_def decimal_append) (simp add: two_digits_def)

lemma decimal_three: "n < 1000 \<Longrightarrow> decimal_value (three_digits n) = n"
proof -
  assume n: "n < 1000"
  then have "n div 100 < 10" by simp
  then have "decimal_value [digit_char (n div 100)] = n div 100" by (simp add: decimal_value_def digits_value_def)
  moreover have "decimal_value (three_digits n) = decimal_value [digit_char (n div 100)] * 100 + decimal_value (two_digits (n mod 100))"
    using decimal_append [of "[digit_char (n div 100)]" "two_digits (n mod 100)"]
    by (simp add: three_digits_def) (simp add: two_digits_def)
  ultimately show ?thesis by simp
qed

lemma digits_two: "n < 100 \<Longrightarrow> list_all is_digit (two_digits n)"
proof -
  assume "n < 100"
  then have "n div 10 < 10" "n mod 10 < 10" by auto
  then show ?thesis by (simp add: two_digits_def)
qed

lemma digits_three: "n < 1000 \<Longrightarrow> list_all is_digit (three_digits n)"
  by (simp add: three_digits_def digits_two)

lemma digits_four: "n < 10000 \<Longrightarrow> list_all is_digit (four_digits n)"
  by (simp add: four_digits_def digits_two)

lemma two_length [simp]: "length (two_digits n) = 2" by (simp add: two_digits_def)
lemma three_length [simp]: "length (three_digits n) = 3" by (simp add: three_digits_def)
lemma four_length [simp]: "length (four_digits n) = 4" by (simp add: four_digits_def)

lemma parse_layout:
  assumes "length a = 4" "length b = 2" "length c = 2" "length d = 2" "length e = 2" "length f = 2" "length g = 3"
    and "list_all is_digit (concat [a, b, c, d, e, f, g])"
  shows "parse_date (a @ ''-'' @ b @ ''-'' @ c @ ''T'' @ d @ '':'' @ e @ '':'' @ f @ ''.'' @ g @ ''Z'') =
    Some (date_time (decimal_value a) (decimal_value b) (decimal_value c) (decimal_value d) (decimal_value e)
      (decimal_value f) (decimal_value g))"
proof -
  have "\<exists>a1 a2 a3 a4. a = [a1, a2, a3, a4]" "\<exists>b1 b2. b = [b1, b2]" "\<exists>c1 c2. c = [c1, c2]" "\<exists>d1 d2. d = [d1, d2]"
    "\<exists>e1 e2. e = [e1, e2]" "\<exists>f1 f2. f = [f1, f2]" "\<exists>g1 g2 g3. g = [g1, g2, g3]"
    using assms(1-7) by (auto simp: eval_nat_numeral length_Suc_conv)
  then show ?thesis using assms(8)
    by (elim exE) (simp add: parse_date_def parse_seconds_def read_fraction_def)
qed

lemma time_split:
  "t div 3600000 * 3600000 + t div 60000 mod 60 * 60000 + t div 1000 mod 60 * 1000 + t mod 1000 = t" for t :: nat
proof -
  have m: "t div 60000 = t div 1000 div 60" by (simp add: div_mult2_eq [symmetric])
  have h: "t div 3600000 = t div 1000 div 60 div 60" by (simp add: div_mult2_eq [symmetric])
  have "t div 1000 div 60 = t div 1000 div 60 div 60 * 60 + t div 1000 div 60 mod 60" by simp
  moreover have "t div 1000 = t div 1000 div 60 * 60 + t div 1000 mod 60" by simp
  moreover have "t = t div 1000 * 1000 + t mod 1000" by simp
  ultimately show ?thesis unfolding m h by linarith
qed

text \<open>The parts of a printed date.\<close>

lemma iso_parts:
  assumes "fst (split_year 1970 (ms div 86400000)) < 10000"
  obtains y m k h n s f where "toISOString ms = four_digits y @ ''-'' @ two_digits m @ ''-'' @ two_digits (k + 1) @ ''T''
      @ two_digits h @ '':'' @ two_digits n @ '':'' @ two_digits s @ ''.'' @ three_digits f @ ''Z''"
    and "y < 10000" "m < 100" "k + 1 < 100" "h < 100" "n < 100" "s < 100" "f < 1000"
    and "date_time y m (k + 1) h n s f = ms"
proof -
  obtain y d where y: "split_year 1970 (ms div 86400000) = (y, d)" by (cases "split_year 1970 (ms div 86400000)")
  obtain m k where m: "split_month (month_lengths y) 1 d = (m, k)" by (cases "split_month (month_lengths y) 1 d")
  let ?t = "ms mod 86400000"
  from split_year_sum [OF y] have d: "d < sum_list (month_lengths y)" "ms div 86400000 = days_to_year y + d"
    by (simp_all add: month_sum days_to_year_def)
  from split_month_sum [OF m d(1)] have mk: "1 \<le> m" "m < 13" "k < month_lengths y ! (m - 1)" "d = days_to_month y m + k"
    by (auto simp: days_to_month_def month_lengths_def)
  have "m - 1 < 12" using mk(1,2) by linarith
  from month_bound [OF this, of y] mk(3) have k: "k < 31" by linarith
  have y4: "y < 10000" using assms y by simp
  have b: "?t div 3600000 < 100" "?t div 60000 mod 60 < 100" "?t div 1000 mod 60 < 100" "?t mod 1000 < 1000" "m < 100" "k + 1 < 100"
    using mk k by (auto simp: less_mult_imp_div_less intro: less_trans [OF mod_less_divisor])
  have "date_time y m (k + 1) (?t div 3600000) (?t div 60000 mod 60) (?t div 1000 mod 60) (?t mod 1000)
      = ms div 86400000 * 86400000 + ?t"
    using time_split [of ?t] by (simp add: date_time_def d(2) mk(4))
  also have "\<dots> = ms" by simp
  finally show thesis
    by (intro that [of y m k "?t div 3600000" "?t div 60000 mod 60" "?t div 1000 mod 60" "?t mod 1000"])
      (simp_all only: toISOString_def Let_def y m prod.case b y4)
qed

lemma iso_round_trip:
  assumes "fst (split_year 1970 (ms div 86400000)) < 10000"
  shows "parse_date (toISOString ms) = Some ms"
proof (rule iso_parts [OF assms])
  fix y m k h n s f
  assume iso: "toISOString ms = four_digits y @ ''-'' @ two_digits m @ ''-'' @ two_digits (k + 1) @ ''T''
      @ two_digits h @ '':'' @ two_digits n @ '':'' @ two_digits s @ ''.'' @ three_digits f @ ''Z''"
    and b: "y < 10000" "m < 100" "k + 1 < 100" "h < 100" "n < 100" "s < 100" "f < 1000"
    and t: "date_time y m (k + 1) h n s f = ms"
  show ?thesis unfolding iso
    by (subst parse_layout) (simp_all only: two_length three_length four_length concat.simps append_Nil2 list_all_append
        digits_two digits_three digits_four decimal_two decimal_three decimal_four b t simp_thms)
qed

text \<open>Characters that JSON prints as they are.\<close>

definition plain_char :: "char \<Rightarrow> bool" where
  "plain_char c \<longleftrightarrow> (let k = (of_char c :: nat) in 35 \<le> k \<and> k < 91 \<or> 94 < k \<and> k < 128)"

lemma digit_plain: "is_digit c \<Longrightarrow> plain_char c"
  by (auto simp: is_digit_def plain_char_def Let_def)

lemma digits_plain: "list_all is_digit s \<Longrightarrow> list_all plain_char s"
  by (auto simp: list_all_iff digit_plain)

lemma iso_plain:
  assumes "fst (split_year 1970 (ms div 86400000)) < 10000"
  shows "length (toISOString ms) = 24 \<and> list_all plain_char (toISOString ms)"
proof (rule iso_parts [OF assms])
  fix y m k h n s f
  assume iso: "toISOString ms = four_digits y @ ''-'' @ two_digits m @ ''-'' @ two_digits (k + 1) @ ''T''
      @ two_digits h @ '':'' @ two_digits n @ '':'' @ two_digits s @ ''.'' @ three_digits f @ ''Z''"
    and b: "y < 10000" "m < 100" "k + 1 < 100" "h < 100" "n < 100" "s < 100" "f < 1000"
  show ?thesis unfolding iso
    by (simp add: digits_plain [OF digits_two] digits_plain [OF digits_three] digits_plain [OF digits_four] b [simplified])
      (simp add: plain_char_def)
qed

lemma quote_plain: "list_all plain_char s \<Longrightarrow> quote s = CHR 0x22 # s @ [CHR 0x22]"
proof -
  have "escape_char c = [c]" if "plain_char c" for c
    using that by (auto simp: plain_char_def escape_char_def Let_def)
  then have "list_all plain_char s \<Longrightarrow> concat (map escape_char s) = s" by (induction s) auto
  then show "list_all plain_char s \<Longrightarrow> quote s = CHR 0x22 # s @ [CHR 0x22]" by (simp add: quote_def)
qed

lemma js_String_not_Nil: "js_String n \<noteq> []"
  by (cases n) auto

section \<open>Cursors\<close>

definition encode_cursor :: "json \<Rightarrow> string" where
  "encode_cursor v = base64url_encode (utf8_encode (stringify v))"

definition decode_cursor :: "string \<Rightarrow> json option" where
  "decode_cursor s =
     (if s = [] \<or> \<not> list_all (\<lambda>c. base64_value c \<noteq> None) s then None
      else let bytes = base64url_decode s in
           if base64url_encode bytes \<noteq> s then None else Option.bind (utf8_decode bytes) json_parse)"

lemma base64_length: "bs \<noteq> [] \<Longrightarrow> base64url_encode bs \<noteq> [] \<and> length (base64url_encode bs) \<le> 2 * length bs"
  by (induction bs rule: base64url_encode.induct) (auto, (case_tac bs; simp)+)

lemma stringify_not_Nil: "stringify v \<noteq> []"
  by (cases v) (auto simp: quote_def js_String_not_Nil)

lemma cursor_round_trip:
  assumes "printable v"
  shows "decode_cursor (encode_cursor v) = Some v"
proof -
  have b: "\<forall>b \<in> set (utf8_encode (stringify v)). b < 256" using utf8_bytes by blast
  have "utf8_char c \<noteq> []" for c by (simp add: utf8_char_def Let_def)
  then have "utf8_encode (stringify v) \<noteq> []"
    using stringify_not_Nil [of v] by (cases "stringify v") (simp_all add: utf8_encode_def)
  from base64_length [OF this] show ?thesis
    using base64_round_trip [OF b] base64_alphabet [OF b] json_parse_stringify [OF assms]
    by (simp add: decode_cursor_def encode_cursor_def utf8_round_trip)
qed

lemma cursor_length: "length (encode_cursor v) \<le> 4 * length (stringify v)" "1 \<le> length (encode_cursor v)"
proof -
  have c: "length (utf8_char c) \<le> 2" "utf8_char c \<noteq> []" for c by (simp_all add: utf8_char_def Let_def)
  have u1: "length (utf8_encode s) \<le> 2 * length s" for s
  proof (induction s)
    case (Cons x s)
    then show ?case using c(1) [of x] by (simp add: utf8_encode_def)
  qed (simp add: utf8_encode_def)
  have u2: "utf8_encode s \<noteq> []" if "s \<noteq> []" for s using that c(2) by (cases s) (simp_all add: utf8_encode_def)
  from base64_length [OF u2 [OF stringify_not_Nil [of v]]] u1 [of "stringify v"]
  show "length (encode_cursor v) \<le> 4 * length (stringify v)" "1 \<le> length (encode_cursor v)"
    by (auto simp: encode_cursor_def Suc_le_eq)
qed

section \<open>Pages\<close>

definition before_cursor :: "(int \<times> string) option \<Rightarrow> int \<times> string \<Rightarrow> bool" where
  "before_cursor cursor k =
     (case cursor of None \<Rightarrow> True | Some (t, i) \<Rightarrow> fst k < t \<or> (fst k = t \<and> snd k < i))"

definition select_page :: "('r \<Rightarrow> int \<times> string) \<Rightarrow> nat \<Rightarrow> (int \<times> string) option \<Rightarrow> 'r list \<Rightarrow> 'r list" where
  "select_page key n cursor rows =
     take (n + 1) (rev (sort_key key (filter (\<lambda>r. before_cursor cursor (key r)) rows)))"

definition page_of :: "nat \<Rightarrow> 'r list \<Rightarrow> 'r list \<times> 'r option" where
  "page_of n rows =
     (let items = take n rows
      in (items, if n < length rows \<and> items \<noteq> [] then Some (last items) else None))"

text \<open>The pages of a query, one after the other.\<close>

fun walk :: "((int \<times> string) option \<Rightarrow> 'r list \<times> 'r option) \<Rightarrow> ('r \<Rightarrow> int \<times> string) \<Rightarrow> nat \<Rightarrow> (int \<times> string) option \<Rightarrow> 'r list" where
  "walk get key 0 cursor = []"
| "walk get key (Suc n) cursor =
     (case get cursor of
        (items, None) \<Rightarrow> items
      | (items, Some r) \<Rightarrow> items @ walk get key n (Some (key r)))"

lemma take_nonempty: "0 < n \<Longrightarrow> n < length xs \<Longrightarrow> take n xs \<noteq> []"
  by (cases xs) auto

lemma last_take: "0 < n \<Longrightarrow> n < length xs \<Longrightarrow> last (take n xs) = xs ! (n - 1)"
  using last_conv_nth [OF take_nonempty [of n xs]] by (simp add: min_def)

lemma before_cursor_less: "before_cursor (Some k) k' \<longleftrightarrow> k' < k"
  by (cases k; cases k') (auto simp: before_cursor_def)

record 'r page_result =
  pr_items :: "'r list"
  pr_nextCursor :: "string option"

text \<open>A client that follows the cursors it is given.\<close>

fun follow :: "(string option \<Rightarrow> 'e + 'r page_result) \<Rightarrow> nat \<Rightarrow> string option \<Rightarrow> 'r list" where
  "follow get 0 c = []"
| "follow get (Suc n) c =
     (case get c of Inl _ \<Rightarrow> []
      | Inr p \<Rightarrow> (case pr_nextCursor p of None \<Rightarrow> pr_items p | Some c' \<Rightarrow> pr_items p @ follow get n (Some c')))"

lemma follow_walk:
  assumes get: "\<And>c. valid c \<Longrightarrow> get (map_option enc c) =
      Inr \<lparr>pr_items = fst (fetch c), pr_nextCursor = map_option (\<lambda>r. enc (key r)) (snd (fetch c))\<rparr>"
    and next_valid: "\<And>c r. snd (fetch c) = Some r \<Longrightarrow> valid (Some (key r))"
  shows "valid c \<Longrightarrow> follow get m (map_option enc c) = walk fetch key m c"
proof (induction m arbitrary: c)
  case (Suc m)
  show ?case
  proof (cases "snd (fetch c)")
    case None
    then show ?thesis using get [OF Suc.prems] by (cases "fetch c") simp
  next
    case (Some r)
    from Suc.IH [OF next_valid [OF Some]] have "follow get m (Some (enc (key r))) = walk fetch key m (Some (key r))" by simp
    then show ?thesis using get [OF Suc.prems] Some by (cases "fetch c") simp
  qed
qed simp

text \<open>The contract of a paged query: it answers with a page of the rows that match, and lists all of them.\<close>

locale paged_query =
  fixes key :: "'r \<Rightarrow> int \<times> string" and matching :: "'q \<Rightarrow> 'r list"
    and fetch :: "'q \<Rightarrow> nat \<Rightarrow> (int \<times> string) option \<Rightarrow> 'r list \<times> 'r option"
  assumes fetch_law: "fetch q n cursor = page_of n (select_page key n cursor (matching q))"
begin

abbreviation listed :: "'q \<Rightarrow> (int \<times> string) option \<Rightarrow> 'r list" where
  "listed q cursor \<equiv> rev (sort_key key (filter (\<lambda>r. before_cursor cursor (key r)) (matching q)))"

lemma fetch_page:
  "fetch q n cursor = (take n (listed q cursor),
     if n < length (listed q cursor) \<and> take n (listed q cursor) \<noteq> [] then Some (last (take n (listed q cursor))) else None)"
  by (auto simp: fetch_law page_of_def select_page_def Let_def)

lemma listed_next:
  assumes inj: "inj_on key (set (matching q))" and d: "distinct (matching q)"
    and n: "0 < n" "n < length (listed q cursor)"
  shows "listed q (Some (key (last (take n (listed q cursor))))) = drop n (listed q cursor)"
proof -
  let ?S = "listed q cursor" and ?k = "key (last (take n (listed q cursor)))"
  have dS: "distinct ?S" using d by simp
  have sub: "set ?S \<subseteq> set (matching q)" by auto
  have less: "key (?S ! j) < key (?S ! i)" if "i < j" "j < length ?S" for i j
  proof -
    have "sorted (rev (map key ?S))" by (simp add: rev_map)
    then have "key (?S ! j) \<le> key (?S ! i)"
      using that sorted_rev_nth_mono [of "map key ?S" i j] by simp
    moreover have "key (?S ! j) \<noteq> key (?S ! i)"
    proof
      assume "key (?S ! j) = key (?S ! i)"
      moreover have "?S ! j \<in> set (matching q)" "?S ! i \<in> set (matching q)" using that sub nth_mem by (meson less_trans subsetD)+
      ultimately have "?S ! j = ?S ! i" using inj by (simp add: inj_on_def)
      with that dS show False by (simp add: nth_eq_iff_index_eq)
    qed
    ultimately show ?thesis by simp
  qed
  have k: "?k = key (?S ! (n - 1))" using last_take [OF n] by simp
  have filt: "filter (\<lambda>r. key r < ?k) ?S = drop n ?S"
  proof -
    have "filter (\<lambda>r. key r < ?k) (take n ?S) = []"
    proof (rule filter_False, rule ballI)
      fix r assume "r \<in> set (take n ?S)"
      then obtain i where i: "i < n" "r = ?S ! i" using n(2) by (auto simp: in_set_conv_nth)
      show "\<not> key r < ?k"
      proof (cases "i = n - 1")
        case False
        then have "key (?S ! (n - 1)) < key (?S ! i)" using i n by (intro less) auto
        then show ?thesis unfolding k i by simp
      qed (simp add: k i)
    qed
    moreover have "filter (\<lambda>r. key r < ?k) (drop n ?S) = drop n ?S"
    proof (rule filter_True, rule ballI)
      fix r assume "r \<in> set (drop n ?S)"
      then obtain j where j: "j < length ?S - n" "r = ?S ! (n + j)" using n(2) by (auto simp: in_set_conv_nth)
      then show "key r < ?k" unfolding k j(2) using n by (intro less) auto
    qed
    ultimately show ?thesis by (metis append_take_drop_id filter_append append_Nil)
  qed
  have mono: "key r < ?k \<longleftrightarrow> before_cursor cursor (key r) \<and> key r < ?k" for r
  proof -
    have "last (take n ?S) \<in> set ?S" by (rule in_set_takeD [OF last_in_set [OF take_nonempty [OF n]]])
    then have "before_cursor cursor ?k" by auto
    moreover have "before_cursor cursor k \<Longrightarrow> k' < k \<Longrightarrow> before_cursor cursor k'" for k k'
    proof (cases cursor)
      case (Some c)
      show "before_cursor cursor k \<Longrightarrow> k' < k \<Longrightarrow> before_cursor cursor k'"
        unfolding Some before_cursor_less by (rule less_trans)
    qed (simp add: before_cursor_def)
    ultimately show ?thesis by blast
  qed
  let ?P = "\<lambda>r. key r < ?k" and ?Q = "\<lambda>r. before_cursor cursor (key r)"
  have "filter ?P (matching q) = filter ?P (filter ?Q (matching q))"
    unfolding filter_filter by (rule filter_cong [OF refl]) (rule mono)
  moreover have "rev (sort_key key (filter ?P (filter ?Q (matching q)))) = filter ?P ?S"
    by (simp only: filter_sort [symmetric] rev_filter)
  ultimately have "listed q (Some ?k) = filter ?P ?S" by (simp only: before_cursor_less)
  with filt show ?thesis by simp
qed

lemma walk_listed:
  assumes "inj_on key (set (matching q))" and "distinct (matching q)" and "0 < n"
  shows "length (listed q cursor) < m \<Longrightarrow> walk (fetch q n) key m cursor = listed q cursor"
proof (induction m arbitrary: cursor)
  case (Suc m)
  let ?S = "listed q cursor"
  show ?case
  proof (cases "n < length ?S")
    case True
    then have ne: "take n ?S \<noteq> []" using assms(3) by (intro take_nonempty)
    note nxt = listed_next [OF assms True]
    have "length (listed q (Some (key (last (take n ?S))))) < m" unfolding nxt using Suc.prems True assms(3) by auto
    from Suc.IH [OF this] show ?thesis unfolding nxt using True ne by (simp add: fetch_page)
  qed (simp add: fetch_page)
qed simp

end

end
