(* ===== verification/Listing.thy ===== *)
theory Listing
  imports Ingest Cursor
begin

text \<open>
  The read side of the API (\<open>packages/api/src/services/\<close>: \<open>dead-letter-query.ts\<close>, \<open>dead-letters.ts\<close>,
  \<open>delivery-history-query.ts\<close>, \<open>delivery-history.ts\<close>, \<open>delivery-summary.ts\<close>,
  \<open>delivery-summary-values.ts\<close>, their repositories and controllers): lists in pages that follow a
  cursor, the inspection of an archived payload, and the summary of a tenant's deliveries.

  Reads go to a replica (\<open>packages/shared/src/read-replica.ts\<close>), whose database may be behind; a server
  that is not a standby is refused.
\<close>

section \<open>The replica\<close>

record replica =
  rr_inRecovery :: "bool option"
  rr_db :: database
  rr_failure :: "exn option"

definition withReplicaRead :: "replica \<Rightarrow> (database \<Rightarrow> 'a) \<Rightarrow> exn + 'a" where
  "withReplicaRead rep query =
     (case rr_failure rep of Some e \<Rightarrow> Inl e
      | None \<Rightarrow> if rr_inRecovery rep \<noteq> Some True
          then Inl (Error ''Dashboard reads require a PostgreSQL standby; the configured server is not a replica'')
          else Inr (query (rr_db rep)))"

section \<open>Queries\<close>

text \<open>\<open>z.string().regex(...).default("50").transform(Number).refine(n => n <= 100)\<close>\<close>

definition parse_limit :: "json option \<Rightarrow> nat option" where
  "parse_limit v =
     (case v of None \<Rightarrow> Some 50
      | Some (JStr s) \<Rightarrow>
          if s \<noteq> [] \<and> list_all is_digit s \<and> hd s \<noteq> CHR ''0'' \<and> decimal_value s \<le> 100 then Some (decimal_value s) else None
      | _ \<Rightarrow> None)"

definition strict_keys :: "string list \<Rightarrow> (string \<times> json) list \<Rightarrow> bool" where
  "strict_keys names ms \<longleftrightarrow> list_all (\<lambda>m. fst m \<in> set names) ms"

definition parse_cursor_text :: "json option \<Rightarrow> string option option" where
  "parse_cursor_text v =
     (case v of None \<Rightarrow> Some None
      | Some (JStr s) \<Rightarrow> if 1 \<le> length s \<and> length s \<le> 1024 then Some (Some s) else None
      | _ \<Rightarrow> None)"

definition uuid_text :: "api_env \<Rightarrow> json option \<Rightarrow> string option" where
  "uuid_text env v = (case v of Some (JStr s) \<Rightarrow> if is_uuid env s then Some s else None | _ \<Rightarrow> None)"

text \<open>The position a cursor names, when its dates and identifiers are well formed.\<close>

definition cursor_position :: "api_env \<Rightarrow> (string \<times> json) list \<Rightarrow> (int \<times> string) option" where
  "cursor_position env ms =
     (case (map_of ms ''createdAt'', uuid_text env (map_of ms ''id'')) of
        (Some (JStr t), Some i) \<Rightarrow>
          if is_datetime env t then map_option (\<lambda>n. (int n, i)) (parse_date t) else None
      | _ \<Rightarrow> None)"

record dead_letter_query =
  dq_tenantId :: string
  dq_limit :: nat
  dq_cursor :: "(int \<times> string) option"

definition dead_letter_cursor_of :: "api_env \<Rightarrow> string \<Rightarrow> string \<Rightarrow> (int \<times> string) option" where
  "dead_letter_cursor_of env tenantId encoded =
     (case decode_cursor encoded of
        Some (JObj ms) \<Rightarrow>
          if strict_keys [''resource'', ''tenantId'', ''createdAt'', ''id''] ms
             \<and> map_of ms ''resource'' = Some (JStr ''dead-letters'') \<and> uuid_text env (map_of ms ''tenantId'') = Some tenantId
          then cursor_position env ms else None
      | _ \<Rightarrow> None)"

definition parseDeadLetterQuery :: "api_env \<Rightarrow> json option \<Rightarrow> json option \<Rightarrow> api_exn + dead_letter_query" where
  "parseDeadLetterQuery env tenantId query =
     (case (uuid_text env tenantId, query) of
        (Some t, Some (JObj ms)) \<Rightarrow>
          (case (parse_limit (map_of ms ''limit''), parse_cursor_text (map_of ms ''cursor'')) of
             (Some n, Some c) \<Rightarrow>
               if \<not> strict_keys [''limit'', ''cursor''] ms
               then Inl (DeadLetterValidationError ''Invalid tenant ID or dead-letter query'')
               else (case c of
                       None \<Rightarrow> Inr \<lparr>dq_tenantId = t, dq_limit = n, dq_cursor = None\<rparr>
                     | Some encoded \<Rightarrow>
                         (case dead_letter_cursor_of env t encoded of
                            None \<Rightarrow> Inl (DeadLetterValidationError ''Invalid dead-letter cursor for this tenant'')
                          | Some p \<Rightarrow> Inr \<lparr>dq_tenantId = t, dq_limit = n, dq_cursor = Some p\<rparr>))
           | _ \<Rightarrow> Inl (DeadLetterValidationError ''Invalid tenant ID or dead-letter query''))
      | _ \<Rightarrow> Inl (DeadLetterValidationError ''Invalid tenant ID or dead-letter query''))"

definition dead_letter_cursor_json :: "string \<Rightarrow> int \<times> string \<Rightarrow> json" where
  "dead_letter_cursor_json tenantId k =
     JObj [(''resource'', JStr ''dead-letters''), (''tenantId'', JStr tenantId),
           (''createdAt'', JStr (toISOString (nat (fst k)))), (''id'', JStr (snd k))]"

definition deadLetterCursor :: "string \<Rightarrow> int \<times> string \<Rightarrow> string" where
  "deadLetterCursor tenantId k = encode_cursor (dead_letter_cursor_json tenantId k)"

definition parseDeadLetterPayloadQuery ::
  "api_env \<Rightarrow> json option \<Rightarrow> json option \<Rightarrow> json option \<Rightarrow> api_exn + string \<times> string" where
  "parseDeadLetterPayloadQuery env tenantId deadLetterId query =
     (case (uuid_text env tenantId, uuid_text env deadLetterId) of
        (Some t, Some i) \<Rightarrow> if query = Some (JObj []) then Inr (t, i)
          else Inl (DeadLetterValidationError ''Invalid tenant ID, dead-letter ID, or payload query'')
      | _ \<Rightarrow> Inl (DeadLetterValidationError ''Invalid tenant ID, dead-letter ID, or payload query''))"

section \<open>Dead letters\<close>

definition letter_key :: "dead_letter \<Rightarrow> int \<times> string" where
  "letter_key l = (le_createdAt l, le_id l)"

definition tenant_letters :: "database \<times> string \<Rightarrow> dead_letter list" where
  "tenant_letters q = filter (\<lambda>l. le_tenantId l = snd q) (deadLetters (fst q))"

definition listDeadLetters :: "database \<Rightarrow> dead_letter_query \<Rightarrow> dead_letter list" where
  "listDeadLetters d query =
     take (dq_limit query + 1) (rev (sort_key letter_key
       (filter (\<lambda>l. le_tenantId l = dq_tenantId query
          \<and> (case dq_cursor query of None \<Rightarrow> True
             | Some (t, i) \<Rightarrow> le_createdAt l < t \<or> (le_createdAt l = t \<and> le_id l < i))) (deadLetters d))))"

definition findDeadLetterArchive :: "string \<Rightarrow> string \<Rightarrow> database \<Rightarrow> dead_letter option" where
  "findDeadLetterArchive tenantId i d = find (\<lambda>l. le_tenantId l = tenantId \<and> le_id l = i) (deadLetters d)"

definition getDeadLetters ::
  "api_env \<Rightarrow> replica \<Rightarrow> json option \<Rightarrow> json option \<Rightarrow> api_exn + dead_letter page_result" where
  "getDeadLetters env rep tenantId input =
     (case parseDeadLetterQuery env tenantId input of
        Inl e \<Rightarrow> Inl e
      | Inr query \<Rightarrow>
          (case withReplicaRead rep (\<lambda>d. listDeadLetters d query) of
             Inl e \<Rightarrow> Inl DeadLetterUnavailableError
           | Inr rows \<Rightarrow>
               (let items = take (dq_limit query) rows
                in Inr \<lparr>pr_items = items,
                     pr_nextCursor = (if dq_limit query < length rows \<and> items \<noteq> []
                       then Some (deadLetterCursor (dq_tenantId query) (letter_key (last items))) else None)\<rparr>)))"

record archived_payload =
  ap_deadLetterId :: string
  ap_tenantId :: string
  ap_eventId :: string
  ap_payload :: json

definition archive_failure :: "api_exn \<Rightarrow> api_exn" where
  "archive_failure cause =
     (case cause of
        ArchiveNotFoundError \<Rightarrow> ArchivedPayloadGoneError ''Archived payload is no longer available''
      | InvalidArchiveError _ \<Rightarrow> ArchivedPayloadInvalidError ''Archived payload cannot be inspected''
      | _ \<Rightarrow> DeadLetterUnavailableError)"

definition getDeadLetterPayload ::
  "api_env \<Rightarrow> replica \<Rightarrow> json option \<Rightarrow> json option \<Rightarrow> json option \<Rightarrow> archived_payload api" where
  "getDeadLetterPayload env rep tenantId deadLetterId input =
     (case parseDeadLetterPayloadQuery env tenantId deadLetterId input of
        Inl e \<Rightarrow> throw e
      | Inr (t, i) \<Rightarrow>
          (case withReplicaRead rep (findDeadLetterArchive t i) of
             Inl e \<Rightarrow> throw DeadLetterUnavailableError
           | Inr None \<Rightarrow> throw (DeadLetterNotFoundError ''Dead-letter record not found'')
           | Inr (Some l) \<Rightarrow>
               andThen (catching (readArchivedPayload env (le_payloadS3Key l)) (\<lambda>cause. throw (archive_failure cause)))
                 (\<lambda>payload. ret \<lparr>ap_deadLetterId = le_id l, ap_tenantId = le_tenantId l, ap_eventId = le_eventId l,
                                ap_payload = payload\<rparr>)))"

text \<open>\<open>handleError\<close> of the controller.\<close>

definition dead_letter_error :: "api_exn \<Rightarrow> response" where
  "dead_letter_error e =
     (case e of
        DeadLetterValidationError m \<Rightarrow> error_response 400 m
      | DeadLetterNotFoundError m \<Rightarrow> error_response 404 m
      | ArchivedPayloadGoneError m \<Rightarrow> error_response 410 m
      | ReplayConflictError m \<Rightarrow> error_response 409 m
      | ArchivedPayloadInvalidError m \<Rightarrow> error_response 502 m
      | DeadLetterUnavailableError \<Rightarrow> error_response 503 ''Dead-letter data is temporarily unavailable''
      | _ \<Rightarrow> error_response 500 ''internal error'')"

section \<open>Delivery history\<close>

record history_query =
  hq_tenantId :: string
  hq_status :: "DeliveryStatus option"
  hq_limit :: nat
  hq_cursor :: "(int \<times> string) option"

definition status_name :: "DeliveryStatus \<Rightarrow> string" where
  "status_name s = (case s of PENDING \<Rightarrow> ''PENDING'' | IN_FLIGHT \<Rightarrow> ''IN_FLIGHT'' | SUCCEEDED \<Rightarrow> ''SUCCEEDED''
     | FAILED \<Rightarrow> ''FAILED'' | DEAD_LETTERED \<Rightarrow> ''DEAD_LETTERED'')"

definition statuses :: "DeliveryStatus list" where
  "statuses = [PENDING, IN_FLIGHT, SUCCEEDED, FAILED, DEAD_LETTERED]"

definition parse_status :: "json option \<Rightarrow> DeliveryStatus option option" where
  "parse_status v =
     (case v of None \<Rightarrow> Some None
      | Some (JStr s) \<Rightarrow> map_option Some (find (\<lambda>st. status_name st = s) statuses)
      | _ \<Rightarrow> None)"

definition status_json :: "DeliveryStatus option \<Rightarrow> json" where
  "status_json s = (case s of None \<Rightarrow> JNull | Some st \<Rightarrow> JStr (status_name st))"

definition history_cursor_of ::
  "api_env \<Rightarrow> string \<Rightarrow> DeliveryStatus option \<Rightarrow> string \<Rightarrow> (int \<times> string) option" where
  "history_cursor_of env tenantId st encoded =
     (case decode_cursor encoded of
        Some (JObj ms) \<Rightarrow>
          if strict_keys [''tenantId'', ''status'', ''createdAt'', ''id''] ms
             \<and> uuid_text env (map_of ms ''tenantId'') = Some tenantId
             \<and> map_of ms ''status'' = Some (status_json st)
          then cursor_position env ms else None
      | _ \<Rightarrow> None)"

definition parseDeliveryHistoryQuery :: "api_env \<Rightarrow> json option \<Rightarrow> json option \<Rightarrow> api_exn + history_query" where
  "parseDeliveryHistoryQuery env tenantId query =
     (case (uuid_text env tenantId, query) of
        (Some t, Some (JObj ms)) \<Rightarrow>
          (case (parse_status (map_of ms ''status''), parse_limit (map_of ms ''limit''), parse_cursor_text (map_of ms ''cursor'')) of
             (Some st, Some n, Some c) \<Rightarrow>
               if \<not> strict_keys [''status'', ''limit'', ''cursor''] ms
               then Inl (DeliveryHistoryValidationError ''Invalid tenant ID or delivery history query'')
               else (case c of
                       None \<Rightarrow> Inr \<lparr>hq_tenantId = t, hq_status = st, hq_limit = n, hq_cursor = None\<rparr>
                     | Some encoded \<Rightarrow>
                         (case history_cursor_of env t st encoded of
                            None \<Rightarrow> Inl (DeliveryHistoryValidationError ''Invalid cursor for this tenant and status filter'')
                          | Some p \<Rightarrow> Inr \<lparr>hq_tenantId = t, hq_status = st, hq_limit = n, hq_cursor = Some p\<rparr>))
           | _ \<Rightarrow> Inl (DeliveryHistoryValidationError ''Invalid tenant ID or delivery history query''))
      | _ \<Rightarrow> Inl (DeliveryHistoryValidationError ''Invalid tenant ID or delivery history query''))"

definition history_cursor_json :: "string \<Rightarrow> DeliveryStatus option \<Rightarrow> int \<times> string \<Rightarrow> json" where
  "history_cursor_json tenantId st k =
     JObj [(''tenantId'', JStr tenantId), (''status'', status_json st),
           (''createdAt'', JStr (toISOString (nat (fst k)))), (''id'', JStr (snd k))]"

definition deliveryHistoryCursor :: "string \<Rightarrow> DeliveryStatus option \<Rightarrow> int \<times> string \<Rightarrow> string" where
  "deliveryHistoryCursor tenantId st k = encode_cursor (history_cursor_json tenantId st k)"

definition delivery_key :: "delivery \<Rightarrow> int \<times> string" where
  "delivery_key x = (dl_createdAt x, dl_id x)"

definition tenant_deliveries :: "database \<times> string \<times> DeliveryStatus option \<Rightarrow> delivery list" where
  "tenant_deliveries q =
     (case q of (d, t, st) \<Rightarrow> filter (\<lambda>x. dl_tenantId x = t \<and> (st = None \<or> st = Some (dl_status x))) (deliveries d))"

definition listDeliveryHistory :: "database \<Rightarrow> history_query \<Rightarrow> delivery list" where
  "listDeliveryHistory d query =
     take (hq_limit query + 1) (rev (sort_key delivery_key
       (filter (\<lambda>x. dl_tenantId x = hq_tenantId query
          \<and> (case hq_status query of None \<Rightarrow> True | Some st \<Rightarrow> dl_status x = st)
          \<and> (case hq_cursor query of None \<Rightarrow> True
             | Some (t, i) \<Rightarrow> dl_createdAt x < t \<or> (dl_createdAt x = t \<and> dl_id x < i))) (deliveries d))))"

definition getDeliveryHistory ::
  "api_env \<Rightarrow> replica \<Rightarrow> json option \<Rightarrow> json option \<Rightarrow> api_exn + delivery page_result" where
  "getDeliveryHistory env rep tenantId input =
     (case parseDeliveryHistoryQuery env tenantId input of
        Inl e \<Rightarrow> Inl e
      | Inr query \<Rightarrow>
          (case withReplicaRead rep (\<lambda>d. listDeliveryHistory d query) of
             Inl e \<Rightarrow> Inl DeliveryHistoryUnavailableError
           | Inr rows \<Rightarrow>
               (let items = take (hq_limit query) rows
                in Inr \<lparr>pr_items = items,
                     pr_nextCursor = (if hq_limit query < length rows \<and> items \<noteq> []
                       then Some (deliveryHistoryCursor (hq_tenantId query) (hq_status query) (delivery_key (last items)))
                       else None)\<rparr>)))"

section \<open>Summary\<close>

definition countDeliveriesByStatus :: "string \<Rightarrow> database \<Rightarrow> (DeliveryStatus \<times> nat) list" where
  "countDeliveriesByStatus tenantId d =
     (let own = filter (\<lambda>x. dl_tenantId x = tenantId) (deliveries d)
      in map (\<lambda>s. (s, length (filter (\<lambda>x. dl_status x = s) own)))
           (filter (\<lambda>s. \<exists>x \<in> set own. dl_status x = s) statuses))"

record delivery_summary =
  su_total :: nat
  su_counts :: "DeliveryStatus \<Rightarrow> nat"
  su_completed :: nat
  su_successRatePercent :: "rat option"

text \<open>\<open>Math.round\<close> on exact numbers.\<close>

definition summarizeDeliveries :: "(DeliveryStatus \<times> nat) list \<Rightarrow> delivery_summary" where
  "summarizeDeliveries rows =
     (let counts = foldl (\<lambda>c (s, n). c(s := n)) (\<lambda>_. 0) rows;
          completed = counts SUCCEEDED + counts DEAD_LETTERED
      in \<lparr>su_total = sum_list (map counts statuses), su_counts = counts, su_completed = completed,
          su_successRatePercent = (if completed = 0 then None
            else Some (of_int \<lfloor>of_nat (counts SUCCEEDED) / of_nat completed * 10000 + 1 / 2 :: rat\<rfloor> / 100))\<rparr>)"

definition getDeliverySummary :: "api_env \<Rightarrow> replica \<Rightarrow> json option \<Rightarrow> json option \<Rightarrow> api_exn + delivery_summary" where
  "getDeliverySummary env rep tenantId query =
     (case uuid_text env tenantId of
        Some t \<Rightarrow>
          if query \<noteq> Some (JObj []) then Inl (DeliveryHistoryValidationError ''Invalid tenant ID or delivery summary query'')
          else (case withReplicaRead rep (countDeliveriesByStatus t) of
                  Inl e \<Rightarrow> Inl DeliverySummaryUnavailableError
                | Inr rows \<Rightarrow> Inr (summarizeDeliveries rows))
      | None \<Rightarrow> Inl (DeliveryHistoryValidationError ''Invalid tenant ID or delivery summary query''))"

text \<open>The error answers of both controllers.\<close>

definition history_error :: "api_exn \<Rightarrow> response" where
  "history_error e =
     (case e of
        DeliveryHistoryValidationError m \<Rightarrow> error_response 400 m
      | DeliveryHistoryUnavailableError \<Rightarrow> error_response 503 ''Delivery history is temporarily unavailable''
      | _ \<Rightarrow> error_response 500 ''internal error'')"

definition summary_error :: "api_exn \<Rightarrow> response" where
  "summary_error e =
     (case e of
        DeliveryHistoryValidationError m \<Rightarrow> error_response 400 m
      | DeliverySummaryUnavailableError \<Rightarrow> error_response 503 ''Delivery summary is temporarily unavailable''
      | _ \<Rightarrow> error_response 500 ''internal error'')"

end
