(* ===== verification/Paging.thy ===== *)
theory Paging
  imports Listing
begin

text \<open>
  Following the cursors of the API's lists: a cursor reads back as the position it was printed from, and
  a client that asks for page after page is given every row of its tenant once, newest first.
\<close>

section \<open>Cursors read back\<close>

text \<open>The documented meaning of \<open>z.string().uuid()\<close> and \<open>z.string().datetime()\<close>, as far as it is used.\<close>

definition documented_texts :: "api_env \<Rightarrow> bool" where
  "documented_texts env \<longleftrightarrow>
     (\<forall>s. is_uuid env s \<longrightarrow> length s = 36 \<and> list_all plain_char s)
   \<and> (\<forall>ms. fst (split_year 1970 (ms div 86400000)) < 10000 \<longrightarrow> is_datetime env (toISOString ms))"

definition key_texts :: "api_env \<Rightarrow> int \<times> string \<Rightarrow> bool" where
  "key_texts env k \<longleftrightarrow>
     0 \<le> fst k \<and> fst (split_year 1970 (nat (fst k) div 86400000)) < 10000 \<and> is_uuid env (snd k)"

lemma plain_texts:
  assumes "documented_texts env"
  shows "is_uuid env s \<Longrightarrow> length s = 36 \<and> list_all plain_char s"
    and "key_texts env k \<Longrightarrow> length (toISOString (nat (fst k))) = 24 \<and> list_all plain_char (toISOString (nat (fst k)))"
    and "key_texts env k \<Longrightarrow> is_datetime env (toISOString (nat (fst k)))"
    and "key_texts env k \<Longrightarrow> parse_date (toISOString (nat (fst k))) = Some (nat (fst k))"
  using assms by (auto simp: documented_texts_def key_texts_def iso_plain iso_round_trip)

lemma quote_length: "list_all plain_char s \<Longrightarrow> length (quote s) = length s + 2"
  by (simp add: quote_plain)

lemma cursor_position_reads:
  assumes "documented_texts env" and "key_texts env k"
    and "map_of ms ''createdAt'' = Some (JStr (toISOString (nat (fst k))))" and "map_of ms ''id'' = Some (JStr (snd k))"
  shows "cursor_position env ms = Some k"
  using assms(2) plain_texts(3,4) [OF assms(1,2)]
  by (simp add: cursor_position_def uuid_text_def assms(3,4) key_texts_def)

lemma dead_letter_cursor_reads_back:
  assumes "documented_texts env" and "is_uuid env t" and "key_texts env k"
  shows "dead_letter_cursor_of env t (deadLetterCursor t k) = Some k"
    and "1 \<le> length (deadLetterCursor t k) \<and> length (deadLetterCursor t k) \<le> 1024"
proof -
  have "printable (dead_letter_cursor_json t k)" by (simp add: dead_letter_cursor_json_def)
  from cursor_round_trip [OF this] show "dead_letter_cursor_of env t (deadLetterCursor t k) = Some k"
    by (simp add: dead_letter_cursor_of_def deadLetterCursor_def dead_letter_cursor_json_def strict_keys_def
        uuid_text_def assms(2) cursor_position_reads [OF assms(1,3)])
  have "is_uuid env (snd k)" using assms(3) by (simp add: key_texts_def)
  note plain = plain_texts(1) [OF assms(1,2)] plain_texts(1) [OF assms(1) this] plain_texts(2) [OF assms(1,3)]
  have "list_all plain_char ''dead-letters''" by code_simp
  then have "length (stringify (dead_letter_cursor_json t k)) \<le> 200"
    using plain by (simp add: dead_letter_cursor_json_def quote_length) (simp add: quote_def escape_char_def)
  with cursor_length [of "dead_letter_cursor_json t k"]
  show "1 \<le> length (deadLetterCursor t k) \<and> length (deadLetterCursor t k) \<le> 1024" by (simp add: deadLetterCursor_def)
qed

lemma history_cursor_reads_back:
  assumes "documented_texts env" and "is_uuid env t" and "key_texts env k"
  shows "history_cursor_of env t st (deliveryHistoryCursor t st k) = Some k"
    and "1 \<le> length (deliveryHistoryCursor t st k) \<and> length (deliveryHistoryCursor t st k) \<le> 1024"
proof -
  have "printable (history_cursor_json t st k)" by (cases st) (simp_all add: history_cursor_json_def status_json_def)
  from cursor_round_trip [OF this] show "history_cursor_of env t st (deliveryHistoryCursor t st k) = Some k"
    by (simp add: history_cursor_of_def deliveryHistoryCursor_def history_cursor_json_def strict_keys_def
        uuid_text_def assms(2) cursor_position_reads [OF assms(1,3)])
  have "is_uuid env (snd k)" using assms(3) by (simp add: key_texts_def)
  note plain = plain_texts(1) [OF assms(1,2)] plain_texts(1) [OF assms(1) this] plain_texts(2) [OF assms(1,3)]
  have "length (stringify (status_json st)) \<le> 15"
  proof (cases st)
    case (Some a)
    then show ?thesis by (cases a) (simp_all add: status_json_def status_name_def quote_def escape_char_def)
  qed (simp add: status_json_def)
  then have "length (stringify (history_cursor_json t st k)) \<le> 200"
    using plain by (simp add: history_cursor_json_def quote_length) (simp add: quote_def escape_char_def)
  with cursor_length [of "history_cursor_json t st k"]
  show "1 \<le> length (deliveryHistoryCursor t st k) \<and> length (deliveryHistoryCursor t st k) \<le> 1024"
    by (simp add: deliveryHistoryCursor_def)
qed

section \<open>Following the cursors\<close>

text \<open>A request for a page, as a client with a limit and the cursor of the page before sends it.\<close>

definition page_request :: "(string \<times> json) list \<Rightarrow> string \<Rightarrow> string option \<Rightarrow> json option" where
  "page_request filters limit c =
     Some (JObj (filters @ (''limit'', JStr limit) # (case c of None \<Rightarrow> [] | Some s \<Rightarrow> [(''cursor'', JStr s)])))"

lemma limit_positive:
  assumes "parse_limit (Some (JStr s)) = Some n"
  shows "0 < n"
proof (cases s)
  case (Cons c cs)
  then have c: "is_digit c" "c \<noteq> CHR ''0''" and n: "n = decimal_value (c # cs)"
    using assms by (auto simp: parse_limit_def split: if_splits)
  have "(of_char c :: nat) \<noteq> of_char (CHR ''0'')" using c(2) by (simp only: of_char_eq_iff not_False_eq_True)
  then have "0 < digit_value c" using c(1) by (auto simp: is_digit_def digit_value_def)
  moreover have "decimal_value [c] = digit_value c" by (simp add: decimal_value_def digits_value_def)
  ultimately show ?thesis using decimal_append [of "[c]" cs] n by simp
qed (use assms in \<open>simp add: parse_limit_def\<close>)

context paged_query
begin

lemma next_matching:
  assumes "snd (fetch q n c) = Some r"
  shows "r \<in> set (matching q)"
proof -
  let ?p = "take n (listed q c)"
  have "?p \<noteq> []" "r = last ?p" using assms by (auto simp: fetch_page split: if_splits)
  then have "r \<in> set ?p" by simp
  then have "r \<in> set (listed q c)" by (rule in_set_takeD)
  then show ?thesis by simp
qed

lemma follow_listed:
  assumes "inj_on key (set (matching q))" and "distinct (matching q)" and "0 < n" and "length (matching q) < m"
    and valid: "\<And>r. r \<in> set (matching q) \<Longrightarrow> valid (key r)"
    and get: "\<And>c. (\<And>k. c = Some k \<Longrightarrow> valid k) \<Longrightarrow> get (map_option enc c) =
      Inr \<lparr>pr_items = fst (fetch q n c), pr_nextCursor = map_option (\<lambda>r. enc (key r)) (snd (fetch q n c))\<rparr>"
  shows "follow get m None = rev (sort_key key (matching q))"
proof -
  have "follow get m (map_option enc None) = walk (fetch q n) key m None"
    by (rule follow_walk [where valid = "\<lambda>c. \<forall>k. c = Some k \<longrightarrow> valid k"])
      (auto intro!: get valid dest: next_matching)
  moreover have "walk (fetch q n) key m None = listed q None"
    by (rule walk_listed [OF assms(1-3)]) (simp add: before_cursor_def assms(4))
  ultimately show ?thesis by (simp add: before_cursor_def)
qed

end

interpretation dead_letter_list: paged_query letter_key tenant_letters
  "\<lambda>q n c. page_of n (listDeadLetters (fst q) \<lparr>dq_tenantId = snd q, dq_limit = n, dq_cursor = c\<rparr>)"
  by unfold_locales
    (simp add: listDeadLetters_def select_page_def tenant_letters_def before_cursor_def letter_key_def conj_commute
      cong: conj_cong option.case_cong)

lemma history_page:
  "listDeliveryHistory (fst q) \<lparr>hq_tenantId = fst (snd q), hq_status = snd (snd q), hq_limit = n, hq_cursor = c\<rparr> =
   select_page delivery_key n c (tenant_deliveries q)"
  by (cases q; cases "snd (snd q)"; cases c)
    (auto simp: listDeliveryHistory_def select_page_def tenant_deliveries_def before_cursor_def delivery_key_def
      intro!: arg_cong [where f = "take _"] arg_cong [where f = rev] arg_cong [where f = "sort_key delivery_key"] filter_cong)

interpretation history_list: paged_query delivery_key tenant_deliveries
  "\<lambda>q n c. page_of n (listDeliveryHistory (fst q)
     \<lparr>hq_tenantId = fst (snd q), hq_status = snd (snd q), hq_limit = n, hq_cursor = c\<rparr>)"
  by unfold_locales (simp add: history_page)

section \<open>Every row once\<close>

lemma getDeadLetters_page:
  assumes texts: "documented_texts env" "is_uuid env t"
    and rep: "rr_failure rep = None" "rr_inRecovery rep = Some True"
    and limit: "parse_limit (Some (JStr limit)) = Some n"
    and c: "\<And>k. c = Some k \<Longrightarrow> key_texts env k"
  shows "getDeadLetters env rep (Some (JStr t)) (page_request [] limit (map_option (deadLetterCursor t) c)) =
    (let p = page_of n (listDeadLetters (rr_db rep) \<lparr>dq_tenantId = t, dq_limit = n, dq_cursor = c\<rparr>)
     in Inr \<lparr>pr_items = fst p, pr_nextCursor = map_option (\<lambda>r. deadLetterCursor t (letter_key r)) (snd p)\<rparr>)"
proof -
  have "parseDeadLetterQuery env (Some (JStr t)) (page_request [] limit (map_option (deadLetterCursor t) c))
      = Inr \<lparr>dq_tenantId = t, dq_limit = n, dq_cursor = c\<rparr>"
  proof (cases c)
    case None
    then show ?thesis
      by (simp add: parseDeadLetterQuery_def page_request_def uuid_text_def texts(2) limit parse_cursor_text_def strict_keys_def)
  next
    case (Some k)
    note reads = dead_letter_cursor_reads_back [OF texts c [OF Some]]
    from reads(2) show ?thesis
      by (simp add: parseDeadLetterQuery_def page_request_def uuid_text_def texts(2) limit parse_cursor_text_def
          strict_keys_def Some reads(1))
  qed
  then show ?thesis by (simp add: getDeadLetters_def withReplicaRead_def rep page_of_def Let_def)
qed

lemma tenant_rows:
  assumes "distinct (map le_id (deadLetters d))"
  shows "inj_on letter_key (set (tenant_letters (d, t)))" "distinct (tenant_letters (d, t))"
    "length (tenant_letters (d, t)) \<le> length (deadLetters d)"
  using assms by (auto simp: inj_on_def letter_key_def tenant_letters_def distinct_map)

text \<open>C15: A client that requests a tenant's dead letters page after page, sending back each cursor it
  is given, is given every dead letter of that tenant exactly once, newest first and by identifier
  within a moment, whatever the page size; the cursors it is given are accepted for that tenant.  The
  replica does not change meanwhile.  The identifiers are UUIDs and the dates before the year 10000.\<close>

theorem dead_letter_pages_list_every_row:
  assumes texts: "documented_texts env" "is_uuid env t"
    and rep: "rr_failure rep = None" "rr_inRecovery rep = Some True"
    and limit: "parse_limit (Some (JStr limit)) = Some n"
    and keys: "list_all (\<lambda>l. key_texts env (letter_key l)) (deadLetters (rr_db rep))"
    and ids: "distinct (map le_id (deadLetters (rr_db rep)))"
    and m: "length (deadLetters (rr_db rep)) < m"
  shows "follow (\<lambda>c. getDeadLetters env rep (Some (JStr t)) (page_request [] limit c)) m None
      = rev (sort_key letter_key (tenant_letters (rr_db rep, t)))"
proof (rule dead_letter_list.follow_listed [where valid = "key_texts env" and enc = "deadLetterCursor t"])
  show "length (tenant_letters (rr_db rep, t)) < m" using m tenant_rows(3) [OF ids] by (rule le_less_trans [rotated])
  show "key_texts env (letter_key r)" if "r \<in> set (tenant_letters (rr_db rep, t))" for r
    using that keys by (auto simp: tenant_letters_def list_all_iff)
next
  fix c :: "(int \<times> string) option" assume "\<And>k. c = Some k \<Longrightarrow> key_texts env k"
  from getDeadLetters_page [OF assms(1-5) this]
  show "getDeadLetters env rep (Some (JStr t)) (page_request [] limit (map_option (deadLetterCursor t) c)) =
    Inr \<lparr>pr_items = fst (page_of n (listDeadLetters (fst (rr_db rep, t))
           \<lparr>dq_tenantId = snd (rr_db rep, t), dq_limit = n, dq_cursor = c\<rparr>)),
         pr_nextCursor = map_option (\<lambda>r. deadLetterCursor t (letter_key r)) (snd (page_of n (listDeadLetters (fst (rr_db rep, t))
           \<lparr>dq_tenantId = snd (rr_db rep, t), dq_limit = n, dq_cursor = c\<rparr>)))\<rparr>"
    by (simp add: Let_def)
qed (use tenant_rows(1,2) [OF ids] limit_positive [OF limit] in auto)

lemma getDeliveryHistory_page:
  assumes texts: "documented_texts env" "is_uuid env t"
    and rep: "rr_failure rep = None" "rr_inRecovery rep = Some True"
    and limit: "parse_limit (Some (JStr limit)) = Some n"
    and c: "\<And>k. c = Some k \<Longrightarrow> key_texts env k"
  shows "getDeliveryHistory env rep (Some (JStr t))
      (page_request (case st of None \<Rightarrow> [] | Some s \<Rightarrow> [(''status'', JStr (status_name s))]) limit
        (map_option (deliveryHistoryCursor t st) c)) =
    (let p = page_of n (listDeliveryHistory (rr_db rep) \<lparr>hq_tenantId = t, hq_status = st, hq_limit = n, hq_cursor = c\<rparr>)
     in Inr \<lparr>pr_items = fst p, pr_nextCursor = map_option (\<lambda>r. deliveryHistoryCursor t st (delivery_key r)) (snd p)\<rparr>)"
    (is "getDeliveryHistory env rep _ ?request = _")
proof -
  have st: "parse_status (Some (JStr (status_name s))) = Some (Some s)" for s
    by (cases s) (simp_all add: parse_status_def statuses_def status_name_def)
  have none: "parse_status None = Some None" by (simp add: parse_status_def)
  have "parseDeliveryHistoryQuery env (Some (JStr t)) ?request
      = Inr \<lparr>hq_tenantId = t, hq_status = st, hq_limit = n, hq_cursor = c\<rparr>"
  proof (cases c)
    case None
    then show ?thesis
      by (cases st) (simp_all add: parseDeliveryHistoryQuery_def page_request_def uuid_text_def texts(2) limit
          parse_cursor_text_def strict_keys_def st none)
  next
    case (Some k)
    note reads = history_cursor_reads_back [OF texts c [OF Some]]
    from reads(2) [of st] show ?thesis
      by (cases st) (simp_all add: parseDeliveryHistoryQuery_def page_request_def uuid_text_def texts(2) limit
          parse_cursor_text_def strict_keys_def Some reads(1) st none)
  qed
  then show ?thesis by (simp add: getDeliveryHistory_def withReplicaRead_def rep page_of_def Let_def)
qed

lemma tenant_delivery_rows:
  assumes "distinct (map dl_id (deliveries d))"
  shows "inj_on delivery_key (set (tenant_deliveries (d, t, st)))" "distinct (tenant_deliveries (d, t, st))"
    "length (tenant_deliveries (d, t, st)) \<le> length (deliveries d)"
  using assms by (auto simp: inj_on_def delivery_key_def tenant_deliveries_def distinct_map)

text \<open>The same for the delivery history, with a status filter or without: the pages, followed by
  their cursors, list every delivery of the tenant that has the status exactly once, newest first.\<close>

theorem history_pages_list_every_row:
  assumes texts: "documented_texts env" "is_uuid env t"
    and rep: "rr_failure rep = None" "rr_inRecovery rep = Some True"
    and limit: "parse_limit (Some (JStr limit)) = Some n"
    and keys: "list_all (\<lambda>x. key_texts env (delivery_key x)) (deliveries (rr_db rep))"
    and ids: "distinct (map dl_id (deliveries (rr_db rep)))"
    and m: "length (deliveries (rr_db rep)) < m"
  shows "follow (\<lambda>c. getDeliveryHistory env rep (Some (JStr t))
        (page_request (case st of None \<Rightarrow> [] | Some s \<Rightarrow> [(''status'', JStr (status_name s))]) limit c)) m None
      = rev (sort_key delivery_key (tenant_deliveries (rr_db rep, t, st)))"
proof (rule history_list.follow_listed [where valid = "key_texts env" and enc = "deliveryHistoryCursor t st"])
  show "length (tenant_deliveries (rr_db rep, t, st)) < m" using m tenant_delivery_rows(3) [OF ids] by (rule le_less_trans [rotated])
  show "key_texts env (delivery_key r)" if "r \<in> set (tenant_deliveries (rr_db rep, t, st))" for r
    using that keys by (auto simp: tenant_deliveries_def list_all_iff)
next
  fix c :: "(int \<times> string) option" assume "\<And>k. c = Some k \<Longrightarrow> key_texts env k"
  from getDeliveryHistory_page [OF assms(1-5) this]
  show "getDeliveryHistory env rep (Some (JStr t))
      (page_request (case st of None \<Rightarrow> [] | Some s \<Rightarrow> [(''status'', JStr (status_name s))]) limit
        (map_option (deliveryHistoryCursor t st) c)) =
    Inr \<lparr>pr_items = fst (page_of n (listDeliveryHistory (fst (rr_db rep, t, st))
           \<lparr>hq_tenantId = fst (snd (rr_db rep, t, st)), hq_status = snd (snd (rr_db rep, t, st)), hq_limit = n, hq_cursor = c\<rparr>)),
         pr_nextCursor = map_option (\<lambda>r. deliveryHistoryCursor t st (delivery_key r))
           (snd (page_of n (listDeliveryHistory (fst (rr_db rep, t, st))
           \<lparr>hq_tenantId = fst (snd (rr_db rep, t, st)), hq_status = snd (snd (rr_db rep, t, st)), hq_limit = n, hq_cursor = c\<rparr>)))\<rparr>"
    by (simp add: Let_def)
qed (use tenant_delivery_rows(1,2) [OF ids] limit_positive [OF limit] in auto)

section \<open>Examples\<close>

definition uuid_1 :: string where "uuid_1 = ''00000000-0000-4000-8000-000000000001''"
definition uuid_2 :: string where "uuid_2 = ''00000000-0000-4000-8000-000000000002''"

definition list_env :: api_env where
  "list_env = (api_example None)\<lparr>is_uuid := (\<lambda>s. s = uuid_1 \<or> s = uuid_2)\<rparr>"

definition example_letter :: "string \<Rightarrow> string \<Rightarrow> int \<Rightarrow> dead_letter" where
  "example_letter i t c = \<lparr>le_id = i, le_eventId = ''e'', le_deliveryId = ''d'', le_tenantId = t, le_targetUrl = ''u'',
     le_lastError = None, le_attemptCount = 5, le_payloadS3Key = ''k'', le_createdAt = c\<rparr>"

definition example_delivery :: "string \<Rightarrow> string \<Rightarrow> DeliveryStatus \<Rightarrow> int \<Rightarrow> delivery" where
  "example_delivery i t st c = \<lparr>dl_id = i, dl_eventId = ''e'', dl_tenantId = t, dl_targetUrl = ''u'', dl_status = st,
     dl_attemptCount = 1, dl_lastAttemptAt = None, dl_nextAttemptAt = None, dl_lastError = None, dl_createdAt = c\<rparr>"

definition example_replica :: replica where
  "example_replica = \<lparr>rr_inRecovery = Some True,
     rr_db = one_tenant\<lparr>deadLetters := [example_letter uuid_1 uuid_1 5, example_letter uuid_2 uuid_1 7],
       deliveries := [example_delivery uuid_1 uuid_1 SUCCEEDED 5, example_delivery uuid_2 uuid_1 DEAD_LETTERED 7]\<rparr>,
     rr_failure = None\<rparr>"

lemma uuid_examples: "uuid_1 \<noteq> uuid_2" "length uuid_1 = 36" "length uuid_2 = 36"
    "list_all plain_char uuid_1" "list_all plain_char uuid_2"
  unfolding uuid_1_def uuid_2_def by code_simp+

lemma list_env_simps [simp]:
  "is_uuid list_env s \<longleftrightarrow> s = uuid_1 \<or> s = uuid_2" "is_datetime list_env s"
  by (simp_all add: list_env_def api_example_def)

lemma list_env_texts: "documented_texts list_env"
  by (auto simp: documented_texts_def uuid_examples)

lemma example_replica_simps [simp]:
  "rr_failure example_replica = None" "rr_inRecovery example_replica = Some True"
  "deadLetters (rr_db example_replica) = [example_letter uuid_1 uuid_1 5, example_letter uuid_2 uuid_1 7]"
  "deliveries (rr_db example_replica) =
     [example_delivery uuid_1 uuid_1 SUCCEEDED 5, example_delivery uuid_2 uuid_1 DEAD_LETTERED 7]"
  by (simp_all add: example_replica_def)

lemma example_rows [simp]:
  "le_id (example_letter i t c) = i" "le_tenantId (example_letter i t c) = t" "letter_key (example_letter i t c) = (c, i)"
  "dl_id (example_delivery i t st c) = i" "dl_tenantId (example_delivery i t st c) = t"
  "dl_status (example_delivery i t st c) = st" "delivery_key (example_delivery i t st c) = (c, i)"
  by (simp_all add: example_letter_def example_delivery_def letter_key_def delivery_key_def)

lemma example_keys: "key_texts list_env (5, uuid_1)" "key_texts list_env (7, uuid_2)"
  by (simp_all add: key_texts_def split_year.simps [of 1970 0] year_length_def)

lemma limit_one: "parse_limit (Some (JStr ''1'')) = Some 1"
  by code_simp

theorem dead_letter_pages_list_every_row_witness:
  "follow (\<lambda>c. getDeadLetters list_env example_replica (Some (JStr uuid_1)) (page_request [] ''1'' c)) 3 None
    = [example_letter uuid_2 uuid_1 7, example_letter uuid_1 uuid_1 5]"
  using dead_letter_pages_list_every_row [OF list_env_texts, of uuid_1 example_replica "''1''" 1 3] limit_one
  by (simp add: uuid_examples example_keys tenant_letters_def)

theorem history_pages_list_every_row_witness:
  "follow (\<lambda>c. getDeliveryHistory list_env example_replica (Some (JStr uuid_1))
      (page_request [(''status'', JStr ''SUCCEEDED'')] ''1'' c)) 3 None
    = [example_delivery uuid_1 uuid_1 SUCCEEDED 5]"
  using history_pages_list_every_row [OF list_env_texts, of uuid_1 example_replica "''1''" 1 3 "Some SUCCEEDED"] limit_one
  by (simp add: uuid_examples example_keys tenant_deliveries_def status_name_def)

section \<open>The summary\<close>

lemma foldl_counts:
  "distinct (map fst rows) \<Longrightarrow> foldl (\<lambda>c (s, n). c(s := n)) f rows =
    (\<lambda>s. case map_of rows s of None \<Rightarrow> f s | Some n \<Rightarrow> n)"
proof (induction rows arbitrary: f)
  case (Cons r rows)
  then show ?case by (cases r) (auto simp: fun_eq_iff map_of_eq_None_iff split: option.split, force)
qed simp

lemma counts_of_tenant:
  "foldl (\<lambda>c (s, n). c(s := n)) (\<lambda>_. 0) (countDeliveriesByStatus t d) st =
   length (filter (\<lambda>x. dl_status x = st) (filter (\<lambda>x. dl_tenantId x = t) (deliveries d)))"
proof -
  let ?own = "filter (\<lambda>x. dl_tenantId x = t) (deliveries d)"
  let ?present = "filter (\<lambda>s. \<exists>x \<in> set ?own. dl_status x = s) statuses"
  let ?n = "\<lambda>s. length (filter (\<lambda>x. dl_status x = s) ?own)"
  have rows: "countDeliveriesByStatus t d = map (\<lambda>s. (s, ?n s)) ?present"
    by (simp add: countDeliveriesByStatus_def Let_def)
  have "distinct statuses" by (simp add: statuses_def)
  then have "distinct (map fst (countDeliveriesByStatus t d))" by (simp add: rows comp_def)
  moreover have "map_of (map (\<lambda>s. (s, ?n s)) ss) st = (if st \<in> set ss then Some (?n st) else None)" for ss
    by (induction ss) auto
  moreover have "st \<in> set statuses" by (cases st) (simp_all add: statuses_def)
  ultimately show ?thesis
    by (subst foldl_counts) (auto simp: rows filter_empty_conv)
qed

lemma status_total: "sum_list (map (\<lambda>s. length (filter (\<lambda>x. dl_status x = s) xs)) statuses) = length xs"
proof (induction xs)
  case (Cons x xs)
  then show ?case by (cases "dl_status x") (simp_all add: statuses_def)
qed (simp add: statuses_def)

text \<open>Rounding to two decimals.\<close>

lemma round_percent:
  fixes a b :: nat
  assumes "a \<le> b" "0 < b"
  defines "r \<equiv> of_int \<lfloor>of_nat a / of_nat b * 10000 + 1 / 2 :: rat\<rfloor> / 100 :: rat"
  shows "0 \<le> r" "r \<le> 100" "\<bar>r - 100 * of_nat a / of_nat b\<bar> \<le> 1 / 200"
proof -
  let ?q = "of_nat a / of_nat b * 10000 + 1 / 2 :: rat"
  have q: "0 \<le> of_nat a / (of_nat b :: rat)" "of_nat a / (of_nat b :: rat) \<le> 1" using assms(1,2) by simp_all
  have f: "of_int \<lfloor>?q\<rfloor> \<le> ?q" "?q < of_int \<lfloor>?q\<rfloor> + 1" by linarith+
  have "0 \<le> \<lfloor>?q\<rfloor>" using q(1) by simp
  then show "0 \<le> r" by (simp add: r_def)
  have "?q < 10001" using q(2) by simp
  then have "\<lfloor>?q\<rfloor> < 10001" by linarith
  then have "\<lfloor>?q\<rfloor> \<le> 10000" by simp
  then have "(of_int \<lfloor>?q\<rfloor> :: rat) \<le> 10000" by linarith
  then show "r \<le> 100" by (simp add: r_def)
  have hundredth: "\<bar>z / 100 - 100 * x\<bar> \<le> 1 / 200" if "z \<le> x * 10000 + 1 / 2" "x * 10000 + 1 / 2 < z + 1" for x z :: rat
    using that by linarith
  show "\<bar>r - 100 * of_nat a / of_nat b\<bar> \<le> 1 / 200"
    unfolding r_def times_divide_eq_right [symmetric] by (rule hundredth [OF f])
qed

text \<open>The delivery summary counts every delivery of the tenant, under its status; the success rate is absent
  exactly when no delivery has ended, otherwise it lies between 0 and 100 and is within half a hundredth
  of the share of ended deliveries that succeeded.\<close>

theorem summary_counts_every_delivery:
  "let own = filter (\<lambda>x. dl_tenantId x = t) (deliveries d);
       n = (\<lambda>st. length (filter (\<lambda>x. dl_status x = st) own));
       s = summarizeDeliveries (countDeliveriesByStatus t d)
   in su_total s = length own \<and> su_counts s = n \<and> su_completed s = n SUCCEEDED + n DEAD_LETTERED
    \<and> (case su_successRatePercent s of
         None \<Rightarrow> su_completed s = 0
       | Some r \<Rightarrow> su_completed s > 0 \<and> 0 \<le> r \<and> r \<le> 100
           \<and> \<bar>r - 100 * of_nat (n SUCCEEDED) / of_nat (n SUCCEEDED + n DEAD_LETTERED)\<bar> \<le> 1 / 200)"
proof -
  let ?own = "filter (\<lambda>x. dl_tenantId x = t) (deliveries d)"
  let ?n = "\<lambda>st. length (filter (\<lambda>x. dl_status x = st) ?own)"
  have c: "foldl (\<lambda>c (s, n). c(s := n)) (\<lambda>_. 0) (countDeliveriesByStatus t d) = ?n"
    by (rule ext) (rule counts_of_tenant)
  note total = status_total [of ?own]
  show ?thesis
  proof (cases "?n SUCCEEDED + ?n DEAD_LETTERED = 0")
    case False
    then show ?thesis using round_percent [of "?n SUCCEEDED" "?n SUCCEEDED + ?n DEAD_LETTERED"]
      by (simp add: summarizeDeliveries_def c total Let_def del: filter_filter)
  qed (simp add: summarizeDeliveries_def c total Let_def del: filter_filter)
qed

end
