(* ===== verification/JsText.thy ===== *)
theory JsText
  imports JsNumber
begin

text \<open>
  The operations on strings that several components use: \<open>split\<close>, \<open>join\<close>, \<open>startsWith\<close>, \<open>includes\<close>,
  \<open>toLowerCase\<close> on ASCII, and the forms their regular expressions test.
\<close>

fun split_on :: "char \<Rightarrow> string \<Rightarrow> string list" where
  "split_on d [] = [[]]"
| "split_on d (c # cs) =
     (if c = d then [] # split_on d cs
      else (case split_on d cs of [] \<Rightarrow> [[c]] | p # ps \<Rightarrow> (c # p) # ps))"

fun join_with :: "string \<Rightarrow> string list \<Rightarrow> string" where
  "join_with d [] = []"
| "join_with d [p] = p"
| "join_with d (p # q # ps) = p @ d @ join_with d (q # ps)"

lemma split_on_not_Nil [simp]: "split_on d s \<noteq> []"
  by (induction s) (auto split: list.splits)

lemma split_on_absent: "d \<notin> set s \<Longrightarrow> split_on d s = [s]"
  by (induction s) auto

lemma join_split: "join_with [d] (split_on d s) = s"
proof (induction s)
  case (Cons c s)
  note IH = Cons
  obtain p ps where "split_on d s = p # ps" using split_on_not_Nil by (cases "split_on d s") auto
  with IH show ?case by (cases ps) auto
qed simp

definition lower_char :: "char \<Rightarrow> char" where
  "lower_char c = (let k = (of_char c :: nat) in if 65 \<le> k \<and> k < 91 then char_of (k + 32) else c)"

definition lower_text :: "string \<Rightarrow> string" where
  "lower_text s = map lower_char s"

definition starts_with :: "string \<Rightarrow> string \<Rightarrow> bool" where
  "starts_with p s \<longleftrightarrow> take (length p) s = p"

definition ends_with :: "string \<Rightarrow> string \<Rightarrow> bool" where
  "ends_with p s \<longleftrightarrow> length p \<le> length s \<and> drop (length s - length p) s = p"

fun includes_text :: "string \<Rightarrow> string \<Rightarrow> bool" where
  "includes_text t [] \<longleftrightarrow> t = []"
| "includes_text t (c # cs) \<longleftrightarrow> starts_with t (c # cs) \<or> includes_text t cs"

lemma starts_with_iff: "starts_with p s \<longleftrightarrow> (\<exists>r. s = p @ r)"
  unfolding starts_with_def by (metis append_eq_conv_conj append_take_drop_id)

lemma includes_text_iff: "includes_text t s \<longleftrightarrow> (\<exists>l r. s = l @ t @ r)"
proof (induction s)
  case (Cons c s)
  note IH = Cons.IH
  show ?case
  proof
    assume "includes_text t (c # s)"
    then consider r where "c # s = [] @ t @ r" | l r where "s = l @ t @ r"
      using Cons.IH by (auto simp: starts_with_iff)
    then show "\<exists>l r. c # s = l @ t @ r"
    proof cases
      case 2
      then have "c # s = (c # l) @ t @ r" by simp
      then show ?thesis by blast
    qed blast
  next
    assume "\<exists>l r. c # s = l @ t @ r"
    then obtain l r where "c # s = l @ t @ r" by blast
    show "includes_text t (c # s)"
    proof (cases l)
      case Nil
      then have "starts_with t (c # s)" using \<open>c # s = l @ t @ r\<close> by (auto simp: starts_with_iff)
      then show ?thesis by simp
    next
      case (Cons x l')
      then have "s = l' @ t @ r" using \<open>c # s = l @ t @ r\<close> by simp
      then have "includes_text t s" using IH by blast
      then show ?thesis by simp
    qed
  qed
qed auto

section \<open>Forms\<close>

definition is_hex :: "char \<Rightarrow> bool" where
  "is_hex c \<longleftrightarrow> is_digit c \<or> (97 \<le> (of_char c :: nat) \<and> (of_char c :: nat) < 103)"

text \<open>\<open>/^[a-f0-9]{8}-[a-f0-9]{4}-[a-f0-9]{4}-[a-f0-9]{4}-[a-f0-9]{12}$/i\<close>\<close>

definition uuid_form :: "string \<Rightarrow> bool" where
  "uuid_form s \<longleftrightarrow> map length (split_on CHR ''-'' s) = [8, 4, 4, 4, 12]
     \<and> list_all (\<lambda>p. list_all (\<lambda>c. is_hex (lower_char c)) p) (split_on CHR ''-'' s)"

text \<open>A path against a pattern of segments: \<open>None\<close> stands for \<open>[^/]+\<close>, letters match without regard to
  case, and one trailing slash is allowed.\<close>

definition path_matches :: "string option list \<Rightarrow> string \<Rightarrow> bool" where
  "path_matches pattern path =
     (let fits = list_all2 (\<lambda>p s. case p of Some t \<Rightarrow> lower_text s = lower_text t | None \<Rightarrow> s \<noteq> []) pattern
      in case split_on (CHR ''/'') path of
           [] # parts \<Rightarrow> fits parts \<or> (parts \<noteq> [] \<and> last parts = [] \<and> fits (butlast parts))
         | _ \<Rightarrow> False)"

end
