(* ===== verification/AuthState.thy ===== *)
theory AuthState
  imports ApiWorld Cursor JsText
begin

text \<open>
  The base of the API's authentication: tokens and cookies (\<open>packages/api/src/services/auth-tokens.ts\<close>), the
  configuration (\<open>auth-config.ts\<close>), the identity GitHub vouches for (\<open>github-auth.ts\<close>) and the stored users,
  sessions, sign-in attempts and keys (\<open>packages/api/src/repositories/auth.ts\<close>, \<open>api-keys.ts\<close>).

  \<^item> The digest, the random tokens, the \<open>URL\<close> class and the answers of GitHub are parameters.
  \<^item> A store operation is a function of the tables; other clients may change them before each call.
  \<^item> A date is the number of its milliseconds.
\<close>

section \<open>Errors, tables, environment\<close>

datatype auth_exn = AuthError nat string | AuthOther exn

record user =
  us_id :: string
  us_githubId :: string
  us_githubLogin :: string

record membership =
  mb_userId :: string
  mb_tenantId :: string

record auth_session =
  as_tokenHash :: string
  as_userId :: string
  as_csrfToken :: string
  as_expiresAt :: int

record oauth_login =
  ol_stateHash :: string
  ol_browserHash :: string
  ol_codeVerifier :: string
  ol_expiresAt :: int

record api_key =
  ak_id :: string
  ak_tenantId :: string
  ak_createdByUserId :: string
  ak_name :: string
  ak_tokenHash :: string
  ak_expiresAt :: int
  ak_revokedAt :: "int option"
  ak_createdAt :: int

record auth_db =
  users :: "user list"
  memberships :: "membership list"
  auth_sessions :: "auth_session list"
  oauth_logins :: "oauth_login list"
  api_keys :: "api_key list"
  auth_tenants :: "tenant list"

record auth_world =
  au_now :: int
  au_db :: auth_db

datatype auth_site =
  FindSession | CreateLogin | ConsumeLogin | CreateSession | DeleteSession
| CreateKey | FindKey | ListKeys | RevokeKey

record url_parts =
  url_protocol :: string
  url_hostname :: string
  url_username :: string
  url_password :: string
  url_pathname :: string
  url_search :: string
  url_hash :: string
  url_origin :: string

record auth_env =
  sha256 :: "string \<Rightarrow> string"
  random_token :: "nat \<Rightarrow> string"
  new_uuid :: string
  valid_uuid :: "string \<Rightarrow> bool"
  parse_url :: "string \<Rightarrow> url_parts option"
  github_token :: "string \<Rightarrow> string \<Rightarrow> exn + bool \<times> json"
  github_user :: "string \<Rightarrow> exn + bool \<times> json"
  auth_outcome :: "auth_site \<Rightarrow> exn outcome"
  auth_elapse :: "auth_site \<Rightarrow> nat"
  auth_meanwhile :: "auth_site \<Rightarrow> auth_db \<Rightarrow> auth_db"

type_synonym 'a auth = "(auth_exn, auth_world, 'a) io"

definition auth_call :: "auth_env \<Rightarrow> auth_site \<Rightarrow> 'a auth \<Rightarrow> 'a auth" where
  "auth_call env c m =
     andThen (modify (\<lambda>w. w\<lparr>au_now := au_now w + int (auth_elapse env c), au_db := auth_meanwhile env c (au_db w)\<rparr>)) (\<lambda>_.
       external (case auth_outcome env c of Completes \<Rightarrow> Completes
                 | Refused e \<Rightarrow> Refused (AuthOther e) | Unconfirmed e \<Rightarrow> Unconfirmed (AuthOther e)) m)"

section \<open>Tokens and cookies\<close>

definition tokenHash :: "auth_env \<Rightarrow> string \<Rightarrow> string" where
  "tokenHash env v = sha256 env v"

definition token_chars :: "string \<Rightarrow> bool" where
  "token_chars s \<longleftrightarrow> length s = 43 \<and> list_all (\<lambda>c. base64_value c \<noteq> None) s"

definition validToken :: "string option \<Rightarrow> bool" where
  "validToken v = (case v of None \<Rightarrow> False | Some s \<Rightarrow> token_chars s)"

definition tokensEqual :: "auth_env \<Rightarrow> string \<Rightarrow> string \<Rightarrow> bool" where
  "tokensEqual env l r \<longleftrightarrow> tokenHash env l = tokenHash env r"

definition cookieToken :: "string option \<Rightarrow> string \<Rightarrow> string option" where
  "cookieToken header name =
     (let parts = map js_trim (split_on (CHR '';'') (case header of None \<Rightarrow> [] | Some h \<Rightarrow> h));
          vals = map (drop (length name + 1)) (filter (\<lambda>p. take (length name + 1) p = name @ ''='') parts)
      in case vals of [v] \<Rightarrow> if token_chars v then Some v else None | _ \<Rightarrow> None)"

record cookie_names =
  cn_session :: string
  cn_oauth :: string

definition cookieNames :: "bool \<Rightarrow> cookie_names" where
  "cookieNames secure = \<lparr>cn_session = (if secure then ''__Host-waybill-session'' else ''waybill-session''),
     cn_oauth = (if secure then ''__Host-waybill-oauth'' else ''waybill-oauth'')\<rparr>"

section \<open>Configuration\<close>

record session_settings =
  apiOrigin :: string
  webOrigin :: string
  secure :: bool
  clientId :: string
  clientSecret :: string

datatype auth_config = Development | Session session_settings

definition required_setting :: "(string \<Rightarrow> string option) \<Rightarrow> string \<Rightarrow> exn + string" where
  "required_setting vars name =
     (let v = (case vars name of None \<Rightarrow> [] | Some s \<Rightarrow> js_trim s)
      in if v = [] then Inl (Error (''Missing authentication setting: '' @ name)) else Inr v)"

definition origin_setting :: "auth_env \<Rightarrow> bool \<Rightarrow> (string \<Rightarrow> string option) \<Rightarrow> string \<Rightarrow> exn + string" where
  "origin_setting env production vars name =
     (case required_setting vars name of Inl e \<Rightarrow> Inl e
      | Inr v \<Rightarrow>
          (case parse_url env v of None \<Rightarrow> Inl (Error (''Invalid authentication origin: '' @ name))
           | Some u \<Rightarrow>
               let localHttp = (\<not> production \<and> url_protocol u = ''http:'' \<and> url_hostname u \<in> {''localhost'', ''127.0.0.1'', ''[::1]''})
               in if (\<not> localHttp \<and> url_protocol u \<noteq> ''https:'') \<or> url_username u \<noteq> [] \<or> url_password u \<noteq> []
                    \<or> url_pathname u \<noteq> ''/'' \<or> url_search u \<noteq> [] \<or> url_hash u \<noteq> []
                  then Inl (Error (''Use an HTTPS origin or a development loopback origin for '' @ name))
                  else Inr (url_origin u)))"

definition protocol_of :: "auth_env \<Rightarrow> string \<Rightarrow> string option" where
  "protocol_of env v = map_option url_protocol (parse_url env v)"

definition authConfig :: "auth_env \<Rightarrow> (string \<Rightarrow> string option) \<Rightarrow> exn + auth_config" where
  "authConfig env vars =
     (let production = (vars ''NODE_ENV'' = Some ''production'');
          mode = (case vars ''API_AUTH_MODE'' of Some m \<Rightarrow> m | None \<Rightarrow> if production then ''session'' else ''development'')
      in if mode = ''development''
         then if production then Inl (Error ''Development authentication bypass is forbidden in production'')
              else Inr Development
         else if mode \<noteq> ''session'' then Inl (Error ''API_AUTH_MODE must be development or session'')
         else (case (origin_setting env production vars ''AUTH_API_ORIGIN'', origin_setting env production vars ''AUTH_WEB_ORIGIN'') of
                 (Inl e, _) \<Rightarrow> Inl e
               | (Inr _, Inl e) \<Rightarrow> Inl e
               | (Inr api, Inr web) \<Rightarrow>
                   if protocol_of env api \<noteq> protocol_of env web
                   then Inl (Error ''Authentication origins must use the same scheme'')
                   else (case (required_setting vars ''GITHUB_CLIENT_ID'', required_setting vars ''GITHUB_CLIENT_SECRET'') of
                           (Inl e, _) \<Rightarrow> Inl e
                         | (Inr _, Inl e) \<Rightarrow> Inl e
                         | (Inr cid, Inr cs) \<Rightarrow>
                             Inr (Session \<lparr>apiOrigin = api, webOrigin = web, secure = (take 6 api = ''https:''),
                               clientId = cid, clientSecret = cs\<rparr>))))"

section \<open>The identity\<close>

record identity =
  id_githubId :: string
  id_githubLogin :: string

definition access_token_of :: "json \<Rightarrow> string option" where
  "access_token_of v =
     (case v of
        JObj ms \<Rightarrow>
          (case (map_of ms ''access_token'', map_of ms ''token_type'') of
             (Some (JStr t), Some (JStr ty)) \<Rightarrow> if t \<noteq> [] \<and> map lower_char ty = ''bearer'' then Some t else None
           | _ \<Rightarrow> None)
      | _ \<Rightarrow> None)"

definition identity_of :: "json \<Rightarrow> identity option" where
  "identity_of v =
     (case v of
        JObj ms \<Rightarrow>
          (case (map_of ms ''id'', map_of ms ''login'') of
             (Some (JNum n), Some (JStr l)) \<Rightarrow>
               if js_isSafeInteger n \<and> js_lt (Num 0) n \<and> 1 \<le> length l \<and> length l \<le> 100
               then Some \<lparr>id_githubId = js_String n, id_githubLogin = l\<rparr> else None
           | _ \<Rightarrow> None)
      | _ \<Rightarrow> None)"

definition githubIdentity :: "auth_env \<Rightarrow> string \<Rightarrow> string \<Rightarrow> exn + identity" where
  "githubIdentity env code verifier =
     (case github_token env code verifier of
        Inl e \<Rightarrow> Inl e
      | Inr (ok, answer) \<Rightarrow>
          if \<not> ok then Inl (Error ''GitHub token exchange failed'')
          else (case access_token_of answer of
                  None \<Rightarrow> Inl (Error ''ZodError'')
                | Some t \<Rightarrow>
                    (case github_user env t of
                       Inl e \<Rightarrow> Inl e
                     | Inr (ok', user) \<Rightarrow>
                         if \<not> ok' then Inl (Error ''GitHub identity lookup failed'')
                         else (case identity_of user of None \<Rightarrow> Inl (Error ''ZodError'') | Some i \<Rightarrow> Inr i))))"

section \<open>The store\<close>

definition createLogin :: "oauth_login \<Rightarrow> int \<Rightarrow> auth_db \<Rightarrow> exn + unit \<times> auth_db" where
  "createLogin input t d =
     (let kept = filter (\<lambda>l. \<not> ol_expiresAt l \<le> t) (oauth_logins d)
      in if ol_stateHash input \<in> ol_stateHash ` set kept then Inl (Error ''Unique constraint failed'')
         else Inr ((), d\<lparr>oauth_logins := kept @ [input]\<rparr>))"

text \<open>\<open>consumeLogin\<close> reads the attempt and then deletes it; \<open>attempt_matches\<close> is the condition of both.\<close>

definition attempt_matches :: "string \<Rightarrow> string \<Rightarrow> int \<Rightarrow> oauth_login \<Rightarrow> bool" where
  "attempt_matches stateHash browserHash t l \<longleftrightarrow>
     ol_stateHash l = stateHash \<and> ol_browserHash l = browserHash \<and> t < ol_expiresAt l"

definition readLogin :: "string \<Rightarrow> string \<Rightarrow> int \<Rightarrow> auth_db \<Rightarrow> oauth_login option" where
  "readLogin stateHash browserHash t d =
     (case find (\<lambda>l. ol_stateHash l = stateHash) (oauth_logins d) of
        None \<Rightarrow> None
      | Some row \<Rightarrow> if ol_browserHash row \<noteq> browserHash \<or> ol_expiresAt row \<le> t then None else Some row)"

definition deleteLogin :: "string \<Rightarrow> string \<Rightarrow> int \<Rightarrow> auth_db \<Rightarrow> nat \<times> auth_db" where
  "deleteLogin stateHash browserHash t d =
     (let hit = attempt_matches stateHash browserHash t
      in (length (filter hit (oauth_logins d)), d\<lparr>oauth_logins := filter (\<lambda>l. \<not> hit l) (oauth_logins d)\<rparr>))"

definition consumeLogin :: "string \<Rightarrow> string \<Rightarrow> int \<Rightarrow> auth_db \<Rightarrow> oauth_login option \<times> auth_db" where
  "consumeLogin stateHash browserHash t d =
     (case readLogin stateHash browserHash t d of
        None \<Rightarrow> (None, d)
      | Some row \<Rightarrow> (case deleteLogin stateHash browserHash t d of (n, d') \<Rightarrow> (if n = 1 then Some row else None, d')))"

definition upsertUser :: "string \<Rightarrow> identity \<Rightarrow> auth_db \<Rightarrow> user \<times> auth_db" where
  "upsertUser i ident d =
     (case find (\<lambda>u. us_githubId u = id_githubId ident) (users d) of
        Some u \<Rightarrow> (u\<lparr>us_githubLogin := id_githubLogin ident\<rparr>,
          d\<lparr>users := map (\<lambda>v. if us_githubId v = id_githubId ident then v\<lparr>us_githubLogin := id_githubLogin ident\<rparr> else v) (users d)\<rparr>)
      | None \<Rightarrow> (let u = \<lparr>us_id = i, us_githubId = id_githubId ident, us_githubLogin = id_githubLogin ident\<rparr>
                 in (u, d\<lparr>users := users d @ [u]\<rparr>)))"

definition createSession ::
  "string \<Rightarrow> identity \<Rightarrow> string \<Rightarrow> string \<Rightarrow> int \<Rightarrow> string option \<Rightarrow> int \<Rightarrow> auth_db \<Rightarrow> exn + unit \<times> auth_db" where
  "createSession i ident hash csrf expires previous t d =
     (let (u, d) = upsertUser i ident d;
          kept = filter (\<lambda>s. \<not> (as_expiresAt s \<le> t \<or> Some (as_tokenHash s) = previous)) (auth_sessions d)
      in if hash \<in> as_tokenHash ` set kept then Inl (Error ''Unique constraint failed'')
         else Inr ((), d\<lparr>auth_sessions := kept @ [\<lparr>as_tokenHash = hash, as_userId = us_id u, as_csrfToken = csrf, as_expiresAt = expires\<rparr>]\<rparr>))"

record current_session =
  cs_tokenHash :: string
  cs_csrfToken :: string
  cs_expiresAt :: int
  cs_user :: user
  cs_tenants :: "(string \<times> string) list"

definition tenants_of_user :: "string \<Rightarrow> auth_db \<Rightarrow> (string \<times> string) list" where
  "tenants_of_user userId d =
     sort_key fst (concat (map (\<lambda>m. if mb_userId m = userId
        then (case find (\<lambda>t. tn_id t = mb_tenantId m) (auth_tenants d) of None \<Rightarrow> [] | Some t \<Rightarrow> [(tn_id t, tn_name t)])
        else []) (memberships d)))"

definition findSession :: "string \<Rightarrow> int \<Rightarrow> auth_db \<Rightarrow> current_session option" where
  "findSession hash t d =
     (case find (\<lambda>s. as_tokenHash s = hash \<and> t < as_expiresAt s) (auth_sessions d) of
        None \<Rightarrow> None
      | Some s \<Rightarrow>
          (case find (\<lambda>u. us_id u = as_userId s) (users d) of
             None \<Rightarrow> None
           | Some u \<Rightarrow> Some \<lparr>cs_tokenHash = as_tokenHash s, cs_csrfToken = as_csrfToken s, cs_expiresAt = as_expiresAt s,
               cs_user = u, cs_tenants = tenants_of_user (us_id u) d\<rparr>))"

definition deleteSession :: "string \<Rightarrow> auth_db \<Rightarrow> auth_db" where
  "deleteSession hash d = d\<lparr>auth_sessions := filter (\<lambda>s. as_tokenHash s \<noteq> hash) (auth_sessions d)\<rparr>"

definition createKey :: "api_key \<Rightarrow> auth_db \<Rightarrow> exn + api_key \<times> auth_db" where
  "createKey k d =
     (if \<exists>x \<in> set (api_keys d). ak_id x = ak_id k \<or> ak_tokenHash x = ak_tokenHash k then Inl (Error ''Unique constraint failed'')
      else if \<not> (\<exists>m \<in> set (memberships d). mb_userId m = ak_createdByUserId k \<and> mb_tenantId m = ak_tenantId k)
      then Inl (Error ''Foreign key constraint violated'')
      else Inr (k, d\<lparr>api_keys := api_keys d @ [k]\<rparr>))"

definition findKey :: "string \<Rightarrow> auth_db \<Rightarrow> api_key option" where
  "findKey i d = find (\<lambda>k. ak_id k = i) (api_keys d)"

definition key_order :: "api_key \<Rightarrow> int \<times> string" where
  "key_order k = (ak_createdAt k, ak_id k)"

text \<open>The cursor of the key list is a row of the tenant; \<open>skip: 1\<close> leaves out the row itself.\<close>

definition listKeys :: "string \<Rightarrow> nat \<Rightarrow> string option \<Rightarrow> auth_db \<Rightarrow> api_key list option" where
  "listKeys tenantId n cursor d =
     (let rows = rev (sort_key key_order (filter (\<lambda>k. ak_tenantId k = tenantId) (api_keys d)))
      in case cursor of
           None \<Rightarrow> Some (take (n + 1) rows)
         | Some i \<Rightarrow>
             if find (\<lambda>k. ak_id k = i \<and> ak_tenantId k = tenantId) (api_keys d) = None then None
             else Some (take (n + 1) (drop 1 (dropWhile (\<lambda>k. ak_id k \<noteq> i) rows))))"

definition revokeKey :: "string \<Rightarrow> string \<Rightarrow> int \<Rightarrow> auth_db \<Rightarrow> api_key option \<times> auth_db" where
  "revokeKey tenantId i t d =
     (let d' = d\<lparr>api_keys := map (\<lambda>k. if ak_tenantId k = tenantId \<and> ak_id k = i \<and> ak_revokedAt k = None
                                     then k\<lparr>ak_revokedAt := Some t\<rparr> else k) (api_keys d)\<rparr>
      in (find (\<lambda>k. ak_tenantId k = tenantId \<and> ak_id k = i) (api_keys d'), d'))"

end
