(* ===== verification/Auth.thy ===== *)
theory Auth
  imports AuthState
begin

text \<open>
  Signing in, the authorization of requests, and API keys (\<open>packages/api/src/services/auth.ts\<close>,
  \<open>api-keys.ts\<close>, \<open>middleware/auth.ts\<close>, \<open>controllers/auth.ts\<close>).
\<close>

section \<open>The authentication service\<close>

definition SESSION_SECONDS :: int where "SESSION_SECONDS = 7 * 24 * 60 * 60"
definition LOGIN_SECONDS :: int where "LOGIN_SECONDS = 5 * 60"

definition enabled :: "auth_config \<Rightarrow> session_settings auth" where
  "enabled config =
     (case config of Session settings \<Rightarrow> ret settings
      | Development \<Rightarrow> throw (AuthError 503 ''GitHub sign-in is not enabled''))"

definition currentSession :: "auth_env \<Rightarrow> auth_config \<Rightarrow> string option \<Rightarrow> current_session auth" where
  "currentSession env config cookie =
     andThen (enabled config) (\<lambda>settings.
       case cookieToken cookie (cn_session (cookieNames (secure settings))) of
         None \<Rightarrow> throw (AuthError 401 ''Sign in required'')
       | Some token \<Rightarrow>
           andThen (reading au_now) (\<lambda>t.
           andThen (auth_call env FindSession (reading (\<lambda>w. findSession (tokenHash env token) t (au_db w)))) (\<lambda>result.
             case result of None \<Rightarrow> throw (AuthError 401 ''Session expired or revoked'') | Some s \<Rightarrow> ret s)))"

definition csrf :: "auth_env \<Rightarrow> auth_config \<Rightarrow> current_session \<Rightarrow> string option \<Rightarrow> string option \<Rightarrow> unit auth" where
  "csrf env config current origin token =
     andThen (enabled config) (\<lambda>settings.
       if origin \<noteq> Some (webOrigin settings) \<or> \<not> validToken token \<or> \<not> tokensEqual env (cs_csrfToken current) (the token)
       then throw (AuthError 403 ''Invalid request origin or CSRF token'') else ret ())"

record sign_in =
  si_url :: "(string \<times> string) list"
  si_browser :: string

text \<open>The parameters of the authorization URL; the challenge is the digest's bytes in \<open>base64url\<close>.\<close>

definition begin_login :: "auth_env \<Rightarrow> auth_config \<Rightarrow> sign_in auth" where
  "begin_login env config =
     andThen (enabled config) (\<lambda>settings.
     let stateToken = random_token env 0; browser = random_token env 1; verifier = random_token env 2 in
     andThen (reading au_now) (\<lambda>t.
     andThen (auth_call env CreateLogin
       (\<lambda>w. case createLogin \<lparr>ol_stateHash = tokenHash env stateToken, ol_browserHash = tokenHash env browser,
               ol_codeVerifier = verifier, ol_expiresAt = t + LOGIN_SECONDS * 1000\<rparr> (au_now w) (au_db w) of
              Inl e \<Rightarrow> (Inl (AuthOther e), w) | Inr (_, d) \<Rightarrow> (Inr (), w\<lparr>au_db := d\<rparr>))) (\<lambda>_.
     ret \<lparr>si_url = [(''client_id'', clientId settings), (''redirect_uri'', apiOrigin settings @ ''/auth/github/callback''),
            (''state'', stateToken), (''code_challenge'', base64url_encode (from_hex (tokenHash env verifier))),
            (''code_challenge_method'', ''S256''), (''scope'', '''')], si_browser = browser\<rparr>)))"

definition callback_query :: "json \<Rightarrow> (string \<times> string) option" where
  "callback_query q =
     (case q of
        JObj ms \<Rightarrow>
          (case (map_of ms ''state'', map_of ms ''code'') of
             (Some (JStr s), Some (JStr c)) \<Rightarrow> if token_chars s \<and> 1 \<le> length c \<and> length c \<le> 1024 then Some (s, c) else None
           | _ \<Rightarrow> None)
      | _ \<Rightarrow> None)"

definition complete_login :: "auth_env \<Rightarrow> auth_config \<Rightarrow> json \<Rightarrow> string option \<Rightarrow> string auth" where
  "complete_login env config query cookie =
     andThen (enabled config) (\<lambda>settings.
       case (callback_query query, cookieToken cookie (cn_oauth (cookieNames (secure settings)))) of
         (Some (stateToken, code), Some browser) \<Rightarrow>
           andThen (reading au_now) (\<lambda>t.
           andThen (auth_call env ConsumeLogin
             (\<lambda>w. case consumeLogin (tokenHash env stateToken) (tokenHash env browser) t (au_db w) of
                    (r, d) \<Rightarrow> (Inr r, w\<lparr>au_db := d\<rparr>))) (\<lambda>attempt.
             case attempt of
               None \<Rightarrow> throw (AuthError 400 ''Sign-in request expired or already used'')
             | Some row \<Rightarrow>
                 (case githubIdentity env code (ol_codeVerifier row) of
                    Inl e \<Rightarrow> throw (AuthError 502 ''GitHub sign-in failed; start again'')
                  | Inr ident \<Rightarrow>
                      let token = random_token env 0;
                          previous = map_option (tokenHash env) (cookieToken cookie (cn_session (cookieNames (secure settings))))
                      in andThen (reading au_now) (\<lambda>t'.
                         andThen (auth_call env CreateSession
                           (\<lambda>w. case createSession (new_uuid env) ident (tokenHash env token) (random_token env 1)
                                    (t' + SESSION_SECONDS * 1000) previous (au_now w) (au_db w) of
                                  Inl e \<Rightarrow> (Inl (AuthOther e), w) | Inr (_, d) \<Rightarrow> (Inr (), w\<lparr>au_db := d\<rparr>))) (\<lambda>_.
                         ret token)))))
       | _ \<Rightarrow> throw (AuthError 400 ''Invalid or denied GitHub callback''))"

definition uuid_param :: "auth_env \<Rightarrow> json option \<Rightarrow> string option" where
  "uuid_param env v = (case v of Some (JStr s) \<Rightarrow> if valid_uuid env s then Some s else None | _ \<Rightarrow> None)"

definition safe_method :: "string \<Rightarrow> bool" where
  "safe_method m \<longleftrightarrow> m \<in> {''GET'', ''HEAD'', ''OPTIONS''}"

definition authorize ::
  "auth_env \<Rightarrow> auth_config \<Rightarrow> string option \<Rightarrow> json option \<Rightarrow> string \<Rightarrow> string option \<Rightarrow> string option \<Rightarrow> current_session auth" where
  "authorize env config cookie tenantId meth origin csrfToken =
     andThen (currentSession env config cookie) (\<lambda>current.
     andThen (if safe_method meth then ret () else csrf env config current origin csrfToken) (\<lambda>_.
       case uuid_param env tenantId of
         None \<Rightarrow> throw (AuthError 400 ''Invalid tenant ID'')
       | Some t \<Rightarrow> if t \<notin> fst ` set (cs_tenants current) then throw (AuthError 404 ''Tenant not found'') else ret current))"

record me =
  me_user :: user
  me_tenants :: "(string \<times> string) list"
  me_csrfToken :: string
  me_expiresAt :: int

definition me :: "auth_env \<Rightarrow> auth_config \<Rightarrow> string option \<Rightarrow> me auth" where
  "me env config cookie =
     andThen (currentSession env config cookie) (\<lambda>current.
       ret \<lparr>me_user = cs_user current, me_tenants = cs_tenants current, me_csrfToken = cs_csrfToken current,
            me_expiresAt = cs_expiresAt current\<rparr>)"

definition logout :: "auth_env \<Rightarrow> auth_config \<Rightarrow> string option \<Rightarrow> string option \<Rightarrow> string option \<Rightarrow> unit auth" where
  "logout env config cookie origin token =
     andThen (currentSession env config cookie) (\<lambda>current.
     andThen (csrf env config current origin token) (\<lambda>_.
     auth_call env DeleteSession (modify (\<lambda>w. w\<lparr>au_db := deleteSession (cs_tokenHash current) (au_db w)\<rparr>))))"

section \<open>API keys\<close>

definition INGESTION_SCOPE :: string where "INGESTION_SCOPE = ''events:write''"

text \<open>The pattern of the header, read without regard to case.\<close>

definition hex_char :: "char \<Rightarrow> bool" where
  "hex_char c \<longleftrightarrow> (let k = (of_char c :: nat) in 48 \<le> k \<and> k < 58 \<or> 97 \<le> k \<and> k < 103)"

definition uuid_shape :: "string \<Rightarrow> bool" where
  "uuid_shape s \<longleftrightarrow> length s = 36
     \<and> (\<forall>i < 36. if i \<in> {8, 13, 18, 23} then s ! i = CHR ''-'' else hex_char (lower_char (s ! i)))"

definition bearer_match :: "string \<Rightarrow> (string \<times> string) option" where
  "bearer_match header =
     (let token = drop 7 header; key = take 36 (drop 3 token); secret = drop 40 token
      in if map lower_char (take 7 header) = ''bearer '' \<and> map lower_char (take 3 token) = ''wb_'' \<and> uuid_shape key
            \<and> take 1 (drop 39 token) = ''.'' \<and> token_chars secret
         then Some (token, key) else None)"

definition hash_text :: "string \<Rightarrow> bool" where
  "hash_text s \<longleftrightarrow> length s = 64 \<and> list_all hex_char s"

definition keyAuthorize :: "auth_env \<Rightarrow> string \<Rightarrow> json option \<Rightarrow> unit auth" where
  "keyAuthorize env header tenantId =
     (case bearer_match header of
        None \<Rightarrow> throw (AuthError 401 ''Invalid API key'')
      | Some (token, i) \<Rightarrow>
          andThen (auth_call env FindKey (reading (\<lambda>w. findKey i (au_db w)))) (\<lambda>found.
          andThen (reading au_now) (\<lambda>t.
            case found of
              None \<Rightarrow> throw (AuthError 401 ''Invalid or expired API key'')
            | Some key \<Rightarrow>
                if ak_revokedAt key \<noteq> None \<or> ak_expiresAt key \<le> t \<or> \<not> hash_text (ak_tokenHash key)
                   \<or> tokenHash env token \<noteq> ak_tokenHash key
                then throw (AuthError 401 ''Invalid or expired API key'')
                else (case uuid_param env tenantId of
                        None \<Rightarrow> throw (AuthError 400 ''Invalid tenant ID'')
                      | Some x \<Rightarrow> if x \<noteq> ak_tenantId key then throw (AuthError 404 ''Tenant not found'') else ret ()))))"

definition issue_input :: "json \<Rightarrow> (string \<times> int) option" where
  "issue_input v =
     (case v of
        JObj ms \<Rightarrow>
          if \<not> list_all (\<lambda>m. fst m \<in> {''name'', ''expiresInDays''}) ms then None
          else (case (map_of ms ''name'', case map_of ms ''expiresInDays'' of None \<Rightarrow> JNum (Num 90) | Some x \<Rightarrow> x) of
                  (Some (JStr s), JNum (Num q)) \<Rightarrow>
                    if 1 \<le> length (js_trim s) \<and> length (js_trim s) \<le> 80 \<and> q = of_int \<lfloor>q\<rfloor> \<and> 1 \<le> q \<and> q \<le> 365
                    then Some (js_trim s, \<lfloor>q\<rfloor>) else None
                | _ \<Rightarrow> None)
      | _ \<Rightarrow> None)"

definition issueKey ::
  "auth_env \<Rightarrow> auth_config \<Rightarrow> string option \<Rightarrow> string \<Rightarrow> string option \<Rightarrow> string option \<Rightarrow> json \<Rightarrow> (api_key \<times> string \<times> string) auth" where
  "issueKey env config cookie tenantId origin csrfToken input =
     andThen (authorize env config cookie (Some (JStr tenantId)) ''POST'' origin csrfToken) (\<lambda>session.
       case issue_input input of
         None \<Rightarrow> throw (AuthError 400 ''Supply a key name and an optional expiry of 1 to 365 days'')
       | Some (name, days) \<Rightarrow>
           let i = new_uuid env; token = ''wb_'' @ i @ ''.'' @ random_token env 0 in
           andThen (reading au_now) (\<lambda>t.
           andThen (auth_call env CreateKey
             (\<lambda>w. case createKey \<lparr>ak_id = i, ak_tenantId = tenantId, ak_createdByUserId = us_id (cs_user session), ak_name = name,
                     ak_tokenHash = tokenHash env token, ak_expiresAt = t + days * 86400000, ak_revokedAt = None,
                     ak_createdAt = au_now w\<rparr> (au_db w) of
                    Inl e \<Rightarrow> (Inl (AuthOther e), w) | Inr (k, d) \<Rightarrow> (Inr k, w\<lparr>au_db := d\<rparr>))) (\<lambda>key.
           ret (key, INGESTION_SCOPE, token))))"

text \<open>\<open>z.coerce.number()\<close> on the values a query can hold.\<close>

fun coerce_number :: "json \<Rightarrow> jsnum" where
  "coerce_number (JStr s) = js_Number s"
| "coerce_number (JArr []) = Num 0"
| "coerce_number (JArr [JNull]) = Num 0"
| "coerce_number (JArr [v]) = (case v of JStr s \<Rightarrow> js_Number s | JArr vs \<Rightarrow> coerce_number (JArr vs) | _ \<Rightarrow> NaN)"
| "coerce_number (JArr vs) = NaN"
| "coerce_number v = NaN"

definition key_list_query :: "auth_env \<Rightarrow> json \<Rightarrow> (nat \<times> string option) option" where
  "key_list_query env v =
     (case v of
        JObj ms \<Rightarrow>
          if \<not> list_all (\<lambda>m. fst m \<in> {''limit'', ''cursor''}) ms then None
          else (case (case map_of ms ''limit'' of None \<Rightarrow> Num 20 | Some x \<Rightarrow> coerce_number x) of
                  Num q \<Rightarrow>
                    if q = of_int \<lfloor>q\<rfloor> \<and> 1 \<le> q \<and> q \<le> 100
                    then (case map_of ms ''cursor'' of
                            None \<Rightarrow> Some (nat \<lfloor>q\<rfloor>, None)
                          | Some (JStr s) \<Rightarrow> if valid_uuid env s then Some (nat \<lfloor>q\<rfloor>, Some s) else None
                          | _ \<Rightarrow> None)
                    else None
                | _ \<Rightarrow> None)
      | _ \<Rightarrow> None)"

definition listApiKeys ::
  "auth_env \<Rightarrow> auth_config \<Rightarrow> string option \<Rightarrow> string \<Rightarrow> json \<Rightarrow> api_key page_result auth" where
  "listApiKeys env config cookie tenantId query =
     andThen (authorize env config cookie (Some (JStr tenantId)) ''GET'' None None) (\<lambda>_.
       case key_list_query env query of
         None \<Rightarrow> throw (AuthError 400 ''Invalid API key list query'')
       | Some (n, cursor) \<Rightarrow>
           andThen (auth_call env ListKeys (reading (\<lambda>w. listKeys tenantId n cursor (au_db w)))) (\<lambda>rows.
             case rows of
               None \<Rightarrow> throw (AuthError 400 ''Invalid API key cursor'')
             | Some ks \<Rightarrow> ret \<lparr>pr_items = take n ks,
                 pr_nextCursor = (if n < length ks then Some (ak_id (last (take n ks))) else None)\<rparr>))"

definition revokeApiKey ::
  "auth_env \<Rightarrow> auth_config \<Rightarrow> string option \<Rightarrow> string \<Rightarrow> string \<Rightarrow> string option \<Rightarrow> string option \<Rightarrow> api_key auth" where
  "revokeApiKey env config cookie tenantId i origin csrfToken =
     andThen (authorize env config cookie (Some (JStr tenantId)) ''POST'' origin csrfToken) (\<lambda>_.
       if \<not> valid_uuid env i then throw (AuthError 400 ''Invalid API key ID'')
       else andThen (reading au_now) (\<lambda>t.
         andThen (auth_call env RevokeKey (\<lambda>w. case revokeKey tenantId i t (au_db w) of (r, d) \<Rightarrow> (Inr r, w\<lparr>au_db := d\<rparr>))) (\<lambda>key.
           case key of None \<Rightarrow> throw (AuthError 404 ''API key not found'') | Some k \<Rightarrow> ret k)))"

section \<open>The middleware\<close>

record request =
  rq_method :: string
  rq_origin :: "string option"
  rq_cookie :: "string option"
  rq_csrf :: "string option"
  rq_authorization :: "string option"
  rq_body_tenantId :: "json option"
  rq_path_tenantId :: "json option"

datatype cors = CorsNext "(string \<times> string) list" | CorsEnd nat "(string \<times> string) list"

definition authCors :: "auth_config \<Rightarrow> request \<Rightarrow> cors" where
  "authCors config rq =
     (case config of
        Development \<Rightarrow> CorsNext []
      | Session settings \<Rightarrow>
          if rq_origin rq = Some (webOrigin settings)
          then (let allow = [(''Vary'', ''Origin''), (''Access-Control-Allow-Origin'', webOrigin settings),
                             (''Access-Control-Allow-Credentials'', ''true'')]
                in if rq_method rq = ''OPTIONS''
                   then CorsEnd 204 (allow @ [(''Access-Control-Allow-Methods'', ''GET, HEAD, POST, OPTIONS''),
                          (''Access-Control-Allow-Headers'', ''Content-Type, X-CSRF-Token, Idempotency-Key''),
                          (''Access-Control-Max-Age'', ''600'')])
                   else CorsNext allow)
          else if rq_method rq = ''OPTIONS'' then CorsEnd 403 [(''Vary'', ''Origin'')]
          else CorsNext [(''Vary'', ''Origin'')])"

text \<open>The guard of a route: it returns when the request may go on.\<close>

definition guard :: "auth_env \<Rightarrow> auth_config \<Rightarrow> bool \<Rightarrow> request \<Rightarrow> unit auth" where
  "guard env config fromBody rq =
     (case config of
        Development \<Rightarrow> ret ()
      | Session _ \<Rightarrow>
          (case rq_authorization rq of
             None \<Rightarrow> andThen (authorize env config (rq_cookie rq) (if fromBody then rq_body_tenantId rq else rq_path_tenantId rq)
                       (rq_method rq) (rq_origin rq) (rq_csrf rq)) (\<lambda>_. ret ())
           | Some header \<Rightarrow>
               if fromBody then keyAuthorize env header (rq_body_tenantId rq)
               else throw (AuthError 401 ''API keys are restricted to event ingestion'')))"

definition authFailure :: "auth_exn \<Rightarrow> response" where
  "authFailure e = (case e of AuthError n m \<Rightarrow> error_response n m
     | AuthOther _ \<Rightarrow> error_response 503 ''Authentication is temporarily unavailable'')"

end
