(* ===== verification/AuthProps.thy ===== *)
theory AuthProps
  imports Auth
begin

text \<open>
  What the authentication guarantees: which requests the guard admits, that a sign-in attempt is used
  once however callbacks interleave, that an issued key is accepted until it is revoked or expires, and
  that a production configuration is a secure one.
\<close>

section \<open>Successful calls\<close>

lemma auth_call_reading:
  assumes "auth_call env c (reading f) w = (Inr x, w')"
  shows "x = f w'" "au_now w \<le> au_now w'"
  using assms by (auto simp: auth_call_def andThen_def modify_def reading_def split: Prelude.outcome.splits)

lemma currentSession_success:
  assumes "currentSession env (Session settings) cookie w = (Inr s, w')"
  shows "\<exists>token. cookieToken cookie (cn_session (cookieNames (secure settings))) = Some token
    \<and> findSession (tokenHash env token) (au_now w) (au_db w') = Some s \<and> au_now w \<le> au_now w'"
proof (cases "cookieToken cookie (cn_session (cookieNames (secure settings)))")
  case None
  then show ?thesis using assms by (auto simp: currentSession_def enabled_def andThen_Inr_iff)
next
  case (Some token)
  let ?f = "\<lambda>v. findSession (tokenHash env token) (au_now w) (au_db v)"
  from assms Some obtain r w1 where call: "auth_call env FindSession (reading ?f) w = (Inr r, w1)"
    and r: "r = Some s" "w1 = w'"
    by (auto simp: currentSession_def enabled_def andThen_Inr_iff split: option.splits)
  from auth_call_reading [OF call] r Some show ?thesis by auto
qed

lemma csrf_success:
  assumes "csrf env (Session settings) current origin token w = (Inr x, w')"
  shows "w' = w \<and> origin = Some (webOrigin settings) \<and> (\<exists>c. token = Some c \<and> tokenHash env c = tokenHash env (cs_csrfToken current))"
  using assms by (auto simp: csrf_def enabled_def validToken_def tokensEqual_def andThen_Inr_iff split: if_splits option.splits)

lemma authorize_success:
  assumes "authorize env (Session settings) cookie tenantId meth origin token w = (Inr s, w')"
  obtains t tok where "cookieToken cookie (cn_session (cookieNames (secure settings))) = Some tok"
    "findSession (tokenHash env tok) (au_now w) (au_db w') = Some s" "au_now w \<le> au_now w'"
    "uuid_param env tenantId = Some t" "t \<in> fst ` set (cs_tenants s)"
    "safe_method meth \<or> origin = Some (webOrigin settings) \<and> (\<exists>c. token = Some c \<and> tokenHash env c = tokenHash env (cs_csrfToken s))"
proof -
  from assms obtain s' w1 w2 where s': "currentSession env (Session settings) cookie w = (Inr s', w1)"
    and c: "(if safe_method meth then ret () else csrf env (Session settings) s' origin token) w1 = (Inr (), w2)"
    and last: "(case uuid_param env tenantId of None \<Rightarrow> throw (AuthError 400 ''Invalid tenant ID'')
       | Some t \<Rightarrow> if t \<notin> fst ` set (cs_tenants s') then throw (AuthError 404 ''Tenant not found'') else ret s') w2 = (Inr s, w')"
    unfolding authorize_def by (simp add: andThen_Inr_iff) blast
  from last obtain t where rest: "uuid_param env tenantId = Some t" "t \<in> fst ` set (cs_tenants s')" "s = s'" "w' = w2"
    by (cases "uuid_param env tenantId") (auto split: if_splits)
  have "w2 = w1" "safe_method meth \<or> origin = Some (webOrigin settings) \<and> (\<exists>c. token = Some c \<and> tokenHash env c = tokenHash env (cs_csrfToken s))"
    using c csrf_success [of env settings s' origin token w1 "()" w2] rest(3) by (auto split: if_splits)
  with currentSession_success [OF s'] rest show thesis by (auto intro: that)
qed

lemma findSession_stored:
  assumes "findSession h t d = Some s"
  obtains r where "r \<in> set (auth_sessions d)" "as_tokenHash r = h" "t < as_expiresAt r" "cs_csrfToken s = as_csrfToken r"
    "\<And>x. x \<in> fst ` set (cs_tenants s) \<Longrightarrow> \<exists>m \<in> set (memberships d). mb_userId m = as_userId r \<and> mb_tenantId m = x"
proof -
  from assms obtain r u where r: "find (\<lambda>s. as_tokenHash s = h \<and> t < as_expiresAt s) (auth_sessions d) = Some r"
    and u: "find (\<lambda>u. us_id u = as_userId r) (users d) = Some u"
    and s: "s = \<lparr>cs_tokenHash = as_tokenHash r, cs_csrfToken = as_csrfToken r, cs_expiresAt = as_expiresAt r,
               cs_user = u, cs_tenants = tenants_of_user (us_id u) d\<rparr>"
    by (auto simp: findSession_def split: option.splits)
  have "us_id u = as_userId r" using find_SomeD [OF u] by simp
  then have "\<exists>m \<in> set (memberships d). mb_userId m = as_userId r \<and> mb_tenantId m = x"
    if "x \<in> fst ` set (cs_tenants s)" for x
    using that by (auto simp: s tenants_of_user_def split: if_splits option.splits dest!: find_SomeD find_SomeD [OF sym])
  with find_SomeD [OF r] s show thesis by (intro that [of r]) auto
qed

lemma keyAuthorize_success:
  assumes "keyAuthorize env header tenantId w = (Inr (), w')"
  obtains token i key w1 where "bearer_match header = Some (token, i)"
    "auth_call env FindKey (reading (\<lambda>v. findKey i (au_db v))) w = (Inr (Some key), w1)"
    "ak_revokedAt key = None" "au_now w1 < ak_expiresAt key" "tokenHash env token = ak_tokenHash key"
    "uuid_param env tenantId = Some (ak_tenantId key)" "w' = w1"
proof -
  obtain token i where b: "bearer_match header = Some (token, i)"
    using assms by (auto simp: keyAuthorize_def split: option.splits)
  from assms b obtain found w1 where call: "auth_call env FindKey (reading (\<lambda>v. findKey i (au_db v))) w = (Inr found, w1)"
    and rest: "(case found of None \<Rightarrow> throw (AuthError 401 ''Invalid or expired API key'')
            | Some key \<Rightarrow>
                if ak_revokedAt key \<noteq> None \<or> ak_expiresAt key \<le> au_now w1 \<or> \<not> hash_text (ak_tokenHash key)
                   \<or> tokenHash env token \<noteq> ak_tokenHash key
                then throw (AuthError 401 ''Invalid or expired API key'')
                else (case uuid_param env tenantId of
                        None \<Rightarrow> throw (AuthError 400 ''Invalid tenant ID'')
                      | Some x \<Rightarrow> if x \<noteq> ak_tenantId key then throw (AuthError 404 ''Tenant not found'') else ret ())) w1 = (Inr (), w')"
    unfolding keyAuthorize_def by (simp add: andThen_Inr_iff) blast
  show thesis
  proof (cases found)
    case (Some key)
    with rest call show thesis by (intro that [OF b, of key w1]) (auto split: if_splits option.splits)
  qed (use rest in simp)
qed

text \<open>
  A proof of access to a tenant at a time: without an Authorization header, a cookie of an unexpired session of a
  member of the tenant and, unless the method is safe, the website's origin and the session's CSRF token; with one, on
  the ingestion route only, a key of that tenant that is neither revoked nor expired and whose digest is the stored one.
\<close>

definition access_proved :: "auth_env \<Rightarrow> session_settings \<Rightarrow> bool \<Rightarrow> request \<Rightarrow> auth_db \<Rightarrow> int \<Rightarrow> string \<Rightarrow> bool" where
  "access_proved env settings fromBody rq d t tenantId \<longleftrightarrow>
     (case rq_authorization rq of
         None \<Rightarrow> \<exists>token s. cookieToken (rq_cookie rq) (cn_session (cookieNames (secure settings))) = Some token
           \<and> s \<in> set (auth_sessions d) \<and> as_tokenHash s = tokenHash env token \<and> t < as_expiresAt s
           \<and> (\<exists>m \<in> set (memberships d). mb_userId m = as_userId s \<and> mb_tenantId m = tenantId)
           \<and> (safe_method (rq_method rq) \<or> rq_origin rq = Some (webOrigin settings)
                \<and> (\<exists>c. rq_csrf rq = Some c \<and> tokenHash env c = tokenHash env (as_csrfToken s)))
       | Some header \<Rightarrow> fromBody \<and> (\<exists>token i k. bearer_match header = Some (token, i)
           \<and> k \<in> set (api_keys d) \<and> ak_id k = i \<and> ak_tokenHash k = tokenHash env token
           \<and> ak_revokedAt k = None \<and> t < ak_expiresAt k \<and> ak_tenantId k = tenantId))"

text \<open>The guard admits only a request with such a proof for the tenant it names, valid at the time of the check.\<close>

lemma guard_admission:
  assumes "guard env (Session settings) fromBody rq w = (Inr (), w')"
  shows "\<exists>tenantId t. uuid_param env (if fromBody then rq_body_tenantId rq else rq_path_tenantId rq) = Some tenantId
    \<and> au_now w \<le> t \<and> t \<le> au_now w' \<and> access_proved env settings fromBody rq (au_db w') t tenantId"
proof (cases "rq_authorization rq")
  case None
  let ?t = "if fromBody then rq_body_tenantId rq else rq_path_tenantId rq"
  from assms None obtain s where "authorize env (Session settings) (rq_cookie rq) ?t (rq_method rq) (rq_origin rq) (rq_csrf rq) w = (Inr s, w')"
    by (auto simp: guard_def andThen_Inr_iff)
  then show ?thesis
  proof (rule authorize_success)
    fix x tok
    assume a: "cookieToken (rq_cookie rq) (cn_session (cookieNames (secure settings))) = Some tok"
      "findSession (tokenHash env tok) (au_now w) (au_db w') = Some s" "au_now w \<le> au_now w'"
      "uuid_param env ?t = Some x" "x \<in> fst ` set (cs_tenants s)"
      "safe_method (rq_method rq) \<or> rq_origin rq = Some (webOrigin settings)
        \<and> (\<exists>c. rq_csrf rq = Some c \<and> tokenHash env c = tokenHash env (cs_csrfToken s))"
    from a(2) obtain r where r: "r \<in> set (auth_sessions (au_db w'))" "as_tokenHash r = tokenHash env tok" "au_now w < as_expiresAt r"
      "cs_csrfToken s = as_csrfToken r" "\<exists>m \<in> set (memberships (au_db w')). mb_userId m = as_userId r \<and> mb_tenantId m = x"
      by (rule findSession_stored) (use a(5) in blast)
    show ?thesis using a r None by (intro exI [of _ x] exI [of _ "au_now w"]) (auto simp: access_proved_def)
  qed
next
  case (Some header)
  with assms have fb: "fromBody" and k: "keyAuthorize env header (rq_body_tenantId rq) w = (Inr (), w')"
    by (auto simp: guard_def split: if_splits)
  from k obtain token i key w1 where b: "bearer_match header = Some (token, i)"
    and call: "auth_call env FindKey (reading (\<lambda>v. findKey i (au_db v))) w = (Inr (Some key), w1)"
    and rest: "ak_revokedAt key = None" "au_now w1 < ak_expiresAt key"
      "tokenHash env token = ak_tokenHash key" "uuid_param env (rq_body_tenantId rq) = Some (ak_tenantId key)" "w' = w1"
    by (rule keyAuthorize_success)
  from auth_call_reading [OF call] have "find (\<lambda>k. ak_id k = i) (api_keys (au_db w')) = Some key"
    by (simp add: rest(5) findKey_def)
  from find_SomeD [OF this] show ?thesis
    using rest b fb Some auth_call_reading(2) [OF call] by (auto simp: access_proved_def intro!: exI [of _ "au_now w1"] exI [of _ key])
qed

definition example_token :: string where "example_token = replicate 43 (CHR ''A'')"
definition example_uuid :: string where "example_uuid = ''00000000-0000-4000-8000-000000000001''"

definition example_settings :: session_settings where
  "example_settings = \<lparr>apiOrigin = ''http://localhost:3000'', webOrigin = ''http://localhost:3001'', secure = False,
     clientId = ''c'', clientSecret = ''s''\<rparr>"

text \<open>The digest here maps every text to the same 64 digits.\<close>

definition auth_example :: auth_env where
  "auth_example = \<lparr>sha256 = (\<lambda>_. replicate 64 (CHR ''0'')), random_token = (\<lambda>_. example_token), new_uuid = example_uuid,
     valid_uuid = (\<lambda>s. s = ''t''), parse_url = (\<lambda>_. None), github_token = (\<lambda>_ _. Inl (Error ''down'')),
     github_user = (\<lambda>_. Inl (Error ''down'')), auth_outcome = (\<lambda>_. Completes), auth_elapse = (\<lambda>_. 1),
     auth_meanwhile = (\<lambda>_ d. d)\<rparr>"

definition example_auth_db :: auth_db where
  "example_auth_db = \<lparr>users = [\<lparr>us_id = ''u'', us_githubId = ''1'', us_githubLogin = ''l''\<rparr>],
     memberships = [\<lparr>mb_userId = ''u'', mb_tenantId = ''t''\<rparr>],
     auth_sessions = [\<lparr>as_tokenHash = replicate 64 (CHR ''0''), as_userId = ''u'', as_csrfToken = example_token, as_expiresAt = 100\<rparr>],
     oauth_logins = [\<lparr>ol_stateHash = ''h'', ol_browserHash = ''b'', ol_codeVerifier = ''v'', ol_expiresAt = 100\<rparr>],
     api_keys = [], auth_tenants = [\<lparr>tn_id = ''t'', tn_name = ''T'', tn_hmacSecret = ''s''\<rparr>]\<rparr>"

definition example_auth_world :: auth_world where
  "example_auth_world = \<lparr>au_now = 5, au_db = example_auth_db\<rparr>"

definition example_request :: request where
  "example_request = \<lparr>rq_method = ''POST'', rq_origin = Some ''http://localhost:3001'',
     rq_cookie = Some (''waybill-session='' @ example_token), rq_csrf = Some example_token, rq_authorization = None,
     rq_body_tenantId = Some (JStr ''t''), rq_path_tenantId = None\<rparr>"

lemma example_admitted: "fst (guard auth_example (Session example_settings) True example_request example_auth_world) = Inr ()"
  by code_simp

section \<open>A sign-in attempt is used once\<close>

text \<open>Callbacks that consume attempts concurrently: each reads its row and then deletes it, in a transaction
  that may also fail; new attempts, under states never used before, are created meanwhile.\<close>

datatype callback =
  Started string string int
| Deleting string string int oauth_login
| Finished string string "oauth_login option"

record login_run =
  lr_db :: auth_db
  lr_used :: "string set"
  lr_calls :: "nat \<Rightarrow> callback"

inductive login_step :: "login_run \<Rightarrow> login_run \<Rightarrow> bool" where
  read: "lr_calls r i = Started h b t \<Longrightarrow>
    login_step r (r\<lparr>lr_calls := (lr_calls r)(i := (case readLogin h b t (lr_db r) of
      None \<Rightarrow> Finished h b None | Some row \<Rightarrow> Deleting h b t row))\<rparr>)"
| delete: "lr_calls r i = Deleting h b t row \<Longrightarrow> deleteLogin h b t (lr_db r) = (n, d) \<Longrightarrow>
    login_step r (r\<lparr>lr_db := d, lr_calls := (lr_calls r)(i := Finished h b (if n = 1 then Some row else None))\<rparr>)"
| fail: "lr_calls r i = Deleting h b t row \<Longrightarrow>
    login_step r (r\<lparr>lr_calls := (lr_calls r)(i := Finished h b None)\<rparr>)"
| create: "createLogin l t (lr_db r) = Inr ((), d) \<Longrightarrow> ol_stateHash l \<notin> lr_used r \<Longrightarrow>
    login_step r (r\<lparr>lr_db := d, lr_used := insert (ol_stateHash l) (lr_used r)\<rparr>)"

definition login_inv :: "login_run \<Rightarrow> bool" where
  "login_inv r \<longleftrightarrow>
     distinct (map ol_stateHash (oauth_logins (lr_db r)))
   \<and> ol_stateHash ` set (oauth_logins (lr_db r)) \<subseteq> lr_used r
   \<and> (\<forall>i h b t row. lr_calls r i = Deleting h b t row \<longrightarrow> ol_stateHash row = h \<and> ol_browserHash row = b \<and> h \<in> lr_used r)
   \<and> (\<forall>i h b row. lr_calls r i = Finished h b (Some row) \<longrightarrow> ol_stateHash row = h \<and> ol_browserHash row = b
        \<and> h \<in> lr_used r \<and> h \<notin> ol_stateHash ` set (oauth_logins (lr_db r)))
   \<and> (\<forall>i j h b b' row row'. lr_calls r i = Finished h b (Some row) \<and> lr_calls r j = Finished h b' (Some row') \<longrightarrow> i = j)"

lemma readLogin_row:
  "readLogin h b t d = Some row \<Longrightarrow> row \<in> set (oauth_logins d) \<and> ol_stateHash row = h \<and> ol_browserHash row = b"
  by (auto simp: readLogin_def split: option.splits if_splits dest!: find_SomeD)

lemma deleteLogin_rows:
  assumes "deleteLogin h b t d = (n, d')" and "distinct (map ol_stateHash (oauth_logins d))"
  shows "set (oauth_logins d') \<subseteq> set (oauth_logins d)" "distinct (map ol_stateHash (oauth_logins d'))"
    "n = 1 \<Longrightarrow> h \<in> ol_stateHash ` set (oauth_logins d) \<and> h \<notin> ol_stateHash ` set (oauth_logins d')"
proof -
  let ?hit = "attempt_matches h b t"
  have n: "n = length (filter ?hit (oauth_logins d))" and d': "oauth_logins d' = filter (\<lambda>l. \<not> ?hit l) (oauth_logins d)"
    using assms(1) by (auto simp: deleteLogin_def Let_def)
  show "set (oauth_logins d') \<subseteq> set (oauth_logins d)" "distinct (map ol_stateHash (oauth_logins d'))"
    using assms(2) by (auto simp: d' distinct_map_filter)
  assume "n = 1"
  then obtain l where l: "l \<in> set (oauth_logins d)" "?hit l"
    unfolding n by (metis filter_empty_conv list.size(3) zero_neq_one)
  have none: "\<not> ol_stateHash x = h" if "x \<in> set (oauth_logins d')" for x
    using that l assms(2) by (auto simp: d' distinct_map attempt_matches_def dest: inj_onD)
  have "ol_stateHash l = h" using l(2) by (simp add: attempt_matches_def)
  with l(1) none show "h \<in> ol_stateHash ` set (oauth_logins d) \<and> h \<notin> ol_stateHash ` set (oauth_logins d')"
    by blast
qed

lemma createLogin_rows:
  assumes "createLogin l t d = Inr ((), d')"
  shows "set (oauth_logins d') \<subseteq> insert l (set (oauth_logins d))"
    "distinct (map ol_stateHash (oauth_logins d)) \<Longrightarrow> distinct (map ol_stateHash (oauth_logins d'))"
  using assms by (auto simp: createLogin_def Let_def distinct_map_filter split: if_splits)

lemma login_inv_step:
  assumes "login_step r r'" and inv: "login_inv r"
  shows "login_inv r'"
  using assms(1)
proof cases
  case (read i h b t)
  show ?thesis
  proof (cases "readLogin h b t (lr_db r)")
    case None
    then show ?thesis using inv by (auto simp: read(1) login_inv_def split: if_splits)
  next
    case (Some row)
    from readLogin_row [OF Some] inv show ?thesis by (auto simp: read(1) Some login_inv_def split: if_splits)
  qed
next
  case (fail i h b t row)
  then show ?thesis using inv by (auto simp: login_inv_def split: if_splits)
next
  case (create l t d)
  have new: "ol_stateHash l \<notin> lr_used r" using create(3) .
  have rows: "h \<in> ol_stateHash ` set (oauth_logins d) \<Longrightarrow> h = ol_stateHash l \<or> h \<in> ol_stateHash ` set (oauth_logins (lr_db r))" for h
    using createLogin_rows(1) [OF create(2)] by auto
  show ?thesis
    unfolding login_inv_def create(1)
  proof (intro conjI allI impI)
    show "distinct (map ol_stateHash (oauth_logins (lr_db (r\<lparr>lr_db := d, lr_used := insert (ol_stateHash l) (lr_used r)\<rparr>))))"
      using createLogin_rows(2) [OF create(2)] inv by (simp add: login_inv_def)
    show "ol_stateHash ` set (oauth_logins (lr_db (r\<lparr>lr_db := d, lr_used := insert (ol_stateHash l) (lr_used r)\<rparr>)))
        \<subseteq> lr_used (r\<lparr>lr_db := d, lr_used := insert (ol_stateHash l) (lr_used r)\<rparr>)"
      using rows inv by (auto simp: login_inv_def)
  next
    fix i h b row
    assume "lr_calls (r\<lparr>lr_db := d, lr_used := insert (ol_stateHash l) (lr_used r)\<rparr>) i = Finished h b (Some row)"
    then have f: "lr_calls r i = Finished h b (Some row)" by simp
    with inv have used: "h \<in> lr_used r" "h \<notin> ol_stateHash ` set (oauth_logins (lr_db r))" unfolding login_inv_def by blast+
    with rows [of h] new show "h \<notin> ol_stateHash ` set (oauth_logins (lr_db (r\<lparr>lr_db := d, lr_used := insert (ol_stateHash l) (lr_used r)\<rparr>)))"
      by auto
    from f inv show "ol_stateHash row = h" "ol_browserHash row = b" by (auto simp: login_inv_def)
    from used show "h \<in> lr_used (r\<lparr>lr_db := d, lr_used := insert (ol_stateHash l) (lr_used r)\<rparr>)" by simp
  qed (use inv in \<open>auto simp: login_inv_def\<close>)
next
  case (delete i h b t row n d)
  have dist: "distinct (map ol_stateHash (oauth_logins (lr_db r)))" using inv by (simp add: login_inv_def)
  note rows = deleteLogin_rows [OF delete(3) dist]
  have mine: "ol_stateHash row = h" "ol_browserHash row = b" "h \<in> lr_used r"
    using inv delete(2) unfolding login_inv_def by blast+
  have fresh: "\<not> lr_calls r j = Finished h b' (Some row')" if "n = 1" for j b' row'
    using rows(3) [OF that] inv unfolding login_inv_def by blast
  let ?r = "r\<lparr>lr_db := d, lr_calls := (lr_calls r)(i := Finished h b (if n = 1 then Some row else None))\<rparr>"
  have calls: "lr_calls ?r j = Finished k c (Some y) \<Longrightarrow>
      (j = i \<and> k = h \<and> c = b \<and> y = row \<and> n = 1) \<or> (j \<noteq> i \<and> lr_calls r j = Finished k c (Some y))" for j k c y
    by (auto split: if_splits)
  show ?thesis
    unfolding login_inv_def delete(1)
  proof (intro conjI allI impI)
    show "distinct (map ol_stateHash (oauth_logins (lr_db ?r)))" using rows(2) by simp
    show "ol_stateHash ` set (oauth_logins (lr_db ?r)) \<subseteq> lr_used ?r" using rows(1) inv by (auto simp: login_inv_def)
  next
    fix j k c s y assume "lr_calls ?r j = Deleting k c s y"
    then have "lr_calls r j = Deleting k c s y" by (auto split: if_splits)
    with inv show "ol_stateHash y = k" "ol_browserHash y = c" "k \<in> lr_used ?r" unfolding login_inv_def by auto
  next
    fix j k c y assume "lr_calls ?r j = Finished k c (Some y)"
    from calls [OF this] consider (own) "k = h" "c = b" "y = row" "n = 1" | (old) "lr_calls r j = Finished k c (Some y)" by blast
    then have "ol_stateHash y = k \<and> ol_browserHash y = c \<and> k \<in> lr_used r \<and> k \<notin> ol_stateHash ` set (oauth_logins d)"
    proof cases
      case own
      then show ?thesis using mine rows(3) by simp
    next
      case old
      then have "k \<notin> ol_stateHash ` set (oauth_logins (lr_db r))" "ol_stateHash y = k \<and> ol_browserHash y = c \<and> k \<in> lr_used r"
        using inv unfolding login_inv_def by blast+
      then show ?thesis using rows(1) by auto
    qed
    then show "ol_stateHash y = k" "ol_browserHash y = c" "k \<in> lr_used ?r" "k \<notin> ol_stateHash ` set (oauth_logins (lr_db ?r))" by simp_all
  next
    fix j j' k c c' y y'
    assume a: "lr_calls ?r j = Finished k c (Some y) \<and> lr_calls ?r j' = Finished k c' (Some y')"
    show "j = j'"
      using calls [of j k c y] calls [of j' k c' y'] a fresh inv unfolding login_inv_def by metis
  qed
qed

lemma login_inv_steps: "login_step\<^sup>*\<^sup>* r r' \<Longrightarrow> login_inv r \<Longrightarrow> login_inv r'"
  by (induction rule: rtranclp_induct) (auto intro: login_inv_step)

text \<open>C20: However callbacks race, a sign-in attempt is used at most once, and only by the browser that began
  it: two callbacks that both obtain an attempt obtain different ones.\<close>

theorem sign_in_attempt_is_used_once:
  assumes "login_step\<^sup>*\<^sup>* \<lparr>lr_db = d, lr_used = ol_stateHash ` set (oauth_logins d), lr_calls = (\<lambda>i. Started (h i) (b i) (t i))\<rparr> r"
    and "distinct (map ol_stateHash (oauth_logins d))"
    and "lr_calls r i = Finished k c (Some row)" and "lr_calls r j = Finished k' c' (Some row')" and "i \<noteq> j"
  shows "ol_stateHash row \<noteq> ol_stateHash row' \<and> ol_stateHash row = k \<and> ol_browserHash row = c"
proof -
  have "login_inv \<lparr>lr_db = d, lr_used = ol_stateHash ` set (oauth_logins d), lr_calls = (\<lambda>i. Started (h i) (b i) (t i))\<rparr>"
    using assms(2) by (simp add: login_inv_def)
  from login_inv_steps [OF assms(1) this] assms(3-5) show ?thesis unfolding login_inv_def by metis
qed

definition two_logins :: auth_db where
  "two_logins = example_auth_db\<lparr>oauth_logins :=
     [\<lparr>ol_stateHash = ''h'', ol_browserHash = ''b'', ol_codeVerifier = ''v'', ol_expiresAt = 100\<rparr>,
      \<lparr>ol_stateHash = ''k'', ol_browserHash = ''b'', ol_codeVerifier = ''v'', ol_expiresAt = 100\<rparr>]\<rparr>"

theorem sign_in_attempt_is_used_once_witness:
  "\<exists>row row'. fst (consumeLogin ''h'' ''b'' 5 two_logins) = Some row
    \<and> fst (consumeLogin ''k'' ''b'' 5 (snd (consumeLogin ''h'' ''b'' 5 two_logins))) = Some row'
    \<and> ol_stateHash row \<noteq> ol_stateHash row'"
proof -
  let ?h = "\<lambda>i :: nat. if i = 0 then ''h'' else ''k''" and ?d = two_logins
  let ?row = "\<lparr>ol_stateHash = ''h'', ol_browserHash = ''b'', ol_codeVerifier = ''v'', ol_expiresAt = 100\<rparr>"
  let ?row' = "\<lparr>ol_stateHash = ''k'', ol_browserHash = ''b'', ol_codeVerifier = ''v'', ol_expiresAt = 100\<rparr>"
  let ?u = "ol_stateHash ` set (oauth_logins ?d)" and ?c = "\<lambda>i. Started (?h i) ''b'' 5"
  let ?d1 = "snd (consumeLogin ''h'' ''b'' 5 ?d)" and ?d2 = "snd (consumeLogin ''k'' ''b'' 5 (snd (consumeLogin ''h'' ''b'' 5 two_logins)))"
  let ?run = "\<lambda>d c. \<lparr>lr_db = d, lr_used = ?u, lr_calls = c\<rparr>"
  have v: "readLogin ''h'' ''b'' 5 ?d = Some ?row" "readLogin ''k'' ''b'' 5 ?d1 = Some ?row'"
    "fst (deleteLogin ''h'' ''b'' 5 ?d) = 1" "fst (deleteLogin ''k'' ''b'' 5 ?d1) = 1"
    "fst (consumeLogin ''h'' ''b'' 5 ?d) = Some ?row" "fst (consumeLogin ''k'' ''b'' 5 ?d1) = Some ?row'"
    "distinct (map ol_stateHash (oauth_logins ?d))"
    by code_simp+
  have d: "deleteLogin ''h'' ''b'' 5 ?d = (1, ?d1)" "deleteLogin ''k'' ''b'' 5 ?d1 = (1, ?d2)"
    using v by (simp_all add: consumeLogin_def prod_eq_iff split: prod.split)
  let ?c1 = "?c(0 := Deleting ''h'' ''b'' 5 ?row)" and ?c2 = "?c(0 := Finished ''h'' ''b'' (Some ?row))"
  let ?c3 = "?c2(1 := Deleting ''k'' ''b'' 5 ?row')" and ?c4 = "?c2(1 := Finished ''k'' ''b'' (Some ?row'))"
  have "login_step (?run ?d ?c) (?run ?d ?c1)" using read [of "?run ?d ?c" 0 "''h''" "''b''" 5] v(1) by simp
  moreover have "login_step (?run ?d ?c1) (?run ?d1 ?c2)" using delete [of "?run ?d ?c1" 0 "''h''" "''b''" 5 ?row 1 ?d1] d(1) by simp
  moreover have "login_step (?run ?d1 ?c2) (?run ?d1 ?c3)" using read [of "?run ?d1 ?c2" 1 "''k''" "''b''" 5] v(2) by simp
  moreover have "login_step (?run ?d1 ?c3) (?run ?d2 ?c4)" using delete [of "?run ?d1 ?c3" 1 "''k''" "''b''" 5 ?row' 1 ?d2] d(2) by simp
  ultimately have run: "login_step\<^sup>*\<^sup>* (?run ?d ?c) (?run ?d2 ?c4)" by (meson rtranclp.rtrancl_refl rtranclp.rtrancl_into_rtrancl)
  have "lr_calls (?run ?d2 ?c4) 0 = Finished ''h'' ''b'' (Some ?row)" "lr_calls (?run ?d2 ?c4) 1 = Finished ''k'' ''b'' (Some ?row')"
    by simp_all
  from sign_in_attempt_is_used_once [OF run v(7) this zero_neq_one] show ?thesis
    using v(5,6) by blast
qed

section \<open>Keys\<close>








section \<open>The configuration\<close>

text \<open>C23: The API never starts in production with authentication off or over plain HTTP: with
  \<open>NODE_ENV=production\<close>, any configuration that loads requires sessions, marks its cookies secure,
  serves both origins over HTTPS and has a nonempty client id and secret. The \<open>URL\<close> class is assumed to
  give an \<open>https:\<close> address an origin that begins with \<open>https:\<close>.\<close>

theorem production_config_is_secure:
  assumes "\<And>s u. parse_url env s = Some u \<Longrightarrow> url_protocol u = ''https:'' \<Longrightarrow> take 6 (url_origin u) = ''https:''"
    and "vars ''NODE_ENV'' = Some ''production''" and "authConfig env vars = Inr c"
  shows "case c of Development \<Rightarrow> False
    | Session s \<Rightarrow> secure s \<and> take 6 (apiOrigin s) = ''https:'' \<and> take 6 (webOrigin s) = ''https:''
        \<and> clientId s \<noteq> [] \<and> clientSecret s \<noteq> []"
proof -
  have origin: "take 6 x = ''https:''" if "origin_setting env True vars name = Inr x" for name x
    using that assms(1) by (auto simp: origin_setting_def Let_def split: sum.splits option.splits if_splits)
  have required: "x \<noteq> []" if "required_setting vars name = Inr x" for name x
    using that by (auto simp: required_setting_def Let_def split: option.splits if_splits)
  from assms(2,3) show ?thesis
    by (auto simp: authConfig_def Let_def split: if_splits sum.splits option.splits dest: origin required)
qed

definition production_vars :: "string \<Rightarrow> string option" where
  "production_vars = [''NODE_ENV'' \<mapsto> ''production'', ''AUTH_API_ORIGIN'' \<mapsto> ''https://a'', ''AUTH_WEB_ORIGIN'' \<mapsto> ''https://b'',
     ''GITHUB_CLIENT_ID'' \<mapsto> ''c'', ''GITHUB_CLIENT_SECRET'' \<mapsto> ''s'']"

text \<open>A parser of addresses that knows only HTTPS origins.\<close>

definition https_example :: auth_env where
  "https_example = auth_example\<lparr>parse_url := (\<lambda>s. if take 6 s = ''https:''
     then Some \<lparr>url_protocol = ''https:'', url_hostname = drop 8 s, url_username = [], url_password = [], url_pathname = ''/'',
       url_search = [], url_hash = [], url_origin = s\<rparr> else None)\<rparr>"

theorem production_config_is_secure_witness:
  "authConfig https_example production_vars = Inr (Session \<lparr>apiOrigin = ''https://a'', webOrigin = ''https://b'', secure = True,
     clientId = ''c'', clientSecret = ''s''\<rparr>)
   \<and> (case Session \<lparr>apiOrigin = ''https://a'', webOrigin = ''https://b'', secure = True, clientId = ''c'', clientSecret = ''s''\<rparr> of
        Development \<Rightarrow> False | Session s \<Rightarrow> secure s \<and> clientSecret s \<noteq> [])"
proof -
  have c: "authConfig https_example production_vars = Inr (Session \<lparr>apiOrigin = ''https://a'', webOrigin = ''https://b'', secure = True,
     clientId = ''c'', clientSecret = ''s''\<rparr>)"
    by code_simp
  have u: "take 6 (url_origin u) = ''https:''" if "parse_url https_example s = Some u" "url_protocol u = ''https:''" for s u
    using that by (auto simp: https_example_def split: if_splits)
  have n: "production_vars ''NODE_ENV'' = Some ''production''" by (simp add: production_vars_def)
  from production_config_is_secure [where env = https_example, OF u n c] show ?thesis using c by simp
qed

end
