(* ===== verification/AuthHttp.thy ===== *)
theory AuthHttp
  imports AuthProps
begin

text \<open>
  The answers of the authentication and key routes (\<open>packages/api/src/controllers/auth.ts\<close>,
  \<open>controllers/api-keys.ts\<close>), and what a completed sign-in leaves behind.

  \<^item> A reply is its status, headers, cookies in the order they are set, target of the redirect and body.
  \<^item> An error keeps the cookies set before it.
\<close>

section \<open>Replies\<close>

record cookie_options =
  co_httpOnly :: bool
  co_secure :: bool
  co_sameSite :: string
  co_path :: string

datatype cookie_action =
  SetCookie string string cookie_options int
| ClearCookie string cookie_options

datatype redirect_target = GithubAuthorize "(string \<times> string) list" | Website string

datatype auth_body =
  ErrorBody "json option"
| MeBody me
| IssuedKeyBody api_key string string
| KeyBody api_key string
| KeyListBody "api_key page_result" string

record auth_reply =
  ay_status :: nat
  ay_headers :: "(string \<times> string) list"
  ay_cookies :: "cookie_action list"
  ay_location :: "redirect_target option"
  ay_body :: "auth_body option"

definition auth_secure :: "auth_config \<Rightarrow> bool" where
  "auth_secure config = (case config of Session settings \<Rightarrow> secure settings | Development \<Rightarrow> False)"

definition cookie_defaults :: "auth_config \<Rightarrow> cookie_options" where
  "cookie_defaults config = \<lparr>co_httpOnly = True, co_secure = auth_secure config, co_sameSite = ''lax'', co_path = ''/''\<rparr>"

definition handle_auth ::
  "(string \<times> string) list \<Rightarrow> cookie_action list \<Rightarrow> (nat \<times> cookie_action list \<times> redirect_target option \<times> auth_body option) auth
     \<Rightarrow> auth_world \<Rightarrow> auth_reply \<times> auth_world" where
  "handle_auth hs cookies action w =
     (case action w of
        (Inr (n, added, location, content), w') \<Rightarrow>
          (\<lparr>ay_status = n, ay_headers = hs, ay_cookies = cookies @ added, ay_location = location, ay_body = content\<rparr>, w')
      | (Inl e, w') \<Rightarrow>
          (\<lparr>ay_status = status (authFailure e), ay_headers = hs, ay_cookies = cookies, ay_location = None,
            ay_body = Some (ErrorBody (body (authFailure e)))\<rparr>, w'))"

definition auth_headers :: "(string \<times> string) list" where
  "auth_headers = [(''Cache-Control'', ''no-store''), (''Referrer-Policy'', ''no-referrer'')]"

section \<open>Signing in and out\<close>

definition beginRoute :: "auth_env \<Rightarrow> auth_config \<Rightarrow> auth_world \<Rightarrow> auth_reply \<times> auth_world" where
  "beginRoute env config =
     handle_auth auth_headers [] (andThen (begin_login env config) (\<lambda>result.
       ret (302, [SetCookie (cn_oauth (cookieNames (auth_secure config))) (si_browser result) (cookie_defaults config) (LOGIN_SECONDS * 1000)],
            Some (GithubAuthorize (si_url result)), None)))"

text \<open>Without sessions the handler would leave the request unanswered (status 0); \<open>complete\<close> throws before.\<close>

definition completeRoute :: "auth_env \<Rightarrow> auth_config \<Rightarrow> json \<Rightarrow> string option \<Rightarrow> auth_world \<Rightarrow> auth_reply \<times> auth_world" where
  "completeRoute env config query cookie =
     handle_auth auth_headers [ClearCookie (cn_oauth (cookieNames (auth_secure config))) (cookie_defaults config)]
       (andThen (complete_login env config query cookie) (\<lambda>token.
          let step = SetCookie (cn_session (cookieNames (auth_secure config))) token (cookie_defaults config) (SESSION_SECONDS * 1000)
          in case config of Session settings \<Rightarrow> ret (303, [step], Some (Website (webOrigin settings @ ''/'')), None)
             | Development \<Rightarrow> ret (0, [step], None, None)))"

definition meRoute :: "auth_env \<Rightarrow> auth_config \<Rightarrow> string option \<Rightarrow> auth_world \<Rightarrow> auth_reply \<times> auth_world" where
  "meRoute env config cookie =
     handle_auth auth_headers [] (andThen (me env config cookie) (\<lambda>m. ret (200, [], None, Some (MeBody m))))"

definition logoutRoute ::
  "auth_env \<Rightarrow> auth_config \<Rightarrow> string option \<Rightarrow> string option \<Rightarrow> string option \<Rightarrow> auth_world \<Rightarrow> auth_reply \<times> auth_world" where
  "logoutRoute env config cookie origin token =
     handle_auth auth_headers [] (andThen (logout env config cookie origin token) (\<lambda>_.
       ret (204, [ClearCookie (cn_session (cookieNames (auth_secure config))) (cookie_defaults config)], None, None)))"

section \<open>Keys\<close>

definition key_headers :: "(string \<times> string) list" where
  "key_headers = [(''Cache-Control'', ''no-store'')]"

definition issueRoute ::
  "auth_env \<Rightarrow> auth_config \<Rightarrow> string option \<Rightarrow> string \<Rightarrow> string option \<Rightarrow> string option \<Rightarrow> json \<Rightarrow> auth_world \<Rightarrow> auth_reply \<times> auth_world" where
  "issueRoute env config cookie tenantId origin token input =
     handle_auth key_headers [] (andThen (issueKey env config cookie tenantId origin token input) (\<lambda>(key, scp, secret).
       ret (201, [], None, Some (IssuedKeyBody key scp secret))))"

definition listRoute ::
  "auth_env \<Rightarrow> auth_config \<Rightarrow> string option \<Rightarrow> string \<Rightarrow> json \<Rightarrow> auth_world \<Rightarrow> auth_reply \<times> auth_world" where
  "listRoute env config cookie tenantId query =
     handle_auth key_headers [] (andThen (listApiKeys env config cookie tenantId query) (\<lambda>page.
       ret (200, [], None, Some (KeyListBody page INGESTION_SCOPE))))"

definition revokeRoute ::
  "auth_env \<Rightarrow> auth_config \<Rightarrow> string option \<Rightarrow> string \<Rightarrow> string \<Rightarrow> string option \<Rightarrow> string option \<Rightarrow> auth_world \<Rightarrow> auth_reply \<times> auth_world" where
  "revokeRoute env config cookie tenantId i origin token =
     handle_auth key_headers [] (andThen (revokeApiKey env config cookie tenantId i origin token) (\<lambda>key.
       ret (200, [], None, Some (KeyBody key INGESTION_SCOPE))))"

section \<open>A completed sign-in\<close>

lemma base64_digit_plain: "base64_value c \<noteq> None \<Longrightarrow> c \<noteq> CHR '';'' \<and> \<not> js_space c"
  by (auto simp: base64_value_def js_space_def Let_def split: if_splits)


lemma cookieToken_single:
  assumes "token_chars token" and "list_all (\<lambda>c. c \<noteq> CHR '';'' \<and> \<not> js_space c) name"
  shows "cookieToken (Some (name @ ''='' @ token)) name = Some token"
proof -
  let ?s = "name @ ''='' @ token"
  have "list_all (\<lambda>c. c \<noteq> CHR '';'' \<and> \<not> js_space c) ''=''" by code_simp
  moreover have "list_all (\<lambda>c. c \<noteq> CHR '';'' \<and> \<not> js_space c) token"
    using assms(1) base64_digit_plain unfolding token_chars_def list_all_iff by blast
  ultimately have plain: "list_all (\<lambda>c. c \<noteq> CHR '';'' \<and> \<not> js_space c) ?s"
    using assms(2) by (simp only: list_all_append)
  then have "split_on (CHR '';'') ?s = [?s]" by (intro split_on_absent) (unfold list_all_iff, blast)
  moreover have "js_trim ?s = ?s"
    by (rule js_trim_id) (use plain in \<open>unfold list_all_iff, blast\<close>)
  ultimately show ?thesis using assms(1) by (simp add: cookieToken_def)
qed

lemma session_name_plain: "list_all (\<lambda>c. c \<noteq> CHR '';'' \<and> \<not> js_space c) (cn_session (cookieNames b))"
proof -
  have "list_all (\<lambda>c. c \<noteq> CHR '';'' \<and> \<not> js_space c) (cn_session (cookieNames True))"
    "list_all (\<lambda>c. c \<noteq> CHR '';'' \<and> \<not> js_space c) (cn_session (cookieNames False))"
    by code_simp+
  then show ?thesis by (cases b) (simp_all only:)
qed

lemma createSession_stored:
  assumes "createSession i ident h c x previous t d = Inr ((), d')"
  obtains u kept where "u \<in> set (users d')" "us_githubId u = id_githubId ident"
    "auth_sessions d' = kept @ [\<lparr>as_tokenHash = h, as_userId = us_id u, as_csrfToken = c, as_expiresAt = x\<rparr>]"
    "h \<notin> as_tokenHash ` set kept"
proof -
  obtain u d1 where u: "upsertUser i ident d = (u, d1)" by fastforce
  have "u \<in> set (users d1)" "us_githubId u = id_githubId ident"
    using u by (auto simp: upsertUser_def Let_def split: option.splits dest!: find_SomeD)
  with assms that show thesis by (auto simp: createSession_def u Let_def split: if_splits)
qed

lemma auth_call_Inr:
  assumes "auth_call env c m w = (Inr x, w')"
  obtains w0 where "m w0 = (Inr x, w')" "au_now w \<le> au_now w0"
  using assms by (auto simp: auth_call_def andThen_def modify_def split: Prelude.outcome.splits prod.splits intro: that)

lemma andThen_ret_Inr: "andThen m (\<lambda>_. ret y) w = (Inr z, w') \<Longrightarrow> (\<exists>u. m w = (Inr u, w')) \<and> z = y"
  by (auto simp: andThen_Inr_iff)

lemma complete_login_success:
  assumes "complete_login env (Session settings) query cookie w = (Inr token, w1)"
  obtains ident c x previous t d where "token = random_token env 0"
    "createSession (new_uuid env) ident (tokenHash env token) c x previous t d = Inr ((), au_db w1)"
    "au_now w + SESSION_SECONDS * 1000 \<le> x" "x \<le> au_now w1 + SESSION_SECONDS * 1000"
proof -
  obtain st code browser where q: "callback_query query = Some (st, code)"
    "cookieToken cookie (cn_oauth (cookieNames (secure settings))) = Some browser"
    using assms by (auto simp: complete_login_def enabled_def andThen_Inr_iff split: option.splits)
  let ?previous = "map_option (tokenHash env) (cookieToken cookie (cn_session (cookieNames (secure settings))))"
  let ?store = "\<lambda>row ident t'. andThen (auth_call env CreateSession
         (\<lambda>w. case createSession (new_uuid env) ident (tokenHash env (random_token env 0)) (random_token env 1)
                (t' + SESSION_SECONDS * 1000) ?previous (au_now w) (au_db w) of
              Inl e \<Rightarrow> (Inl (AuthOther e), w) | Inr (_, d) \<Rightarrow> (Inr (), w\<lparr>au_db := d\<rparr>))) (\<lambda>_. ret (random_token env 0))"
  from assms obtain attempt w2 where consume: "auth_call env ConsumeLogin
         (\<lambda>v. case consumeLogin (tokenHash env st) (tokenHash env browser) (au_now w) (au_db v) of
                (r, d) \<Rightarrow> (Inr r, v\<lparr>au_db := d\<rparr>)) w = (Inr attempt, w2)"
    and rest: "(case attempt of
               None \<Rightarrow> throw (AuthError 400 ''Sign-in request expired or already used'')
             | Some row \<Rightarrow>
                 (case githubIdentity env code (ol_codeVerifier row) of
                    Inl e \<Rightarrow> throw (AuthError 502 ''GitHub sign-in failed; start again'')
                  | Inr ident \<Rightarrow> andThen (reading au_now) (?store row ident))) w2 = (Inr token, w1)"
    unfolding complete_login_def enabled_def Let_def by (auto simp: q andThen_Inr_iff)
  from consume have now: "au_now w \<le> au_now w2" by (rule auth_call_Inr) (auto split: prod.splits)
  from rest obtain row ident where i: "?store row ident (au_now w2) w2 = (Inr token, w1)"
    by (auto simp: andThen_Inr_iff split: option.splits sum.splits)
  from andThen_ret_Inr [OF i] obtain u where store: "auth_call env CreateSession
         (\<lambda>w. case createSession (new_uuid env) ident (tokenHash env (random_token env 0)) (random_token env 1)
                (au_now w2 + SESSION_SECONDS * 1000) ?previous (au_now w) (au_db w) of
              Inl e \<Rightarrow> (Inl (AuthOther e), w) | Inr (_, d) \<Rightarrow> (Inr (), w\<lparr>au_db := d\<rparr>)) w2 = (Inr u, w1)"
    and token: "token = random_token env 0"
    by blast
  from store obtain w3 where w3: "(case createSession (new_uuid env) ident (tokenHash env (random_token env 0)) (random_token env 1)
                (au_now w2 + SESSION_SECONDS * 1000) ?previous (au_now w3) (au_db w3) of
              Inl e \<Rightarrow> (Inl (AuthOther e), w3) | Inr (_, d) \<Rightarrow> (Inr (), w3\<lparr>au_db := d\<rparr>)) = (Inr u, w1)" "au_now w2 \<le> au_now w3"
    by (rule auth_call_Inr)
  from w3(1) obtain d where d: "createSession (new_uuid env) ident (tokenHash env (random_token env 0)) (random_token env 1)
                (au_now w2 + SESSION_SECONDS * 1000) ?previous (au_now w3) (au_db w3) = Inr ((), d)" "w1 = w3\<lparr>au_db := d\<rparr>"
    by (auto split: sum.splits)
  have w1: "au_db w1 = d" "au_now w1 = au_now w3" by (simp_all add: d(2))
  show thesis
  proof (rule that [OF token])
    show "createSession (new_uuid env) ident (tokenHash env token) (random_token env 1) (au_now w2 + SESSION_SECONDS * 1000)
        ?previous (au_now w3) (au_db w3) = Inr ((), au_db w1)"
      unfolding w1 token by (rule d(1))
  qed (use now w3(2) in \<open>simp_all add: w1\<close>)
qed

text \<open>Whether a session still admits its cookie: its row and the row of its user are stored and it has not expired.\<close>

definition session_admits :: "auth_session \<Rightarrow> int \<Rightarrow> auth_db \<Rightarrow> bool" where
  "session_admits s t d \<longleftrightarrow> s \<in> set (auth_sessions d) \<and> as_userId s \<in> us_id ` set (users d) \<and> t < as_expiresAt s"

definition only_session :: "auth_session \<Rightarrow> auth_db \<Rightarrow> bool" where
  "only_session s d \<longleftrightarrow> (\<forall>x \<in> set (auth_sessions d). as_tokenHash x = as_tokenHash s \<longrightarrow> x = s)"

lemma findSession_only:
  assumes "only_session s d"
  shows "findSession (as_tokenHash s) t d = None \<longleftrightarrow> \<not> session_admits s t d"
proof (cases "find (\<lambda>x. as_tokenHash x = as_tokenHash s \<and> t < as_expiresAt x) (auth_sessions d)")
  case None
  then have "\<not> session_admits s t d" by (auto simp: session_admits_def find_None_iff)
  moreover have "findSession (as_tokenHash s) t d = None" unfolding findSession_def None by simp
  ultimately show ?thesis by simp
next
  case (Some x)
  then have x: "x \<in> set (auth_sessions d)" "as_tokenHash x = as_tokenHash s" "t < as_expiresAt x" by (auto dest: find_SomeD)
  with assms have "x = s" by (auto simp: only_session_def)
  moreover have "find (\<lambda>u. us_id u = as_userId s) (users d) = None \<longleftrightarrow> as_userId s \<notin> us_id ` set (users d)"
    by (force simp: find_None_iff)
  ultimately show ?thesis using x Some
    by (auto simp: findSession_def session_admits_def split: option.split)
qed

text \<open>C21: A sign-in that ends in a redirect opens a session that the cookie it sets carries: the answer goes
  to the website, clears the attempt's cookie and sets an HttpOnly cookie of seven days; the session is stored for
  the user with the digest of the token alone, until seven days after the sign-in.  A later request with that
  cookie, in whatever tables that keep no other session under the digest and when the lookup is answered,
  is let in exactly as long as the session's row and its user's row are still stored (a sign-out deletes the
  session) and the seven days have not passed.\<close>

theorem sign_in_opens_a_session:
  assumes completed: "completeRoute env (Session settings) query cookie w = (r, w1)" "ay_location r \<noteq> None"
    and form: "token_chars (random_token env 0)"
  shows "\<exists>token s. ay_location r = Some (Website (webOrigin settings @ ''/''))
    \<and> ay_cookies r = [ClearCookie (cn_oauth (cookieNames (secure settings))) (cookie_defaults (Session settings)),
        SetCookie (cn_session (cookieNames (secure settings))) token (cookie_defaults (Session settings)) 604800000]
    \<and> s \<in> set (auth_sessions (au_db w1)) \<and> as_tokenHash s = tokenHash env token \<and> only_session s (au_db w1)
    \<and> au_now w + 604800000 \<le> as_expiresAt s \<and> as_expiresAt s \<le> au_now w1 + 604800000
    \<and> as_userId s \<in> us_id ` set (users (au_db w1))
    \<and> (\<forall>w2. auth_outcome env FindSession = Completes \<and> only_session s (auth_meanwhile env FindSession (au_db w2)) \<longrightarrow>
         isl (fst (currentSession env (Session settings) (Some (cn_session (cookieNames (secure settings)) @ ''='' @ token)) w2))
           = (\<not> session_admits s (au_now w2) (auth_meanwhile env FindSession (au_db w2))))"
proof -
  from completed obtain token where c: "complete_login env (Session settings) query cookie w = (Inr token, w1)"
    and r: "ay_location r = Some (Website (webOrigin settings @ ''/''))"
      "ay_cookies r = [ClearCookie (cn_oauth (cookieNames (secure settings))) (cookie_defaults (Session settings)),
        SetCookie (cn_session (cookieNames (secure settings))) token (cookie_defaults (Session settings)) (SESSION_SECONDS * 1000)]"
    by (auto simp: completeRoute_def handle_auth_def andThen_def auth_secure_def Let_def split: prod.splits sum.splits)
  from c obtain ident cs x previous t d where s: "token = random_token env 0"
    "createSession (new_uuid env) ident (tokenHash env token) cs x previous t d = Inr ((), au_db w1)"
    "au_now w + SESSION_SECONDS * 1000 \<le> x" "x \<le> au_now w1 + SESSION_SECONDS * 1000"
    by (rule complete_login_success)
  from s(2) obtain u kept where u: "u \<in> set (users (au_db w1))" "us_githubId u = id_githubId ident"
    "auth_sessions (au_db w1) = kept @ [\<lparr>as_tokenHash = tokenHash env token, as_userId = us_id u, as_csrfToken = cs, as_expiresAt = x\<rparr>]"
    "tokenHash env token \<notin> as_tokenHash ` set kept"
    by (rule createSession_stored)
  let ?s = "\<lparr>as_tokenHash = tokenHash env token, as_userId = us_id u, as_csrfToken = cs, as_expiresAt = x\<rparr>"
  have cookie: "cookieToken (Some (cn_session (cookieNames (secure settings)) @ ''='' @ token)) (cn_session (cookieNames (secure settings))) = Some token"
    using cookieToken_single form session_name_plain s(1) by blast
  obtain header where header: "cn_session (cookieNames (secure settings)) @ ''='' @ token = header" by blast
  have only: "only_session ?s (au_db w1)" using u(4) by (force simp: only_session_def u(3))
  have "isl (fst (currentSession env (Session settings) (Some header) w2))
      = (\<not> session_admits ?s (au_now w2) (auth_meanwhile env FindSession (au_db w2)))"
    if "auth_outcome env FindSession = Completes" "only_session ?s (auth_meanwhile env FindSession (au_db w2))" for w2
  proof -
    have "isl (fst (currentSession env (Session settings) (Some header) w2))
        \<longleftrightarrow> findSession (tokenHash env token) (au_now w2) (auth_meanwhile env FindSession (au_db w2)) = None"
      using that(1) by (auto simp: currentSession_def enabled_def cookie [unfolded header] andThen_def auth_call_def modify_def split: option.splits)
    with findSession_only [OF that(2)] show ?thesis by simp
  qed
  then show ?thesis
    by (intro exI [of _ token] exI [of _ ?s], unfold header) (use r s(3,4) u(1,3) only in \<open>simp add: SESSION_SECONDS_def\<close>)
qed

text \<open>GitHub knows one user here.\<close>

definition github_example :: auth_env where
  "github_example = auth_example\<lparr>github_token := (\<lambda>_ _. Inr (True, JObj [(''access_token'', JStr ''x''), (''token_type'', JStr ''bearer'')])),
     github_user := (\<lambda>_. Inr (True, JObj [(''id'', JNum (Num 1)), (''login'', JStr ''l'')]))\<rparr>"

definition example_attempt_world :: auth_world where
  "example_attempt_world = \<lparr>au_now = 5, au_db = example_auth_db\<lparr>auth_sessions := [], oauth_logins :=
     [\<lparr>ol_stateHash = replicate 64 (CHR ''0''), ol_browserHash = replicate 64 (CHR ''0''), ol_codeVerifier = ''v'', ol_expiresAt = 100\<rparr>]\<rparr>\<rparr>"

definition example_callback :: "auth_reply \<times> auth_world" where
  "example_callback = completeRoute github_example (Session example_settings)
     (JObj [(''state'', JStr example_token), (''code'', JStr ''c'')]) (Some (''waybill-oauth='' @ example_token)) example_attempt_world"

text \<open>Right after the sign-in the cookie admits; after the sign-out has deleted the session it does not.\<close>

theorem sign_in_opens_a_session_witness:
  "\<exists>token s. s \<in> set (auth_sessions (au_db (snd example_callback))) \<and> as_tokenHash s = tokenHash github_example token
     \<and> 604800005 \<le> as_expiresAt s
     \<and> \<not> isl (fst (currentSession github_example (Session example_settings) (Some (''waybill-session='' @ token)) (snd example_callback)))
     \<and> isl (fst (currentSession github_example (Session example_settings) (Some (''waybill-session='' @ token))
          (snd example_callback \<lparr>au_db := deleteSession (as_tokenHash s) (au_db (snd example_callback))\<rparr>)))"
proof -
  let ?w1 = "snd example_callback"
  have v: "ay_location (fst example_callback) \<noteq> None" "token_chars (random_token github_example 0)"
    "auth_outcome github_example FindSession = Completes" "au_now ?w1 < 604800005"
    "cn_session (cookieNames (secure example_settings)) = ''waybill-session''"
    by code_simp+
  have m: "auth_meanwhile github_example FindSession d = d" for d by (simp add: github_example_def auth_example_def)
  have c: "completeRoute github_example (Session example_settings) (JObj [(''state'', JStr example_token), (''code'', JStr ''c'')])
     (Some (''waybill-oauth='' @ example_token)) example_attempt_world = (fst example_callback, ?w1)"
    by (simp add: example_callback_def)
  have n: "au_now example_attempt_world = 5" by (simp add: example_attempt_world_def)
  from sign_in_opens_a_session [OF c v(1,2)] obtain token s where s: "s \<in> set (auth_sessions (au_db ?w1))"
    "as_tokenHash s = tokenHash github_example token" "only_session s (au_db ?w1)" "604800005 \<le> as_expiresAt s"
    "as_userId s \<in> us_id ` set (users (au_db ?w1))"
    and later: "\<And>w2. only_session s (au_db w2) \<Longrightarrow>
      isl (fst (currentSession github_example (Session example_settings) (Some (''waybill-session='' @ token)) w2))
        = (\<not> session_admits s (au_now w2) (au_db w2))"
    unfolding m n v(5) using v(3) by auto
  have "session_admits s (au_now ?w1) (au_db ?w1)" using s v(4) by (simp add: session_admits_def)
  moreover have "only_session s (deleteSession (as_tokenHash s) (au_db ?w1))"
    "\<not> session_admits s t (deleteSession (as_tokenHash s) (au_db ?w1))" for t
    by (simp_all add: only_session_def session_admits_def deleteSession_def)
  ultimately show ?thesis using s(1,2,4) later [OF s(3)] later [of "?w1\<lparr>au_db := deleteSession (as_tokenHash s) (au_db ?w1)\<rparr>"]
    by (intro exI [of _ token] exI [of _ s]) simp
qed

end
