(* ===== verification/ApiApp.thy ===== *)
theory ApiApp
  imports Replay Paging AuthHttp
begin

text \<open>
  The API as one program (\<open>packages/api/src/index.ts\<close>, \<open>routes/*.ts\<close>): the layers a request passes, in the order in
  which they are installed, and the handler it reaches.

  \<^item> Path matching is Express code, so it is a parameter: \<open>ex_exact pattern path\<close> gives the parameters of a route that
    matches the whole path, \<open>ex_mount pattern path\<close> those of a prefix and the rest of the path.
  \<^item> The body of a request is its JSON, \<open>{}\<close> without one, already within the size limit; the logger and the metrics listener do not
    change an answer.
  \<^item> The state holds the world of authentication and the world of the data handlers.
\<close>

section \<open>Requests and answers\<close>

record app_request =
  aq_method :: string
  aq_path :: string
  aq_origin :: "string option"
  aq_cookie :: "string option"
  aq_csrf :: "string option"
  aq_authorization :: "string option"
  aq_idempotency :: "string option"
  aq_query :: json
  aq_body :: json

record express =
  ex_exact :: "string \<Rightarrow> string \<Rightarrow> (string \<times> string) list option"
  ex_mount :: "string \<Rightarrow> string \<Rightarrow> ((string \<times> string) list \<times> string) option"

record app_world =
  ap_auth :: auth_world
  ap_data :: api_world

datatype endpoint =
  KeyList | KeyIssue | KeyRevoke | EventPost | DeliveryList | DeliverySummary | DeadLetterPage | PayloadRead | ReplayPost
| LoginBegin | LoginComplete | MeRead | LogoutPost

datatype app_answer =
  CorsAnswer nat "(string \<times> string) list"
| HealthAnswer
| AuthAnswer auth_reply
| RejectedAnswer auth_reply
| KeyAnswer auth_reply
| DataAnswer response
| DeliveriesAnswer "delivery page_result"
| SummaryAnswer delivery_summary
| DeadLettersAnswer "dead_letter page_result"
| PayloadAnswer archived_payload
| ReplayAnswer replay_response
| NotFoundAnswer

section \<open>Routes\<close>

definition authRoutes :: "(string \<times> string \<times> endpoint) list" where
  "authRoutes = [(''GET'', ''/github'', LoginBegin), (''GET'', ''/github/callback'', LoginComplete), (''GET'', ''/me'', MeRead),
     (''POST'', ''/logout'', LogoutPost)]"

definition apiKeysRoutes :: "(string \<times> string \<times> endpoint) list" where
  "apiKeysRoutes = [(''GET'', ''/tenants/:tenantId/api-keys'', KeyList), (''POST'', ''/tenants/:tenantId/api-keys'', KeyIssue),
     (''POST'', ''/tenants/:tenantId/api-keys/:keyId/revoke'', KeyRevoke)]"

definition eventsRoutes :: "(string \<times> string \<times> endpoint) list" where
  "eventsRoutes = [(''POST'', ''/events'', EventPost)]"

definition deliveryHistoryRoutes :: "(string \<times> string \<times> endpoint) list" where
  "deliveryHistoryRoutes = [(''GET'', ''/tenants/:tenantId/deliveries'', DeliveryList),
     (''GET'', ''/tenants/:tenantId/deliveries/summary'', DeliverySummary)]"

definition deadLettersRoutes :: "(string \<times> string \<times> endpoint) list" where
  "deadLettersRoutes = [(''GET'', ''/tenants/:tenantId/dead-letters'', DeadLetterPage),
     (''GET'', ''/tenants/:tenantId/dead-letters/:deadLetterId/payload'', PayloadRead),
     (''POST'', ''/tenants/:tenantId/dead-letters/:deadLetterId/replay'', ReplayPost)]"

definition tenantRoutes :: "(string \<times> string \<times> endpoint) list" where
  "tenantRoutes = apiKeysRoutes @ eventsRoutes @ deliveryHistoryRoutes @ deadLettersRoutes"

text \<open>A \<open>GET\<close> route also answers \<open>HEAD\<close>.\<close>

definition serves_method :: "string \<Rightarrow> string \<Rightarrow> bool" where
  "serves_method route m \<longleftrightarrow> route = m \<or> (route = ''GET'' \<and> m = ''HEAD'')"

fun find_route :: "express \<Rightarrow> string \<Rightarrow> string \<Rightarrow> (string \<times> string \<times> endpoint) list \<Rightarrow> (endpoint \<times> (string \<times> string) list) option" where
  "find_route ex m path [] = None"
| "find_route ex m path ((rm, pattern, e) # rest) =
     (if serves_method rm m
      then (case ex_exact ex pattern path of Some ps \<Rightarrow> Some (e, ps) | None \<Rightarrow> find_route ex m path rest)
      else find_route ex m path rest)"

section \<open>Layers\<close>

definition body_member :: "app_request \<Rightarrow> string \<Rightarrow> json option" where
  "body_member rq k = (case aq_body rq of JObj ms \<Rightarrow> map_of ms k | _ \<Rightarrow> None)"

definition base_request :: "app_request \<Rightarrow> json option \<Rightarrow> request" where
  "base_request rq pathTenant =
     \<lparr>rq_method = aq_method rq, rq_origin = aq_origin rq, rq_cookie = aq_cookie rq, rq_csrf = aq_csrf rq,
      rq_authorization = aq_authorization rq, rq_body_tenantId = body_member rq ''tenantId'', rq_path_tenantId = pathTenant\<rparr>"

definition param :: "(string \<times> string) list \<Rightarrow> string \<Rightarrow> json option" where
  "param ps k = map_option JStr (map_of ps k)"

definition on_auth :: "'a auth \<Rightarrow> (auth_exn, app_world, 'a) io" where
  "on_auth act = (\<lambda>w. case act (ap_auth w) of (r, a) \<Rightarrow> (r, w\<lparr>ap_auth := a\<rparr>))"

text \<open>The two guards \<open>installTenantAuthorization\<close> puts before the routers.\<close>

definition tenant_guards :: "express \<Rightarrow> auth_env \<Rightarrow> auth_config \<Rightarrow> app_request \<Rightarrow> unit auth" where
  "tenant_guards ex aenv config rq =
     andThen (if aq_method rq = ''POST'' \<and> ex_exact ex ''/events'' (aq_path rq) \<noteq> None
              then guard aenv config True (base_request rq None) else ret ()) (\<lambda>_.
     (case ex_mount ex ''/tenants/:tenantId'' (aq_path rq) of
        Some (ps, _) \<Rightarrow> guard aenv config False (base_request rq (param ps ''tenantId''))
      | None \<Rightarrow> ret ()))"

definition rejected :: "auth_exn \<Rightarrow> auth_reply" where
  "rejected e = \<lparr>ay_status = status (authFailure e), ay_headers = key_headers, ay_cookies = [], ay_location = None,
     ay_body = Some (ErrorBody (body (authFailure e)))\<rparr>"

definition serve_auth :: "auth_env \<Rightarrow> auth_config \<Rightarrow> app_request \<Rightarrow> endpoint \<Rightarrow> auth_world \<Rightarrow> auth_reply \<times> auth_world" where
  "serve_auth aenv config rq e =
     (case e of
        LoginBegin \<Rightarrow> beginRoute aenv config
      | LoginComplete \<Rightarrow> completeRoute aenv config (aq_query rq) (aq_cookie rq)
      | MeRead \<Rightarrow> meRoute aenv config (aq_cookie rq)
      | _ \<Rightarrow> logoutRoute aenv config (aq_cookie rq) (aq_origin rq) (aq_csrf rq))"

definition text_param :: "(string \<times> string) list \<Rightarrow> string \<Rightarrow> string" where
  "text_param ps k = (case map_of ps k of None \<Rightarrow> [] | Some v \<Rightarrow> v)"

definition serve_keys :: "auth_env \<Rightarrow> auth_config \<Rightarrow> app_request \<Rightarrow> endpoint \<Rightarrow> (string \<times> string) list \<Rightarrow> auth_world \<Rightarrow> auth_reply \<times> auth_world" where
  "serve_keys aenv config rq e ps =
     (case e of
        KeyIssue \<Rightarrow> issueRoute aenv config (aq_cookie rq) (text_param ps ''tenantId'') (aq_origin rq) (aq_csrf rq) (aq_body rq)
      | KeyList \<Rightarrow> listRoute aenv config (aq_cookie rq) (text_param ps ''tenantId'') (aq_query rq)
      | _ \<Rightarrow> revokeRoute aenv config (aq_cookie rq) (text_param ps ''tenantId'') (text_param ps ''keyId'') (aq_origin rq) (aq_csrf rq))"

definition answer_or :: "(api_exn \<Rightarrow> response) \<Rightarrow> ('a \<Rightarrow> app_answer) \<Rightarrow> api_exn + 'a \<Rightarrow> app_answer" where
  "answer_or failure answer r = (case r of Inl e \<Rightarrow> DataAnswer (failure e) | Inr x \<Rightarrow> answer x)"

definition getDeliveries :: "api_env \<Rightarrow> replica \<Rightarrow> (string \<times> string) list \<Rightarrow> json \<Rightarrow> app_answer" where
  "getDeliveries penv rep ps query = answer_or history_error DeliveriesAnswer (getDeliveryHistory penv rep (param ps ''tenantId'') (Some query))"

definition getSummary :: "api_env \<Rightarrow> replica \<Rightarrow> (string \<times> string) list \<Rightarrow> json \<Rightarrow> app_answer" where
  "getSummary penv rep ps query = answer_or summary_error SummaryAnswer (getDeliverySummary penv rep (param ps ''tenantId'') (Some query))"

definition getDeadLetterList :: "api_env \<Rightarrow> replica \<Rightarrow> (string \<times> string) list \<Rightarrow> json \<Rightarrow> app_answer" where
  "getDeadLetterList penv rep ps query = answer_or dead_letter_error DeadLettersAnswer (getDeadLetters penv rep (param ps ''tenantId'') (Some query))"

definition getPayload :: "api_env \<Rightarrow> replica \<Rightarrow> (string \<times> string) list \<Rightarrow> json \<Rightarrow> api_world \<Rightarrow> app_answer \<times> api_world" where
  "getPayload penv rep ps query a =
     apfst (answer_or dead_letter_error PayloadAnswer)
       (getDeadLetterPayload penv rep (param ps ''tenantId'') (param ps ''deadLetterId'') (Some query) a)"

definition postReplay :: "api_env \<Rightarrow> (string \<times> string) list \<Rightarrow> app_request \<Rightarrow> api_world \<Rightarrow> app_answer \<times> api_world" where
  "postReplay penv ps rq a =
     apfst (answer_or dead_letter_error ReplayAnswer)
       (requestReplay penv (param ps ''tenantId'') (param ps ''deadLetterId'') (map_option JStr (aq_idempotency rq))
          (Some (aq_body rq)) (Some (aq_query rq)) a)"

definition serve_data ::
  "api_env \<Rightarrow> replica \<Rightarrow> app_request \<Rightarrow> endpoint \<Rightarrow> (string \<times> string) list \<Rightarrow> api_world \<Rightarrow> app_answer \<times> api_world" where
  "serve_data penv rep rq e ps a =
     (case e of
        EventPost \<Rightarrow> apfst (answer_or ingest_error DataAnswer) (postEvent penv (Some (aq_body rq)) a)
      | DeliveryList \<Rightarrow> (getDeliveries penv rep ps (aq_query rq), a)
      | DeliverySummary \<Rightarrow> (getSummary penv rep ps (aq_query rq), a)
      | DeadLetterPage \<Rightarrow> (getDeadLetterList penv rep ps (aq_query rq), a)
      | PayloadRead \<Rightarrow> getPayload penv rep ps (aq_query rq) a
      | _ \<Rightarrow> postReplay penv ps rq a)"

definition serve_tenant ::
  "auth_env \<Rightarrow> api_env \<Rightarrow> replica \<Rightarrow> auth_config \<Rightarrow> app_request \<Rightarrow> endpoint \<Rightarrow> (string \<times> string) list \<Rightarrow> app_world \<Rightarrow> app_answer \<times> app_world" where
  "serve_tenant aenv penv rep config rq e ps w =
     (if e \<in> {KeyList, KeyIssue, KeyRevoke}
      then (case serve_keys aenv config rq e ps (ap_auth w) of (r, a) \<Rightarrow> (KeyAnswer r, w\<lparr>ap_auth := a\<rparr>))
      else (case serve_data penv rep rq e ps (ap_data w) of (r, d) \<Rightarrow> (r, w\<lparr>ap_data := d\<rparr>)))"

text \<open>The layers in the order of \<open>index.ts\<close>.\<close>

definition app_handle ::
  "express \<Rightarrow> auth_env \<Rightarrow> api_env \<Rightarrow> replica \<Rightarrow> auth_config \<Rightarrow> app_request \<Rightarrow> app_world \<Rightarrow> app_answer \<times> app_world" where
  "app_handle ex aenv penv rep config rq w =
     (case authCors config (base_request rq None) of
        CorsEnd n hs \<Rightarrow> (CorsAnswer n hs, w)
      | CorsNext hs \<Rightarrow>
          (case Option.bind (ex_mount ex ''/auth'' (aq_path rq)) (\<lambda>(_, rest). find_route ex (aq_method rq) rest authRoutes) of
             Some (e, _) \<Rightarrow> (case serve_auth aenv config rq e (ap_auth w) of (r, a) \<Rightarrow> (AuthAnswer r, w\<lparr>ap_auth := a\<rparr>))
           | None \<Rightarrow>
               if serves_method ''GET'' (aq_method rq) \<and> ex_exact ex ''/health'' (aq_path rq) \<noteq> None then (HealthAnswer, w)
               else (case tenant_guards ex aenv config rq (ap_auth w) of
                       (Inl e, a) \<Rightarrow> (RejectedAnswer (rejected e), w\<lparr>ap_auth := a\<rparr>)
                     | (Inr _, a) \<Rightarrow>
                         (case find_route ex (aq_method rq) (aq_path rq) tenantRoutes of
                            None \<Rightarrow> (NotFoundAnswer, w\<lparr>ap_auth := a\<rparr>)
                          | Some (e, ps) \<Rightarrow> serve_tenant aenv penv rep config rq e ps (w\<lparr>ap_auth := a\<rparr>)))))"

definition api_port :: "string option \<Rightarrow> jsnum" where
  "api_port v = (case v of None \<Rightarrow> Num 3000 | Some s \<Rightarrow> if s = [] then Num 3000 else js_Number s)"

section \<open>The connection to Redis\<close>

text \<open>One client for the process (\<open>packages/api/src/rate-limit.ts\<close>), created lazily; \<open>connect\<close> is the error of a
  connection attempt, \<open>event\<close> the error a client that is connecting reports, \<open>None\<close> when it becomes ready.\<close>

record redis_client =
  rc_url :: string
  rc_status :: string

definition requireRedisUrl :: "string option \<Rightarrow> exn + string" where
  "requireRedisUrl v =
     (case v of None \<Rightarrow> Inl (Error ''Missing required env var: REDIS_URL'')
      | Some u \<Rightarrow> if u = [] then Inl (Error ''Missing required env var: REDIS_URL'') else Inr u)"

definition redisClient :: "string option \<Rightarrow> redis_client option \<Rightarrow> exn + redis_client" where
  "redisClient v client =
     (case client of Some c \<Rightarrow> Inr c | None \<Rightarrow> bindE (requireRedisUrl v) (\<lambda>u. Inr \<lparr>rc_url = u, rc_status = ''wait''\<rparr>))"

definition readyRedisClient :: "string option \<Rightarrow> redis_client option \<Rightarrow> exn option \<Rightarrow> exn option \<Rightarrow> exn + redis_client" where
  "readyRedisClient v client connect event =
     bindE (redisClient v client) (\<lambda>c.
       if rc_status c = ''wait'' then (case connect of Some e \<Rightarrow> Inl e | None \<Rightarrow> Inr (c\<lparr>rc_status := ''ready''\<rparr>))
       else if rc_status c \<noteq> ''ready'' then (case event of Some e \<Rightarrow> Inl e | None \<Rightarrow> Inr (c\<lparr>rc_status := ''ready''\<rparr>))
       else Inr c)"

lemma readyRedisClient_ready: "readyRedisClient v client connect event = Inr c \<Longrightarrow> rc_status c = ''ready''"
  by (auto simp: readyRedisClient_def bindE_Inr split: if_splits option.splits)

section \<open>Every tenant endpoint is behind the guard\<close>

text \<open>The documented behaviour of Express the guards rely on: what a route under \<open>/tenants/:tenantId\<close> matches, the
  mounted guard matches too, with the same tenant; and \<open>/events\<close> is no path under it.\<close>

definition mounts_agree :: "express \<Rightarrow> bool" where
  "mounts_agree ex \<longleftrightarrow>
     (\<forall>(m, pattern, e) \<in> set tenantRoutes. \<forall>path ps. ex_exact ex pattern path = Some ps \<longrightarrow>
        (if e = EventPost then ex_mount ex ''/tenants/:tenantId'' path = None
         else (\<exists>qs rest. ex_mount ex ''/tenants/:tenantId'' path = Some (qs, rest) \<and> map_of qs ''tenantId'' = map_of ps ''tenantId'')))"

lemma find_route_Some:
  "find_route ex m path routes = Some (e, ps) \<Longrightarrow>
     \<exists>rm pattern. (rm, pattern, e) \<in> set routes \<and> serves_method rm m \<and> ex_exact ex pattern path = Some ps"
  by (induction ex m path routes rule: find_route.induct) (auto split: if_splits option.splits)

lemma event_route: "(rm, pattern, EventPost) \<in> set tenantRoutes \<longleftrightarrow> rm = ''POST'' \<and> pattern = ''/events''"
  by (simp add: tenantRoutes_def apiKeysRoutes_def eventsRoutes_def deliveryHistoryRoutes_def deadLettersRoutes_def)

text \<open>The tenant an endpoint acts for: that of the body for an event, that of the path otherwise.\<close>

definition acting_tenant :: "app_request \<Rightarrow> endpoint \<Rightarrow> (string \<times> string) list \<Rightarrow> json option" where
  "acting_tenant rq e ps = (if e = EventPost then body_member rq ''tenantId'' else param ps ''tenantId'')"

definition acting_request :: "app_request \<Rightarrow> endpoint \<Rightarrow> (string \<times> string) list \<Rightarrow> request" where
  "acting_request rq e ps = base_request rq (if e = EventPost then None else param ps ''tenantId'')"

lemma guard_tenant:
  assumes "guard env (Session settings) fromBody rq w = (Inr (), w')"
    and "v = (if fromBody then rq_body_tenantId rq else rq_path_tenantId rq)"
  shows "\<exists>tenantId t. v = Some (JStr tenantId) \<and> au_now w \<le> t \<and> t \<le> au_now w' \<and> access_proved env settings fromBody rq (au_db w') t tenantId"
  using guard_admission [OF assms(1)] assms(2) by (auto simp: uuid_param_def split: option.splits json.splits if_splits)

lemma guards_tenant:
  assumes "mounts_agree ex" and r: "find_route ex (aq_method rq) (aq_path rq) tenantRoutes = Some (e, ps)"
    and g: "tenant_guards ex aenv (Session settings) rq w = (Inr (), w')"
  shows "\<exists>tenantId t. acting_tenant rq e ps = Some (JStr tenantId) \<and> au_now w \<le> t \<and> t \<le> au_now w'
    \<and> access_proved aenv settings (e = EventPost) (acting_request rq e ps) (au_db w') t tenantId"
proof -
  obtain rm pattern where route: "(rm, pattern, e) \<in> set tenantRoutes" "serves_method rm (aq_method rq)"
    "ex_exact ex pattern (aq_path rq) = Some ps"
    using find_route_Some [OF r] by blast
  have agree: "if e = EventPost then ex_mount ex ''/tenants/:tenantId'' (aq_path rq) = None
      else (\<exists>qs rest. ex_mount ex ''/tenants/:tenantId'' (aq_path rq) = Some (qs, rest) \<and> map_of qs ''tenantId'' = map_of ps ''tenantId'')"
    using assms(1) route(1,3) unfolding mounts_agree_def by fastforce
  from g obtain w1 where first: "(if aq_method rq = ''POST'' \<and> ex_exact ex ''/events'' (aq_path rq) \<noteq> None
        then guard aenv (Session settings) True (base_request rq None) else ret ()) w = (Inr (), w1)"
    and second: "(case ex_mount ex ''/tenants/:tenantId'' (aq_path rq) of
        Some (qs, _) \<Rightarrow> guard aenv (Session settings) False (base_request rq (param qs ''tenantId'')) | None \<Rightarrow> ret ()) w1 = (Inr (), w')"
    unfolding tenant_guards_def by (auto simp: andThen_Inr_iff)
  show ?thesis
  proof (cases "e = EventPost")
    case True
    then have "rm = ''POST''" "pattern = ''/events''" using route(1) event_route by auto
    then have "aq_method rq = ''POST'' \<and> ex_exact ex ''/events'' (aq_path rq) \<noteq> None" using route(2,3) by (simp add: serves_method_def)
    then have g1: "guard aenv (Session settings) True (base_request rq None) w = (Inr (), w1)" using first by simp
    have "w' = w1" using second agree True by simp
    then show ?thesis using guard_tenant [OF g1 refl] True by (simp add: acting_tenant_def acting_request_def base_request_def)
  next
    case False
    then obtain qs rest where m: "ex_mount ex ''/tenants/:tenantId'' (aq_path rq) = Some (qs, rest)" "map_of qs ''tenantId'' = map_of ps ''tenantId''"
      using agree by auto
    have g2: "guard aenv (Session settings) False (base_request rq (param ps ''tenantId'')) w1 = (Inr (), w')"
      using second m by (simp add: param_def)
    have "au_now w \<le> au_now w1"
    proof (cases "aq_method rq = ''POST'' \<and> ex_exact ex ''/events'' (aq_path rq) \<noteq> None")
      case True
      then show ?thesis using guard_admission [of aenv settings True "base_request rq None" w w1] first by fastforce
    next
      case False
      then show ?thesis using first by auto
    qed
    note later = this
    from guard_tenant [OF g2 refl] obtain tenantId t where "param ps ''tenantId'' = Some (JStr tenantId)" "au_now w1 \<le> t" "t \<le> au_now w'"
      "access_proved aenv settings False (base_request rq (param ps ''tenantId'')) (au_db w') t tenantId"
      by (auto simp: base_request_def)
    then show ?thesis using False later
      by (intro exI [of _ tenantId] exI [of _ t]) (simp add: acting_tenant_def acting_request_def)
  qed
qed

fun tenant_answer :: "app_answer \<Rightarrow> bool" where
  "tenant_answer (CorsAnswer _ _) = False"
| "tenant_answer HealthAnswer = False"
| "tenant_answer (AuthAnswer _) = False"
| "tenant_answer (RejectedAnswer _) = False"
| "tenant_answer NotFoundAnswer = False"
| "tenant_answer _ = True"

text \<open>C19: In session mode, whenever the API answers from a tenant endpoint or its data changes, the request carried a proof
  of access to the very tenant that endpoint acts for, accepted by the guard before the handler ran: the body's tenant
  for an event, the path's tenant for everything else.\<close>

theorem tenant_requests_are_authorized:
  assumes "mounts_agree ex" "app_handle ex aenv penv rep (Session settings) rq w = (ans, w')"
    and "tenant_answer ans \<or> ap_data w' \<noteq> ap_data w"
  shows "\<exists>e ps (a :: auth_world) tenantId t. find_route ex (aq_method rq) (aq_path rq) tenantRoutes = Some (e, ps)
    \<and> tenant_guards ex aenv (Session settings) rq (ap_auth w) = (Inr (), a)
    \<and> acting_tenant rq e ps = Some (JStr tenantId) \<and> au_now (ap_auth w) \<le> t \<and> t \<le> au_now a
    \<and> access_proved aenv settings (e = EventPost) (acting_request rq e ps) (au_db a) t tenantId"
proof -
  obtain e ps a where r: "find_route ex (aq_method rq) (aq_path rq) tenantRoutes = Some (e, ps)"
    and g: "tenant_guards ex aenv (Session settings) rq (ap_auth w) = (Inr (), a)"
    using assms(2,3) unfolding app_handle_def
    by (auto split: cors.splits option.splits if_splits prod.splits sum.splits)
  show ?thesis using r g guards_tenant [OF assms(1) r g] by blast
qed

section \<open>Example\<close>

text \<open>Matching by segments, with a parameter for each segment that begins with a colon.\<close>

fun match_segments :: "string list \<Rightarrow> string list \<Rightarrow> ((string \<times> string) list \<times> string list) option" where
  "match_segments [] ss = Some ([], ss)"
| "match_segments (p # ps) [] = None"
| "match_segments (p # ps) (s # ss) =
     (if take 1 p = '':'' then (if s = [] then None else map_option (apfst ((#) (drop 1 p, s))) (match_segments ps ss))
      else if p = s then match_segments ps ss else None)"

definition segment_express :: express where
  "segment_express =
     \<lparr>ex_exact = (\<lambda>pattern path. case match_segments (split_on (CHR ''/'') pattern) (split_on (CHR ''/'') path) of
        Some (ps, []) \<Rightarrow> Some ps | _ \<Rightarrow> None),
      ex_mount = (\<lambda>pattern path. map_option (apsnd (\<lambda>ss. CHR ''/'' # join_with ''/'' ss))
        (match_segments (split_on (CHR ''/'') pattern) (split_on (CHR ''/'') path)))\<rparr>"

lemma match_tenant:
  "match_segments ([[], ''tenants'', '':tenantId''] @ tail) ss = Some (ps, rest) \<Longrightarrow>
     \<exists>t us. match_segments [[], ''tenants'', '':tenantId''] ss = Some ([(''tenantId'', t)], us) \<and> map_of ps ''tenantId'' = Some t"
  by (cases ss; cases "tl ss"; cases "tl (tl ss)") (auto split: if_splits)

lemma route_segments:
  "(m, pattern, e) \<in> set tenantRoutes \<Longrightarrow>
     (e = EventPost \<and> split_on (CHR ''/'') pattern = [[], ''events''])
     \<or> (e \<noteq> EventPost \<and> (\<exists>tail. split_on (CHR ''/'') pattern = [[], ''tenants'', '':tenantId''] @ tail))"
  by (auto simp: tenantRoutes_def apiKeysRoutes_def eventsRoutes_def deliveryHistoryRoutes_def deadLettersRoutes_def)

lemma segment_express_agrees: "mounts_agree segment_express"
proof -
  have t: "split_on (CHR ''/'') ''/tenants/:tenantId'' = [[], ''tenants'', '':tenantId'']" by simp
  {
    fix m pattern e path ps
    assume r: "(m, pattern, e) \<in> set tenantRoutes" and x: "ex_exact segment_express pattern path = Some ps"
    from x have match: "match_segments (split_on (CHR ''/'') pattern) (split_on (CHR ''/'') path) = Some (ps, [])"
      by (auto simp: segment_express_def split: option.splits prod.splits list.splits)
    have "if e = EventPost then ex_mount segment_express ''/tenants/:tenantId'' path = None
      else (\<exists>qs rest. ex_mount segment_express ''/tenants/:tenantId'' path = Some (qs, rest) \<and> map_of qs ''tenantId'' = map_of ps ''tenantId'')"
    proof (cases "e = EventPost")
      case True
      then have "match_segments [[], ''events''] (split_on (CHR ''/'') path) = Some (ps, [])" using match route_segments [OF r] by auto
      then have "split_on (CHR ''/'') path = [[], ''events'']"
        by (cases "split_on (CHR ''/'') path"; cases "tl (split_on (CHR ''/'') path)") (auto split: if_splits)
      then show ?thesis using True t by (simp add: segment_express_def)
    next
      case False
      then obtain tail where "split_on (CHR ''/'') pattern = [[], ''tenants'', '':tenantId''] @ tail" using route_segments [OF r] by blast
      from match_tenant [OF match [unfolded this]] show ?thesis using False t by (auto simp: segment_express_def)
    qed
  }
  then show ?thesis unfolding mounts_agree_def by blast
qed

text \<open>An event a member of the tenant posts from the website.\<close>

definition example_app_request :: app_request where
  "example_app_request = \<lparr>aq_method = ''POST'', aq_path = ''/events'', aq_origin = Some ''http://localhost:3001'',
     aq_cookie = Some (''waybill-session='' @ example_token), aq_csrf = Some example_token, aq_authorization = None,
     aq_idempotency = None, aq_query = JObj [], aq_body = JObj [(''tenantId'', JStr ''t'')]\<rparr>"

lemma example_app_route:
  "find_route segment_express (aq_method example_app_request) (aq_path example_app_request) tenantRoutes = Some (EventPost, [])"
  by (simp add: example_app_request_def tenantRoutes_def apiKeysRoutes_def eventsRoutes_def deliveryHistoryRoutes_def serves_method_def
      segment_express_def)

lemma example_app_base: "base_request example_app_request None = example_request"
  by (simp add: base_request_def example_app_request_def example_request_def body_member_def)

lemma example_app_tenant: "acting_tenant example_app_request EventPost [] = Some (JStr ''t'')"
  by (simp add: acting_tenant_def body_member_def example_app_request_def)

lemma example_app_answered:
  "tenant_answer (fst (app_handle segment_express auth_example list_env example_replica (Session example_settings) example_app_request
     \<lparr>ap_auth = example_auth_world, ap_data = replay_start\<rparr>))"
proof -
  have cors: "authCors (Session example_settings) (base_request example_app_request None)
      = CorsNext [(''Vary'', ''Origin''), (''Access-Control-Allow-Origin'', ''http://localhost:3001''), (''Access-Control-Allow-Credentials'', ''true'')]"
    by (simp add: authCors_def example_settings_def base_request_def example_app_request_def)
  have paths: "ex_mount segment_express ''/auth'' ''/events'' = None" "ex_exact segment_express ''/events'' ''/events'' = Some []"
    "ex_mount segment_express ''/tenants/:tenantId'' ''/events'' = None"
    by (simp_all add: segment_express_def)
  have route: "find_route segment_express ''POST'' ''/events'' tenantRoutes = Some (EventPost, [])"
    using example_app_route by (simp add: example_app_request_def)
  have rq: "aq_path example_app_request = ''/events''" "aq_method example_app_request = ''POST''" by (simp_all add: example_app_request_def)
  obtain a where guard: "guard auth_example (Session example_settings) True example_request example_auth_world = (Inr (), a)"
    using example_admitted by (metis prod.collapse)
  then have guards: "tenant_guards segment_express auth_example (Session example_settings) example_app_request example_auth_world = (Inr (), a)"
    by (simp add: tenant_guards_def example_app_base rq paths andThen_def)
  have "tenant_answer (answer_or ingest_error DataAnswer r)" for r by (simp add: answer_or_def split: sum.splits)
  then show ?thesis
    by (simp add: app_handle_def cors guards rq paths route serves_method_def serve_tenant_def serve_data_def case_prod_beta)
qed

theorem tenant_requests_are_authorized_witness:
  "\<exists>d t. access_proved auth_example example_settings True example_request d t ''t'' \<and> 5 \<le> t"
proof -
  let ?w = "\<lparr>ap_auth = example_auth_world, ap_data = replay_start\<rparr>"
  obtain ans w' where run: "app_handle segment_express auth_example list_env example_replica (Session example_settings) example_app_request ?w = (ans, w')"
    by (cases "app_handle segment_express auth_example list_env example_replica (Session example_settings) example_app_request ?w")
  with example_app_answered have "tenant_answer ans \<or> ap_data w' \<noteq> ap_data ?w" by simp
  from tenant_requests_are_authorized [OF segment_express_agrees run this] obtain e ps tenantId t and a :: auth_world where
    f: "find_route segment_express (aq_method example_app_request) (aq_path example_app_request) tenantRoutes = Some (e, ps)"
    "acting_tenant example_app_request e ps = Some (JStr tenantId)" "au_now (ap_auth ?w) \<le> t"
    "access_proved auth_example example_settings (e = EventPost) (acting_request example_app_request e ps) (au_db a) t tenantId"
    by blast
  have e: "e = EventPost" "ps = []" using f(1) unfolding example_app_route by simp_all
  have "tenantId = ''t''" using f(2) unfolding e example_app_tenant by simp
  then have "access_proved auth_example example_settings True example_request (au_db a) t ''t''" "5 \<le> t"
    using f(3,4) e by (simp_all add: acting_request_def example_app_base example_auth_world_def)
  then show ?thesis by blast
qed

end
