(* ===== verification/WorkerLemmas.thy ===== *)
theory WorkerLemmas
  imports Worker
begin

text \<open>
  Rules for reasoning about the worker's handler.  Most assertions are about three parts of the
  world, the database, the deleted receipts and the webhook calls made: \<open>core P\<close>.  Each operation of the
  handler gets one rule saying how it acts on them; the clock, the leases, the metrics, the Redis
  structures and the object store do not appear.
\<close>

definition core :: "(database \<Rightarrow> string list \<Rightarrow> post list \<Rightarrow> bool) \<Rightarrow> world \<Rightarrow> bool" where
  "core P w \<longleftrightarrow> P (db w) (deleted w) (posts w)"

lemma core_simps [simp]:
  "core P (w\<lparr>now := t\<rparr>) = core P w" "core P (w\<lparr>circuits := c\<rparr>) = core P w" "core P (w\<lparr>buckets := b\<rparr>) = core P w"
  "core P (w\<lparr>objects := ob\<rparr>) = core P w" "core P (w\<lparr>hidden_until := h\<rparr>) = core P w"
  "core P (w\<lparr>held := ls\<rparr>) = core P w" "core P (w\<lparr>metrics := ms\<rparr>) = core P w"
  by (simp_all add: core_def)

section \<open>Calls to services\<close>

lemma keeps_tick_for:
  "(\<And>w t. P w \<Longrightarrow> P (w\<lparr>now := t\<rparr>)) \<Longrightarrow> keeps P m \<Longrightarrow> keeps P (tick_for env c m)"
  unfolding tick_for_def by (intro keeps_intros) auto

lemma keeps_service:
  "(\<And>w t. P w \<Longrightarrow> P (w\<lparr>now := t\<rparr>)) \<Longrightarrow> keeps P m \<Longrightarrow> keeps P (service env c m)"
  unfolding service_def by (intro keeps_tick_for keeps_external)

lemma keeps_send:
  "(\<And>w t. P w \<Longrightarrow> P (w\<lparr>now := t\<rparr>)) \<Longrightarrow> keeps P m \<Longrightarrow> keeps P (sendWithTimeout env c m l)"
  unfolding sendWithTimeout_def
  by (rule keeps_tick_for) (auto simp: keeps_def split: Prelude.outcome.splits)

lemma keeps_recordMetric:
  "(\<And>w ms. P w \<Longrightarrow> P (w\<lparr>metrics := ms\<rparr>)) \<Longrightarrow> keeps P (recordMetric env m)"
  unfolding recordMetric_def by (intro keeps_modify) auto

lemma keeps_observe:
  "(\<And>w ms. P w \<Longrightarrow> P (w\<lparr>metrics := ms\<rparr>)) \<Longrightarrow> keeps P m \<Longrightarrow> keeps P (observeSqsOperation env op m f)"
  unfolding observeSqsOperation_def by (intro keeps_intros keeps_recordMetric) auto

lemma triple_tick_for:
  "(\<And>w t. P w \<Longrightarrow> P (w\<lparr>now := t\<rparr>)) \<Longrightarrow> triple P m Q E \<Longrightarrow> triple P (tick_for env c m) Q E"
  unfolding tick_for_def by (rule triple_andThen [where R = "\<lambda>_. P"]) (auto intro: triple_modify)

lemma triple_service:
  assumes "\<And>w t. P w \<Longrightarrow> P (w\<lparr>now := t\<rparr>)" and "triple P m Q E"
    and "\<And>w. P w \<Longrightarrow> E w" and "\<And>x w. Q x w \<Longrightarrow> E w"
  shows "triple P (service env c m) Q E"
  unfolding service_def using assms by (intro triple_tick_for triple_external)

lemma triple_send:
  assumes "\<And>w t. P w \<Longrightarrow> P (w\<lparr>now := t\<rparr>)" and "triple P m Q E"
    and "\<And>w. P w \<Longrightarrow> E w" and "\<And>x w. Q x w \<Longrightarrow> E w"
  shows "triple P (sendWithTimeout env c m l) Q E"
  unfolding sendWithTimeout_def
proof (intro triple_tick_for assms(1))
  show "triple P (case outcome env c of Completes \<Rightarrow> m
      | Refused ae \<Rightarrow> throw (timeout_message l AWS_TIMEOUT_MS ae)
      | Unconfirmed ae \<Rightarrow> (\<lambda>w. (Inl (timeout_message l AWS_TIMEOUT_MS ae), snd (m w)))) Q E"
  proof (cases "outcome env c")
    case (Unconfirmed ae)
    have "E (snd (m w))" if "P w" for w
      using tripleD [OF assms(2) that] assms(4) by (auto split: prod.splits sum.splits)
    with Unconfirmed show ?thesis by (simp add: triple_def)
  qed (use assms in \<open>auto intro: triple_throw\<close>)
qed

lemma triple_observe:
  assumes "triple P m Q E" and "\<And>x w ms. Q x w \<Longrightarrow> Q x (w\<lparr>metrics := ms\<rparr>)" and "\<And>w ms. E w \<Longrightarrow> E (w\<lparr>metrics := ms\<rparr>)"
  shows "triple P (observeSqsOperation env op m f) Q E"
  unfolding observeSqsOperation_def
proof (rule triple_andThen)
  show "triple P (catching m (\<lambda>e. andThen (recordMetric env (SqsMetric op False)) (\<lambda>_. throw e))) Q E"
    by (rule triple_catching [OF assms(1)], rule triple_andThen [where R = "\<lambda>_. E"])
      (auto simp: recordMetric_def intro!: triple_modify triple_throw assms(3))
  show "triple (Q x) (andThen (recordMetric env (SqsMetric op (f x))) (\<lambda>_. ret x)) Q E" for x
    by (rule triple_andThen [where R = "\<lambda>_. Q x"])
      (auto simp: recordMetric_def intro!: triple_modify triple_ret assms(2))
qed

text \<open>A query: what it reads and writes is in the database.\<close>

lemma triple_db_service:
  assumes "\<And>d del ps. P d del ps \<Longrightarrow> E d del ps"
    and "\<And>t d del ps x d'. P d del ps \<Longrightarrow> m t d = Inr (x, d') \<Longrightarrow> Q x d' del ps \<and> E d' del ps"
  shows "triple (core P) (service env c (\<lambda>w. db_act (m (now w)) w)) (\<lambda>x. core (Q x)) (core E)"
proof -
  have "triple (core P) (service env c (\<lambda>w. db_act (m (now w)) w))
      (\<lambda>x w. core (Q x) w \<and> core E w) (core E)"
    by (rule triple_service)
      (use assms in \<open>auto simp: triple_def db_act_def core_def split: sum.splits prod.splits\<close>)
  then show ?thesis by (rule triple_conseq) auto
qed

lemma triple_db_service_plain:
  assumes "\<And>d del ps. P d del ps \<Longrightarrow> E d del ps"
    and "\<And>d del ps x d'. P d del ps \<Longrightarrow> m d = Inr (x, d') \<Longrightarrow> Q x d' del ps \<and> E d' del ps"
  shows "triple (core P) (service env c (db_act m)) (\<lambda>x. core (Q x)) (core E)"
  using triple_db_service [of P E "\<lambda>_. m" Q env c] assms by simp

lemma triple_read_service:
  assumes "\<And>d del ps. P d del ps \<Longrightarrow> E d del ps"
  shows "triple (core P) (service env c (reading (\<lambda>w. f (db w)))) (\<lambda>x. core (\<lambda>d del ps. P d del ps \<and> x = f d)) (core E)"
  by (rule triple_service) (use assms in \<open>auto simp: triple_def core_def\<close>)

section \<open>Operations that leave the core alone\<close>

named_theorems core_frames \<open>operations that keep every assertion on the core\<close>

lemma core_recordMetric [core_frames]: "keeps (core P) (recordMetric env m)"
  by (rule keeps_recordMetric) simp

lemma core_releaseLease [core_frames]: "keeps (core P) (releaseLease env r)"
  unfolding releaseLease_def by (intro keeps_tick_for keeps_modify) auto

lemma core_readCircuit [core_frames]: "keeps (core P) (readCircuit env u)"
  unfolding readCircuit_def by (intro keeps_service keeps_reading) auto

lemma core_consumeDeliveryToken [core_frames]: "keeps (core P) (consumeDeliveryToken env t)"
  unfolding consumeDeliveryToken_def
  by (intro keeps_service) (auto simp: keeps_def split: prod.splits)

lemma core_markProbe [core_frames]: "keeps (core P) (markProbe env u)"
  unfolding markProbe_def by (intro keeps_service keeps_modify) auto

lemma core_recordCircuit [core_frames]: "keeps (core P) (recordCircuit env f u)"
  unfolding recordCircuit_def by (intro keeps_service) (auto simp: keeps_def split: prod.splits)

lemma core_changeVisibility [core_frames]: "keeps (core P) (changeVisibility r s)"
  unfolding changeVisibility_def by (cases s) (auto simp: keeps_def)

lemma core_hideUntil [core_frames]: "keeps (core P) (hideUntil env r d reason)"
  unfolding hideUntil_def
  by (intro keeps_intros keeps_observe keeps_send core_frames) auto

lemma core_requireBucket [core_frames]: "keeps (core P) (requireBucket env)"
  unfolding requireBucket_def by (auto intro: keeps_intros)

lemma core_loadPayload [core_frames]: "keeps (core P) (loadPayload env m)"
  unfolding loadPayload_def Let_def
  by (intro keeps_intros keeps_send core_frames) (auto simp: keeps_def split: option.splits)

lemma core_archivePayload [core_frames]: "keeps (core P) (archivePayload env m)"
  unfolding archivePayload_def Let_def
  by (intro keeps_intros keeps_send core_frames) auto

lemma core_prepareWebhook [core_frames]: "keeps (core P) (prepareWebhook env m)"
  unfolding prepareWebhook_def
  by (intro keeps_intros keeps_service core_frames) (auto simp: keeps_def)


section \<open>Operations that change the core\<close>

lemma triple_acknowledge:
  assumes "\<And>d del ps. P d del ps \<Longrightarrow> E d del ps \<and> E d (del @ [r]) ps \<and> Q d (del @ [r]) ps"
  shows "triple (core P) (acknowledgeMessage env r) (\<lambda>_. core Q) (core E)"
  unfolding acknowledgeMessage_def
proof (rule triple_andThen [where R = "\<lambda>_. core P"])
  show "triple (core P) (releaseLease env r) (\<lambda>_. core P) (core E)"
    by (rule triple_frame [OF core_releaseLease]) (use assms in \<open>auto simp: core_def\<close>)
  show "triple (core P) (observeSqsOperation env Delete
      (sendWithTimeout env DeleteMessage (modify (\<lambda>w. w\<lparr>deleted := deleted w @ [r]\<rparr>)) ''SQS DeleteMessage'') (\<lambda>_. True))
      (\<lambda>_. core Q) (core E)" for x :: unit
  proof -
    let ?B = "\<lambda>_ w. core Q w \<and> core E w"
    have m: "triple (core P) (modify (\<lambda>w. w\<lparr>deleted := deleted w @ [r]\<rparr>)) ?B (core E)"
      by (rule triple_modify) (use assms in \<open>auto simp: core_def\<close>)
    have "triple (core P) (sendWithTimeout env DeleteMessage (modify (\<lambda>w. w\<lparr>deleted := deleted w @ [r]\<rparr>))
        ''SQS DeleteMessage'') ?B (core E)"
      by (rule triple_send [OF _ m]) (use assms in \<open>auto simp: core_def\<close>)
    then show ?thesis
      by (intro triple_observe) (auto elim!: triple_conseq)
  qed
qed

lemma triple_postWebhook:
  assumes "\<And>d del ps s. P d del ps \<Longrightarrow> signWebhook (digest env) (stringify body) secret = Inr s \<Longrightarrow>
      Q d del (ps @ [\<lparr>po_url = url, po_body = stringify body, po_signature = s\<rparr>])"
    and "\<And>d del ps. P d del ps \<Longrightarrow> Q d del ps"
  shows "triple (core P) (postWebhook env url body secret) (\<lambda>_. core Q) (core E)"
proof (cases "signWebhook (digest env) (stringify body) secret")
  case (Inl e)
  then show ?thesis using assms(2) by (auto simp: postWebhook_def Let_def core_def intro!: triple_ret)
next
  case (Inr s)
  show ?thesis
    unfolding postWebhook_def Let_def Inr sum.case
    by (intro triple_tick_for triple_andThen [where R = "\<lambda>_. core Q"] triple_modify)
      (use assms Inr in \<open>auto simp: core_def intro!: triple_ret split: fetch_result.splits\<close>)
qed

lemma triple_upsertDelivery:
  assumes "\<And>d del ps. P d del ps \<Longrightarrow> E d del ps \<and> E (racing env d) del ps"
    and "\<And>t d del ps x d'. P d del ps \<Longrightarrow>
      writeInFlight (findByEventAndUrl (qm_eventId m) u d) (qm_eventId m) (qm_tenantId m) u t (racing env d) = Inr (x, d') \<Longrightarrow>
      Q x d' del ps \<and> E d' del ps"
  shows "triple (core P) (upsertDelivery env m u) (\<lambda>x. core (Q x)) (core E)"
  unfolding upsertDelivery_def
proof (rule triple_andThen)
  show "triple (core P) (service env FindForUpsert (reading (\<lambda>w. findByEventAndUrl (qm_eventId m) u (db w))))
      (\<lambda>ex. core (\<lambda>d del ps. P d del ps \<and> ex = findByEventAndUrl (qm_eventId m) u d)) (core E)"
    by (rule triple_read_service) (use assms(1) in blast)
  let ?race = "\<lambda>ex d2 del ps. \<exists>d. P d del ps \<and> ex = findByEventAndUrl (qm_eventId m) u d \<and> d2 = racing env d"
  show "triple (core (\<lambda>d del ps. P d del ps \<and> ex = findByEventAndUrl (qm_eventId m) u d))
      (andThen (modify (\<lambda>w. w\<lparr>db := racing env (db w)\<rparr>)) (\<lambda>_. service env WriteInFlight
        (\<lambda>w. db_act (writeInFlight ex (qm_eventId m) (qm_tenantId m) u (now w)) w))) (\<lambda>x. core (Q x)) (core E)" for ex
  proof (rule triple_andThen [where R = "\<lambda>_. core (?race ex)"])
    show "triple (core (\<lambda>d del ps. P d del ps \<and> ex = findByEventAndUrl (qm_eventId m) u d))
        (modify (\<lambda>w. w\<lparr>db := racing env (db w)\<rparr>)) (\<lambda>_. core (?race ex)) (core E)"
      by (rule triple_modify) (auto simp: core_def)
    show "triple (core (?race ex)) (service env WriteInFlight
        (\<lambda>w. db_act (writeInFlight ex (qm_eventId m) (qm_tenantId m) u (now w)) w)) (\<lambda>x. core (Q x)) (core E)" for x :: unit
      by (rule triple_db_service) (use assms in auto)
  qed
qed

lemma triple_moveToDeadLetter:
  assumes "\<And>d del ps. P d del ps \<Longrightarrow> E d del ps"
    and "\<And>d del ps key t l d'. P d del ps \<Longrightarrow>
      createDeadLetter (dead_letter_input dl u err key t) d = Inr (l, d') \<Longrightarrow> R d' del ps \<and> E d' del ps"
    and "\<And>d del ps x d'. R d del ps \<Longrightarrow> markDeadLettered (dl_id dl) err d = Inr (x, d') \<Longrightarrow>
      E d' del ps \<and> E d' (del @ [r]) ps \<and> Q d' (del @ [r]) ps"
    and "\<And>d del ps. R d del ps \<Longrightarrow> E d del ps"
  shows "triple (core P) (moveToDeadLetter env dl u err m r) (\<lambda>_. core Q) (core E)"
  unfolding moveToDeadLetter_def
proof (rule triple_andThen [where R = "\<lambda>_. core P"])
  show "triple (core P) (archivePayload env m) (\<lambda>_. core P) (core E)"
    by (rule triple_frame [OF core_archivePayload]) (use assms(1) in \<open>auto simp: core_def\<close>)
  let ?S = "\<lambda>d del ps. E d del ps \<and> E d (del @ [r]) ps \<and> Q d (del @ [r]) ps"
  let ?written = "\<lambda>key. service env WriteDeadLetter (\<lambda>w. db_act (createDeadLetter (dead_letter_input dl u err key (now w))) w)"
  fix key
  show "triple (core P) (andThen (?written key) (\<lambda>_.
      andThen (service env WriteStatus (db_act (markDeadLettered (dl_id dl) err))) (\<lambda>_.
      andThen (recordMetric env (TerminalMetric DeadLettered)) (\<lambda>_. acknowledgeMessage env r)))) (\<lambda>_. core Q) (core E)"
  proof (rule triple_andThen [where R = "\<lambda>_. core R"])
    show "triple (core P) (?written key) (\<lambda>_. core R) (core E)"
      by (rule triple_db_service) (use assms in auto)
    show "triple (core R) (andThen (service env WriteStatus (db_act (markDeadLettered (dl_id dl) err))) (\<lambda>_.
        andThen (recordMetric env (TerminalMetric DeadLettered)) (\<lambda>_. acknowledgeMessage env r))) (\<lambda>_. core Q) (core E)"
      for l :: dead_letter
    proof (rule triple_andThen [where R = "\<lambda>_. core ?S"])
      show "triple (core R) (service env WriteStatus (db_act (markDeadLettered (dl_id dl) err))) (\<lambda>_. core ?S) (core E)"
        by (rule triple_db_service_plain) (use assms in auto)
      show "triple (core ?S) (andThen (recordMetric env (TerminalMetric DeadLettered)) (\<lambda>_. acknowledgeMessage env r))
          (\<lambda>_. core Q) (core E)" for x :: delivery
        by (rule triple_andThen [where R = "\<lambda>_. core ?S"])
          (auto intro!: triple_acknowledge triple_frame [OF core_recordMetric] simp: core_def)
    qed
  qed
qed

lemma triple_scheduleRetry:
  assumes "\<And>d del ps. P d del ps \<Longrightarrow> E d del ps"
    and "\<And>when d del ps x d'. P d del ps \<Longrightarrow> markFailed i err when d = Inr (x, d') \<Longrightarrow> Q d' del ps \<and> E d' del ps"
  shows "triple (core P) (scheduleRetry env i n err r reason) (\<lambda>_. core Q) (core E)"
  unfolding scheduleRetry_def
proof (rule triple_andThen [where R = "\<lambda>_. core P"])
  show "triple (core P) (reading now) (\<lambda>_. core P) (core E)"
    by (auto intro: triple_reading)
  let ?S = "\<lambda>d del ps. Q d del ps \<and> E d del ps"
  show "triple (core P)
      (let when = nextAttemptAt (random env) n t; delay = max (when - t) 1000
       in andThen (service env WriteStatus (db_act (markFailed i err when))) (\<lambda>_.
          andThen (recordMetric env (RetryMetric reason)) (\<lambda>_.
          andThen (hideUntil env r (Num (of_int delay)) None) (\<lambda>_. ret when)))) (\<lambda>_. core Q) (core E)" for t
    unfolding Let_def
  proof (rule triple_andThen [where R = "\<lambda>_. core ?S"])
    show "triple (core P) (service env WriteStatus (db_act (markFailed i err (nextAttemptAt (random env) n t))))
        (\<lambda>_. core ?S) (core E)"
      by (rule triple_db_service_plain) (use assms in auto)
    show "triple (core ?S) (andThen (recordMetric env (RetryMetric reason)) (\<lambda>_.
          andThen (hideUntil env r (Num (of_int (max (nextAttemptAt (random env) n t - t) 1000))) None)
            (\<lambda>_. ret (nextAttemptAt (random env) n t)))) (\<lambda>_. core Q) (core E)" for x :: delivery
      by (rule triple_andThen [where R = "\<lambda>_. core ?S"], rule triple_frame [OF core_recordMetric],
          simp_all add: core_def, rule triple_andThen [where R = "\<lambda>_. core ?S"],
          rule triple_frame [OF core_hideUntil])
        (auto simp: core_def intro!: triple_ret)
  qed
qed

section \<open>The handler\<close>

lemma triple_failAttempt:
  assumes "\<And>d del ps. B d del ps \<Longrightarrow> E d del ps"
    and "triple (core B) (moveToDeadLetter env x u err m r) (\<lambda>_. core Q) (core E)"
    and "triple (core B) (scheduleRetry env (dl_id x) (dl_attemptCount x) err r reason) (\<lambda>_. core Q) (core E)"
  shows "triple (core B) (failAttempt env x u err m r reason) (\<lambda>res w. res = None \<and> core Q w) (core E)"
  unfolding failAttempt_def
proof (rule triple_andThen [where R = "\<lambda>_. core B"])
  show "triple (core B) (lift_sum (isExhausted (max_attempts env) (dl_attemptCount x))) (\<lambda>_. core B) (core E)"
    using assms(1) by (auto simp: triple_def core_def split: sum.splits)
  show "triple (core B) (if exhausted
      then andThen (moveToDeadLetter env x u err m r) (\<lambda>_. ret None)
      else andThen (scheduleRetry env (dl_id x) (dl_attemptCount x) err r reason) (\<lambda>_. ret None))
      (\<lambda>res w. res = None \<and> core Q w) (core E)" for exhausted
    using assms(2,3) by (auto intro!: triple_andThen [where R = "\<lambda>_. core Q"] triple_ret)
qed

lemma triple_prepareWebhook:
  assumes "\<And>d del ps. A d del ps \<Longrightarrow> E d del ps"
  shows "triple (core A) (prepareWebhook env m) (\<lambda>_. core A) (core E)"
  by (rule triple_frame [OF core_prepareWebhook]) (use assms in \<open>auto simp: core_def\<close>)

lemma triple_attemptDelivery:
  assumes init: "\<And>d del ps. P d del ps \<Longrightarrow> E d del ps \<and> E (racing env d) del ps"
    and up: "\<And>t d del ps x d'. P d del ps \<Longrightarrow>
      writeInFlight (findByEventAndUrl (qm_eventId m) u d) (qm_eventId m) (qm_tenantId m) u t (racing env d) = Inr (x, d') \<Longrightarrow>
      A x d' del ps"
    and AE: "\<And>x d del ps. A x d del ps \<Longrightarrow> B x d del ps"
    and BE: "\<And>x d del ps. B x d del ps \<Longrightarrow> E d del ps"
    and post: "\<And>x d del ps p payload. A x d del ps \<Longrightarrow> po_url p = u \<Longrightarrow>
      po_body p = stringify (webhook_body m payload) \<Longrightarrow> B x d del (ps @ [p])"
    and fail: "\<And>x err reason. triple (core (B x)) (failAttempt env x u err m r reason) (\<lambda>res w. core (Q res) w) (core E)"
    and ok: "\<And>x y d del ps d'. B x d del ps \<Longrightarrow> markSucceeded (dl_id x) d = Inr (y, d') \<Longrightarrow>
      Q (Some (Acknowledge r)) d' del ps \<and> E d' del ps"
  shows "triple (core P) (attemptDelivery env u m r) (\<lambda>res w. core (Q res) w) (core E)"
  unfolding attemptDelivery_def
proof (rule triple_andThen)
  show "triple (core P) (upsertDelivery env m u) (\<lambda>x. core (A x)) (core E)"
    by (rule triple_upsertDelivery) (use init up BE [OF AE [OF up]] in blast)+
  fix x
  note frame = triple_frame [where P = "core (B x)"]
  show "triple (core (A x)) (andThen (prepareWebhook env m) (\<lambda>prepared.
      case prepared of Inl e \<Rightarrow> failAttempt env x u (exn_message e) m r Preparation
      | Inr (secret, payload) \<Rightarrow> andThen (postWebhook env u (webhook_body m payload) secret) (\<lambda>result.
          case result of WebhookFail _ err \<Rightarrow>
             andThen (recordMetric env (WebhookMetric False)) (\<lambda>_.
             andThen (recordCircuit env recordDeliveryFailure u) (\<lambda>_. failAttempt env x u err m r Webhook))
          | WebhookOk _ \<Rightarrow>
             andThen (recordMetric env (WebhookMetric True)) (\<lambda>_.
             andThen (recordCircuit env recordDeliverySuccess u) (\<lambda>_.
             andThen (service env WriteStatus (db_act (markSucceeded (dl_id x)))) (\<lambda>_.
             andThen (recordMetric env (TerminalMetric Succeeded)) (\<lambda>_. ret (Some (Acknowledge r)))))))))
      (\<lambda>res w. core (Q res) w) (core E)"
  proof (rule triple_andThen [OF triple_prepareWebhook])
    show "E d del ps" if "A x d del ps" for d del ps using that AE BE by blast
    fix prepared
    have failure: "triple (core (B x)) (andThen (recordMetric env (WebhookMetric False)) (\<lambda>_.
          andThen (recordCircuit env recordDeliveryFailure u) (\<lambda>_. failAttempt env x u err m r Webhook)))
          (\<lambda>res w. core (Q res) w) (core E)" for err
      by (rule triple_andThen [where R = "\<lambda>_. core (B x)"], rule frame [OF core_recordMetric], simp,
          use BE in \<open>simp add: core_def\<close>, rule triple_andThen [where R = "\<lambda>_. core (B x)"],
          rule frame [OF core_recordCircuit], simp, use BE in \<open>simp add: core_def\<close>, rule fail)
    let ?S = "\<lambda>d del ps. Q (Some (Acknowledge r)) d del ps \<and> E d del ps"
    have success: "triple (core (B x)) (andThen (recordMetric env (WebhookMetric True)) (\<lambda>_.
          andThen (recordCircuit env recordDeliverySuccess u) (\<lambda>_.
          andThen (service env WriteStatus (db_act (markSucceeded (dl_id x)))) (\<lambda>_.
          andThen (recordMetric env (TerminalMetric Succeeded)) (\<lambda>_. ret (Some (Acknowledge r)))))))
          (\<lambda>res w. core (Q res) w) (core E)"
    proof (intro triple_andThen)
      show "triple (core (B x)) (recordMetric env (WebhookMetric True)) (\<lambda>_. core (B x)) (core E)"
        by (rule frame [OF core_recordMetric]) (use BE in \<open>auto simp: core_def\<close>)
      show "triple (core (B x)) (recordCircuit env recordDeliverySuccess u) (\<lambda>_. core (B x)) (core E)"
        by (rule frame [OF core_recordCircuit]) (use BE in \<open>auto simp: core_def\<close>)
      show "triple (core (B x)) (service env WriteStatus (db_act (markSucceeded (dl_id x)))) (\<lambda>_. core ?S) (core E)"
        by (rule triple_db_service_plain) (use BE ok in auto)
      show "triple (core ?S) (recordMetric env (TerminalMetric Succeeded)) (\<lambda>_. core ?S) (core E)"
        by (rule triple_frame [OF core_recordMetric]) (auto simp: core_def)
      show "triple (core ?S) (ret (Some (Acknowledge r))) (\<lambda>res w. core (Q res) w) (core E)"
        by (rule triple_ret) (auto simp: core_def)
    qed
    show "triple (core (A x)) (case prepared of Inl e \<Rightarrow> failAttempt env x u (exn_message e) m r Preparation
      | Inr (secret, payload) \<Rightarrow> andThen (postWebhook env u (webhook_body m payload) secret) (\<lambda>result.
          case result of WebhookFail _ err \<Rightarrow>
             andThen (recordMetric env (WebhookMetric False)) (\<lambda>_.
             andThen (recordCircuit env recordDeliveryFailure u) (\<lambda>_. failAttempt env x u err m r Webhook))
          | WebhookOk _ \<Rightarrow>
             andThen (recordMetric env (WebhookMetric True)) (\<lambda>_.
             andThen (recordCircuit env recordDeliverySuccess u) (\<lambda>_.
             andThen (service env WriteStatus (db_act (markSucceeded (dl_id x)))) (\<lambda>_.
             andThen (recordMetric env (TerminalMetric Succeeded)) (\<lambda>_. ret (Some (Acknowledge r))))))))
      (\<lambda>res w. core (Q res) w) (core E)"
    proof (cases prepared)
      case (Inl e)
      show ?thesis
        unfolding Inl sum.case by (rule triple_pre [OF fail]) (use AE in \<open>auto simp: core_def\<close>)
    next
      case (Inr sp)
      obtain secret payload where sp: "sp = (secret, payload)" by (cases sp)
      show ?thesis
        unfolding Inr sp sum.case prod.case
      proof (rule triple_andThen [where R = "\<lambda>_. core (B x)"])
        show "triple (core (A x)) (postWebhook env u (webhook_body m payload) secret) (\<lambda>_. core (B x)) (core E)"
          by (rule triple_postWebhook, rule post) (use AE in auto)
      qed (use failure success in \<open>auto split: webhook_result.splits\<close>)
    qed
  qed
qed

text \<open>The same with every premise on the three parts: \<open>R\<close> is what holds between the dead letter and the
  status.\<close>

lemma triple_attempt:
  assumes init: "\<And>d del ps. P d del ps \<Longrightarrow> E d del ps \<and> E (racing env d) del ps"
    and up: "\<And>t d del ps x d'. P d del ps \<Longrightarrow>
      writeInFlight (findByEventAndUrl (qm_eventId m) u d) (qm_eventId m) (qm_tenantId m) u t (racing env d) = Inr (x, d') \<Longrightarrow>
      A x d' del ps"
    and AE: "\<And>x d del ps. A x d del ps \<Longrightarrow> B x d del ps"
    and BE: "\<And>x d del ps. B x d del ps \<Longrightarrow> E d del ps"
    and post: "\<And>x d del ps p payload. A x d del ps \<Longrightarrow> po_url p = u \<Longrightarrow>
      po_body p = stringify (webhook_body m payload) \<Longrightarrow> B x d del (ps @ [p])"
    and dead: "\<And>x d del ps dl l d'. B x d del ps \<Longrightarrow> createDeadLetter dl d = Inr (l, d') \<Longrightarrow>
      le_deliveryId dl = dl_id x \<Longrightarrow> R x d' del ps \<and> E d' del ps"
    and marked: "\<And>x d del ps err y d'. R x d del ps \<Longrightarrow> markDeadLettered (dl_id x) err d = Inr (y, d') \<Longrightarrow>
      E d' del ps \<and> E d' (del @ [r]) ps \<and> Q None d' (del @ [r]) ps"
    and RE: "\<And>x d del ps. R x d del ps \<Longrightarrow> E d del ps"
    and retry: "\<And>x d del ps err when y d'. B x d del ps \<Longrightarrow> markFailed (dl_id x) err when d = Inr (y, d') \<Longrightarrow>
      Q None d' del ps \<and> E d' del ps"
    and ok: "\<And>x y d del ps d'. B x d del ps \<Longrightarrow> markSucceeded (dl_id x) d = Inr (y, d') \<Longrightarrow>
      Q (Some (Acknowledge r)) d' del ps \<and> E d' del ps"
  shows "triple (core P) (attemptDelivery env u m r) (\<lambda>res w. core (Q res) w) (core E)"
proof (rule triple_attemptDelivery [of P E env m u A B])
  fix x err reason
  have "triple (core (B x)) (failAttempt env x u err m r reason) (\<lambda>res w. res = None \<and> core (Q None) w) (core E)"
  proof (rule triple_failAttempt)
    show "triple (core (B x)) (moveToDeadLetter env x u err m r) (\<lambda>_. core (Q None)) (core E)"
      by (rule triple_moveToDeadLetter [of "B x" E x u err "R x"]) (use BE dead marked RE in auto)
    show "triple (core (B x)) (scheduleRetry env (dl_id x) (dl_attemptCount x) err r reason) (\<lambda>_. core (Q None)) (core E)"
      by (rule triple_scheduleRetry) (use BE retry in auto)
  qed (use BE in auto)
  then show "triple (core (B x)) (failAttempt env x u err m r reason) (\<lambda>res w. core (Q res) w) (core E)"
    by (rule triple_conseq) auto
qed (use init up AE BE post ok in auto)

text \<open>The handler itself: every exit before the attempt hides the message or acknowledges it.\<close>

lemma triple_hide:
  assumes "\<And>d del ps. P d del ps \<Longrightarrow> E d del ps \<and> Q d del ps"
  shows "triple (core P) (andThen (hideUntil env r delay reason) (\<lambda>_. ret None)) (\<lambda>res w. res = None \<and> core Q w) (core E)"
  by (rule triple_andThen [where R = "\<lambda>_. core P"], rule triple_frame [OF core_hideUntil])
    (use assms in \<open>auto simp: core_def intro!: triple_ret\<close>)

lemma triple_acknowledge_none:
  assumes "\<And>d del ps. P d del ps \<Longrightarrow> E d del ps \<and> E d (del @ [r]) ps \<and> Q d (del @ [r]) ps"
  shows "triple (core P) (andThen (acknowledgeMessage env r) (\<lambda>_. ret None)) (\<lambda>res w. res = None \<and> core Q w) (core E)"
  by (rule triple_andThen [where R = "\<lambda>_. core Q"], rule triple_acknowledge)
    (use assms in \<open>auto simp: core_def intro!: triple_ret\<close>)

definition is_complete :: "delivery option \<Rightarrow> bool" where
  "is_complete x \<longleftrightarrow> map_option dl_status x \<in> {Some SUCCEEDED, Some DEAD_LETTERED}"

lemma triple_handleParsed:
  assumes init: "\<And>d del ps. P d del ps \<Longrightarrow> E d del ps \<and> Q None d del ps"
    and complete: "\<And>d del ps. P d del ps \<Longrightarrow> is_complete (findByEventAndUrl (qm_eventId m) u d) \<Longrightarrow>
      E d (del @ [r]) ps \<and> Q None d (del @ [r]) ps"
    and attempt: "triple (core (\<lambda>d del ps. P d del ps \<and> \<not> is_complete (findByEventAndUrl (qm_eventId m) u d)))
        (attemptDelivery env u m r) (\<lambda>res w. core (Q res) w) (core E)"
  shows "triple (core P) (handleParsed env u decision m r) (\<lambda>res w. core (Q res) w) (core E)"
  unfolding handleParsed_def
proof (rule triple_andThen [where R = "\<lambda>_. core P"])
  show "triple (core P) (consumeDeliveryToken env (qm_tenantId m)) (\<lambda>_. core P) (core E)"
    by (rule triple_frame [OF core_consumeDeliveryToken]) (use init in \<open>auto simp: core_def\<close>)
  have hide: "triple (core P') (andThen (hideUntil env r delay reason) (\<lambda>_. ret None)) (\<lambda>res w. core (Q res) w) (core E)"
    if "\<And>d del ps. P' d del ps \<Longrightarrow> P d del ps" for P' delay reason
    by (rule triple_conseq [OF triple_hide [of P' E "Q None"]]) (use init that in auto)
  fix rateLimit
  let ?F = "\<lambda>x d del ps. P d del ps \<and> x = findByEventAndUrl (qm_eventId m) u d"
  have found: "triple (core (?F x)) (handleExisting env u decision m r x) (\<lambda>res w. core (Q res) w) (core E)" for x
  proof (cases "is_complete x")
    case True
    then have c: "map_option dl_status x = Some DEAD_LETTERED \<or> map_option dl_status x = Some SUCCEEDED"
      by (auto simp: is_complete_def)
    show ?thesis
      unfolding handleExisting_def if_P [OF c]
      by (rule triple_conseq [OF triple_acknowledge_none [of "?F x" E r "Q None" env]])
        (use init complete True in auto)
  next
    case False
    then have c: "\<not> (map_option dl_status x = Some DEAD_LETTERED \<or> map_option dl_status x = Some SUCCEEDED)"
      by (auto simp: is_complete_def)
    let ?G = "\<lambda>d del ps. P d del ps \<and> \<not> is_complete (findByEventAndUrl (qm_eventId m) u d)"
    have "triple (core ?G) (probeAndAttempt env u decision m r) (\<lambda>res w. core (Q res) w) (core E)"
      unfolding probeAndAttempt_def
    proof (rule triple_andThen [where R = "\<lambda>_. core ?G"])
      show "triple (core ?G) (if d_state decision = HalfOpen then markProbe env u else ret ()) (\<lambda>_. core ?G) (core E)"
        by (auto intro!: triple_ret triple_frame [OF core_markProbe] simp: core_def init)
    qed (rule attempt)
    then have go: "triple (core (?F x)) (probeAndAttempt env u decision m r) (\<lambda>res w. core (Q res) w) (core E)"
      by (rule triple_pre) (use False in \<open>auto simp: core_def\<close>)
    have h: "triple (core (?F x)) (andThen (hideUntil env r delay reason) (\<lambda>_. ret None)) (\<lambda>res w. core (Q res) w) (core E)"
      for delay reason by (rule hide) simp
    show ?thesis
      unfolding handleExisting_def if_not_P [OF c]
      by (rule triple_andThen [where R = "\<lambda>_. core (?F x)"], rule triple_reading, assumption)
        (auto intro!: go h split: option.splits)
  qed
  show "triple (core P) (if \<not> t_allowed rateLimit
      then andThen (hideUntil env r (js_max (retryAfterMs rateLimit) (Num 1000)) (Some RateLimited)) (\<lambda>_. ret None)
      else andThen (service env FindExisting (reading (\<lambda>w. findByEventAndUrl (qm_eventId m) u (db w))))
        (handleExisting env u decision m r)) (\<lambda>res w. core (Q res) w) (core E)"
  proof (cases "t_allowed rateLimit")
    case True
    have "triple (core P) (andThen (service env FindExisting (reading (\<lambda>w. findByEventAndUrl (qm_eventId m) u (db w))))
        (handleExisting env u decision m r)) (\<lambda>res w. core (Q res) w) (core E)"
      by (rule triple_andThen [OF triple_read_service found]) (use init in auto)
    with True show ?thesis by simp
  qed (use hide in auto)
qed

lemma triple_handleMessage:
  assumes init: "\<And>d del ps. P d del ps \<Longrightarrow> E d del ps \<and> Q None d del ps"
    and poison: "\<And>d del ps. parseQueueMessage (message_body sm) = None \<Longrightarrow> P d del ps \<Longrightarrow>
      E d (del @ [the (ReceiptHandle sm)]) ps \<and> Q None d (del @ [the (ReceiptHandle sm)]) ps"
    and complete: "\<And>m d del ps. parseQueueMessage (message_body sm) = Some m \<Longrightarrow> P d del ps \<Longrightarrow>
      is_complete (findByEventAndUrl (qm_eventId m) u d) \<Longrightarrow>
      E d (del @ [the (ReceiptHandle sm)]) ps \<and> Q None d (del @ [the (ReceiptHandle sm)]) ps"
    and attempt: "\<And>m. parseQueueMessage (message_body sm) = Some m \<Longrightarrow>
      triple (core (\<lambda>d del ps. P d del ps \<and> \<not> is_complete (findByEventAndUrl (qm_eventId m) u d)))
        (attemptDelivery env u m (the (ReceiptHandle sm))) (\<lambda>res w. core (Q res) w) (core E)"
  shows "triple (core P) (handleMessage env u sm) (\<lambda>res w. core (Q res) w) (core E)"
proof (cases "truthy_text (ReceiptHandle sm)")
  case False
  then show ?thesis using init by (auto simp: handleMessage_def core_def intro!: triple_throw)
next
  case True
  let ?r = "the (ReceiptHandle sm)"
  have parsed: "triple (core P) (handleParsed env u decision m ?r) (\<lambda>res w. core (Q res) w) (core E)"
    if m: "parseQueueMessage (message_body sm) = Some m" for m decision
    by (rule triple_handleParsed) (use init complete [OF m] attempt [OF m] in auto)
  have hide: "triple (core P) (andThen (hideUntil env ?r delay reason) (\<lambda>_. ret None)) (\<lambda>res w. core (Q res) w) (core E)"
    for delay reason
    by (rule triple_conseq [OF triple_hide [of P E "Q None"]]) (use init in auto)
  have poisoned: "triple (core P) (andThen (acknowledgeMessage env ?r) (\<lambda>_. ret None)) (\<lambda>res w. core (Q res) w) (core E)"
    if "parseQueueMessage (message_body sm) = None"
    by (rule triple_conseq [OF triple_acknowledge_none [of P E _ "Q None"]]) (use init poison [OF that] in auto)
  from True have t: "\<not> \<not> truthy_text (ReceiptHandle sm)" by simp
  show ?thesis
    unfolding handleMessage_def Let_def if_not_P [OF t]
  proof (rule triple_andThen [where R = "\<lambda>_. core P"])
    show "triple (core P) (readCircuit env u) (\<lambda>_. core P) (core E)"
      by (rule triple_frame [OF core_readCircuit]) (use init in \<open>auto simp: core_def\<close>)
    fix breaker
    have body: "triple (core P)
        (if \<not> allowed decision
         then andThen (hideUntil env ?r (js_max (delayMs decision) (Num 1000)) (Some CircuitOpen)) (\<lambda>_. ret None)
         else (case parseQueueMessage (message_body sm) of
              None \<Rightarrow> andThen (acknowledgeMessage env ?r) (\<lambda>_. ret None)
            | Some m \<Rightarrow> handleParsed env u decision m ?r)) (\<lambda>res w. core (Q res) w) (core E)" for decision
      using hide parsed poisoned by (simp split: option.splits)
    show "triple (core P) (andThen (reading (\<lambda>w. getCircuitDecision breaker (now w) no_overrides)) (\<lambda>decision.
        if \<not> allowed decision
         then andThen (hideUntil env ?r (js_max (delayMs decision) (Num 1000)) (Some CircuitOpen)) (\<lambda>_. ret None)
         else (case parseQueueMessage (message_body sm) of
              None \<Rightarrow> andThen (acknowledgeMessage env ?r) (\<lambda>_. ret None)
            | Some m \<Rightarrow> handleParsed env u decision m ?r))) (\<lambda>res w. core (Q res) w) (core E)"
      by (rule triple_andThen [where R = "\<lambda>_. core P"], rule triple_reading, assumption, rule body)
  qed
qed

text \<open>The rule for the whole handler; \<open>A\<close>, \<open>B\<close> and \<open>R\<close> are the assertions inside the attempt.\<close>

lemma triple_handle:
  assumes init: "\<And>d del ps. P d del ps \<Longrightarrow> E d del ps \<and> Q None d del ps"
    and poison: "\<And>d del ps. parseQueueMessage (message_body sm) = None \<Longrightarrow> P d del ps \<Longrightarrow>
      E d (del @ [the (ReceiptHandle sm)]) ps \<and> Q None d (del @ [the (ReceiptHandle sm)]) ps"
    and complete: "\<And>m d del ps. parseQueueMessage (message_body sm) = Some m \<Longrightarrow> P d del ps \<Longrightarrow>
      is_complete (findByEventAndUrl (qm_eventId m) u d) \<Longrightarrow>
      E d (del @ [the (ReceiptHandle sm)]) ps \<and> Q None d (del @ [the (ReceiptHandle sm)]) ps"
    and race: "\<And>m d del ps. parseQueueMessage (message_body sm) = Some m \<Longrightarrow> P d del ps \<Longrightarrow>
      \<not> is_complete (findByEventAndUrl (qm_eventId m) u d) \<Longrightarrow> E (racing env d) del ps"
    and up: "\<And>m t d del ps x d'. parseQueueMessage (message_body sm) = Some m \<Longrightarrow> P d del ps \<Longrightarrow>
      \<not> is_complete (findByEventAndUrl (qm_eventId m) u d) \<Longrightarrow>
      writeInFlight (findByEventAndUrl (qm_eventId m) u d) (qm_eventId m) (qm_tenantId m) u t (racing env d) = Inr (x, d') \<Longrightarrow>
      A m x d' del ps"
    and AE: "\<And>m x d del ps. A m x d del ps \<Longrightarrow> B m x d del ps"
    and BE: "\<And>m x d del ps. B m x d del ps \<Longrightarrow> E d del ps"
    and post: "\<And>m x d del ps p payload. A m x d del ps \<Longrightarrow> po_url p = u \<Longrightarrow>
      po_body p = stringify (webhook_body m payload) \<Longrightarrow> B m x d del (ps @ [p])"
    and dead: "\<And>m x d del ps dl l d'. B m x d del ps \<Longrightarrow> createDeadLetter dl d = Inr (l, d') \<Longrightarrow>
      le_deliveryId dl = dl_id x \<Longrightarrow> R m x d' del ps \<and> E d' del ps"
    and marked: "\<And>m x d del ps err y d'. parseQueueMessage (message_body sm) = Some m \<Longrightarrow> R m x d del ps \<Longrightarrow>
      markDeadLettered (dl_id x) err d = Inr (y, d') \<Longrightarrow>
      E d' del ps \<and> E d' (del @ [the (ReceiptHandle sm)]) ps \<and> Q None d' (del @ [the (ReceiptHandle sm)]) ps"
    and RE: "\<And>m x d del ps. R m x d del ps \<Longrightarrow> E d del ps"
    and retry: "\<And>m x d del ps err when y d'. B m x d del ps \<Longrightarrow> markFailed (dl_id x) err when d = Inr (y, d') \<Longrightarrow>
      Q None d' del ps \<and> E d' del ps"
    and ok: "\<And>m x y d del ps d'. parseQueueMessage (message_body sm) = Some m \<Longrightarrow> B m x d del ps \<Longrightarrow>
      markSucceeded (dl_id x) d = Inr (y, d') \<Longrightarrow>
      Q (Some (Acknowledge (the (ReceiptHandle sm)))) d' del ps \<and> E d' del ps"
  shows "triple (core P) (handleMessage env u sm) (\<lambda>res w. core (Q res) w) (core E)"
proof (rule triple_handleMessage [where P = P])
  fix m assume m: "parseQueueMessage (message_body sm) = Some m"
  show "triple (core (\<lambda>d del ps. P d del ps \<and> \<not> is_complete (findByEventAndUrl (qm_eventId m) u d)))
      (attemptDelivery env u m (the (ReceiptHandle sm))) (\<lambda>res w. core (Q res) w) (core E)"
    by (rule triple_attempt [where A = "A m" and B = "B m" and R = "R m"])
      (use m in \<open>auto intro: init [THEN conjunct1] race up AE BE post RE marked [THEN conjunct1]
         marked [THEN conjunct2, THEN conjunct1] marked [THEN conjunct2, THEN conjunct2]
         dead [THEN conjunct1] dead [THEN conjunct2] retry [THEN conjunct1] retry [THEN conjunct2]
         ok [THEN conjunct1] ok [THEN conjunct2]\<close>)
qed (use init poison complete in auto)

end
