(* ===== verification/WorkerSafety.thy ===== *)
theory WorkerSafety
  imports WorkerLemmas
begin

text \<open>
  What the worker's handler guarantees whatever fails: theorems about \<open>handleMessage\<close> for every
  environment, that is for every outcome of every call, every receiver and every passing of time.
\<close>

section \<open>The row of a message\<close>

definition current_row :: "string \<Rightarrow> string \<Rightarrow> string \<Rightarrow> database \<Rightarrow> bool" where
  "current_row e u i d \<longleftrightarrow> (\<exists>x. findByEventAndUrl e u d = Some x \<and> dl_id x = i)"

definition attempts :: "string \<Rightarrow> string \<Rightarrow> database \<Rightarrow> int" where
  "attempts e u d = (case findByEventAndUrl e u d of None \<Rightarrow> 0 | Some x \<Rightarrow> dl_attemptCount x)"

lemma find_after_update:
  assumes "delivery_update i f d = Inr (y, d')" and "keeps_identity f"
  shows "findByEventAndUrl e u d' = map_option (\<lambda>x. if dl_id x = i then f x else x) (findByEventAndUrl e u d)"
proof -
  have "findByEventAndUrl e u (d\<lparr>deliveries := update_where (\<lambda>x. dl_id x = i) f (deliveries d)\<rparr>)
      = map_option (\<lambda>x. if dl_id x = i then f x else x) (findByEventAndUrl e u d)"
    using assms(2) by (simp add: findByEventAndUrl_def for_event_def keeps_identity_def find_update_where)
  with assms(1) show ?thesis by (cases rule: delivery_update_cases [of i f d]) auto
qed

lemma current_row_update:
  "delivery_update i f d = Inr (y, d') \<Longrightarrow> keeps_identity f \<Longrightarrow> current_row e u j d \<Longrightarrow> current_row e u j d'"
  by (auto simp: current_row_def find_after_update keeps_identity_def)

lemma find_after_writeInFlight:
  assumes "tables_ok d" and "writeInFlight (findByEventAndUrl e u d) e t u n d = Inr (x, d')"
  shows "findByEventAndUrl e u d' = Some x \<and> dl_status x = IN_FLIGHT \<and> dl_attemptCount x = attempts e u d + 1"
proof (cases "findByEventAndUrl e u d")
  case None
  with assms(2) have "delivery_create (first_attempt e t u n) d = Inr (x, d')" by (simp add: writeInFlight_def)
  then have x: "x = (first_attempt e t u n)\<lparr>dl_id := fresh_id d\<rparr>"
    and d': "d' = d\<lparr>deliveries := deliveries d @ [x], next_id := next_id d + 1\<rparr>"
    by (auto simp: delivery_create_def Let_def split: if_splits)
  show ?thesis
    using None by (auto simp: x d' attempts_def findByEventAndUrl_def find_append for_event_def)
next
  case (Some y)
  then have u: "delivery_update (dl_id y) (start_attempt n) d = Inr (x, d')"
    using assms(2) by (simp add: writeInFlight_def)
  have y: "y \<in> set (deliveries d)" using find_SomeD Some by (fastforce simp: findByEventAndUrl_def)
  have "x = start_attempt n y"
    using u
  proof (cases rule: delivery_update_cases [of "dl_id y" "start_attempt n" d])
    case (found z)
    with y assms(1) have "z = y"
      by (auto simp: tables_ok_def db_ok_def distinct_map inj_on_def)
    with found(3) u show ?thesis by simp
  qed (use u in simp)
  with find_after_update [OF u, of e u] Some show ?thesis by (simp add: attempts_def)
qed

lemma attempts_update:
  "delivery_update i f d = Inr (y, d') \<Longrightarrow> keeps_identity f \<Longrightarrow> (\<And>x. dl_attemptCount (f x) = dl_attemptCount x) \<Longrightarrow>
   attempts e u d' = attempts e u d"
  by (auto simp: attempts_def find_after_update split: option.splits)

lemma createDeadLetter_tables:
  assumes "tables_ok d" and "createDeadLetter input d = Inr (l, d')"
  shows "tables_ok d' \<and> has_dead_letter d' (le_deliveryId input) \<and> deliveries d' = deliveries d"
  using createDeadLetter_ok [OF _ assms(2)] assms(1) by (auto simp: tables_ok_def one_row_def dead_ok_def)

lemma createDeadLetter_rows:
  assumes "createDeadLetter input d = Inr (l, d')"
  shows "findByEventAndUrl e u d' = findByEventAndUrl e u d"
proof -
  have "deliveries d' = deliveries d"
    using assms by (auto simp: createDeadLetter_def Let_def split: option.splits if_splits)
  then show ?thesis by (simp add: findByEventAndUrl_def)
qed

lemma createDeadLetter_same:
  assumes "createDeadLetter input d = Inr (l, d')"
  shows "current_row e u i d' = current_row e u i d" and "attempts e u d' = attempts e u d"
  by (simp_all add: current_row_def attempts_def createDeadLetter_rows [OF assms])

lemma current_after_writeInFlight:
  "tables_ok d \<Longrightarrow> writeInFlight (findByEventAndUrl e u d) e t u n d = Inr (x, d') \<Longrightarrow> current_row e u (dl_id x) d'"
  by (auto simp: current_row_def dest: find_after_writeInFlight)

lemma attempts_after_writeInFlight:
  "tables_ok d \<Longrightarrow> writeInFlight (findByEventAndUrl e u d) e t u n d = Inr (x, d') \<Longrightarrow>
   attempts e u d' = attempts e u d + 1"
  by (auto simp: attempts_def dest: find_after_writeInFlight)

lemma terminal_updates:
  "markSucceeded i d = Inr (y, d') \<Longrightarrow> current_row e u i d \<Longrightarrow> is_complete (findByEventAndUrl e u d')"
  "markDeadLettered i err d = Inr (y, d') \<Longrightarrow> current_row e u i d \<Longrightarrow> is_complete (findByEventAndUrl e u d')"
  by (auto simp: markSucceeded_def markDeadLettered_def current_row_def is_complete_def find_after_update)

lemma mark_tables:
  "tables_ok d \<Longrightarrow> markSucceeded i d = Inr (y, d') \<Longrightarrow> tables_ok d'"
  "tables_ok d \<Longrightarrow> markFailed i err t d = Inr (y, d') \<Longrightarrow> tables_ok d'"
  "tables_ok d \<Longrightarrow> has_dead_letter d i \<Longrightarrow> markDeadLettered i err d = Inr (y, d') \<Longrightarrow> tables_ok d'"
  by (auto simp: markSucceeded_def markFailed_def markDeadLettered_def elim!: tables_ok_update)

lemma mark_attempts:
  "markSucceeded i d = Inr (y, d') \<Longrightarrow> attempts e u d' = attempts e u d"
  "markFailed i err t d = Inr (y, d') \<Longrightarrow> attempts e u d' = attempts e u d"
  "markDeadLettered i err d = Inr (y, d') \<Longrightarrow> attempts e u d' = attempts e u d"
  by (auto simp: markSucceeded_def markFailed_def markDeadLettered_def intro!: attempts_update)

lemma mark_current:
  "markSucceeded i d = Inr (y, d') \<Longrightarrow> current_row e u j d \<Longrightarrow> current_row e u j d'"
  "markFailed i err t d = Inr (y, d') \<Longrightarrow> current_row e u j d \<Longrightarrow> current_row e u j d'"
  "markDeadLettered i err d = Inr (y, d') \<Longrightarrow> current_row e u j d \<Longrightarrow> current_row e u j d'"
  by (auto simp: markSucceeded_def markFailed_def markDeadLettered_def elim!: current_row_update)

lemma handle_triple:
  assumes "triple (core P) (handleMessage env u sm) (\<lambda>res w. core (Q res) w) (core E)"
    and "P (db w) (deleted w) (posts w)" and "handleMessage env u sm w = (res, w')"
  shows "case res of Inl _ \<Rightarrow> E (db w') (deleted w') (posts w') | Inr a \<Rightarrow> Q a (db w') (deleted w') (posts w')"
  using tripleD [OF assms(1), of w] assms(2,3) by (auto simp: core_def split: sum.splits)

section \<open>Other workers\<close>

text \<open>What holds of the tables even when workers race for one delivery: identifiers are unique, dead letters
  belong to deliveries, and every dead-lettered delivery has its dead letter.\<close>

definition rows_consistent :: "database \<Rightarrow> bool" where
  "rows_consistent d \<longleftrightarrow> db_ok d \<and> dead_ok d"

lemma tables_ok_iff: "tables_ok d \<longleftrightarrow> rows_consistent d \<and> one_row d"
  by (auto simp: tables_ok_def rows_consistent_def)

text \<open>No row changes its event or its target.\<close>

definition same_rows :: "database \<Rightarrow> database \<Rightarrow> bool" where
  "same_rows d d' \<longleftrightarrow> (\<forall>x \<in> set (deliveries d). \<forall>y \<in> set (deliveries d'). dl_id x = dl_id y \<longrightarrow>
     dl_eventId x = dl_eventId y \<and> dl_targetUrl x = dl_targetUrl y)"

text \<open>The other processes run the same program: what they do in between keeps the tables consistent.\<close>

definition racers_ok :: "env \<Rightarrow> bool" where
  "racers_ok env \<longleftrightarrow> (\<forall>d. rows_consistent d \<longrightarrow> rows_consistent (racing env d) \<and> same_rows d (racing env d))"

text \<open>No other process is at the delivery of the message between the two queries.\<close>

definition unraced :: "env \<Rightarrow> string \<Rightarrow> sqs_message \<Rightarrow> bool" where
  "unraced env u sm \<longleftrightarrow> (\<forall>m d. parseQueueMessage (message_body sm) = Some m \<and> tables_ok d \<longrightarrow>
     tables_ok (racing env d) \<and> findByEventAndUrl (qm_eventId m) u (racing env d) = findByEventAndUrl (qm_eventId m) u d)"

lemma rows_consistent_update:
  assumes "rows_consistent d" and "delivery_update i f d = Inr (x, d')" and "keeps_identity f"
    and "\<And>x. dl_id x = i \<Longrightarrow> dl_status (f x) = DEAD_LETTERED \<Longrightarrow> has_dead_letter d i"
  shows "rows_consistent d'"
  using assms
  by (cases rule: delivery_update_cases [of i f d]) (auto simp: rows_consistent_def intro!: db_ok_update dead_ok_update)

lemma writeInFlight_consistent:
  assumes "rows_consistent d" and "writeInFlight found e t u n d = Inr (x, d')"
  shows "rows_consistent d'"
proof (cases found)
  case None
  then have "delivery_create (first_attempt e t u n) d = Inr (x, d')" using assms(2) by (simp add: writeInFlight_def)
  then have "d' = d\<lparr>deliveries := deliveries d @ [(first_attempt e t u n)\<lparr>dl_id := fresh_id d\<rparr>], next_id := next_id d + 1\<rparr>"
    by (auto simp: delivery_create_def Let_def split: if_splits)
  then show ?thesis using assms(1) db_ok_create dead_ok_create by (simp add: rows_consistent_def)
next
  case (Some y)
  then have "delivery_update (dl_id y) (start_attempt n) d = Inr (x, d')" using assms(2) by (simp add: writeInFlight_def)
  then show ?thesis by (rule rows_consistent_update [OF assms(1)]) simp_all
qed

lemma mark_consistent:
  "rows_consistent d \<Longrightarrow> markSucceeded i d = Inr (y, d') \<Longrightarrow> rows_consistent d'"
  "rows_consistent d \<Longrightarrow> markFailed i err t d = Inr (y, d') \<Longrightarrow> rows_consistent d'"
  "rows_consistent d \<Longrightarrow> has_dead_letter d i \<Longrightarrow> markDeadLettered i err d = Inr (y, d') \<Longrightarrow> rows_consistent d'"
  by (auto simp: markSucceeded_def markFailed_def markDeadLettered_def elim!: rows_consistent_update)

lemma createDeadLetter_consistent:
  assumes "rows_consistent d" and "createDeadLetter input d = Inr (l, d')"
  shows "rows_consistent d' \<and> has_dead_letter d' (le_deliveryId input) \<and> deliveries d' = deliveries d"
  using createDeadLetter_ok [OF _ assms(2)] assms(1) by (auto simp: rows_consistent_def dead_ok_def)

lemma consistent_handle:
  assumes "racers_ok env"
  shows "triple (core (\<lambda>d _ _. rows_consistent d)) (handleMessage env u sm)
    (\<lambda>_. core (\<lambda>d _ _. rows_consistent d)) (core (\<lambda>d _ _. rows_consistent d))"
proof -
  have "rows_consistent d \<Longrightarrow> rows_consistent (racing env d)" for d using assms by (simp add: racers_ok_def)
  then show ?thesis
    by (intro triple_handle [where A = "\<lambda>_ _ d _ _. rows_consistent d" and B = "\<lambda>_ _ d _ _. rows_consistent d"
          and R = "\<lambda>_ x d _ _. rows_consistent d \<and> has_dead_letter d (dl_id x)"])
      (auto dest: writeInFlight_consistent [rotated] mark_consistent createDeadLetter_consistent)
qed

lemma tables_ok_handle:
  assumes "unraced env u sm"
  shows "triple (core (\<lambda>d _ _. tables_ok d)) (handleMessage env u sm) (\<lambda>_. core (\<lambda>d _ _. tables_ok d)) (core (\<lambda>d _ _. tables_ok d))"
proof -
  have r: "tables_ok (racing env d)" "findByEventAndUrl (qm_eventId m) u d = findByEventAndUrl (qm_eventId m) u (racing env d)"
    if "parseQueueMessage (message_body sm) = Some m" "tables_ok d" for m d
    using assms that by (simp_all add: unraced_def)
  have w: "tables_ok d'" if "parseQueueMessage (message_body sm) = Some m" "tables_ok d"
      "writeInFlight (findByEventAndUrl (qm_eventId m) u d) (qm_eventId m) t u n (racing env d) = Inr (x, d')" for m d t n x d'
    using writeInFlight_ok [OF r(1) [OF that(1,2)]] that(3) unfolding r(2) [OF that(1,2)] by blast
  show ?thesis
    by (rule triple_handle [where A = "\<lambda>_ _ d _ _. tables_ok d" and B = "\<lambda>_ _ d _ _. tables_ok d"
          and R = "\<lambda>_ x d _ _. tables_ok d \<and> has_dead_letter d (dl_id x)"])
      (auto dest: w r mark_tables createDeadLetter_tables)
qed

text \<open>The row of an attempt, found or created, is one of the event and the target.\<close>

definition row_of :: "string \<Rightarrow> string \<Rightarrow> string \<Rightarrow> database \<Rightarrow> bool" where
  "row_of e u i d \<longleftrightarrow> (\<exists>x \<in> set (deliveries d). dl_id x = i \<and> for_event e u x)"

lemma row_of_update:
  assumes "delivery_update i f d = Inr (y, d')" and "keeps_identity f" and "row_of e u j d"
  shows "row_of e u j d'" and "j = i \<Longrightarrow> \<exists>x \<in> set (deliveries d'). for_event e u x \<and> dl_id x = i \<and> (\<exists>z. x = f z)"
proof -
  obtain x where x: "x \<in> set (deliveries d)" "dl_id x = j" "for_event e u x" using assms(3) by (auto simp: row_of_def)
  have d': "set (deliveries d') = (\<lambda>x. if dl_id x = i then f x else x) ` set (deliveries d)"
    using assms(1) by (cases rule: delivery_update_cases [of i f d]) (auto simp: set_update_where)
  let ?x = "if dl_id x = i then f x else x"
  have "?x \<in> set (deliveries d')" "dl_id ?x = j" "for_event e u ?x"
    using x assms(2) unfolding d' by (auto simp: keeps_identity_def for_event_def)
  then show "row_of e u j d'" "j = i \<Longrightarrow> \<exists>x \<in> set (deliveries d'). for_event e u x \<and> dl_id x = i \<and> (\<exists>z. x = f z)"
    using x(2) unfolding row_of_def by (blast, metis)
qed

lemma row_of_writeInFlight:
  assumes "same_rows d d2" and "writeInFlight (findByEventAndUrl e u d) e t u n d2 = Inr (x, d')"
  shows "row_of e u (dl_id x) d'"
proof (cases "findByEventAndUrl e u d")
  case None
  with assms(2) have "delivery_create (first_attempt e t u n) d2 = Inr (x, d')" by (simp add: writeInFlight_def)
  then have "x = (first_attempt e t u n)\<lparr>dl_id := fresh_id d2\<rparr>"
    and "deliveries d' = deliveries d2 @ [x]"
    by (auto simp: delivery_create_def Let_def split: if_splits)
  then show ?thesis by (auto simp: row_of_def for_event_def)
next
  case (Some y)
  then have u: "delivery_update (dl_id y) (start_attempt n) d2 = Inr (x, d')"
    using assms(2) by (simp add: writeInFlight_def)
  have y: "y \<in> set (deliveries d)" "for_event e u y" using find_SomeD Some by (fastforce simp: findByEventAndUrl_def)+
  obtain z where z: "z \<in> set (deliveries d2)" "dl_id z = dl_id y" "x = start_attempt n z"
    using u by (cases rule: delivery_update_cases [of "dl_id y" "start_attempt n" d2]) auto
  then have "row_of e u (dl_id y) d2"
    using y assms(1) by (auto simp: row_of_def same_rows_def for_event_def)
  then show ?thesis using row_of_update(1) [OF u] z(2,3) by simp
qed

text \<open>What must hold before a message may leave the queue: it is not a delivery request, or its event
  has a delivery to the target in a terminal state.\<close>

definition settled_message :: "sqs_message \<Rightarrow> string \<Rightarrow> database \<Rightarrow> bool" where
  "settled_message sm u d \<longleftrightarrow>
     (case parseQueueMessage (message_body sm) of None \<Rightarrow> True
      | Some m \<Rightarrow> \<exists>x \<in> set (deliveries d). for_event (qm_eventId m) u x \<and> dl_status x \<in> {SUCCEEDED, DEAD_LETTERED})"

lemma settled_found:
  "parseQueueMessage (message_body sm) = Some m \<Longrightarrow> is_complete (findByEventAndUrl (qm_eventId m) u d) \<Longrightarrow> settled_message sm u d"
  by (auto simp: settled_message_def is_complete_def findByEventAndUrl_def dest!: find_SomeD)

lemma settled_marked:
  assumes "parseQueueMessage (message_body sm) = Some m" and "row_of (qm_eventId m) u i d"
    and "markSucceeded i d = Inr (y, d') \<or> markDeadLettered i err d = Inr (y, d')"
  shows "settled_message sm u d'"
  using assms(3)
proof
  assume "markSucceeded i d = Inr (y, d')"
  from row_of_update(2) [OF this [unfolded markSucceeded_def] _ assms(2)] assms(1)
  show ?thesis by (auto simp: settled_message_def)
next
  assume "markDeadLettered i err d = Inr (y, d')"
  from row_of_update(2) [OF this [unfolded markDeadLettered_def] _ assms(2)] assms(1)
  show ?thesis by (auto simp: settled_message_def)
qed

lemma settled_handle:
  assumes "racers_ok env"
  shows "triple (core (\<lambda>d del ps. rows_consistent d \<and> del = del0)) (handleMessage env u sm)
     (\<lambda>res. core (\<lambda>d del ps. case res of
        None \<Rightarrow> del = del0 \<or> del = del0 @ [the (ReceiptHandle sm)] \<and> settled_message sm u d
      | Some a \<Rightarrow> del = del0 \<and> a = Acknowledge (the (ReceiptHandle sm)) \<and> settled_message sm u d))
     (core (\<lambda>d del ps. del = del0 \<or> del = del0 @ [the (ReceiptHandle sm)] \<and> settled_message sm u d))"
proof -
  have w: "row_of e u (dl_id x) d'"
    if "rows_consistent d" "writeInFlight (findByEventAndUrl e u d) e t u n (racing env d) = Inr (x, d')" for e t n d x d'
    using row_of_writeInFlight [OF _ that(2)] assms that(1) by (auto simp: racers_ok_def)
  have c: "row_of e u i d' = row_of e u i d" if "createDeadLetter k d = Inr (l, d')" for e i d k l d'
  proof -
    have "deliveries d' = deliveries d" using that by (auto simp: createDeadLetter_def Let_def split: option.splits if_splits)
    then show ?thesis by (simp add: row_of_def)
  qed
  show ?thesis
    by (rule triple_handle [where
          A = "\<lambda>m x d del _. row_of (qm_eventId m) u (dl_id x) d \<and> del = del0" and
          B = "\<lambda>m x d del _. row_of (qm_eventId m) u (dl_id x) d \<and> del = del0" and
          R = "\<lambda>m x d del _. row_of (qm_eventId m) u (dl_id x) d \<and> del = del0"])
      (auto simp: c dest: w settled_found settled_marked, simp_all add: settled_message_def)
qed

lemma complete_handle:
  assumes "parseQueueMessage (message_body sm) = Some m" and "is_complete (findByEventAndUrl (qm_eventId m) u d0)"
  shows "triple (core (\<lambda>d del ps. d = d0 \<and> ps = ps0)) (handleMessage env u sm)
     (\<lambda>_. core (\<lambda>d del ps. d = d0 \<and> ps = ps0)) (core (\<lambda>d del ps. d = d0 \<and> ps = ps0))"
  by (rule triple_handle [where A = "\<lambda>_ _ _ _ _. False" and B = "\<lambda>_ _ _ _ _. False" and R = "\<lambda>_ _ _ _ _. False"])
    (use assms in auto)

text \<open>One run starts at most one attempt, and calls the receiver only after counting it.\<close>

definition one_attempt :: "string \<Rightarrow> string \<Rightarrow> int \<Rightarrow> post list \<Rightarrow> database \<Rightarrow> post list \<Rightarrow> bool" where
  "one_attempt e u n ps0 d ps \<longleftrightarrow>
     attempts e u d = n \<and> ps = ps0
     \<or> attempts e u d = n + 1 \<and> (ps = ps0 \<or> (\<exists>p. ps = ps0 @ [p] \<and> po_url p = u))"

lemma attempt_handle:
  assumes "parseQueueMessage (message_body sm) = Some m0" and "unraced env u sm"
  shows "triple (core (\<lambda>d del ps. tables_ok d \<and> attempts (qm_eventId m0) u d = n \<and> ps = ps0)) (handleMessage env u sm)
     (\<lambda>_. core (\<lambda>d del ps. one_attempt (qm_eventId m0) u n ps0 d ps)) (core (\<lambda>d del ps. one_attempt (qm_eventId m0) u n ps0 d ps))"
proof -
  have r: "tables_ok (racing env d)" "findByEventAndUrl (qm_eventId m0) u d = findByEventAndUrl (qm_eventId m0) u (racing env d)"
    if "tables_ok d" for d using assms that by (simp_all add: unraced_def)
  have same: "attempts (qm_eventId m0) u (racing env d) = attempts (qm_eventId m0) u d" if "tables_ok d" for d
    by (simp add: attempts_def r(2) [OF that])
  have w: "attempts (qm_eventId m0) u d' = attempts (qm_eventId m0) u d + 1"
    if "tables_ok d" "writeInFlight (findByEventAndUrl (qm_eventId m0) u d) (qm_eventId m0) t u k (racing env d) = Inr (x, d')" for d t k x d'
    using attempts_after_writeInFlight [OF r(1) [OF that(1)]] that(2) same [OF that(1)] unfolding r(2) [OF that(1)] by fastforce
  show ?thesis
  by (rule triple_handle [where
        A = "\<lambda>_ x d del ps. attempts (qm_eventId m0) u d = n + 1 \<and> ps = ps0" and
        B = "\<lambda>_ x d del ps. attempts (qm_eventId m0) u d = n + 1 \<and> (ps = ps0 \<or> (\<exists>p. ps = ps0 @ [p] \<and> po_url p = u))" and
        R = "\<lambda>_ x d del ps. attempts (qm_eventId m0) u d = n + 1 \<and> (ps = ps0 \<or> (\<exists>p. ps = ps0 @ [p] \<and> po_url p = u))"])
    (use assms in \<open>auto simp: one_attempt_def mark_attempts createDeadLetter_same same w\<close>)
qed

text \<open>A concrete environment and world, to instantiate the theorems.\<close>

definition plain_env :: env where
  "plain_env = \<lparr>outcome = (\<lambda>_. Completes), elapse = (\<lambda>_. 0), receiver = (\<lambda>_ _ _. Status 200), random = 0,
     digest = (\<lambda>_ _. replicate 32 0), max_attempts = None, limit_capacity = None, limit_refill = None,
     bucket_name = Some ''bucket'', body_missing = False, metrics_on = True, racing = (\<lambda>d. d)\<rparr>"

definition empty_database :: database where
  "empty_database = \<lparr>tenants = [], events = [], deliveries = [], outboxes = [], deadLetters = [], replays = [],
     next_id = 0\<rparr>"

definition empty_world :: world where
  "empty_world = \<lparr>now = 0, db = empty_database, circuits = (\<lambda>_. None), buckets = (\<lambda>_. None), objects = (\<lambda>_. None),
     hidden_until = (\<lambda>_. 0), deleted = [], held = newVisibilityLeases, posts = [], metrics = []\<rparr>"

definition delivered_row :: "DeliveryStatus \<Rightarrow> int \<Rightarrow> delivery" where
  "delivered_row st n = \<lparr>dl_id = ''0'', dl_eventId = ''e'', dl_tenantId = ''t'', dl_targetUrl = ''u'', dl_status = st,
     dl_attemptCount = n, dl_lastAttemptAt = Some 0, dl_nextAttemptAt = None, dl_lastError = None, dl_createdAt = 0\<rparr>"

definition example_database :: "DeliveryStatus \<Rightarrow> int \<Rightarrow> database" where
  "example_database st n = empty_database
     \<lparr>tenants := [\<lparr>tn_id = ''t'', tn_name = ''T'', tn_hmacSecret = ''s''\<rparr>],
      events := [\<lparr>ev_id = ''e'', ev_tenantId = ''t'', ev_type = ''x'', ev_payload = Some JNull, ev_payloadS3Key = None,
        ev_createdAt = 0\<rparr>],
      deliveries := [delivered_row st n], next_id := 1\<rparr>"

definition example_world :: "DeliveryStatus \<Rightarrow> int \<Rightarrow> world" where
  "example_world st n = empty_world\<lparr>db := example_database st n\<rparr>"

lemma example_world_simps [simp]:
  "db (example_world st n) = example_database st n" "deleted (example_world st n) = []"
  "posts (example_world st n) = []" "now (example_world st n) = 0" "hidden_until (example_world st n) r = 0"
  by (simp_all add: example_world_def empty_world_def)

definition example_message :: sqs_message where
  "example_message = \<lparr>ReceiptHandle = Some ''r'', Body = Some (stringify (JObj
     [(''eventId'', JStr ''e''), (''tenantId'', JStr ''t''), (''type'', JStr ''x''), (''payload'', JNull)]))\<rparr>"

definition example_request :: queue_message where
  "example_request = \<lparr>qm_eventId = ''e'', qm_tenantId = ''t'', qm_type = ''x'', qm_payload = JNull, qm_payloadS3Key = None\<rparr>"

lemma parse_example: "parseQueueMessage (message_body example_message) = Some example_request"
proof -
  let ?v = "JObj [(''eventId'', JStr ''e''), (''tenantId'', JStr ''t''), (''type'', JStr ''x''), (''payload'', JNull)]"
  have "json_parse (stringify ?v) = Some ?v" by (rule json_parse_stringify) simp
  then show ?thesis
    by (simp add: parseQueueMessage_def message_body_def example_message_def example_request_def del: stringify.simps)
qed

lemma tables_ok_example: "st \<noteq> DEAD_LETTERED \<Longrightarrow> tables_ok (example_database st n)"
proof -
  have "js_String_nat 0 = ''0''" by code_simp
  then show "st \<noteq> DEAD_LETTERED \<Longrightarrow> tables_ok (example_database st n)"
    by (simp add: tables_ok_def db_ok_def one_row_def dead_ok_def example_database_def empty_database_def
        delivered_row_def old_id_def)
qed

lemma find_example: "findByEventAndUrl ''e'' ''u'' (example_database st n) = Some (delivered_row st n)"
  by (simp add: findByEventAndUrl_def example_database_def delivered_row_def for_event_def)

text \<open>The handler on the message of the examples, up to the parser.\<close>

lemma handle_example:
  "handleMessage env ''u'' example_message =
     andThen (readCircuit env ''u'') (\<lambda>breaker.
     andThen (reading (\<lambda>w. getCircuitDecision breaker (now w) no_overrides)) (\<lambda>decision.
     if \<not> allowed decision
     then andThen (hideUntil env ''r'' (js_max (delayMs decision) (Num 1000)) (Some CircuitOpen)) (\<lambda>_. ret None)
     else handleParsed env ''u'' decision example_request ''r''))"
proof -
  have r: "ReceiptHandle example_message = Some ''r''" by (simp add: example_message_def)
  show ?thesis by (simp add: handleMessage_def parse_example truthy_text_def r Let_def cong: if_cong)
qed

lemma example_runs:
  "fst (handleMessage plain_env ''u'' example_message (example_world FAILED 1)) = Inr (Some (Acknowledge ''r''))"
  "deleted (snd (handleMessage plain_env ''u'' example_message (example_world SUCCEEDED 3))) = [''r'']"
  unfolding handle_example by code_simp+

section \<open>Properties\<close>

text \<open>C3: the tables stay well formed under the handler, whatever fails.  Whatever other workers that keep the
  tables consistent do between the two queries of an attempt: identifiers stay unique, every dead letter
  belongs to a delivery, and every delivery marked dead-lettered has its dead letter.  And if no other worker
  is at the same event and target between these two queries, which no constraint of the schema ensures, an
  event keeps one delivery per target.\<close>

theorem handler_keeps_tables:
  assumes "racers_ok env" and "rows_consistent (db w)"
  shows "rows_consistent (db (snd (handleMessage env targetUrl sqsMessage w)))
    \<and> (unraced env targetUrl sqsMessage \<and> one_row (db w) \<longrightarrow> one_row (db (snd (handleMessage env targetUrl sqsMessage w))))"
proof
  show "rows_consistent (db (snd (handleMessage env targetUrl sqsMessage w)))"
    using tripleD [OF consistent_handle [OF assms(1)], of w targetUrl sqsMessage] assms(2)
    by (cases "handleMessage env targetUrl sqsMessage w") (auto simp: core_def split: sum.splits)
  show "unraced env targetUrl sqsMessage \<and> one_row (db w) \<longrightarrow> one_row (db (snd (handleMessage env targetUrl sqsMessage w)))"
  proof
    assume "unraced env targetUrl sqsMessage \<and> one_row (db w)"
    then show "one_row (db (snd (handleMessage env targetUrl sqsMessage w)))"
      using tripleD [OF tables_ok_handle, of env targetUrl sqsMessage w] assms(2)
      by (cases "handleMessage env targetUrl sqsMessage w") (auto simp: core_def tables_ok_iff split: sum.splits)
  qed
qed

text \<open>A worker that creates the row of the same event and target first: then the event has two.\<close>

definition rival :: "database \<Rightarrow> database" where
  "rival d = (case upsertInFlight ''e'' ''t'' ''u'' 0 d of Inl _ \<Rightarrow> d | Inr (_, d') \<Rightarrow> d')"

lemma plain_racers [simp]: "racers_ok plain_env" "unraced plain_env u sm"
proof -
  have "same_rows d d" if "rows_consistent d" for d
    using that by (auto simp: rows_consistent_def db_ok_def same_rows_def distinct_map inj_on_def)
  then show "racers_ok plain_env" "unraced plain_env u sm" by (simp_all add: racers_ok_def unraced_def plain_env_def)
qed

lemma racing_workers_create_two_rows:
  "(let d = (example_database FAILED 1)\<lparr>deliveries := []\<rparr>;
        w = snd (upsertDelivery (plain_env\<lparr>racing := rival\<rparr>) example_request ''u'' (empty_world\<lparr>db := d\<rparr>))
    in one_row d \<and> \<not> one_row (db w))"
  unfolding one_row_def by code_simp

theorem handler_keeps_tables_witness:
  "(let w = example_world FAILED 1; w' = snd (handleMessage plain_env ''u'' example_message w)
    in rows_consistent (db w') \<and> one_row (db w'))"
proof -
  have t: "rows_consistent (db (example_world FAILED 1))" "one_row (db (example_world FAILED 1))"
    using tables_ok_example [of FAILED 1] by (simp_all add: tables_ok_iff)
  from handler_keeps_tables [OF plain_racers(1) t(1), of "''u''" example_message] t(2) show ?thesis by (simp add: Let_def)
qed

text \<open>C2: a message leaves the queue only when its delivery is finished: whatever fails and whenever, and
  whatever other workers do to the tables between the two queries of an attempt, if
  the handler deletes the message, or returns the acknowledgement that will, then the message is no
  delivery request or its event has a delivery to the target marked succeeded or dead-lettered.  It
  deletes at most this one receipt, and none when it returns an acknowledgement.\<close>

theorem acknowledged_only_when_settled:
  assumes "racers_ok env" and "rows_consistent (db w)" and "handleMessage env targetUrl sqsMessage w = (res, w')"
  shows "(deleted w' = deleted w
      \<or> deleted w' = deleted w @ [the (ReceiptHandle sqsMessage)] \<and> settled_message sqsMessage targetUrl (db w'))
    \<and> (\<forall>a. res = Inr (Some a) \<longrightarrow> deleted w' = deleted w \<and> a = Acknowledge (the (ReceiptHandle sqsMessage))
         \<and> settled_message sqsMessage targetUrl (db w'))"
  using handle_triple [OF settled_handle [OF assms(1), of "deleted w"] _ assms(3)] assms(2)
  by (auto split: sum.splits option.splits)

text \<open>Two runs that let a message go: the first attempt succeeds and returns the acknowledgement; a message
  of a succeeded delivery is deleted.\<close>

theorem acknowledged_only_when_settled_witness:
  "(let (res, w') = handleMessage plain_env ''u'' example_message (example_world FAILED 1)
    in res = Inr (Some (Acknowledge ''r'')) \<and> settled_message example_message ''u'' (db w'))
   \<and> (let (res, w') = handleMessage plain_env ''u'' example_message (example_world SUCCEEDED 3)
    in deleted w' = [''r''] \<and> settled_message example_message ''u'' (db w'))"
proof -
  let ?w = "example_world FAILED 1" and ?v = "example_world SUCCEEDED 3"
  obtain res w' where h: "handleMessage plain_env ''u'' example_message ?w = (res, w')"
    by (cases "handleMessage plain_env ''u'' example_message ?w")
  obtain out v' where k: "handleMessage plain_env ''u'' example_message ?v = (out, v')"
    by (cases "handleMessage plain_env ''u'' example_message ?v")
  have t: "rows_consistent (db ?w)" "rows_consistent (db ?v)"
    using tables_ok_example [of FAILED 1] tables_ok_example [of SUCCEEDED 3] by (simp_all add: tables_ok_iff)
  have "res = Inr (Some (Acknowledge ''r''))" using example_runs(1) h by simp
  moreover have "deleted v' = [''r'']" using example_runs(2) k by simp
  ultimately show ?thesis
    using acknowledged_only_when_settled [OF plain_racers(1) t(1) h] acknowledged_only_when_settled [OF plain_racers(1) t(2) k]
    by (auto simp: h k)
qed

text \<open>C1: a finished delivery is left alone: for a message whose event already has a succeeded or
  dead-lettered delivery to the target, no run of the handler changes the database or calls the
  receiver.\<close>

theorem finished_delivery_is_not_repeated:
  assumes "parseQueueMessage (message_body sqsMessage) = Some m"
    and "is_complete (findByEventAndUrl (qm_eventId m) targetUrl (db w))"
    and "handleMessage env targetUrl sqsMessage w = (res, w')"
  shows "db w' = db w \<and> posts w' = posts w"
  using handle_triple [OF complete_handle [OF assms(1,2), of "posts w" env] _ assms(3)]
  by (auto split: sum.splits)

theorem finished_delivery_is_not_repeated_witness:
  "(let w = example_world SUCCEEDED 3; w' = snd (handleMessage plain_env ''u'' example_message w)
    in db w' = db w \<and> posts w' = [])"
proof -
  let ?w = "example_world SUCCEEDED 3"
  obtain res w' where h: "handleMessage plain_env ''u'' example_message ?w = (res, w')"
    by (cases "handleMessage plain_env ''u'' example_message ?w")
  have c: "is_complete (findByEventAndUrl (qm_eventId example_request) ''u'' (db ?w))"
    by (simp add: example_request_def find_example is_complete_def) (simp add: delivered_row_def)
  from finished_delivery_is_not_repeated [OF parse_example c h] show ?thesis
    by (simp add: h Let_def)
qed

text \<open>Every webhook call is counted before it is made.  One run of the handler either leaves the
  attempt count of the message's delivery unchanged and calls no one, or raises it by exactly one and
  calls the target at most once; so deferrals, duplicates and poison messages cost no attempt.\<close>

theorem attempts_count_calls:
  assumes "tables_ok (db w)" and "parseQueueMessage (message_body sqsMessage) = Some m"
    and "handleMessage env targetUrl sqsMessage w = (res, w')" and "unraced env targetUrl sqsMessage"
  shows "attempts (qm_eventId m) targetUrl (db w') = attempts (qm_eventId m) targetUrl (db w) \<and> posts w' = posts w
    \<or> attempts (qm_eventId m) targetUrl (db w') = attempts (qm_eventId m) targetUrl (db w) + 1
      \<and> (posts w' = posts w \<or> (\<exists>p. posts w' = posts w @ [p] \<and> po_url p = targetUrl))"
  using handle_triple [OF attempt_handle [OF assms(2,4)] _ assms(3)] assms(1)
  by (auto simp: one_attempt_def split: sum.splits)

theorem attempts_count_calls_witness:
  "(let w = example_world FAILED 1; w' = snd (handleMessage plain_env ''u'' example_message w)
    in attempts ''e'' ''u'' (db w') \<in> {1, 2} \<and> length (posts w') \<le> 1)"
proof -
  let ?w = "example_world FAILED 1"
  obtain res w' where h: "handleMessage plain_env ''u'' example_message ?w = (res, w')"
    by (cases "handleMessage plain_env ''u'' example_message ?w")
  have t: "tables_ok (db ?w)" by (simp add: tables_ok_example)
  have a: "attempts ''e'' ''u'' (db ?w) = 1" by (simp add: attempts_def find_example) (simp add: delivered_row_def)
  from attempts_count_calls [OF t parse_example h plain_racers(2)] a show ?thesis
    by (auto simp: h Let_def example_request_def)
qed

end
