(* ===== verification/WorkerBudget.thy ===== *)
theory WorkerBudget
  imports WorkerSafety
begin

text \<open>
  What the worker's handler achieves when the services answer: the receiver may fail in any way, the
  database, Redis, S3 and SQS do not, and no other process writes between the two queries of an attempt.  A failed attempt is retried when it is due and not before, and
  the attempt budget bounds the calls to the receiver.
\<close>

definition reliable :: "env \<Rightarrow> bool" where
  "reliable env \<longleftrightarrow> outcome env = (\<lambda>_. Completes) \<and> racing env = (\<lambda>d. d)"

lemma reliable_racing [simp]: "reliable env \<Longrightarrow> racing env d = d"
  by (simp add: reliable_def)

lemma reliable_service [simp]: "reliable env \<Longrightarrow> service env c m w = m (w\<lparr>now := now w + int (elapse env c)\<rparr>)"
  by (simp add: reliable_def service_def tick_for_def andThen_def)

lemma reliable_send [simp]: "reliable env \<Longrightarrow> sendWithTimeout env c m l w = m (w\<lparr>now := now w + int (elapse env c)\<rparr>)"
  by (simp add: reliable_def sendWithTimeout_def tick_for_def andThen_def)

section \<open>Hiding a message\<close>

lemma visibility_seconds_cover:
  "visibilityTimeoutSeconds (Num d) = Num (of_int (min (max \<lceil>d / 1000\<rceil> 1) 43200))"
proof -
  have "js_min (js_max (Num (of_int k)) (Num 1)) (Num 43200) = Num (of_int (min (max k 1) 43200))" for k :: int
    by (simp add: min_def max_def)
  then show ?thesis by (simp add: visibilityTimeoutSeconds_def del: js_max_Num js_min_Num)
qed

lemma hideUntil_reliable:
  assumes "reliable env"
  shows "\<exists>w'. hideUntil env r (Num d) reason w = (Inr (), w')
    \<and> of_int (now w) + min d 43200000 \<le> of_int (hidden_until w' r)
    \<and> now w + 1000 \<le> hidden_until w' r
    \<and> map_of (receipts (held w')) r = None
    \<and> db w' = db w \<and> deleted w' = deleted w \<and> posts w' = posts w
    \<and> (\<forall>r'. r' \<noteq> r \<longrightarrow> hidden_until w' r' = hidden_until w r')"
proof -
  let ?k = "min (max \<lceil>d / 1000\<rceil> 1) 43200"
  have k: "1 \<le> ?k" by simp
  have "min d 43200000 \<le> of_int (1000 * ?k)"
  proof -
    have "d / 1000 \<le> of_int \<lceil>d / 1000\<rceil>" by (rule le_of_int_ceiling)
    then have "d \<le> 1000 * of_int (max \<lceil>d / 1000\<rceil> 1)" by (simp add: max_def) linarith
    then show ?thesis by (auto simp: min_def)
  qed
  moreover have "(0 :: int) \<le> int (elapse env ChangeMessageVisibility) + int (elapse env WaitRelease)" by simp
  ultimately show ?thesis
    using assms k
    unfolding hideUntil_def andThen_def observeSqsOperation_def catching_def releaseLease_def tick_for_def
      recordMetric_def changeVisibility_def visibility_seconds_cover
    by (auto simp: map_of_release split: option.splits)
qed

section \<open>Scheduling a retry\<close>

definition failed_row :: "string \<Rightarrow> int \<Rightarrow> delivery \<Rightarrow> bool" where
  "failed_row err when x \<longleftrightarrow>
     dl_status x = FAILED \<and> dl_nextAttemptAt x = Some when \<and> dl_lastError x = Some (take 500 err)"

lemma markFailed_found:
  assumes "x \<in> set (deliveries d)" and "dl_id x = i"
  shows "\<exists>y d'. markFailed i err when d = Inr (y, d') \<and> (\<forall>z \<in> set (deliveries d'). dl_id z = i \<longrightarrow> failed_row err when z)"
  using assms
  by (cases rule: delivery_update_cases [of i "\<lambda>d. d\<lparr>dl_status := FAILED, dl_lastError := Some (take 500 err),
       dl_nextAttemptAt := Some when\<rparr>" d])
    (auto simp: markFailed_def set_update_where failed_row_def)

lemma scheduleRetry_reliable:
  assumes "reliable env" and "x \<in> set (deliveries (db w))" and "dl_id x = i" and "0 \<le> random env" and "random env < 1"
  shows "\<exists>when y d' w'. scheduleRetry env i n err r reason w = (Inr when, w')
    \<and> markFailed i err when (db w) = Inr (y, d') \<and> db w' = d'
    \<and> now w \<le> when \<and> when \<le> now w + delay_cap n \<and> when \<le> hidden_until w' r \<and> now w + 1000 \<le> hidden_until w' r
    \<and> map_of (receipts (held w')) r = None \<and> deleted w' = deleted w \<and> posts w' = posts w
    \<and> (\<forall>z \<in> set (deliveries (db w')). dl_id z = i \<longrightarrow> failed_row err when z)"
proof -
  let ?when = "nextAttemptAt (random env) n (now w)"
  let ?delay = "max (?when - now w) 1000"
  have b: "0 \<le> backoffDelayMs (random env) n" "backoffDelayMs (random env) n \<le> delay_cap n"
    using backoffDelayMs_bounds assms(4,5) by auto
  obtain y d' where f: "markFailed i err ?when (db w) = Inr (y, d')"
    and z: "\<forall>z \<in> set (deliveries d'). dl_id z = i \<longrightarrow> failed_row err ?when z"
    using markFailed_found [OF assms(2,3)] by blast
  let ?w1 = "w\<lparr>now := now w + int (elapse env WriteStatus), db := d'\<rparr>"
  obtain w1 where w1: "recordMetric env (RetryMetric reason) ?w1 = (Inr (), w1)"
    and s: "now w1 = now ?w1" "db w1 = d'" "deleted w1 = deleted w" "posts w1 = posts w"
    by (simp add: recordMetric_def)
  obtain w2 where w2: "hideUntil env r (Num (of_int ?delay)) None w1 = (Inr (), w2)"
    and h: "of_int (now w1) + min (of_int ?delay) 43200000 \<le> (of_int (hidden_until w2 r) :: rat)"
      "now w1 + 1000 \<le> hidden_until w2 r"
      "map_of (receipts (held w2)) r = None" "db w2 = db w1" "deleted w2 = deleted w1" "posts w2 = posts w1"
    using hideUntil_reliable [OF assms(1), of r "of_int ?delay" None w1] by blast
  have "?delay \<le> 60000" using b delay_cap_le [of n] by (simp add: nextAttemptAt_def)
  then have "min (of_int ?delay) (43200000 :: rat) = of_int ?delay" by simp
  with h(1) have "of_int (now w1 + ?delay) \<le> (of_int (hidden_until w2 r) :: rat)" by simp
  then have "now w1 + ?delay \<le> hidden_until w2 r" by (simp only: of_int_le_iff)
  moreover have "now w \<le> now w1" by (simp add: s)
  ultimately have due: "?when \<le> hidden_until w2 r" "now w + 1000 \<le> hidden_until w2 r" by auto
  have "scheduleRetry env i n err r reason w = (Inr ?when, w2)"
    unfolding scheduleRetry_def Let_def
    by (simp add: andThen_def db_act_def f assms(1) w1 w2)
  with f z s h due b show ?thesis by (intro exI [of _ ?when] exI [of _ y] exI [of _ d'] exI [of _ w2])
    (simp add: nextAttemptAt_def)
qed

section \<open>Moving to a dead letter\<close>

definition events_ok :: "database \<Rightarrow> bool" where
  "events_ok d \<longleftrightarrow> (\<forall>x \<in> set (deliveries d). find (\<lambda>e. ev_id e = dl_eventId x) (events d) \<noteq> None)"

definition archive_possible :: "env \<Rightarrow> queue_message \<Rightarrow> bool" where
  "archive_possible env m \<longleftrightarrow> truthy_text (bucket_name env) \<or> truthy_text (qm_payloadS3Key m)"

definition archive_key :: "queue_message \<Rightarrow> string" where
  "archive_key m =
     (if truthy_text (qm_payloadS3Key m) then the (qm_payloadS3Key m) else ''dead-letters/'' @ qm_eventId m @ ''.json'')"

lemma archivePayload_reliable:
  assumes "reliable env" and "archive_possible env m"
  shows "\<exists>w'. archivePayload env m w = (Inr (archive_key m), w') \<and> db w' = db w \<and> deleted w' = deleted w \<and> posts w' = posts w
    \<and> (if truthy_text (qm_payloadS3Key m) then objects w' = objects w
       else objects w' (archive_key m) = Some (stringify (qm_payload m)))"
  using assms
  by (auto simp: archivePayload_def archive_key_def archive_possible_def Let_def andThen_def requireBucket_def)

lemma acknowledge_reliable:
  assumes "reliable env"
  shows "\<exists>w'. acknowledgeMessage env r w = (Inr (), w') \<and> db w' = db w \<and> deleted w' = deleted w @ [r] \<and> posts w' = posts w
    \<and> objects w' = objects w"
  using assms
  by (simp add: acknowledgeMessage_def releaseLease_def tick_for_def andThen_def observeSqsOperation_def catching_def
      recordMetric_def)

lemma createDeadLetter_found:
  assumes "x \<in> set (deliveries d)" and "dl_id x = le_deliveryId input" and "dl_eventId x = le_eventId input" and "events_ok d"
  shows "\<exists>l d'. createDeadLetter input d = Inr (l, d') \<and> deliveries d' = deliveries d \<and> events d' = events d
    \<and> (\<exists>k \<in> set (deadLetters d'). le_deliveryId k = le_deliveryId input \<and> le_payloadS3Key k = le_payloadS3Key input
          \<and> le_lastError k = le_lastError input \<and> le_attemptCount k = le_attemptCount input)"
proof (cases "find (\<lambda>l. le_deliveryId l = le_deliveryId input) (deadLetters d)")
  case None
  have "find (\<lambda>e. ev_id e = le_eventId input) (events d) \<noteq> None" using assms by (auto simp: events_ok_def)
  moreover have "find (\<lambda>x. dl_id x = le_deliveryId input) (deliveries d) \<noteq> None"
    using assms(1,2) by (auto simp: find_None_iff)
  ultimately show ?thesis using None by (simp add: createDeadLetter_def Let_def)
next
  case (Some k)
  let ?f = "\<lambda>l. l\<lparr>le_lastError := le_lastError input, le_attemptCount := le_attemptCount input,
                  le_payloadS3Key := le_payloadS3Key input\<rparr>"
  have "?f k \<in> set (update_where (\<lambda>l. le_deliveryId l = le_deliveryId input) ?f (deadLetters d))"
    using find_SomeD [OF Some] by (auto simp: set_update_where)
  then show ?thesis
    using Some find_SomeD [OF Some] by (auto simp: createDeadLetter_def Let_def intro!: bexI [of _ "?f k"])
qed

lemma markDeadLettered_found:
  assumes "x \<in> set (deliveries d)" and "dl_id x = i"
  shows "\<exists>y d'. markDeadLettered i err d = Inr (y, d') \<and> deadLetters d' = deadLetters d \<and> events d' = events d
    \<and> (\<forall>z \<in> set (deliveries d'). dl_id z = i \<longrightarrow> dl_status z = DEAD_LETTERED)"
  using assms
  by (cases rule: delivery_update_cases [of i "\<lambda>d. d\<lparr>dl_status := DEAD_LETTERED, dl_lastError := Some (take 500 err),
       dl_nextAttemptAt := None\<rparr>" d])
    (auto simp: markDeadLettered_def set_update_where)

lemma moveToDeadLetter_reliable:
  assumes rel: "reliable env" and arch: "archive_possible env m" and ev: "events_ok (db w)"
    and x: "x \<in> set (deliveries (db w))" "dl_id x = dl_id dl" "dl_eventId x = dl_eventId dl"
  shows "\<exists>w' d1 l y t. moveToDeadLetter env dl u err m r w = (Inr (), w')
    \<and> createDeadLetter (dead_letter_input dl u err (archive_key m) t) (db w) = Inr (l, d1)
    \<and> markDeadLettered (dl_id dl) err d1 = Inr (y, db w')
    \<and> deleted w' = deleted w @ [r] \<and> posts w' = posts w
    \<and> (\<forall>z \<in> set (deliveries (db w')). dl_id z = dl_id dl \<longrightarrow> dl_status z = DEAD_LETTERED)
    \<and> (\<exists>k \<in> set (deadLetters (db w')). le_deliveryId k = dl_id dl \<and> le_payloadS3Key k = archive_key m
          \<and> le_lastError k = Some (take 500 err) \<and> le_attemptCount k = dl_attemptCount dl)
    \<and> (\<not> truthy_text (qm_payloadS3Key m) \<longrightarrow> objects w' (archive_key m) = Some (stringify (qm_payload m)))"
proof -
  obtain w1 where w1: "archivePayload env m w = (Inr (archive_key m), w1)" "db w1 = db w" "deleted w1 = deleted w" "posts w1 = posts w"
    and ob: "\<not> truthy_text (qm_payloadS3Key m) \<Longrightarrow> objects w1 (archive_key m) = Some (stringify (qm_payload m))"
    using archivePayload_reliable [OF rel arch, of w] by auto
  let ?in = "dead_letter_input dl u err (archive_key m) (now w1 + int (elapse env WriteDeadLetter))"
  obtain l d1 where d1: "createDeadLetter ?in (db w) = Inr (l, d1)" "deliveries d1 = deliveries (db w)" "events d1 = events (db w)"
    and k: "\<exists>k \<in> set (deadLetters d1). le_deliveryId k = dl_id dl \<and> le_payloadS3Key k = archive_key m
          \<and> le_lastError k = Some (take 500 err) \<and> le_attemptCount k = dl_attemptCount dl"
    using createDeadLetter_found [of x "db w" ?in] x ev by auto
  obtain y d2 where d2: "markDeadLettered (dl_id dl) err d1 = Inr (y, d2)" "deadLetters d2 = deadLetters d1"
    and z: "\<forall>z \<in> set (deliveries d2). dl_id z = dl_id dl \<longrightarrow> dl_status z = DEAD_LETTERED"
    using markDeadLettered_found [of x d1 "dl_id dl" err] x d1(2) by auto
  let ?w2 = "w1\<lparr>now := now w1 + int (elapse env WriteDeadLetter) + int (elapse env WriteStatus), db := d2\<rparr>"
  obtain w3 where w3: "recordMetric env (TerminalMetric DeadLettered) ?w2 = (Inr (), w3)"
    and s3: "db w3 = d2" "deleted w3 = deleted w" "posts w3 = posts w" "objects w3 = objects w1"
    by (simp add: recordMetric_def w1)
  obtain w4 where w4: "acknowledgeMessage env r w3 = (Inr (), w4)" "db w4 = d2" "deleted w4 = deleted w @ [r]"
    "posts w4 = posts w" "objects w4 = objects w1"
    using acknowledge_reliable [OF rel, of r w3] s3 by auto
  have "moveToDeadLetter env dl u err m r w = (Inr (), w4)"
    using w1 d1 d2 w3 w4 rel by (simp add: moveToDeadLetter_def andThen_def db_act_def)
  then show ?thesis using d1 d2 z k w4 ob by auto
qed

section \<open>The attempt budget\<close>

lemma events_ok_update:
  "events_ok d \<Longrightarrow> delivery_update i f d = Inr (y, d') \<Longrightarrow> keeps_identity f \<Longrightarrow> events_ok d'"
  by (cases rule: delivery_update_cases [of i f d]) (auto simp: events_ok_def set_update_where keeps_identity_def)

lemma events_ok_mark:
  "events_ok d \<Longrightarrow> markSucceeded i d = Inr (y, d') \<Longrightarrow> events_ok d'"
  "events_ok d \<Longrightarrow> markFailed i err t d = Inr (y, d') \<Longrightarrow> events_ok d'"
  "events_ok d \<Longrightarrow> markDeadLettered i err d = Inr (y, d') \<Longrightarrow> events_ok d'"
  by (auto simp: markSucceeded_def markFailed_def markDeadLettered_def elim!: events_ok_update)

lemma events_ok_createDeadLetter:
  "events_ok d \<Longrightarrow> createDeadLetter input d = Inr (l, d') \<Longrightarrow> events_ok d'"
  by (auto simp: events_ok_def createDeadLetter_def Let_def split: option.splits if_splits)

lemma events_ok_writeInFlight:
  "events_ok d \<Longrightarrow> writeInFlight found e t u n d = Inr (x, d') \<Longrightarrow> events_ok d'"
  by (auto simp: writeInFlight_def delivery_create_def Let_def events_ok_def split: option.splits if_splits
      dest!: events_ok_update [unfolded events_ok_def, rotated])

text \<open>Between runs a delivery is finished or has budget left; inside a run, its row is known.\<close>

definition within_budget :: "rat \<Rightarrow> string \<Rightarrow> string \<Rightarrow> database \<Rightarrow> bool" where
  "within_budget q e u d \<longleftrightarrow> tables_ok d \<and> events_ok d
     \<and> (is_complete (findByEventAndUrl e u d) \<or> of_int (attempts e u d) < q)"

definition in_attempt :: "string \<Rightarrow> string \<Rightarrow> delivery \<Rightarrow> database \<Rightarrow> bool" where
  "in_attempt e u x d \<longleftrightarrow> tables_ok d \<and> events_ok d \<and> dl_attemptCount x = attempts e u d
     \<and> (\<exists>z. findByEventAndUrl e u d = Some z \<and> dl_id z = dl_id x \<and> dl_eventId x = e)"

lemma find_in_set: "findByEventAndUrl e u d = Some z \<Longrightarrow> z \<in> set (deliveries d) \<and> dl_eventId z = e \<and> dl_targetUrl z = u"
  unfolding findByEventAndUrl_def by (drule find_SomeD) (simp add: for_event_def)

lemma in_attempt_current: "in_attempt e u x d \<Longrightarrow> current_row e u (dl_id x) d"
  by (auto simp: in_attempt_def current_row_def)

lemma in_attempt_writeInFlight:
  assumes "tables_ok d" and "events_ok d" and "writeInFlight (findByEventAndUrl e u d) e t u n d = Inr (x, d')"
  shows "in_attempt e u x d'"
  using find_after_writeInFlight [OF assms(1,3)] writeInFlight_ok [OF assms(1,3)] events_ok_writeInFlight [OF assms(2,3)]
  by (auto simp: in_attempt_def attempts_def dest: find_in_set)

lemma failAttempt_within_budget:
  assumes rel: "reliable env" and arch: "archive_possible env m" and q: "maxDeliveryAttempts (max_attempts env) = Inr (Num q)"
    and r: "0 \<le> random env" "random env < 1"
  shows "triple (core (\<lambda>d _ _. in_attempt e u x d)) (failAttempt env x u' err m rc reason)
    (\<lambda>_. core (\<lambda>d _ _. within_budget q e u d)) (\<lambda>_. False)"
proof (rule tripleI)
  fix w assume "core (\<lambda>d _ _. in_attempt e u x d) w"
  then have a: "in_attempt e u x (db w)" by (simp add: core_def)
  then obtain z where z: "findByEventAndUrl e u (db w) = Some z" "dl_id z = dl_id x" "dl_eventId x = e"
    and t: "tables_ok (db w)" and ev: "events_ok (db w)" and n: "dl_attemptCount x = attempts e u (db w)"
    by (auto simp: in_attempt_def)
  have zin: "z \<in> set (deliveries (db w))" "dl_eventId z = e" using find_in_set [OF z(1)] by auto
  have ex: "isExhausted (max_attempts env) (dl_attemptCount x) = Inr (q \<le> of_int (dl_attemptCount x))"
    using q by (simp add: isExhausted_def)
  show "case failAttempt env x u' err m rc reason w of (Inl _, s') \<Rightarrow> False
      | (Inr _, s') \<Rightarrow> core (\<lambda>d _ _. within_budget q e u d) s'"
  proof (cases "q \<le> of_int (dl_attemptCount x)")
    case True
    obtain w' d1 l y dl where m: "moveToDeadLetter env x u' err m rc w = (Inr (), w')"
      and c: "createDeadLetter dl (db w) = Inr (l, d1)" "le_deliveryId dl = dl_id x"
      and k: "markDeadLettered (dl_id x) err d1 = Inr (y, db w')"
      using moveToDeadLetter_reliable [OF rel arch ev zin(1) z(2), of u' err rc] zin z(3)
      by fastforce
    have "current_row e u (dl_id x) d1"
      using createDeadLetter_same(1) [OF c(1)] in_attempt_current [OF a] by simp
    then have "is_complete (findByEventAndUrl e u (db w'))" using terminal_updates(2) [OF k] by simp
    moreover have "tables_ok (db w')" using createDeadLetter_tables [OF t c(1)] c(2) mark_tables(3) [OF _ _ k] by auto
    moreover have "events_ok (db w')" using events_ok_mark(3) [OF events_ok_createDeadLetter [OF ev c(1)] k] .
    ultimately show ?thesis
      using True by (simp add: failAttempt_def andThen_def ex m core_def within_budget_def)
  next
    case False
    obtain w' y d' due where s: "scheduleRetry env (dl_id x) (dl_attemptCount x) err rc reason w = (Inr due, w')"
      and f: "markFailed (dl_id x) err due (db w) = Inr (y, d')" "db w' = d'"
      using scheduleRetry_reliable [OF rel zin(1) z(2) r] by blast
    have "tables_ok d'" "events_ok d'" using mark_tables(2) [OF t f(1)] events_ok_mark(2) [OF ev f(1)] .
    moreover have "attempts e u d' = dl_attemptCount x" using mark_attempts(2) [OF f(1)] n by simp
    ultimately show ?thesis
      using False by (simp add: failAttempt_def andThen_def ex s core_def within_budget_def f)
  qed
qed

text \<open>With reliable services only the first query of an attempt can fail, and then nothing has changed.\<close>

lemma attempt_reliable:
  assumes rel: "reliable env"
    and up: "\<And>t d del ps x d'. P d del ps \<Longrightarrow>
      writeInFlight (findByEventAndUrl (qm_eventId m) u d) (qm_eventId m) (qm_tenantId m) u t d = Inr (x, d') \<Longrightarrow>
      A x d' del ps"
    and post: "\<And>x d del ps p. A x d del ps \<Longrightarrow> A x d del (ps @ [p])"
    and fail: "\<And>x err reason. triple (core (A x)) (failAttempt env x u err m r reason) (\<lambda>_. core F) (\<lambda>_. False)"
    and ok: "\<And>x d del ps. A x d del ps \<Longrightarrow> \<exists>y d'. markSucceeded (dl_id x) d = Inr (y, d') \<and> F d' del ps"
  shows "triple (core P) (attemptDelivery env u m r) (\<lambda>_. core F) (core P)"
  unfolding attemptDelivery_def
proof (rule triple_andThen)
  show "triple (core P) (upsertDelivery env m u) (\<lambda>x. core (A x)) (core P)"
    using up by (auto simp: triple_def upsertDelivery_def andThen_def rel db_act_def core_def split: sum.splits)
  fix x
  let ?N = "\<lambda>_ :: world. False"
  have metric: "triple (core (A x)) (recordMetric env k) (\<lambda>_. core (A x)) ?N" for k
    by (simp add: triple_def recordMetric_def core_def)
  have circuit: "triple (core (A x)) (recordCircuit env f u) (\<lambda>_. core (A x)) ?N" for f
    by (simp add: triple_def recordCircuit_def core_def rel split: prod.splits)
  have webhook: "triple (core (A x)) (postWebhook env u b secret) (\<lambda>_. core (A x)) ?N" for b secret
    by (rule triple_conseq [OF triple_postWebhook [where P = "A x" and Q = "A x" and E = "\<lambda>_ _ _. False"]])
      (use post in \<open>auto simp: core_def\<close>)
  have prepare: "triple (core (A x)) (prepareWebhook env m) (\<lambda>_. core (A x)) ?N"
  proof (rule tripleI)
    fix w assume w: "core (A x) w"
    have "\<exists>y w'. prepareWebhook env m w = (Inr y, w')"
      by (auto simp: prepareWebhook_def catching_def split: prod.splits sum.splits)
    then obtain y w' where p: "prepareWebhook env m w = (Inr y, w')" by blast
    then show "case prepareWebhook env m w of (Inl _, s') \<Rightarrow> False | (Inr _, s') \<Rightarrow> core (A x) s'"
      using keepsD [OF core_prepareWebhook w, of env m] by simp
  qed
  have failure: "triple (core (A x)) (andThen (recordMetric env (WebhookMetric False)) (\<lambda>_.
      andThen (recordCircuit env recordDeliveryFailure u) (\<lambda>_. failAttempt env x u err m r Webhook))) (\<lambda>_. core F) ?N" for err
    by (rule triple_andThen [OF metric triple_andThen [OF circuit fail]])
  have success: "triple (core (A x)) (andThen (recordMetric env (WebhookMetric True)) (\<lambda>_.
      andThen (recordCircuit env recordDeliverySuccess u) (\<lambda>_.
      andThen (service env WriteStatus (db_act (markSucceeded (dl_id x)))) (\<lambda>_.
      andThen (recordMetric env (TerminalMetric Succeeded)) (\<lambda>_. ret (Some (Acknowledge r))))))) (\<lambda>_. core F) ?N"
  proof (rule triple_andThen [OF metric], rule triple_andThen [OF circuit], intro triple_andThen)
    show "triple (core (A x)) (service env WriteStatus (db_act (markSucceeded (dl_id x)))) (\<lambda>_. core F) ?N"
    proof (rule tripleI)
      fix w assume "core (A x) w"
      then obtain y d' where "markSucceeded (dl_id x) (db w) = Inr (y, d')" "F d' (deleted w) (posts w)"
        using ok [of x "db w" "deleted w" "posts w"] by (auto simp: core_def)
      then show "case service env WriteStatus (db_act (markSucceeded (dl_id x))) w of (Inl _, s') \<Rightarrow> False | (Inr _, s') \<Rightarrow> core F s'"
        by (simp add: rel db_act_def core_def)
    qed
    show "triple (core F) (recordMetric env (TerminalMetric Succeeded)) (\<lambda>_. core F) ?N"
      by (simp add: triple_def recordMetric_def core_def)
    show "triple (core F) (ret (Some (Acknowledge r))) (\<lambda>_. core F) ?N"
      by (rule triple_ret)
  qed
  have "triple (core (A x)) (andThen (prepareWebhook env m) (\<lambda>prepared.
      case prepared of Inl e \<Rightarrow> failAttempt env x u (exn_message e) m r Preparation
      | Inr (secret, payload) \<Rightarrow> andThen (postWebhook env u (webhook_body m payload) secret) (\<lambda>result.
          case result of WebhookFail _ err \<Rightarrow>
             andThen (recordMetric env (WebhookMetric False)) (\<lambda>_.
             andThen (recordCircuit env recordDeliveryFailure u) (\<lambda>_. failAttempt env x u err m r Webhook))
          | WebhookOk _ \<Rightarrow>
             andThen (recordMetric env (WebhookMetric True)) (\<lambda>_.
             andThen (recordCircuit env recordDeliverySuccess u) (\<lambda>_.
             andThen (service env WriteStatus (db_act (markSucceeded (dl_id x)))) (\<lambda>_.
             andThen (recordMetric env (TerminalMetric Succeeded)) (\<lambda>_. ret (Some (Acknowledge r)))))))))
      (\<lambda>_. core F) ?N"
    by (intro triple_andThen [OF prepare])
      (auto split: sum.splits prod.splits webhook_result.splits intro!: fail triple_andThen [OF webhook] failure success)
  then show "triple (core (A x)) (andThen (prepareWebhook env m) (\<lambda>prepared.
      case prepared of Inl e \<Rightarrow> failAttempt env x u (exn_message e) m r Preparation
      | Inr (secret, payload) \<Rightarrow> andThen (postWebhook env u (webhook_body m payload) secret) (\<lambda>result.
          case result of WebhookFail _ err \<Rightarrow>
             andThen (recordMetric env (WebhookMetric False)) (\<lambda>_.
             andThen (recordCircuit env recordDeliveryFailure u) (\<lambda>_. failAttempt env x u err m r Webhook))
          | WebhookOk _ \<Rightarrow>
             andThen (recordMetric env (WebhookMetric True)) (\<lambda>_.
             andThen (recordCircuit env recordDeliverySuccess u) (\<lambda>_.
             andThen (service env WriteStatus (db_act (markSucceeded (dl_id x)))) (\<lambda>_.
             andThen (recordMetric env (TerminalMetric Succeeded)) (\<lambda>_. ret (Some (Acknowledge r)))))))))
      (\<lambda>_. core F) (core P)"
    by (rule triple_conseq) auto
qed

text \<open>The runs of the handler for one event: each has its own environment, as time, receiver and
  randomness go on.\<close>

definition budget_env :: "string option \<Rightarrow> env \<Rightarrow> bool" where
  "budget_env raw env \<longleftrightarrow> reliable env \<and> max_attempts env = raw \<and> truthy_text (bucket_name env)
     \<and> 0 \<le> random env \<and> random env < 1"

fun handle_all :: "string \<Rightarrow> (env \<times> sqs_message) list \<Rightarrow> world \<Rightarrow> world" where
  "handle_all u [] w = w"
| "handle_all u ((env, sm) # rs) w = handle_all u rs (snd (handleMessage env u sm w))"

definition for_message :: "string \<Rightarrow> sqs_message \<Rightarrow> bool" where
  "for_message e sm \<longleftrightarrow> (\<exists>m. parseQueueMessage (message_body sm) = Some m \<and> qm_eventId m = e)"

lemma within_budget_handle:
  assumes env: "budget_env raw env" and q: "maxDeliveryAttempts raw = Inr (Num q)" and m: "for_message e sm"
  shows "triple (core (\<lambda>d _ _. within_budget q e u d)) (handleMessage env u sm)
    (\<lambda>_. core (\<lambda>d _ _. within_budget q e u d)) (core (\<lambda>d _ _. within_budget q e u d))"
proof (rule triple_handleMessage)
  fix m' assume m': "parseQueueMessage (message_body sm) = Some m'"
  then have e: "qm_eventId m' = e" using m by (auto simp: for_message_def)
  have "triple (core (\<lambda>d _ _. within_budget q e u d)) (attemptDelivery env u m' (the (ReceiptHandle sm)))
      (\<lambda>_. core (\<lambda>d _ _. within_budget q e u d)) (core (\<lambda>d _ _. within_budget q e u d))"
  proof (rule attempt_reliable [where A = "\<lambda>x d _ _. in_attempt e u x d"])
    show "reliable env" using env by (simp add: budget_env_def)
    show "triple (core (\<lambda>d _ _. in_attempt e u x d)) (failAttempt env x u err m' (the (ReceiptHandle sm)) reason)
        (\<lambda>_. core (\<lambda>d _ _. within_budget q e u d)) (\<lambda>_. False)" for x err reason
      using env q by (intro failAttempt_within_budget) (auto simp: budget_env_def archive_possible_def)
    show "\<exists>y d'. markSucceeded (dl_id x) d = Inr (y, d') \<and> within_budget q e u d'" if a: "in_attempt e u x d" for x d
    proof -
      obtain z where z: "z \<in> set (deliveries d)" "dl_id z = dl_id x"
        using a by (auto simp: in_attempt_def dest: find_in_set)
      then obtain y d' where s: "markSucceeded (dl_id x) d = Inr (y, d')"
        by (cases rule: delivery_update_cases [of "dl_id x" "\<lambda>d. d\<lparr>dl_status := SUCCEEDED, dl_lastError := None\<rparr>" d])
          (auto simp: markSucceeded_def)
      then show ?thesis
        using a in_attempt_current [OF a] mark_tables(1) [OF _ s] events_ok_mark(1) [OF _ s] terminal_updates(1) [OF s]
        by (auto simp: within_budget_def in_attempt_def)
    qed
  qed (auto simp: e within_budget_def intro: in_attempt_writeInFlight)
  then show "triple (core (\<lambda>d _ _. within_budget q e u d \<and> \<not> is_complete (findByEventAndUrl (qm_eventId m') u d)))
      (attemptDelivery env u m' (the (ReceiptHandle sm)))
      (\<lambda>_. core (\<lambda>d _ _. within_budget q e u d)) (core (\<lambda>d _ _. within_budget q e u d))"
    by (rule triple_pre) (simp add: core_def)
qed auto

definition calls_within :: "rat \<Rightarrow> string \<Rightarrow> string \<Rightarrow> world \<Rightarrow> bool" where
  "calls_within q e u w \<longleftrightarrow> within_budget q e u (db w)
     \<and> int (length (posts w)) \<le> attempts e u (db w) \<and> attempts e u (db w) \<le> \<lceil>q\<rceil>"

lemma calls_within_step:
  assumes c: "calls_within q e u w" and env: "budget_env raw env" and q: "maxDeliveryAttempts raw = Inr (Num q)"
    and m: "for_message e sm"
  shows "calls_within q e u (snd (handleMessage env u sm w))"
proof -
  obtain res w' where h: "handleMessage env u sm w = (res, w')" by (cases "handleMessage env u sm w")
  obtain m' where m': "parseQueueMessage (message_body sm) = Some m'" "qm_eventId m' = e"
    using m by (auto simp: for_message_def)
  have b: "within_budget q e u (db w')"
    using handle_triple [OF within_budget_handle [OF env q m] _ h] c by (auto simp: calls_within_def split: sum.splits)
  show ?thesis
  proof (cases "is_complete (findByEventAndUrl e u (db w))")
    case True
    then have "db w' = db w \<and> posts w' = posts w"
      using handle_triple [OF complete_handle [OF m'(1), of u "db w" "posts w" env] _ h] m'(2)
      by (auto split: sum.splits)
    with c show ?thesis by (simp add: calls_within_def h)
  next
    case False
    let ?n = "attempts e u (db w)"
    have "of_int ?n < q" using c False by (auto simp: calls_within_def within_budget_def)
    then have "?n + 1 \<le> \<lceil>q\<rceil>" by (simp add: less_ceiling_iff [symmetric])
    moreover have un: "unraced env u sm" using env by (simp add: budget_env_def unraced_def)
    have "one_attempt e u ?n (posts w) (db w') (posts w')"
      using handle_triple [OF attempt_handle [OF m'(1) un, of ?n "posts w"] _ h] c m'(2)
      by (auto simp: calls_within_def within_budget_def split: sum.splits)
    ultimately show ?thesis
      using b c by (auto simp: calls_within_def one_attempt_def h)
  qed
qed

lemma calls_within_all:
  "calls_within q e u w \<Longrightarrow> maxDeliveryAttempts raw = Inr (Num q) \<Longrightarrow>
   \<forall>(env, sm) \<in> set rs. budget_env raw env \<and> for_message e sm \<Longrightarrow> calls_within q e u (handle_all u rs w)"
  by (induction u rs w rule: handle_all.induct) (auto intro: calls_within_step)

section \<open>Properties\<close>

text \<open>C4: with services that answer, the attempt budget bounds the calls to the receiver: however often an
  event's message is delivered to the worker and however the receiver answers, at most
  \<open>MAX_DELIVERY_ATTEMPTS\<close> webhook calls are made for the event, rounded up when that is no whole number.  The
  runs follow one another: no other worker writes between the two queries of an attempt.\<close>

theorem attempt_budget_bounds_calls:
  assumes "tables_ok (db w)" and "events_ok (db w)" and "findByEventAndUrl e u (db w) = None" and "posts w = []"
    and "maxDeliveryAttempts raw = Inr (Num q)"
    and "\<forall>(env, sm) \<in> set rs. budget_env raw env \<and> for_message e sm"
  shows "int (length (posts (handle_all u rs w))) \<le> \<lceil>q\<rceil>"
proof -
  have "1 \<le> q" using maxDeliveryAttempts_range [OF assms(5)] by auto
  then have "calls_within q e u w"
    using assms(1-4) by (simp add: calls_within_def within_budget_def attempts_def)
  from calls_within_all [OF this assms(5,6)] show ?thesis by (simp add: calls_within_def)
qed

theorem attempt_budget_bounds_calls_witness:
  "int (length (posts (handle_all ''u'' (replicate 9 (plain_env\<lparr>receiver := \<lambda>_ _ _. Status 500\<rparr>, example_message))
     (empty_world\<lparr>db := (example_database FAILED 1)\<lparr>deliveries := []\<rparr>\<rparr>)))) \<le> 8"
proof -
  let ?env = "plain_env\<lparr>receiver := \<lambda>_ _ _. Status 500\<rparr>"
  let ?d = "(example_database FAILED 1)\<lparr>deliveries := []\<rparr>"
  have d: "tables_ok ?d" "events_ok ?d" "findByEventAndUrl ''e'' ''u'' ?d = None"
    by (simp_all add: tables_ok_def db_ok_def one_row_def dead_ok_def events_ok_def findByEventAndUrl_def
        example_database_def empty_database_def)
  have e: "budget_env None ?env" by (simp add: budget_env_def reliable_def plain_env_def truthy_text_def)
  have m: "for_message ''e'' example_message"
    using parse_example by (auto simp: for_message_def example_request_def)
  have "int (length (posts (handle_all ''u'' (replicate 9 (?env, example_message)) (empty_world\<lparr>db := ?d\<rparr>)))) \<le> \<lceil>8 :: rat\<rceil>"
  proof (rule attempt_budget_bounds_calls [of _ "''e''" "''u''" None])
    show "posts (empty_world\<lparr>db := ?d\<rparr>) = []" by (simp add: empty_world_def)
  qed (use d e m in simp_all)
  then show ?thesis by simp
qed

text \<open>A retry is due between now and now plus the back-off cap of its attempt, and the queue hides the
  message at least until then and for at least a second: the delivery row and the message agree on
  when the next attempt may start.  The lease is given up, so no renewal moves that time.\<close>

theorem retry_is_hidden_until_due:
  assumes "reliable env" and "x \<in> set (deliveries (db w))" and "dl_id x = i"
    and "0 \<le> random env" and "random env < 1"
  shows "\<exists>due w'. scheduleRetry env i n err r reason w = (Inr due, w')
    \<and> now w \<le> due \<and> due \<le> now w + delay_cap n
    \<and> due \<le> hidden_until w' r \<and> now w + 1000 \<le> hidden_until w' r
    \<and> map_of (receipts (held w')) r = None \<and> deleted w' = deleted w
    \<and> (\<forall>z \<in> set (deliveries (db w')). dl_id z = i \<longrightarrow> failed_row err due z)"
  using scheduleRetry_reliable [OF assms] by blast

theorem retry_is_hidden_until_due_witness:
  "\<exists>due w'. scheduleRetry plain_env ''0'' 2 ''receiver returned 500'' ''r'' Webhook (example_world IN_FLIGHT 2) = (Inr due, w')
    \<and> due \<le> 2000 \<and> due \<le> hidden_until w' ''r''"
proof -
  have "delay_cap 2 = 2000" by (simp add: delay_cap_def)
  then show ?thesis
    using retry_is_hidden_until_due [of plain_env "delivered_row IN_FLIGHT 2" "example_world IN_FLIGHT 2" "''0''" 2
        "''receiver returned 500''" "''r''" Webhook]
    by (auto simp: reliable_def plain_env_def example_database_def delivered_row_def)
qed

text \<open>Moving a delivery to the dead letters, when the services answer and the payload can be
  archived, leaves it complete: the row is marked, its dead letter carries the error, the attempts and
  the key of the archive, an inline payload is stored under that key as JSON, and the message is
  deleted.\<close>

theorem dead_letter_is_complete:
  assumes "reliable env" and "archive_possible env m" and "events_ok (db w)"
    and "x \<in> set (deliveries (db w))" and "dl_id x = dl_id dl" and "dl_eventId x = dl_eventId dl"
  shows "\<exists>w'. moveToDeadLetter env dl u err m r w = (Inr (), w')
    \<and> deleted w' = deleted w @ [r]
    \<and> (\<forall>z \<in> set (deliveries (db w')). dl_id z = dl_id dl \<longrightarrow> dl_status z = DEAD_LETTERED)
    \<and> (\<exists>k \<in> set (deadLetters (db w')). le_deliveryId k = dl_id dl \<and> le_payloadS3Key k = archive_key m
          \<and> le_lastError k = Some (take 500 err) \<and> le_attemptCount k = dl_attemptCount dl)
    \<and> (\<not> truthy_text (qm_payloadS3Key m) \<longrightarrow> objects w' (archive_key m) = Some (stringify (qm_payload m)))"
  using moveToDeadLetter_reliable [OF assms, of u err r] by blast

theorem dead_letter_is_complete_witness:
  "\<exists>w'. moveToDeadLetter plain_env (delivered_row IN_FLIGHT 8) ''u'' ''boom'' example_request ''r'' (example_world IN_FLIGHT 8)
      = (Inr (), w')
    \<and> deleted w' = [''r''] \<and> objects w' ''dead-letters/e.json'' = Some ''null''"
  using dead_letter_is_complete [of plain_env example_request "example_world IN_FLIGHT 8" "delivered_row IN_FLIGHT 8"
      "delivered_row IN_FLIGHT 8" "''u''" "''boom''" "''r''"]
  by (auto simp: reliable_def plain_env_def archive_possible_def truthy_text_def events_ok_def example_database_def
      delivered_row_def archive_key_def example_request_def)

end
