(* ===== verification/Receiver.thy ===== *)
theory Receiver
  imports WorkerBudget Archive
begin

text \<open>
  The reference receiver (\<open>packages/shared/scripts/webhook-receiver.ts\<close>) and its composition with the worker: what a
  customer who verifies signatures this way accepts, and that it accepts what the worker posts.

  \<^item> The body of a request is its bytes, or \<open>None\<close> when it could not be read.
  \<^item> \<open>hb\<close> is the keyed digest of bytes; a text is digested as its UTF-8 bytes, which is how the platform defines it.
\<close>

section \<open>The receiver\<close>

record webhook_request =
  wr_method :: string
  wr_pathname :: string
  wr_body :: "nat list option"
  wr_signature :: "string option"

datatype webhook_reply = Refusal nat string | Accepted

fun reply_status :: "webhook_reply \<Rightarrow> int" where
  "reply_status (Refusal n _) = int n"
| "reply_status Accepted = 200"

type_synonym byte_hmac = "string \<Rightarrow> nat list \<Rightarrow> nat list"

definition text_digest :: "byte_hmac \<Rightarrow> hmac" where
  "text_digest hb secret t = hb secret (utf8_encode t)"

text \<open>The verification takes bytes here; it is the same function with the bytes as the text of their code units.\<close>

definition bytes_digest :: "byte_hmac \<Rightarrow> hmac" where
  "bytes_digest hb secret t = hb secret (map of_char t)"

definition verify_bytes :: "byte_hmac \<Rightarrow> nat list \<Rightarrow> string option \<Rightarrow> string \<Rightarrow> bool" where
  "verify_bytes hb bytes signature secret =
     (verifyWebhookSignature (bytes_digest hb) (map char_of bytes) signature secret = Inr True)"

definition createWebhookReceiver :: "byte_hmac \<Rightarrow> string \<Rightarrow> string \<Rightarrow> exn + (webhook_request \<Rightarrow> webhook_reply)" where
  "createWebhookReceiver hb tenantId secret =
     (if tenantId = [] \<or> secret = [] then Inl (Error ''Receiver tenant ID and secret are required'')
      else Inr (\<lambda>rq.
        if wr_method rq \<noteq> ''POST'' \<or> wr_pathname rq \<noteq> ''/webhook'' then Refusal 404 ''not found''
        else (case wr_body rq of
                None \<Rightarrow> Refusal 400 ''could not read request body''
              | Some bytes \<Rightarrow>
                  if \<not> verify_bytes hb bytes (wr_signature rq) secret then Refusal 401 ''invalid signature''
                  else (case Option.bind (utf8_decode bytes) json_parse of
                          None \<Rightarrow> Refusal 400 ''invalid JSON''
                        | Some v \<Rightarrow>
                            if (case v of JObj ms \<Rightarrow> map_of ms ''tenantId'' = Some (JStr tenantId) | _ \<Rightarrow> False)
                            then Accepted else Refusal 403 ''unexpected tenant''))))"

section \<open>Digests of bytes\<close>

lemma of_char_char_of_bytes: "\<forall>b \<in> set bytes. b < (256 :: nat) \<Longrightarrow> map of_char (map char_of bytes :: string) = bytes"
  by (induction bytes) (simp_all add: of_char_of)

lemma bytes_digest_text: "bytes_digest hb secret (map char_of (utf8_encode t)) = text_digest hb secret t"
  using of_char_char_of_bytes [of "utf8_encode t"] utf8_bytes by (auto simp: bytes_digest_def text_digest_def)

lemma verify_own:
  assumes "\<forall>secret bytes. length (hb secret bytes) = 32 \<and> (\<forall>b \<in> set (hb secret bytes). b < 256)"
    and "signWebhook (text_digest hb) t secret = Inr sig"
  shows "verify_bytes hb (utf8_encode t) (Some sig) secret"
proof -
  have ok: "hmac_ok (bytes_digest hb)" "hmac_ok (text_digest hb)" using assms(1) by (simp_all add: hmac_ok_def bytes_digest_def text_digest_def)
  have "signWebhook (bytes_digest hb) (map char_of (utf8_encode t)) secret = Inr sig"
    using assms(2) by (simp add: signWebhook_def bytes_digest_text split: if_splits)
  moreover from this have "secret \<noteq> []" by (auto simp: signWebhook_def)
  moreover have "sig \<noteq> []" "signature_format sig" using signWebhook_format [OF ok(2) assms(2)] by (auto simp: signature_format_def)
  ultimately show ?thesis by (simp add: verify_bytes_def verifyWebhookSignature_def)
qed

section \<open>The worker against the receiver\<close>

text \<open>The receiver is what answers at the target: the worker posts the body and the signature to its path.\<close>

definition worker_request :: "string \<Rightarrow> string \<Rightarrow> webhook_request" where
  "worker_request body signature =
     \<lparr>wr_method = ''POST'', wr_pathname = ''/webhook'', wr_body = Some (utf8_encode body), wr_signature = Some signature\<rparr>"

definition served_by :: "(webhook_request \<Rightarrow> webhook_reply) \<Rightarrow> env \<Rightarrow> string \<Rightarrow> bool" where
  "served_by answer env url \<longleftrightarrow>
     (\<forall>body signature. receiver env url body signature = Status (reply_status (answer (worker_request body signature))))"

definition byte_hmac_ok :: "byte_hmac \<Rightarrow> bool" where
  "byte_hmac_ok hb \<longleftrightarrow> (\<forall>secret bytes. length (hb secret bytes) = 32 \<and> (\<forall>b \<in> set (hb secret bytes). b < 256))"

lemma receiver_accepts:
  assumes "byte_hmac_ok hb" and "createWebhookReceiver hb tenantId secret = Inr answer"
    and "printable (JObj ms)" and "map_of ms ''tenantId'' = Some (JStr tenantId)"
    and "signWebhook (text_digest hb) (stringify (JObj ms)) secret = Inr sig"
  shows "answer (worker_request (stringify (JObj ms)) sig) = Accepted"
  using verify_own [OF assms(1) [unfolded byte_hmac_ok_def] assms(5)] assms(2,4) json_parse_stringify [OF assms(3)]
  by (auto simp: createWebhookReceiver_def worker_request_def utf8_round_trip simp del: stringify.simps split: if_splits)

lemma postWebhook_accepted:
  assumes "byte_hmac_ok hb" and "digest env = text_digest hb" and "createWebhookReceiver hb (qm_tenantId m) secret = Inr answer"
    and "served_by answer env url" and "printable payload"
  shows "\<exists>w'. postWebhook env url (webhook_body m payload) secret w = (Inr (WebhookOk 200), w') \<and> db w' = db w
    \<and> length (posts w') = Suc (length (posts w))"
proof -
  obtain sig where sig: "signWebhook (text_digest hb) (stringify (webhook_body m payload)) secret = Inr sig"
    using assms(3) by (auto simp: createWebhookReceiver_def signWebhook_def split: if_splits)
  have "answer (worker_request (stringify (webhook_body m payload)) sig) = Accepted"
    using receiver_accepts [OF assms(1,3) _ _ sig [unfolded webhook_body_def]] assms(5) by (simp add: webhook_body_def)
  then show ?thesis
    using assms(4) by (simp add: postWebhook_def sig assms(2) served_by_def tick_for_def andThen_def modify_def ret_def)
qed

lemma prepareWebhook_inline:
  assumes "reliable env" and "findTenantSigningSecret (qm_tenantId m) (db w) = Inr secret" and "\<not> truthy_text (qm_payloadS3Key m)"
  shows "\<exists>w'. prepareWebhook env m w = (Inr (Inr (secret, qm_payload m)), w') \<and> db w' = db w \<and> posts w' = posts w"
  using assms by (simp add: prepareWebhook_def catching_def andThen_def loadPayload_def ret_def)

lemma writeInFlight_secret:
  "writeInFlight found e t u n d = Inr (x, d') \<Longrightarrow> findTenantSigningSecret k d' = findTenantSigningSecret k d"
  by (auto simp: writeInFlight_def delivery_create_def delivery_update_def Let_def findTenantSigningSecret_def
      split: option.splits if_splits)

text \<open>The event is known and belongs to the tenant, so a row can be written for it.\<close>

definition known_event :: "queue_message \<Rightarrow> database \<Rightarrow> bool" where
  "known_event m d \<longleftrightarrow> find (\<lambda>e. ev_id e = qm_eventId m) (events d) \<noteq> None \<and> find (\<lambda>t. tn_id t = qm_tenantId m) (tenants d) \<noteq> None"

lemma upsertDelivery_reliable:
  assumes "reliable env" and "tables_ok (db w)" and "known_event m (db w)"
  shows "\<exists>x w'. upsertDelivery env m url w = (Inr x, w') \<and> current_row (qm_eventId m) url (dl_id x) (db w')
    \<and> posts w' = posts w \<and> findTenantSigningSecret (qm_tenantId m) (db w') = findTenantSigningSecret (qm_tenantId m) (db w)"
proof -
  let ?t = "now w + int (elapse env FindForUpsert) + int (elapse env WriteInFlight)"
  let ?found = "findByEventAndUrl (qm_eventId m) url (db w)"
  have "\<exists>x d'. writeInFlight ?found (qm_eventId m) (qm_tenantId m) url ?t (db w) = Inr (x, d')"
  proof (cases ?found)
    case None
    then show ?thesis using assms(3) by (auto simp: writeInFlight_def delivery_create_def known_event_def first_attempt_def Let_def)
  next
    case (Some y)
    then have "y \<in> set (deliveries (db w))" using find_SomeD by (fastforce simp: findByEventAndUrl_def)
    then show ?thesis
      by (cases rule: delivery_update_cases [of "dl_id y" "start_attempt ?t" "db w"]) (auto simp: writeInFlight_def Some)
  qed
  then obtain x d' where row: "writeInFlight ?found (qm_eventId m) (qm_tenantId m) url ?t (db w) = Inr (x, d')" by blast
  show ?thesis
    using current_after_writeInFlight [OF assms(2) row] writeInFlight_secret [OF row] row
    by (simp add: upsertDelivery_def andThen_def assms(1) reading_def db_act_def)
qed

lemma markSucceeded_current:
  assumes "current_row e u i d"
  shows "\<exists>y d' x. markSucceeded i d = Inr (y, d') \<and> findByEventAndUrl e u d' = Some x \<and> dl_status x = SUCCEEDED"
proof -
  from assms obtain x where x: "findByEventAndUrl e u d = Some x" "dl_id x = i" by (auto simp: current_row_def)
  then have "x \<in> set (deliveries d)" using find_SomeD by (fastforce simp: findByEventAndUrl_def)
  then obtain y d' where y: "markSucceeded i d = Inr (y, d')"
    using x(2) by (cases rule: delivery_update_cases [of i "\<lambda>d. d\<lparr>dl_status := SUCCEEDED, dl_lastError := None\<rparr>" d])
      (auto simp: markSucceeded_def)
  then have "findByEventAndUrl e u d' = Some (x\<lparr>dl_status := SUCCEEDED, dl_lastError := None\<rparr>)"
    using find_after_update [of i "\<lambda>d. d\<lparr>dl_status := SUCCEEDED, dl_lastError := None\<rparr>" d y d' e u] x
    by (simp add: markSucceeded_def keeps_identity_def)
  with y show ?thesis by auto
qed

text \<open>C29: A customer who checks signatures with the reference receiver accepts what the worker posts: with the tenant's
  secret on both sides, services that answer and no other worker at the same delivery, an attempt at an event with an inline payload posts once, is
  answered 200, leaves the delivery succeeded, and has the message acknowledged.\<close>

theorem reference_receiver_completes_delivery:
  assumes "reliable env" and "byte_hmac_ok hb" and "digest env = text_digest hb"
    and "createWebhookReceiver hb (qm_tenantId m) secret = Inr answer" and "served_by answer env url"
    and "tables_ok (db w)" and "known_event m (db w)" and "findTenantSigningSecret (qm_tenantId m) (db w) = Inr secret"
    and "\<not> truthy_text (qm_payloadS3Key m)" and "printable (qm_payload m)"
  shows "\<exists>w' x. attemptDelivery env url m receipt w = (Inr (Some (Acknowledge receipt)), w')
    \<and> findByEventAndUrl (qm_eventId m) url (db w') = Some x \<and> dl_status x = SUCCEEDED
    \<and> length (posts w') = Suc (length (posts w))"
proof -
  obtain dl w1 where up: "upsertDelivery env m url w = (Inr dl, w1)" "current_row (qm_eventId m) url (dl_id dl) (db w1)"
    "posts w1 = posts w" "findTenantSigningSecret (qm_tenantId m) (db w1) = Inr secret"
    using upsertDelivery_reliable [OF assms(1,6,7)] assms(8) by fastforce
  obtain w2 where prep: "prepareWebhook env m w1 = (Inr (Inr (secret, qm_payload m)), w2)" "db w2 = db w1" "posts w2 = posts w1"
    using prepareWebhook_inline [OF assms(1) up(4) assms(9)] by blast
  obtain w3 where post: "postWebhook env url (webhook_body m (qm_payload m)) secret w2 = (Inr (WebhookOk 200), w3)" "db w3 = db w2"
    "length (posts w3) = Suc (length (posts w2))"
    using postWebhook_accepted [OF assms(2,3,4,5,10), of w2] by blast
  obtain y d' x where mark: "markSucceeded (dl_id dl) (db w3) = Inr (y, d')" "findByEventAndUrl (qm_eventId m) url d' = Some x"
    "dl_status x = SUCCEEDED"
    using markSucceeded_current [OF up(2)] prep(2) post(2) by auto
  have "\<exists>w'. attemptDelivery env url m receipt w = (Inr (Some (Acknowledge receipt)), w') \<and> db w' = d' \<and> posts w' = posts w3"
    using mark(1) by (simp add: attemptDelivery_def andThen_def up(1) prep(1) post(1) recordMetric_def modify_def recordCircuit_def
        assms(1) db_act_def ret_def split: prod.splits)
  then show ?thesis using mark(2,3) up(3) prep(3) post(3) by auto
qed

text \<open>A receiver with the secret of the example tenant, and the environment it serves.\<close>

definition example_hmac :: byte_hmac where
  "example_hmac secret bytes = replicate 32 0"

definition served_env :: "(webhook_request \<Rightarrow> webhook_reply) \<Rightarrow> env" where
  "served_env answer = plain_env\<lparr>receiver := \<lambda>_ body signature. Status (reply_status (answer (worker_request body signature)))\<rparr>"

theorem reference_receiver_completes_delivery_witness:
  "\<exists>answer w' x. createWebhookReceiver example_hmac ''t'' ''s'' = Inr answer
    \<and> attemptDelivery (served_env answer) ''u'' example_request ''r'' (example_world FAILED 1) = (Inr (Some (Acknowledge ''r'')), w')
    \<and> findByEventAndUrl ''e'' ''u'' (db w') = Some x \<and> dl_status x = SUCCEEDED \<and> length (posts w') = 1"
proof -
  obtain answer where answer: "createWebhookReceiver example_hmac ''t'' ''s'' = Inr answer" by (simp add: createWebhookReceiver_def)
  have env: "reliable (served_env answer)" "digest (served_env answer) = text_digest example_hmac" "served_by answer (served_env answer) ''u''"
    by (simp_all add: reliable_def served_env_def plain_env_def text_digest_def example_hmac_def served_by_def fun_eq_iff)
  have hb: "byte_hmac_ok example_hmac" by (simp add: byte_hmac_ok_def example_hmac_def)
  have d: "known_event example_request (db (example_world FAILED 1))"
    "findTenantSigningSecret (qm_tenantId example_request) (db (example_world FAILED 1)) = Inr ''s''"
    by (simp_all add: known_event_def findTenantSigningSecret_def example_request_def example_database_def)
  have tables: "tables_ok (db (example_world FAILED 1))" by (simp add: tables_ok_example)
  have m: "\<not> truthy_text (qm_payloadS3Key example_request)" "printable (qm_payload example_request)"
    by (simp_all add: example_request_def truthy_text_def)
  have "createWebhookReceiver example_hmac (qm_tenantId example_request) ''s'' = Inr answer" using answer by (simp add: example_request_def)
  from reference_receiver_completes_delivery [OF env(1) hb env(2) this env(3) tables d m, of "''r''"] answer
  show ?thesis by (auto simp: example_request_def)
qed

end
