(* ===== verification/DashboardData.thy ===== *)
theory DashboardData
  imports Paging AuthState Archive
begin

text \<open>
  How the website reads the API (\<open>packages/web/src/lib/dashboard-api.ts\<close>, \<open>api-keys.ts\<close>, \<open>dead-letters.ts\<close>,
  \<open>delivery-list.ts\<close>, \<open>delivery-details.ts\<close>): the requests it makes, the validation of every answer, the
  state of its lists, and the proof that it accepts the summaries the API computes.

  \<^item> \<open>Date.parse\<close>, the \<open>URL\<close> class and the answer of \<open>fetch\<close> are parameters.
  \<^item> An absent member of an object is \<open>None\<close>; typographic signs of the messages are written in ASCII.
\<close>

section \<open>Requests\<close>

datatype dash_error = DashboardApiError nat string | ConfigError exn | AbortedRequest

definition dash_message :: "nat \<Rightarrow> string option" where
  "dash_message n =
     (if n = 401 then Some ''Your session has ended. Sign in again to continue.''
      else if n = 403 then Some ''This request is not permitted. Refresh your session and try again.''
      else if n = 404 then Some ''This workspace is no longer available to your account.''
      else if n = 503 then Some ''Waybill is temporarily unavailable. Please try again shortly.''
      else None)"

definition normalizeApiOrigin :: "(string \<Rightarrow> url_parts option) \<Rightarrow> string \<Rightarrow> exn + string" where
  "normalizeApiOrigin parse v =
     (case parse v of
        None \<Rightarrow> Inl (Error ''A valid Waybill API origin is required'')
      | Some u \<Rightarrow>
          let loopback = (url_hostname u \<in> {''127.0.0.1'', ''localhost'', ''[::1]''})
          in if (url_protocol u \<noteq> ''https:'' \<and> \<not> (url_protocol u = ''http:'' \<and> loopback)) \<or> url_username u \<noteq> [] \<or> url_password u \<noteq> []
               \<or> url_pathname u \<noteq> ''/'' \<or> url_search u \<noteq> [] \<or> url_hash u \<noteq> []
             then Inl (Error ''Use an HTTPS API origin or a local development origin'')
             else Inr (url_origin u))"

record dash_options =
  do_method :: "string option"
  do_csrfToken :: "string option"
  do_idempotencyKey :: "string option"
  do_body :: "json option"
  do_aborted :: bool

record dash_request =
  dr_url :: string
  dr_method :: string
  dr_headers :: "(string \<times> string) list"
  dr_body :: "string option"

record dash_answer =
  da_status :: nat
  da_json :: "json option"

definition present :: "string option \<Rightarrow> bool" where
  "present v = (case v of None \<Rightarrow> False | Some s \<Rightarrow> s \<noteq> [])"

definition dash_method :: "dash_options \<Rightarrow> string" where
  "dash_method opts = (case do_method opts of None \<Rightarrow> ''GET'' | Some m \<Rightarrow> m)"

text \<open>What is refused before anything is sent.\<close>

definition request_refused :: "string \<Rightarrow> dash_options \<Rightarrow> dash_error option" where
  "request_refused path opts =
     (if \<not> starts_with ''/'' path \<or> starts_with ''//'' path then Some (ConfigError (Error ''API requests require a relative path''))
      else if dash_method opts = ''POST'' \<and> \<not> present (do_csrfToken opts) then Some (DashboardApiError 403 (the (dash_message 403)))
      else if (case do_idempotencyKey opts of None \<Rightarrow> False | Some k \<Rightarrow> dash_method opts \<noteq> ''POST'' \<or> \<not> uuid_form k)
      then Some (DashboardApiError 400 ''A valid replay idempotency key is required.'')
      else if do_body opts \<noteq> None \<and> dash_method opts \<noteq> ''POST'' then Some (DashboardApiError 400 ''Request bodies require POST.'')
      else None)"

definition dash_headers :: "dash_options \<Rightarrow> (string \<times> string) list" where
  "dash_headers opts =
     [(''Accept'', ''application/json'')]
     @ (if present (do_csrfToken opts) then [(''X-CSRF-Token'', the (do_csrfToken opts))] else [])
     @ (if present (do_idempotencyKey opts) then [(''Idempotency-Key'', the (do_idempotencyKey opts))] else [])
     @ (if do_body opts \<noteq> None then [(''Content-Type'', ''application/json'')] else [])"

definition unreachable_api :: "dash_options \<Rightarrow> dash_error" where
  "unreachable_api opts =
     (if do_aborted opts then AbortedRequest else DashboardApiError 0 ''Unable to reach Waybill. Check your connection and try again.'')"

text \<open>The answer of a request and the request sent; an answer without a body that parses has no JSON.\<close>

definition requestDashboardApi ::
  "(string \<Rightarrow> url_parts option) \<Rightarrow> (dash_request \<Rightarrow> dash_answer option) \<Rightarrow> string \<Rightarrow> string \<Rightarrow> dash_options
     \<Rightarrow> (dash_error + json option) \<times> dash_request option" where
  "requestDashboardApi parse send origin path opts =
     (case request_refused path opts of
        Some e \<Rightarrow> (Inl e, None)
      | None \<Rightarrow>
          (case normalizeApiOrigin parse origin of
             Inl _ \<Rightarrow> (Inl (unreachable_api opts), None)
           | Inr base \<Rightarrow>
               let rq = \<lparr>dr_url = base @ path, dr_method = dash_method opts, dr_headers = dash_headers opts,
                         dr_body = map_option stringify (do_body opts)\<rparr>
               in (case send rq of
                     None \<Rightarrow> Inl (unreachable_api opts)
                   | Some a \<Rightarrow>
                       if \<not> (200 \<le> da_status a \<and> da_status a < 300)
                       then Inl (DashboardApiError (da_status a)
                              (case dash_message (da_status a) of Some m \<Rightarrow> m | None \<Rightarrow> ''The request could not be completed. Please try again.''))
                       else if da_status a = 204 then Inr None
                       else (case da_json a of None \<Rightarrow> Inl (unreachable_api opts) | Some v \<Rightarrow> Inr (Some v)), Some rq)))"

section \<open>Validation\<close>

text \<open>Each reader has its own message for an answer of the wrong shape.\<close>

definition invalid_answer :: "string \<Rightarrow> dash_error + 'a" where
  "invalid_answer message = Inl (DashboardApiError 502 message)"

definition DASH_INVALID :: string where "DASH_INVALID = ''Waybill returned an unexpected response. Please try again.''"

definition dash_object :: "string \<Rightarrow> json option \<Rightarrow> dash_error + (string \<times> json) list" where
  "dash_object m v = (case v of Some (JObj ms) \<Rightarrow> Inr ms | _ \<Rightarrow> invalid_answer m)"

definition dash_text :: "string \<Rightarrow> json option \<Rightarrow> dash_error + string" where
  "dash_text m v = (case v of Some (JStr s) \<Rightarrow> if s \<noteq> [] then Inr s else invalid_answer m | _ \<Rightarrow> invalid_answer m)"

definition dash_count :: "string \<Rightarrow> json option \<Rightarrow> dash_error + rat" where
  "dash_count m v =
     (case v of Some (JNum (Num q)) \<Rightarrow> if js_isSafeInteger (Num q) \<and> 0 \<le> q then Inr q else invalid_answer m | _ \<Rightarrow> invalid_answer m)"

definition dash_date :: "(string \<Rightarrow> jsnum) \<Rightarrow> string \<Rightarrow> json option \<Rightarrow> dash_error + string" where
  "dash_date date_parse m v =
     bindE (dash_text m v) (\<lambda>s. if js_isFinite (date_parse s) then Inr s else invalid_answer m)"

definition dash_optionalDate :: "(string \<Rightarrow> jsnum) \<Rightarrow> string \<Rightarrow> json option \<Rightarrow> dash_error + string option" where
  "dash_optionalDate date_parse m v = (if v = Some JNull then Inr None else map_sum id Some (dash_date date_parse m v))"

definition dash_uuid :: "string \<Rightarrow> json option \<Rightarrow> dash_error + string" where
  "dash_uuid m v = bindE (dash_text m v) (\<lambda>s. if uuid_form s then Inr s else invalid_answer m)"

definition dash_optional_text :: "string \<Rightarrow> json option \<Rightarrow> dash_error + string option" where
  "dash_optional_text m v = (case v of Some JNull \<Rightarrow> Inr None | Some (JStr s) \<Rightarrow> Inr (Some s) | _ \<Rightarrow> invalid_answer m)"

record dash_session =
  ds_id :: string
  ds_githubId :: string
  ds_githubLogin :: string
  ds_tenants :: "(string \<times> string) list"
  ds_csrfToken :: string
  ds_expiresAt :: string

definition readDashboardSession :: "(string \<Rightarrow> jsnum) \<Rightarrow> json option \<Rightarrow> dash_error + dash_session" where
  "readDashboardSession date_parse value =
     (let m = DASH_INVALID in
      bindE (dash_object m value) (\<lambda>data.
      bindE (dash_object m (map_of data ''user'')) (\<lambda>user.
      case (map_of data ''tenants'', map_of data ''csrfToken'') of
        (Some (JArr ts), Some (JStr token)) \<Rightarrow>
          if \<not> token_chars token then invalid_answer m
          else
            bindE (mapE (\<lambda>v. bindE (dash_object m (Some v)) (\<lambda>tenant.
                     bindE (dash_uuid m (map_of tenant ''id'')) (\<lambda>i.
                     bindE (dash_text m (map_of tenant ''name'')) (\<lambda>n. Inr (i, n))))) ts) (\<lambda>tenants.
            if \<not> distinct (map fst tenants) then invalid_answer m
            else
              bindE (dash_text m (map_of user ''id'')) (\<lambda>i.
              bindE (dash_text m (map_of user ''githubId'')) (\<lambda>g.
              bindE (dash_text m (map_of user ''githubLogin'')) (\<lambda>l.
              bindE (dash_date date_parse m (map_of data ''expiresAt'')) (\<lambda>e.
              Inr \<lparr>ds_id = i, ds_githubId = g, ds_githubLogin = l, ds_tenants = tenants, ds_csrfToken = token, ds_expiresAt = e\<rparr>)))))
      | _ \<Rightarrow> invalid_answer m)))"

record dash_summary =
  dm_total :: rat
  dm_counts :: "(DeliveryStatus \<times> rat) list"
  dm_completed :: rat
  dm_successRatePercent :: "rat option"

definition count_of :: "(DeliveryStatus \<times> rat) list \<Rightarrow> DeliveryStatus \<Rightarrow> rat" where
  "count_of counts s = the (map_of counts s)"

definition rate_fits :: "rat \<Rightarrow> rat \<Rightarrow> json option \<Rightarrow> rat option option" where
  "rate_fits completed succeeded rate =
     (if completed = 0 then (if rate = Some JNull then Some None else None)
      else (case rate of
              Some (JNum (Num r)) \<Rightarrow> if 11 / 1000 < \<bar>r - succeeded / completed * 100\<bar> then None else Some (Some r)
            | _ \<Rightarrow> None))"

definition readDeliverySummary :: "json option \<Rightarrow> dash_error + dash_summary" where
  "readDeliverySummary value =
     (let m = DASH_INVALID in
      bindE (dash_object m value) (\<lambda>data.
      bindE (dash_object m (map_of data ''counts'')) (\<lambda>source.
      bindE (mapE (\<lambda>s. bindE (dash_count m (map_of source (status_name s))) (\<lambda>n. Inr (s, n))) statuses) (\<lambda>counts.
      bindE (dash_count m (map_of data ''total'')) (\<lambda>tot.
      bindE (dash_count m (map_of data ''completed'')) (\<lambda>completed.
      if tot \<noteq> sum_list (map snd counts) \<or> completed \<noteq> count_of counts SUCCEEDED + count_of counts DEAD_LETTERED then invalid_answer m
      else (case rate_fits completed (count_of counts SUCCEEDED) (map_of data ''successRatePercent'') of
              None \<Rightarrow> invalid_answer m
            | Some rate \<Rightarrow> Inr \<lparr>dm_total = tot, dm_counts = counts, dm_completed = completed, dm_successRatePercent = rate\<rparr>)))))))"

record dash_delivery =
  dd_id :: string
  dd_eventId :: string
  dd_tenantId :: string
  dd_targetUrl :: string
  dd_status :: DeliveryStatus
  dd_attemptCount :: rat
  dd_createdAt :: string
  dd_lastAttemptAt :: "string option"
  dd_nextAttemptAt :: "string option"
  dd_lastError :: "string option"
  dd_eventType :: string

record 'a dash_page =
  dp_items :: "'a list"
  dp_nextCursor :: "string option"

definition read_delivery_row :: "(string \<Rightarrow> jsnum) \<Rightarrow> string \<Rightarrow> json \<Rightarrow> dash_error + dash_delivery" where
  "read_delivery_row date_parse tenantId value =
     (let m = DASH_INVALID in
      bindE (dash_object m (Some value)) (\<lambda>row.
      bindE (dash_object m (map_of row ''event'')) (\<lambda>event.
      case (if map_of row ''tenantId'' = Some (JStr tenantId) then parse_status (map_of row ''status'') else None) of
        Some (Some st) \<Rightarrow>
          bindE (dash_optional_text m (map_of row ''lastError'')) (\<lambda>err.
          bindE (dash_uuid m (map_of row ''id'')) (\<lambda>i.
          bindE (dash_uuid m (map_of row ''eventId'')) (\<lambda>ev.
          bindE (dash_text m (map_of row ''targetUrl'')) (\<lambda>url.
          bindE (dash_count m (map_of row ''attemptCount'')) (\<lambda>n.
          bindE (dash_date date_parse m (map_of row ''createdAt'')) (\<lambda>c.
          bindE (dash_optionalDate date_parse m (map_of row ''lastAttemptAt'')) (\<lambda>la.
          bindE (dash_optionalDate date_parse m (map_of row ''nextAttemptAt'')) (\<lambda>na.
          bindE (dash_text m (map_of event ''type'')) (\<lambda>ty.
          Inr \<lparr>dd_id = i, dd_eventId = ev, dd_tenantId = tenantId, dd_targetUrl = url, dd_status = st, dd_attemptCount = n,
               dd_createdAt = c, dd_lastAttemptAt = la, dd_nextAttemptAt = na, dd_lastError = err, dd_eventType = ty\<rparr>)))))))))
      | _ \<Rightarrow> invalid_answer m)))"

definition readDeliveryHistory :: "(string \<Rightarrow> jsnum) \<Rightarrow> json option \<Rightarrow> string \<Rightarrow> dash_error + dash_delivery dash_page" where
  "readDeliveryHistory date_parse value tenantId =
     (let m = DASH_INVALID in
      bindE (dash_object m value) (\<lambda>data.
      case map_of data ''items'' of
        Some (JArr vs) \<Rightarrow>
          bindE (dash_optional_text m (map_of data ''nextCursor'')) (\<lambda>next_cursor.
          bindE (mapE (read_delivery_row date_parse tenantId) vs) (\<lambda>items.
          if \<not> distinct (map dd_id items) then invalid_answer m
          else Inr \<lparr>dp_items = items, dp_nextCursor = next_cursor\<rparr>))
      | _ \<Rightarrow> invalid_answer m))"

section \<open>Addresses\<close>

text \<open>\<open>encodeURIComponent\<close> and the form encoding of \<open>URLSearchParams\<close>, on the bytes of the UTF-8 text.\<close>

definition upper_hex :: "nat \<Rightarrow> char" where
  "upper_hex d = (if d < 10 then char_of (48 + d) else char_of (55 + d))"

definition percent :: "nat \<Rightarrow> string" where
  "percent b = [CHR ''%'', upper_hex (b div 16), upper_hex (b mod 16)]"

definition letter_or_digit :: "nat \<Rightarrow> bool" where
  "letter_or_digit b \<longleftrightarrow> 48 \<le> b \<and> b < 58 \<or> 65 \<le> b \<and> b < 91 \<or> 97 \<le> b \<and> b < 123"

definition encodeURIComponent :: "string \<Rightarrow> string" where
  "encodeURIComponent s =
     concat (map (\<lambda>b. if letter_or_digit b \<or> b \<in> {45, 95, 46, 33, 126, 42, 39, 40, 41} then [char_of b] else percent b) (utf8_encode s))"

definition form_encode :: "string \<Rightarrow> string" where
  "form_encode s =
     concat (map (\<lambda>b. if letter_or_digit b \<or> b \<in> {42, 45, 46, 95} then [char_of b] else if b = 32 then ''+'' else percent b) (utf8_encode s))"

definition search_params :: "(string \<times> string) list \<Rightarrow> string" where
  "search_params ps = join_with ''&'' (map (\<lambda>(k, v). form_encode k @ ''='' @ form_encode v) ps)"

section \<open>Lists\<close>

text \<open>The state of a list of the website: the cursors of the pages visited, of which the last is shown.\<close>

record 'f list_query =
  lq_filter :: 'f
  lq_limit :: nat
  lq_cursors :: "string option list"
  lq_revision :: nat

datatype 'f list_action = Filter 'f | PageSize nat | Next string | Previous | Refresh | CreatedKey

definition next_page :: "string \<Rightarrow> 'f list_query \<Rightarrow> 'f list_query" where
  "next_page c q = q\<lparr>lq_cursors := lq_cursors q @ [Some c]\<rparr>"

definition previous_page :: "'f list_query \<Rightarrow> 'f list_query" where
  "previous_page q = (if 1 < length (lq_cursors q) then q\<lparr>lq_cursors := butlast (lq_cursors q)\<rparr> else q)"

definition refresh_list :: "'f list_query \<Rightarrow> 'f list_query" where
  "refresh_list q = q\<lparr>lq_revision := lq_revision q + 1\<rparr>"

definition deliveryPageSizes :: "nat list" where "deliveryPageSizes = [10, 25, 50, 100]"
definition apiKeyPageSizes :: "nat list" where "apiKeyPageSizes = [1, 10, 20, 50, 100]"
definition deadLetterPageSizes :: "nat list" where "deadLetterPageSizes = [10, 20, 50, 100]"

definition initialDeliveryQuery :: "DeliveryStatus option list_query" where
  "initialDeliveryQuery = \<lparr>lq_filter = None, lq_limit = 50, lq_cursors = [None], lq_revision = 0\<rparr>"

definition initialApiKeyQuery :: "unit list_query" where
  "initialApiKeyQuery = \<lparr>lq_filter = (), lq_limit = 20, lq_cursors = [None], lq_revision = 0\<rparr>"

definition initialDeadLetterQuery :: "unit list_query" where
  "initialDeadLetterQuery = \<lparr>lq_filter = (), lq_limit = 20, lq_cursors = [None], lq_revision = 0\<rparr>"

text \<open>An action that a reducer has no case for is not given to it.\<close>

fun deliveryListReducer :: "DeliveryStatus option list_query \<Rightarrow> DeliveryStatus option list_action \<Rightarrow> DeliveryStatus option list_query" where
  "deliveryListReducer q (Filter f) = q\<lparr>lq_filter := f, lq_cursors := [None]\<rparr>"
| "deliveryListReducer q (PageSize n) = q\<lparr>lq_limit := n, lq_cursors := [None]\<rparr>"
| "deliveryListReducer q (Next c) = next_page c q"
| "deliveryListReducer q Previous = previous_page q"
| "deliveryListReducer q Refresh = refresh_list q"
| "deliveryListReducer q CreatedKey = q"

fun apiKeyQueryReducer :: "unit list_query \<Rightarrow> unit list_action \<Rightarrow> unit list_query" where
  "apiKeyQueryReducer q (Next c) = next_page c q"
| "apiKeyQueryReducer q Previous = previous_page q"
| "apiKeyQueryReducer q (PageSize n) = q\<lparr>lq_limit := n, lq_cursors := [None]\<rparr>"
| "apiKeyQueryReducer q Refresh = refresh_list q"
| "apiKeyQueryReducer q CreatedKey = q\<lparr>lq_cursors := [None], lq_revision := lq_revision q + 1\<rparr>"
| "apiKeyQueryReducer q (Filter _) = q"

fun deadLetterQueryReducer :: "unit list_query \<Rightarrow> unit list_action \<Rightarrow> unit list_query" where
  "deadLetterQueryReducer q (Next c) = next_page c q"
| "deadLetterQueryReducer q Previous = previous_page q"
| "deadLetterQueryReducer q (PageSize n) = q\<lparr>lq_limit := n, lq_cursors := [None]\<rparr>"
| "deadLetterQueryReducer q Refresh = refresh_list q"
| "deadLetterQueryReducer q (Filter _) = q"
| "deadLetterQueryReducer q CreatedKey = q"

definition cursor_param :: "'f list_query \<Rightarrow> (string \<times> string) list" where
  "cursor_param q = (case lq_cursors q of [] \<Rightarrow> [] | cs \<Rightarrow> if present (last cs) then [(''cursor'', the (last cs))] else [])"

definition deliveryHistoryPath :: "string \<Rightarrow> DeliveryStatus option list_query \<Rightarrow> string" where
  "deliveryHistoryPath tenantId q =
     ''/tenants/'' @ encodeURIComponent tenantId @ ''/deliveries?''
     @ search_params ([(''limit'', js_String_nat (lq_limit q))]
         @ (case lq_filter q of None \<Rightarrow> [] | Some s \<Rightarrow> [(''status'', status_name s)]) @ cursor_param q)"

definition deliveryDetailsPath :: "string \<Rightarrow> string \<Rightarrow> string" where
  "deliveryDetailsPath tenantId i = ''/app/'' @ encodeURIComponent tenantId @ ''/deliveries/'' @ encodeURIComponent i"

definition apiKeysPath :: "string \<Rightarrow> string" where
  "apiKeysPath tenantId = ''/tenants/'' @ encodeURIComponent tenantId @ ''/api-keys''"

definition apiKeyListPath :: "string \<Rightarrow> unit list_query \<Rightarrow> string" where
  "apiKeyListPath tenantId q = apiKeysPath tenantId @ ''?'' @ search_params ([(''limit'', js_String_nat (lq_limit q))] @ cursor_param q)"

definition deadLetterListPath :: "string \<Rightarrow> unit list_query \<Rightarrow> string" where
  "deadLetterListPath tenantId q =
     ''/tenants/'' @ encodeURIComponent tenantId @ ''/dead-letters?'' @ search_params ([(''limit'', js_String_nat (lq_limit q))] @ cursor_param q)"

definition deadLetterPath :: "string \<Rightarrow> string \<Rightarrow> string" where
  "deadLetterPath tenantId i = ''/tenants/'' @ encodeURIComponent tenantId @ ''/dead-letters/'' @ encodeURIComponent i"

section \<open>API keys\<close>

record dash_key =
  dk_id :: string
  dk_tenantId :: string
  dk_createdByUserId :: string
  dk_name :: string
  dk_createdAt :: string
  dk_expiresAt :: string
  dk_revokedAt :: "string option"

datatype key_status = ActiveKey | ExpiredKey | RevokedKey

definition apiKeyStatus :: "(string \<Rightarrow> jsnum) \<Rightarrow> dash_key \<Rightarrow> rat \<Rightarrow> key_status" where
  "apiKeyStatus date_parse row t =
     (if dk_revokedAt row \<noteq> None then RevokedKey
      else if js_le (date_parse (dk_expiresAt row)) (Num t) then ExpiredKey else ActiveKey)"

record key_input =
  ki_name :: string
  ki_days :: jsnum
  ki_name_error :: "string option"
  ki_days_error :: "string option"
  ki_valid :: bool

definition validateApiKeyInput :: "string \<Rightarrow> string \<Rightarrow> key_input" where
  "validateApiKeyInput name expiry =
     (let trimmed = js_trim name; days = js_Number expiry;
          name_error = (if trimmed = [] \<or> 80 < length trimmed then Some ''Enter a name of 1-80 characters.'' else None);
          days_error = (if \<not> js_isInteger days \<or> js_lt days (Num 1) \<or> js_lt (Num 365) days
                        then Some ''Choose a whole number from 1 to 365 days.'' else None)
      in \<lparr>ki_name = trimmed, ki_days = days, ki_name_error = name_error, ki_days_error = days_error,
          ki_valid = (name_error = None \<and> days_error = None)\<rparr>)"

definition KEY_INVALID :: string where "KEY_INVALID = ''Waybill returned unexpected API key data. Refresh and try again.''"

definition readApiKeyRecord :: "(string \<Rightarrow> jsnum) \<Rightarrow> json option \<Rightarrow> string \<Rightarrow> dash_error + dash_key" where
  "readApiKeyRecord date_parse value tenantId =
     (let m = KEY_INVALID in
      bindE (dash_object m value) (\<lambda>row.
      if map_of row ''tenantId'' \<noteq> Some (JStr tenantId) \<or> map_of row ''scope'' \<noteq> Some (JStr ''events:write'') then invalid_answer m
      else
        bindE (dash_text m (map_of row ''name'')) (\<lambda>name.
        if 80 < length name \<or> js_trim name = [] then invalid_answer m
        else
          bindE (dash_uuid m (map_of row ''id'')) (\<lambda>i.
          bindE (dash_text m (map_of row ''createdByUserId'')) (\<lambda>u.
          bindE (dash_date date_parse m (map_of row ''createdAt'')) (\<lambda>c.
          bindE (dash_date date_parse m (map_of row ''expiresAt'')) (\<lambda>e.
          bindE (dash_optionalDate date_parse m (map_of row ''revokedAt'')) (\<lambda>r.
          Inr \<lparr>dk_id = i, dk_tenantId = tenantId, dk_createdByUserId = u, dk_name = name, dk_createdAt = c, dk_expiresAt = e,
               dk_revokedAt = r\<rparr>))))))))"

definition readApiKeyHistory :: "(string \<Rightarrow> jsnum) \<Rightarrow> json option \<Rightarrow> string \<Rightarrow> dash_error + dash_key dash_page" where
  "readApiKeyHistory date_parse value tenantId =
     (let m = KEY_INVALID in
      bindE (dash_object m value) (\<lambda>data.
      case map_of data ''items'' of
        Some (JArr vs) \<Rightarrow>
          bindE (mapE (\<lambda>v. readApiKeyRecord date_parse (Some v) tenantId) vs) (\<lambda>items.
          if \<not> distinct (map dk_id items) then invalid_answer m
          else if map_of data ''nextCursor'' = Some JNull then Inr \<lparr>dp_items = items, dp_nextCursor = None\<rparr>
          else bindE (dash_uuid m (map_of data ''nextCursor'')) (\<lambda>c. Inr \<lparr>dp_items = items, dp_nextCursor = Some c\<rparr>))
      | _ \<Rightarrow> invalid_answer m))"

text \<open>The issued token is \<open>wb_\<close>, the key's id and 43 token characters, without regard to case.\<close>

definition issued_token :: "string \<Rightarrow> string \<Rightarrow> bool" where
  "issued_token i token \<longleftrightarrow>
     (let n = length i + 4 in lower_text (take n token) = lower_text (''wb_'' @ i @ ''.'') \<and> token_chars (drop n token))"

definition readIssuedApiKey :: "(string \<Rightarrow> jsnum) \<Rightarrow> json option \<Rightarrow> string \<Rightarrow> dash_error + dash_key \<times> string" where
  "readIssuedApiKey date_parse value tenantId =
     (let m = KEY_INVALID in
      bindE (dash_object m value) (\<lambda>source.
      bindE (readApiKeyRecord date_parse (Some (JObj source)) tenantId) (\<lambda>key.
      bindE (dash_text m (map_of source ''token'')) (\<lambda>token.
      if \<not> issued_token (dk_id key) token \<or> dk_revokedAt key \<noteq> None then invalid_answer m else Inr (key, token)))))"

definition post_options :: "string \<Rightarrow> string option \<Rightarrow> json option \<Rightarrow> bool \<Rightarrow> dash_options" where
  "post_options token idempotency content aborted =
     \<lparr>do_method = Some ''POST'', do_csrfToken = Some token, do_idempotencyKey = idempotency, do_body = content, do_aborted = aborted\<rparr>"

definition createApiKey ::
  "(string \<Rightarrow> url_parts option) \<Rightarrow> (dash_request \<Rightarrow> dash_answer option) \<Rightarrow> (string \<Rightarrow> jsnum) \<Rightarrow> string \<Rightarrow> string \<Rightarrow> string \<Rightarrow> json \<Rightarrow> bool
     \<Rightarrow> dash_error + dash_key \<times> string" where
  "createApiKey parse send date_parse origin tenantId token input aborted =
     bindE (fst (requestDashboardApi parse send origin (apiKeysPath tenantId) (post_options token None (Some input) aborted)))
       (\<lambda>v. readIssuedApiKey date_parse v tenantId)"

definition dashRevokeApiKey ::
  "(string \<Rightarrow> url_parts option) \<Rightarrow> (dash_request \<Rightarrow> dash_answer option) \<Rightarrow> (string \<Rightarrow> jsnum) \<Rightarrow> string \<Rightarrow> dash_key \<Rightarrow> string \<Rightarrow> bool
     \<Rightarrow> dash_error + dash_key" where
  "dashRevokeApiKey parse send date_parse origin row token aborted =
     bindE (fst (requestDashboardApi parse send origin (apiKeysPath (dk_tenantId row) @ ''/'' @ encodeURIComponent (dk_id row) @ ''/revoke'')
                   (post_options token None None aborted))) (\<lambda>v.
     bindE (readApiKeyRecord date_parse v (dk_tenantId row)) (\<lambda>result.
     if dk_id result \<noteq> dk_id row \<or> dk_revokedAt result = None then invalid_answer KEY_INVALID else Inr result))"

datatype dash_operation = ListOperation | CreateOperation | RevokeOperation | PayloadOperation | ReplayOperation

definition apiKeyError :: "dash_error \<Rightarrow> dash_operation \<Rightarrow> nat \<times> string" where
  "apiKeyError e operation =
     (let (n, message) = (case e of DashboardApiError n t \<Rightarrow> (n, t) | _ \<Rightarrow> (0, ''The request could not be completed.''))
      in if n = 400 then (400, if operation = CreateOperation then ''The key name or expiration was rejected. Check the form and try again.''
                               else ''The key request is no longer valid. Refresh the list.'')
         else if operation = RevokeOperation \<and> n = 404
         then (404, ''This API key is no longer available in this workspace. Refresh the list.'')
         else if operation = CreateOperation \<and> n \<in> {0, 502, 503}
         then (n, ''Key creation could not be confirmed. Refresh to check whether a key was issued before trying again. If its secret was lost, revoke that key and create another.'')
         else (n, message))"

section \<open>Dead letters\<close>

record dash_replay =
  dy_id :: string
  dy_eventId :: string
  dy_createdAt :: string

record dash_dead_letter =
  de_id :: string
  de_eventId :: string
  de_deliveryId :: string
  de_tenantId :: string
  de_targetUrl :: string
  de_lastError :: "string option"
  de_attemptCount :: rat
  de_createdAt :: string
  de_eventType :: string
  de_replay :: "dash_replay option"

definition LETTER_INVALID :: string where "LETTER_INVALID = ''Waybill returned unexpected dead-letter data. Please try again.''"

definition read_replay_row :: "(string \<Rightarrow> jsnum) \<Rightarrow> (string \<times> json) list option \<Rightarrow> dash_error + dash_replay option" where
  "read_replay_row date_parse v =
     (case v of None \<Rightarrow> Inr None
      | Some ms \<Rightarrow>
          bindE (dash_uuid LETTER_INVALID (map_of ms ''id'')) (\<lambda>i.
          bindE (dash_uuid LETTER_INVALID (map_of ms ''eventId'')) (\<lambda>e.
          bindE (dash_date date_parse LETTER_INVALID (map_of ms ''createdAt'')) (\<lambda>c.
          Inr (Some \<lparr>dy_id = i, dy_eventId = e, dy_createdAt = c\<rparr>)))))"

definition read_dead_letter_row :: "(string \<Rightarrow> jsnum) \<Rightarrow> string \<Rightarrow> json \<Rightarrow> dash_error + dash_dead_letter" where
  "read_dead_letter_row date_parse tenantId value =
     (let m = LETTER_INVALID in
      bindE (dash_object m (Some value)) (\<lambda>row.
      bindE (dash_object m (map_of row ''event'')) (\<lambda>event.
      if map_of row ''tenantId'' \<noteq> Some (JStr tenantId) then invalid_answer m
      else
        bindE (dash_count m (map_of row ''attemptCount'')) (\<lambda>n.
        bindE (dash_optional_text m (map_of row ''lastError'')) (\<lambda>err.
        bindE (if map_of row ''replay'' = Some JNull then Inr None else map_sum id Some (dash_object m (map_of row ''replay''))) (\<lambda>replay.
        bindE (dash_uuid m (map_of row ''id'')) (\<lambda>i.
        bindE (dash_uuid m (map_of row ''eventId'')) (\<lambda>ev.
        bindE (dash_uuid m (map_of row ''deliveryId'')) (\<lambda>dl.
        bindE (dash_text m (map_of row ''targetUrl'')) (\<lambda>url.
        bindE (dash_date date_parse m (map_of row ''createdAt'')) (\<lambda>c.
        bindE (dash_text m (map_of event ''type'')) (\<lambda>ty.
        bindE (read_replay_row date_parse replay) (\<lambda>r.
        Inr \<lparr>de_id = i, de_eventId = ev, de_deliveryId = dl, de_tenantId = tenantId, de_targetUrl = url, de_lastError = err,
             de_attemptCount = n, de_createdAt = c, de_eventType = ty, de_replay = r\<rparr>)))))))))))))"

definition readDeadLetterHistory :: "(string \<Rightarrow> jsnum) \<Rightarrow> json option \<Rightarrow> string \<Rightarrow> dash_error + dash_dead_letter dash_page" where
  "readDeadLetterHistory date_parse value tenantId =
     (let m = LETTER_INVALID in
      bindE (dash_object m value) (\<lambda>data.
      case map_of data ''items'' of
        Some (JArr vs) \<Rightarrow>
          bindE (dash_optional_text m (map_of data ''nextCursor'')) (\<lambda>next_cursor.
          if next_cursor = Some [] then invalid_answer m
          else
            bindE (mapE (read_dead_letter_row date_parse tenantId) vs) (\<lambda>items.
            if \<not> distinct (map de_id items) then invalid_answer m
            else Inr \<lparr>dp_items = items, dp_nextCursor = next_cursor\<rparr>))
      | _ \<Rightarrow> invalid_answer m))"

text \<open>\<open>JSON.stringify\<close> with an indentation of two blanks; \<open>d\<close> is the depth.\<close>

definition indent :: "nat \<Rightarrow> string" where
  "indent d = CHR 0x0A # concat (replicate d ''  '')"

fun pretty :: "nat \<Rightarrow> json \<Rightarrow> string" where
  "pretty d (JArr vs) =
     (if vs = [] then ''[]''
      else ''['' @ indent (d + 1) @ join_with ('','' @ indent (d + 1)) (map (pretty (d + 1)) vs) @ indent d @ '']'')"
| "pretty d (JObj ms) =
     (if ms = [] then ''{}''
      else ''{'' @ indent (d + 1) @ join_with ('','' @ indent (d + 1)) (map (\<lambda>m. quote (fst m) @ '': '' @ pretty (d + 1) (snd m)) ms)
        @ indent d @ ''}'')"
| "pretty d v = stringify v"

definition archivedPayloadJson :: "json option \<Rightarrow> dash_dead_letter \<Rightarrow> dash_error + string" where
  "archivedPayloadJson value row =
     bindE (dash_object LETTER_INVALID value) (\<lambda>data.
       case map_of data ''payload'' of
         None \<Rightarrow> invalid_answer LETTER_INVALID
       | Some v \<Rightarrow>
           if map_of data ''tenantId'' \<noteq> Some (JStr (de_tenantId row)) \<or> map_of data ''deadLetterId'' \<noteq> Some (JStr (de_id row))
              \<or> map_of data ''eventId'' \<noteq> Some (JStr (de_eventId row))
           then invalid_answer LETTER_INVALID else Inr (pretty 0 v))"

record replay_receipt =
  rr_replayId :: string
  rr_deadLetterId :: string
  rr_originalEventId :: string
  rr_eventId :: string
  rr_createdAt :: string

definition readReplayReceipt :: "(string \<Rightarrow> jsnum) \<Rightarrow> json option \<Rightarrow> dash_dead_letter \<Rightarrow> dash_error + replay_receipt" where
  "readReplayReceipt date_parse value row =
     (let m = LETTER_INVALID in
      bindE (dash_object m value) (\<lambda>data.
      if map_of data ''deadLetterId'' \<noteq> Some (JStr (de_id row)) \<or> map_of data ''originalEventId'' \<noteq> Some (JStr (de_eventId row))
         \<or> map_of data ''eventId'' = Some (JStr (de_eventId row))
      then invalid_answer m
      else
        bindE (dash_uuid m (map_of data ''replayId'')) (\<lambda>i.
        bindE (dash_uuid m (map_of data ''eventId'')) (\<lambda>e.
        bindE (dash_date date_parse m (map_of data ''createdAt'')) (\<lambda>c.
        Inr \<lparr>rr_replayId = i, rr_deadLetterId = de_id row, rr_originalEventId = de_eventId row, rr_eventId = e, rr_createdAt = c\<rparr>)))))"

definition canRequestReplay :: "dash_dead_letter \<Rightarrow> bool \<Rightarrow> bool" where
  "canRequestReplay row payloadReady \<longleftrightarrow> de_replay row = None \<and> payloadReady"

definition deadLetterError :: "dash_error \<Rightarrow> dash_operation \<Rightarrow> nat \<times> string" where
  "deadLetterError e operation =
     (case e of
        DashboardApiError n message \<Rightarrow>
          if n = 404 \<and> operation \<noteq> ListOperation then (404, ''This archived record is no longer available. Refresh the list.'')
          else if n = 410 then (410, ''The archived payload is no longer available.'')
          else if n = 409
          then (409, ''Replay was not accepted. It may already be requested, the source may have changed, or its destination may not match the configured receiver. Refresh before trying again.'')
          else if n = 502 \<and> operation = PayloadOperation
          then (502, ''The archive could not be inspected. It may be invalid or exceed the server's inspection limit.'')
          else (n, message)
      | _ \<Rightarrow> (0, ''The request could not be completed. Please try again.''))"

definition submitDeadLetterReplay ::
  "(string \<Rightarrow> url_parts option) \<Rightarrow> (dash_request \<Rightarrow> dash_answer option) \<Rightarrow> (string \<Rightarrow> jsnum) \<Rightarrow> string \<Rightarrow> dash_dead_letter \<Rightarrow> string
     \<Rightarrow> string \<Rightarrow> bool \<Rightarrow> dash_error + replay_receipt" where
  "submitDeadLetterReplay parse send date_parse origin row token idempotencyKey aborted =
     bindE (fst (requestDashboardApi parse send origin (deadLetterPath (de_tenantId row) (de_id row) @ ''/replay'')
                   (post_options token (Some idempotencyKey) None aborted)))
       (\<lambda>v. readReplayReceipt date_parse v row)"

section \<open>One delivery\<close>

definition detailHistoryLimit :: nat where "detailHistoryLimit = 100"

definition validDeliveryId :: "string \<Rightarrow> bool" where
  "validDeliveryId i \<longleftrightarrow> uuid_form i"

definition scheduledRetry :: "dash_delivery \<Rightarrow> string option" where
  "scheduledRetry row = (if dd_status row = FAILED then dd_nextAttemptAt row else None)"

definition option_json :: "string option \<Rightarrow> json" where
  "option_json v = (case v of None \<Rightarrow> JNull | Some s \<Rightarrow> JStr s)"

definition delivery_row_json :: "dash_delivery \<Rightarrow> json" where
  "delivery_row_json row = JObj [(''id'', JStr (dd_id row)), (''eventId'', JStr (dd_eventId row)), (''tenantId'', JStr (dd_tenantId row)),
     (''targetUrl'', JStr (dd_targetUrl row)), (''status'', JStr (status_name (dd_status row))), (''attemptCount'', JNum (Num (dd_attemptCount row))),
     (''createdAt'', JStr (dd_createdAt row)), (''lastAttemptAt'', option_json (dd_lastAttemptAt row)),
     (''nextAttemptAt'', option_json (dd_nextAttemptAt row)), (''lastError'', option_json (dd_lastError row)),
     (''event'', JObj [(''type'', JStr (dd_eventType row))])]"

definition deliveryRecordJson :: "dash_delivery \<Rightarrow> string" where
  "deliveryRecordJson row = pretty 0 (delivery_row_json row)"

record found_delivery =
  fd_record :: "dash_delivery option"
  fd_limited :: bool

definition findDeliveryRecord ::
  "(string \<Rightarrow> url_parts option) \<Rightarrow> (dash_request \<Rightarrow> dash_answer option) \<Rightarrow> (string \<Rightarrow> jsnum) \<Rightarrow> string \<Rightarrow> string \<Rightarrow> string \<Rightarrow> bool
     \<Rightarrow> dash_error + found_delivery" where
  "findDeliveryRecord parse send date_parse origin tenantId deliveryId aborted =
     (if \<not> validDeliveryId deliveryId then Inr \<lparr>fd_record = None, fd_limited = False\<rparr>
      else
        bindE (fst (requestDashboardApi parse send origin
                 (''/tenants/'' @ encodeURIComponent tenantId @ ''/deliveries?limit='' @ js_String_nat detailHistoryLimit)
                 \<lparr>do_method = None, do_csrfToken = None, do_idempotencyKey = None, do_body = None, do_aborted = aborted\<rparr>)) (\<lambda>v.
        bindE (readDeliveryHistory date_parse v tenantId) (\<lambda>history.
        Inr \<lparr>fd_record = find (\<lambda>row. dd_id row = deliveryId) (dp_items history), fd_limited = (dp_nextCursor history \<noteq> None)\<rparr>)))"

text \<open>\<open>dashboard-format.ts\<close>: the labels of a delivery and the selected workspace.\<close>

definition statusLabels :: "DeliveryStatus \<Rightarrow> string" where
  "statusLabels s = (case s of PENDING \<Rightarrow> ''Pending'' | IN_FLIGHT \<Rightarrow> ''In flight'' | SUCCEEDED \<Rightarrow> ''Delivered'' | FAILED \<Rightarrow> ''Failed''
     | DEAD_LETTERED \<Rightarrow> ''Dead letter'')"

definition deliveryLabel :: "dash_delivery \<Rightarrow> string" where
  "deliveryLabel row = (if dd_status row = FAILED \<and> present (dd_nextAttemptAt row) then ''Awaiting retry'' else statusLabels (dd_status row))"

definition selectedWorkspace :: "dash_session \<Rightarrow> string option \<Rightarrow> (string \<times> string) option" where
  "selectedWorkspace session i = find (\<lambda>t. Some (fst t) = i) (ds_tenants session)"

section \<open>The website accepts what the API computes\<close>

text \<open>The JSON text of a summary is what \<open>controllers/delivery-summary.ts\<close> answers with.\<close>

definition summary_json :: "delivery_summary \<Rightarrow> json" where
  "summary_json s = JObj [(''total'', JNum (Num (of_nat (su_total s)))),
     (''counts'', JObj (map (\<lambda>st. (status_name st, JNum (Num (of_nat (su_counts s st))))) statuses)),
     (''completed'', JNum (Num (of_nat (su_completed s)))),
     (''successRatePercent'', case su_successRatePercent s of None \<Rightarrow> JNull | Some r \<Rightarrow> JNum (Num r))]"

definition summary_read :: "delivery_summary \<Rightarrow> dash_summary" where
  "summary_read s = \<lparr>dm_total = of_nat (su_total s), dm_counts = map (\<lambda>st. (st, of_nat (su_counts s st))) statuses,
     dm_completed = of_nat (su_completed s), dm_successRatePercent = su_successRatePercent s\<rparr>"

lemma dash_count_nat: "n < 9007199254740992 \<Longrightarrow> dash_count m (Some (JNum (Num (of_nat n)))) = Inr (of_nat n)"
proof -
  assume "n < 9007199254740992"
  then have "js_isSafeInteger (Num (of_nat n))" unfolding js_isSafeInteger_iff by (intro exI [of _ "int n"]) simp
  then show ?thesis by (simp add: dash_count_def)
qed

lemma read_counts:
  assumes "\<And>st. c st < 9007199254740992"
  shows "mapE (\<lambda>s. bindE (dash_count m (map_of (map (\<lambda>st. (status_name st, JNum (Num (of_nat (c st))))) statuses) (status_name s))) (\<lambda>n. Inr (s, n))) statuses
    = Inr (map (\<lambda>st. (st, of_nat (c st))) statuses)"
  by (simp add: statuses_def status_name_def dash_count_nat assms)

lemma read_summary:
  assumes "su_total s = sum_list (map (su_counts s) statuses)" and "su_total s < 9007199254740992"
    and "su_completed s = su_counts s SUCCEEDED + su_counts s DEAD_LETTERED"
    and rate: "case su_successRatePercent s of None \<Rightarrow> su_completed s = 0
      | Some r \<Rightarrow> 0 < su_completed s \<and> \<bar>r - of_nat (su_counts s SUCCEEDED) / of_nat (su_completed s) * 100\<bar> \<le> 11 / 1000"
  shows "readDeliverySummary (Some (summary_json s)) = Inr (summary_read s)"
proof -
  have small: "su_counts s st < 9007199254740992" for st
    using assms(1,2) by (cases st) (simp_all add: statuses_def)
  have completed: "su_completed s < 9007199254740992" using assms(1-3) by (simp add: statuses_def)
  have fits: "rate_fits (of_nat (su_completed s)) (of_nat (su_counts s SUCCEEDED))
      (Some (case su_successRatePercent s of None \<Rightarrow> JNull | Some r \<Rightarrow> JNum (Num r))) = Some (su_successRatePercent s)"
    using rate by (auto simp: rate_fits_def split: option.splits)
  have total: "sum_list (map (snd \<circ> (\<lambda>st. (st, of_nat (su_counts s st) :: rat))) statuses) = of_nat (su_total s)"
    using assms(1) by (simp add: statuses_def)
  have pair: "count_of (map (\<lambda>st. (st, of_nat (su_counts s st))) statuses) SUCCEEDED = of_nat (su_counts s SUCCEEDED)"
    "count_of (map (\<lambda>st. (st, of_nat (su_counts s st))) statuses) DEAD_LETTERED = of_nat (su_counts s DEAD_LETTERED)"
    by (simp_all add: count_of_def statuses_def)
  show ?thesis
    unfolding readDeliverySummary_def summary_json_def Let_def
    using read_counts [of "su_counts s", OF small]
    by (simp add: dash_object_def dash_count_nat assms(2) completed total pair assms(3) [symmetric] of_nat_add [symmetric] fits
        summary_read_def del: of_nat_add)
qed

text \<open>C25: The website shows every summary the API computes: for every table of deliveries, the answer of the
  summary route passes the website's validation and is shown with the very counts and rate the API gave.\<close>

theorem website_accepts_api_summary:
  assumes "length (deliveries d) < 9007199254740992"
  shows "readDeliverySummary (Some (summary_json (summarizeDeliveries (countDeliveriesByStatus t d))))
    = Inr (summary_read (summarizeDeliveries (countDeliveriesByStatus t d)))"
proof -
  let ?s = "summarizeDeliveries (countDeliveriesByStatus t d)"
  let ?own = "filter (\<lambda>x. dl_tenantId x = t) (deliveries d)"
  have counts: "su_counts ?s st = length (filter (\<lambda>x. dl_status x = st) ?own)" for st
    using counts_of_tenant [of t d st] by (simp add: summarizeDeliveries_def Let_def)
  have total: "su_total ?s = sum_list (map (su_counts ?s) statuses)"
    and completed: "su_completed ?s = su_counts ?s SUCCEEDED + su_counts ?s DEAD_LETTERED"
    by (simp_all add: summarizeDeliveries_def Let_def)
  have "su_total ?s = length ?own" using status_total [of ?own] unfolding total counts .
  also have "\<dots> < 9007199254740992" using length_filter_le [of "\<lambda>x. dl_tenantId x = t" "deliveries d"] assms by linarith
  finally have small: "su_total ?s < 9007199254740992" .
  have rate: "su_successRatePercent ?s = (if su_completed ?s = 0 then None
      else Some (of_int \<lfloor>of_nat (su_counts ?s SUCCEEDED) / of_nat (su_completed ?s) * 10000 + 1 / 2 :: rat\<rfloor> / 100))"
    by (simp add: summarizeDeliveries_def Let_def)
  show ?thesis
  proof (rule read_summary [OF total small completed])
    show "case su_successRatePercent ?s of None \<Rightarrow> su_completed ?s = 0
      | Some r \<Rightarrow> 0 < su_completed ?s \<and> \<bar>r - of_nat (su_counts ?s SUCCEEDED) / of_nat (su_completed ?s) * 100\<bar> \<le> 11 / 1000"
      using round_percent(3) [of "su_counts ?s SUCCEEDED" "su_completed ?s"]
      unfolding rate by (auto simp: completed mult.commute)
  qed
qed

theorem website_accepts_api_summary_witness:
  "readDeliverySummary (Some (summary_json (summarizeDeliveries (countDeliveriesByStatus uuid_1 (rr_db example_replica)))))
    = Inr (summary_read (summarizeDeliveries (countDeliveriesByStatus uuid_1 (rr_db example_replica))))"
  by (rule website_accepts_api_summary) (simp add: example_replica_def)

end
