(* ===== verification/DashboardForms.thy ===== *)
theory DashboardForms
  imports DashboardData Replay
begin

text \<open>
  The controls of the website that send a request once: the replay of a dead letter
  (\<open>components/dashboard/dead-letter-replay.tsx\<close>), and the creation and revocation of an API key
  (\<open>api-key-create.tsx\<close>, \<open>api-key-revoke-dialog.tsx\<close>).

  \<^item> The state of a control holds its React state and references, and what the callbacks and the session provider were
    told; handlers run on the state of the last render, as the browser delivers events one by one.
  \<^item> A control is one mounted component.  Its requests are numbered in the order they are sent; a request is in flight
    until its promise settles, with any answer, also after the component is gone.
  \<^item> Markup and focus are left out; a control is a button's handler with the condition under which the button is there.
\<close>

section \<open>A control with one request at a time\<close>

record submission =
  sb_busy :: bool
  sb_alive :: bool
  sb_waiting :: "nat list"
  sb_aborted :: "nat list"
  sb_count :: nat
  sb_effects :: "string list"

definition begin_submission :: "'a submission_scheme \<Rightarrow> 'a submission_scheme" where
  "begin_submission s = s\<lparr>sb_busy := True, sb_waiting := sb_waiting s @ [sb_count s], sb_count := sb_count s + 1\<rparr>"

definition end_submission :: "nat \<Rightarrow> 'a submission_scheme \<Rightarrow> 'a submission_scheme" where
  "end_submission n s = s\<lparr>sb_busy := False, sb_waiting := remove1 n (sb_waiting s)\<rparr>"

text \<open>Unmounting aborts the last request.\<close>

definition unmount :: "'a submission_scheme \<Rightarrow> 'a submission_scheme" where
  "unmount s = s\<lparr>sb_alive := False, sb_aborted := sb_aborted s @ (if sb_count s = 0 then [] else [sb_count s - 1])\<rparr>"

definition effect :: "string \<Rightarrow> 'a submission_scheme \<Rightarrow> 'a submission_scheme" where
  "effect e s = s\<lparr>sb_effects := sb_effects s @ [e]\<rparr>"

text \<open>The contract the three controls share: a step leaves the flag and the requests in flight alone, takes the flag and
  sends one request, or settles one and gives the flag back.\<close>

locale single_flight =
  fixes step :: "'s \<Rightarrow> 's \<Rightarrow> bool" and busy :: "'s \<Rightarrow> bool" and waiting :: "'s \<Rightarrow> nat list"
  assumes flight: "step s s' \<Longrightarrow>
      (busy s' = busy s \<and> waiting s' = waiting s)
    \<or> (\<not> busy s \<and> busy s' \<and> (\<exists>n. waiting s' = waiting s @ [n]))
    \<or> (\<not> busy s' \<and> (\<exists>n \<in> set (waiting s). waiting s' = remove1 n (waiting s)))"
begin

definition single :: "'s \<Rightarrow> bool" where
  "single s \<longleftrightarrow> (if busy s then length (waiting s) = 1 else waiting s = [])"

lemma single_step: "step s s' \<Longrightarrow> single s \<Longrightarrow> single s'"
  using flight [of s s'] by (auto simp: single_def length_remove1 length_Suc_conv split: if_splits)

lemma single_run: "step\<^sup>*\<^sup>* s s' \<Longrightarrow> single s \<Longrightarrow> single s'"
  by (induction rule: rtranclp_induct) (auto intro: single_step)

lemma at_most_one: "single s \<Longrightarrow> length (waiting s) \<le> 1"
  by (simp add: single_def split: if_splits)

end

section \<open>Replaying a dead letter\<close>

datatype replay_result = ReplayIdle | ReplayPending | ReplaySuccess replay_receipt | ReplayError string bool

text \<open>With the control, the list it reports to: its busy flag, the receipts, the query.\<close>

record replay_control = submission +
  rc_result :: replay_result
  rc_confirming :: bool
  rc_key :: "string option"
  rc_sent :: "(string \<times> string \<times> string) list"
  rc_listBusy :: bool
  rc_receipts :: "(string \<times> replay_receipt) list"
  rc_query :: "unit list_query"

definition newReplayControl :: replay_control where
  "newReplayControl =
     \<lparr>sb_busy = False, sb_alive = True, sb_waiting = [], sb_aborted = [], sb_count = 0, sb_effects = [],
      rc_result = ReplayIdle, rc_confirming = False, rc_key = None, rc_sent = [], rc_listBusy = False, rc_receipts = [],
      rc_query = initialDeadLetterQuery\<rparr>"

fun open_to_replay :: "replay_result \<Rightarrow> bool" where
  "open_to_replay (ReplaySuccess _) = False"
| "open_to_replay (ReplayError _ blocked) = (\<not> blocked)"
| "open_to_replay _ = True"

definition eligibleToRequest :: "dash_dead_letter \<Rightarrow> bool \<Rightarrow> replay_control \<Rightarrow> bool" where
  "eligibleToRequest row payloadReady c \<longleftrightarrow> canRequestReplay row payloadReady \<and> open_to_replay (rc_result c)"

definition confirmReplay :: "dash_dead_letter \<Rightarrow> bool \<Rightarrow> bool \<Rightarrow> string \<Rightarrow> replay_control \<Rightarrow> replay_control" where
  "confirmReplay row payloadReady signedIn fresh c =
     (if sb_busy c \<or> \<not> eligibleToRequest row payloadReady c \<or> \<not> signedIn then c
      else let key = (case rc_key c of None \<Rightarrow> fresh | Some k \<Rightarrow> k)
           in (begin_submission c)\<lparr>rc_listBusy := True, rc_result := ReplayPending, rc_key := Some key,
                rc_sent := rc_sent c @ [(de_tenantId row, de_id row, key)]\<rparr>)"

definition accepted_receipt :: "replay_receipt \<Rightarrow> replay_control \<Rightarrow> replay_control" where
  "accepted_receipt receipt c =
     c\<lparr>rc_receipts := (rr_deadLetterId receipt, receipt) # rc_receipts c, rc_query := deadLetterQueryReducer (rc_query c) Refresh\<rparr>"

definition unconfirmed_message :: "nat \<Rightarrow> string \<Rightarrow> string" where
  "unconfirmed_message n message =
     (if n = 0 \<or> n = 502 then message @ '' The replay outcome is unconfirmed; retrying uses the same request ID.'' else message)"

definition replay_failed :: "dash_error \<Rightarrow> replay_control \<Rightarrow> replay_control" where
  "replay_failed e c =
     (case deadLetterError e ReplayOperation of (n, message) \<Rightarrow>
        if n = 401 then effect ''invalidate'' c
        else (if n = 403 then effect ''reload'' else id)
               (c\<lparr>rc_result := ReplayError (unconfirmed_message n message) (n \<in> {404, 409, 410}), rc_confirming := False\<rparr>))"

text \<open>The promise of request \<open>n\<close> settles; the last step is the \<open>finally\<close> block.\<close>

definition settleReplay :: "nat \<Rightarrow> dash_error + replay_receipt \<Rightarrow> replay_control \<Rightarrow> replay_control" where
  "settleReplay n answer c =
     (let c' = (if \<not> sb_alive c then c
                else case answer of
                  Inr receipt \<Rightarrow> accepted_receipt receipt (c\<lparr>rc_result := ReplaySuccess receipt, rc_confirming := False\<rparr>)
                | Inl e \<Rightarrow> if n \<in> set (sb_aborted c) then c else replay_failed e c)
      in (end_submission n c')\<lparr>rc_listBusy := (if sb_alive c then False else rc_listBusy c)\<rparr>)"

definition revisionChanged :: "replay_control \<Rightarrow> replay_control" where
  "revisionChanged c =
     (if sb_busy c then c else c\<lparr>rc_result := (case rc_result c of ReplayError _ _ \<Rightarrow> ReplayIdle | r \<Rightarrow> r)\<rparr>)"

text \<open>The list's button is disabled while a replay is pending.\<close>

definition refreshList :: "replay_control \<Rightarrow> replay_control" where
  "refreshList c = (if rc_listBusy c then c else revisionChanged (c\<lparr>rc_query := deadLetterQueryReducer (rc_query c) Refresh\<rparr>))"

definition openConfirmation :: "dash_dead_letter \<Rightarrow> bool \<Rightarrow> replay_control \<Rightarrow> replay_control" where
  "openConfirmation row payloadReady c =
     (if eligibleToRequest row payloadReady c \<and> rc_result c \<noteq> ReplayPending then c\<lparr>rc_confirming := True\<rparr> else c)"

definition closeConfirmation :: "replay_control \<Rightarrow> replay_control" where
  "closeConfirmation c = (if sb_busy c then c else c\<lparr>rc_confirming := False\<rparr>)"

text \<open>The list keys the control by the dead letter, so the row may change but not its identity.\<close>

inductive replay_step :: "string \<Rightarrow> string \<Rightarrow> replay_control \<Rightarrow> replay_control \<Rightarrow> bool" for t i :: string where
  Confirm: "sb_alive c \<Longrightarrow> de_tenantId row = t \<Longrightarrow> de_id row = i \<Longrightarrow>
     replay_step t i c (confirmReplay row payloadReady signedIn fresh c)"
| Settle: "n \<in> set (sb_waiting c) \<Longrightarrow> replay_step t i c (settleReplay n answer c)"
| Reload: "sb_alive c \<Longrightarrow> replay_step t i c (refreshList c)"
| Revise: "sb_alive c \<Longrightarrow> replay_step t i c (revisionChanged c)"
| Open: "sb_alive c \<Longrightarrow> de_tenantId row = t \<Longrightarrow> de_id row = i \<Longrightarrow> replay_step t i c (openConfirmation row payloadReady c)"
| Close: "sb_alive c \<Longrightarrow> replay_step t i c (closeConfirmation c)"
| Leave: "sb_alive c \<Longrightarrow> replay_step t i c (unmount c)"

named_theorems form_ops \<open>operations of the controls\<close>

lemmas [form_ops] = begin_submission_def end_submission_def unmount_def effect_def confirmReplay_def settleReplay_def accepted_receipt_def
  replay_failed_def revisionChanged_def refreshList_def openConfirmation_def closeConfirmation_def Let_def

interpretation rf: single_flight "replay_step t i" sb_busy sb_waiting for t i
  by unfold_locales (erule replay_step.cases; auto simp: form_ops split: sum.splits if_splits prod.splits)

subsection \<open>One request id\<close>

definition one_request_id :: "string \<Rightarrow> string \<Rightarrow> replay_control \<Rightarrow> bool" where
  "one_request_id t i c \<longleftrightarrow> (\<forall>x \<in> set (rc_sent c). \<exists>key. rc_key c = Some key \<and> x = (t, i, key))"

lemma one_request_id_step: "replay_step t i c c' \<Longrightarrow> one_request_id t i c \<Longrightarrow> one_request_id t i c'"
  by (induction rule: replay_step.induct)
    (auto simp: one_request_id_def form_ops split: sum.splits if_splits prod.splits option.splits)

lemma one_request_id_new: "one_request_id t i newReplayControl"
  by (simp add: one_request_id_def newReplayControl_def)

lemma one_request_id_run: "(replay_step t i)\<^sup>*\<^sup>* newReplayControl c \<Longrightarrow> one_request_id t i c"
  by (induction rule: rtranclp_induct) (auto intro: one_request_id_step one_request_id_new)

lemma new_single: "rf.single newReplayControl"
  by (simp add: rf.single_def newReplayControl_def)

text \<open>Once a receipt is shown nothing more is sent.\<close>

lemma receipt_stays: "replay_step t i c c' \<Longrightarrow> rf.single c \<Longrightarrow> \<not> sb_busy c \<Longrightarrow> rc_result c = ReplaySuccess r \<Longrightarrow>
    \<not> sb_busy c' \<and> rc_result c' = ReplaySuccess r \<and> rc_sent c' = rc_sent c"
  by (induction rule: replay_step.induct) (auto simp: form_ops eligibleToRequest_def rf.single_def)

subsection \<open>A control that goes while its request is under way\<close>

text \<open>It never gives the list's flag back: the \<open>finally\<close> block tells the list only while the control is there.\<close>

lemma abandoned_step:
  "replay_step t i c c' \<Longrightarrow> \<not> sb_alive c \<and> rc_listBusy c \<Longrightarrow> \<not> sb_alive c' \<and> rc_listBusy c'"
  by (induction rule: replay_step.induct) (auto simp: form_ops)

lemma abandoned_list_stays_busy:
  "(replay_step t i)\<^sup>*\<^sup>* c c' \<Longrightarrow> \<not> sb_alive c \<Longrightarrow> rc_listBusy c \<Longrightarrow> rc_listBusy c'"
proof -
  assume "(replay_step t i)\<^sup>*\<^sup>* c c'" "\<not> sb_alive c" "rc_listBusy c"
  then have "\<not> sb_alive c' \<and> rc_listBusy c'" by (induction rule: rtranclp_induct) (use abandoned_step in blast)+
  then show "rc_listBusy c'" ..
qed

section \<open>API keys\<close>

record key_form = submission +
  kf_name :: string
  kf_choice :: string
  kf_customDays :: string
  kf_errors :: "string option \<times> string option"
  kf_error :: "string option"
  kf_pending :: bool
  kf_issued :: "(dash_key \<times> string) option"
  kf_revealOpen :: bool
  kf_notice :: string
  kf_sent :: "(string \<times> string \<times> jsnum) list"
  kf_query :: "unit list_query"

definition newKeyForm :: key_form where
  "newKeyForm =
     \<lparr>sb_busy = False, sb_alive = True, sb_waiting = [], sb_aborted = [], sb_count = 0, sb_effects = [],
      kf_name = [], kf_choice = ''90'', kf_customDays = ''90'', kf_errors = (None, None), kf_error = None, kf_pending = False,
      kf_issued = None, kf_revealOpen = False, kf_notice = [], kf_sent = [], kf_query = initialApiKeyQuery\<rparr>"

definition form_input :: "key_form \<Rightarrow> key_input" where
  "form_input f = validateApiKeyInput (kf_name f) (if kf_choice f = ''custom'' then kf_customDays f else kf_choice f)"

definition submitKey :: "string \<Rightarrow> dash_session option \<Rightarrow> key_form \<Rightarrow> key_form" where
  "submitKey tenantId session f =
     (case session of
        None \<Rightarrow> f
      | Some s \<Rightarrow>
          if sb_busy f \<or> kf_revealOpen f then f
          else let input = form_input f;
                   f' = f\<lparr>kf_errors := (ki_name_error input, ki_days_error input), kf_error := None, kf_notice := []\<rparr>
               in if \<not> ki_valid input \<or> tenantId \<notin> fst ` set (ds_tenants s) then f'
                  else (begin_submission f')\<lparr>kf_pending := True, kf_sent := kf_sent f @ [(tenantId, ki_name input, ki_days input)]\<rparr>)"

definition key_created :: "dash_key \<times> string \<Rightarrow> key_form \<Rightarrow> key_form" where
  "key_created issued f =
     f\<lparr>kf_revealOpen := True, kf_issued := Some issued, kf_name := [], kf_choice := ''90'', kf_customDays := ''90'',
       kf_query := apiKeyQueryReducer (kf_query f) CreatedKey\<rparr>"

definition key_failed :: "dash_error \<Rightarrow> key_form \<Rightarrow> key_form" where
  "key_failed e f =
     (case apiKeyError e CreateOperation of (n, message) \<Rightarrow>
        if n = 401 then effect ''invalidate'' f
        else (if n = 403 then effect ''reload'' else id)
               (f\<lparr>kf_error := Some message, kf_query := (if n \<in> {0, 502, 503} then apiKeyQueryReducer (kf_query f) Refresh else kf_query f)\<rparr>))"

definition settleKey :: "nat \<Rightarrow> dash_error + dash_key \<times> string \<Rightarrow> key_form \<Rightarrow> key_form" where
  "settleKey n answer f =
     (let f' = (if \<not> sb_alive f then f
                else case answer of
                  Inr issued \<Rightarrow> key_created issued f
                | Inl e \<Rightarrow> if n \<in> set (sb_aborted f) then f else key_failed e f)
      in (end_submission n f')\<lparr>kf_pending := (if sb_alive f then False else kf_pending f)\<rparr>)"

definition dismissSecret :: "key_form \<Rightarrow> key_form" where
  "dismissSecret f = f\<lparr>kf_revealOpen := False, kf_issued := None, kf_notice := ''Key created. Its secret is no longer displayed.''\<rparr>"

text \<open>The fields are disabled while a request is pending or a secret is shown.\<close>

definition editKeyForm :: "(key_form \<Rightarrow> key_form) \<Rightarrow> key_form \<Rightarrow> key_form" where
  "editKeyForm edit f = (if kf_pending f \<or> kf_issued f \<noteq> None then f else edit f)"

definition editName :: "string \<Rightarrow> key_form \<Rightarrow> key_form" where
  "editName v = editKeyForm (\<lambda>f. f\<lparr>kf_name := v, kf_errors := (None, snd (kf_errors f))\<rparr>)"

definition editChoice :: "string \<Rightarrow> key_form \<Rightarrow> key_form" where
  "editChoice v = editKeyForm (\<lambda>f. f\<lparr>kf_choice := v, kf_errors := (fst (kf_errors f), None)\<rparr>)"

definition editCustomDays :: "string \<Rightarrow> key_form \<Rightarrow> key_form" where
  "editCustomDays v = editKeyForm (\<lambda>f. f\<lparr>kf_customDays := v, kf_errors := (fst (kf_errors f), None)\<rparr>)"

inductive key_step :: "string \<Rightarrow> key_form \<Rightarrow> key_form \<Rightarrow> bool" for tenantId :: string where
  Submit: "sb_alive f \<Longrightarrow> key_step tenantId f (submitKey tenantId session f)"
| SettleKey: "n \<in> set (sb_waiting f) \<Longrightarrow> key_step tenantId f (settleKey n answer f)"
| Dismiss: "sb_alive f \<Longrightarrow> kf_issued f \<noteq> None \<Longrightarrow> key_step tenantId f (dismissSecret f)"
| EditName: "sb_alive f \<Longrightarrow> key_step tenantId f (editName v f)"
| EditChoice: "sb_alive f \<Longrightarrow> key_step tenantId f (editChoice v f)"
| EditDays: "sb_alive f \<Longrightarrow> key_step tenantId f (editCustomDays v f)"
| LeaveKeys: "sb_alive f \<Longrightarrow> key_step tenantId f (unmount f)"

lemmas [form_ops] = submitKey_def key_created_def key_failed_def settleKey_def dismissSecret_def editKeyForm_def editName_def editChoice_def
  editCustomDays_def

interpretation kf: single_flight "key_step tenantId" sb_busy sb_waiting for tenantId
  by unfold_locales (erule key_step.cases; auto simp: form_ops split: sum.splits if_splits prod.splits option.splits)

definition secret_ok :: "key_form \<Rightarrow> bool" where
  "secret_ok f \<longleftrightarrow> (kf_revealOpen f \<longleftrightarrow> kf_issued f \<noteq> None) \<and> (kf_revealOpen f \<longrightarrow> \<not> sb_busy f)"

definition sent_ok :: "string \<Rightarrow> key_form \<Rightarrow> bool" where
  "sent_ok tenantId f \<longleftrightarrow>
     (\<forall>(t, name, days) \<in> set (kf_sent f). t = tenantId \<and> name \<noteq> [] \<and> length name \<le> 80 \<and> js_le (Num 1) days \<and> js_le days (Num 365))"

lemma integer_within:
  "js_isInteger d \<Longrightarrow> \<not> js_lt d (Num a) \<Longrightarrow> \<not> js_lt (Num b) d \<Longrightarrow> js_le (Num a) d \<and> js_le d (Num b)"
  by (cases d) (auto simp: js_isInteger_def)

lemma form_input_valid:
  assumes "ki_valid (form_input f)"
  shows "ki_name (form_input f) \<noteq> []" "length (ki_name (form_input f)) \<le> 80" "js_le (Num 1) (ki_days (form_input f))"
    "js_le (ki_days (form_input f)) (Num 365)"
  using assms integer_within [of "ki_days (form_input f)" 1 365]
  by (auto simp: form_input_def validateApiKeyInput_def Let_def split: if_splits)

lemma secret_ok_step: "key_step tenantId f f' \<Longrightarrow> secret_ok f \<and> kf.single f \<Longrightarrow> secret_ok f'"
  by (induction rule: key_step.induct)
    (auto simp: secret_ok_def kf.single_def form_ops split: sum.splits if_splits prod.splits option.splits)

lemma sent_ok_step: "key_step tenantId f f' \<Longrightarrow> sent_ok tenantId f \<Longrightarrow> sent_ok tenantId f'"
  by (induction rule: key_step.induct)
    (auto simp: sent_ok_def form_ops form_input_valid split: sum.splits if_splits prod.splits option.splits)

lemma key_form_ok:
  assumes "(key_step tenantId)\<^sup>*\<^sup>* newKeyForm f"
  shows "kf.single f \<and> secret_ok f \<and> sent_ok tenantId f"
  using assms
proof (induction rule: rtranclp_induct)
  case base
  show ?case by (simp add: kf.single_def secret_ok_def sent_ok_def newKeyForm_def)
next
  case (step f f')
  then show ?case using kf.single_step secret_ok_step sent_ok_step by blast
qed

subsection \<open>Revocation\<close>

record revoke_form = submission +
  vf_error :: "string option"
  vf_pending :: bool
  vf_dismissed :: bool
  vf_revoked :: "dash_key option"
  vf_sent :: "(string \<times> string) list"

definition submitRevoke :: "(string \<Rightarrow> jsnum) \<Rightarrow> dash_key \<Rightarrow> rat \<Rightarrow> bool \<Rightarrow> revoke_form \<Rightarrow> revoke_form" where
  "submitRevoke date_parse row t signedIn v =
     (if sb_busy v \<or> \<not> signedIn then v
      else if apiKeyStatus date_parse row t \<noteq> ActiveKey
      then v\<lparr>vf_error := Some ''This key is no longer active. Refresh the list to check its status.''\<rparr>
      else (begin_submission v)\<lparr>vf_pending := True, vf_error := None, vf_sent := vf_sent v @ [(dk_tenantId row, dk_id row)]\<rparr>)"

definition revoke_failed :: "dash_error \<Rightarrow> revoke_form \<Rightarrow> revoke_form" where
  "revoke_failed e v =
     (case apiKeyError e RevokeOperation of (n, message) \<Rightarrow>
        if n = 401 then effect ''invalidate'' v
        else (if n = 403 then effect ''reload'' else id)
               (v\<lparr>vf_error := Some (if n = 0 \<or> n = 502 then ''Revocation could not be confirmed. Refresh the list or retry this request.''
                                   else message)\<rparr>))"

definition settleRevoke :: "nat \<Rightarrow> dash_error + dash_key \<Rightarrow> revoke_form \<Rightarrow> revoke_form" where
  "settleRevoke n answer v =
     (let v' = (if \<not> sb_alive v then v
                else case answer of
                  Inr key \<Rightarrow> v\<lparr>vf_revoked := Some key\<rparr>
                | Inl e \<Rightarrow> if n \<in> set (sb_aborted v) then v else revoke_failed e v)
      in (end_submission n v')\<lparr>vf_pending := (if sb_alive v then False else vf_pending v)\<rparr>)"

definition dismissRevoke :: "revoke_form \<Rightarrow> revoke_form" where
  "dismissRevoke v = (if \<not> sb_busy v \<and> sb_alive v then v\<lparr>vf_dismissed := True\<rparr> else v)"

inductive revoke_step :: "(string \<Rightarrow> jsnum) \<Rightarrow> revoke_form \<Rightarrow> revoke_form \<Rightarrow> bool" for date_parse :: "string \<Rightarrow> jsnum" where
  SubmitRevoke: "sb_alive v \<Longrightarrow> revoke_step date_parse v (submitRevoke date_parse row t signedIn v)"
| SettleRevoke: "n \<in> set (sb_waiting v) \<Longrightarrow> revoke_step date_parse v (settleRevoke n answer v)"
| DismissRevoke: "sb_alive v \<Longrightarrow> revoke_step date_parse v (dismissRevoke v)"
| LeaveRevoke: "sb_alive v \<Longrightarrow> revoke_step date_parse v (unmount v)"

lemmas [form_ops] = submitRevoke_def revoke_failed_def settleRevoke_def dismissRevoke_def

interpretation vf: single_flight "revoke_step date_parse" sb_busy sb_waiting for date_parse
  by unfold_locales (erule revoke_step.cases; auto simp: form_ops split: sum.splits if_splits prod.splits)

text \<open>While a revocation is under way the dialog does not close by itself.\<close>

lemma busy_dialog_stays: "sb_busy v \<Longrightarrow> dismissRevoke v = v"
  by (simp add: dismissRevoke_def)

section \<open>Properties\<close>

text \<open>C38: On one mounted replay control, that is as long as the dead letter stays open on the page: however often the
  user confirms the replay, and whatever the answers, one request is in flight at a time, and all of
  them carry one request id for the dead letter, so that the API replays it once: after the first of them
  has succeeded, handling any other (with no other client writing while it runs) writes nothing, never gives
  another answer, and gives the first answer again when it is well formed and its first query is answered.
  The request id lives in the control: opening the dead letter again, reloading the page or another tab makes
  a new one.\<close>

theorem retried_replay_happens_once:
  assumes "(replay_step t i)\<^sup>*\<^sup>* newReplayControl c"
    and "(t1, i1, k1) \<in> set (rc_sent c)" and "(t2, i2, k2) \<in> set (rc_sent c)"
    and "requestReplay env (Some (JStr t1)) (Some (JStr i1)) (Some (JStr k1)) b q w = (Inr x, w')" and "undisturbed env'"
    and "requestReplay env' (Some (JStr t2)) (Some (JStr i2)) (Some (JStr k2)) b' q' v = (res, v')"
    and "replays_ok (a_db v)" and "set (replays (a_db w')) \<subseteq> set (replays (a_db v))"
    and "\<And>j. map_option le_eventId (find_letter j (a_db v)) = map_option le_eventId (find_letter j (a_db w'))"
  shows "length (sb_waiting c) \<le> 1 \<and> a_db v' = a_db v \<and> (\<forall>y. res = Inr y \<longrightarrow> y = x)
    \<and> (a_outcome env' FindReplay = Completes
        \<and> parseReplayQuery env' (Some (JStr t2)) (Some (JStr i2)) (Some (JStr k2)) b' q' = Inr input' \<longrightarrow> res = Inr x)"
proof -
  note ids = one_request_id_run [OF assms(1), unfolded one_request_id_def, rule_format]
  have same: "t1 = t2" "i1 = i2" "k1 = k2" using ids [OF assms(2)] ids [OF assms(3)] by auto
  show ?thesis
    using replay_repeated [OF assms(4,5) assms(6) [folded same] assms(7-9), of input', unfolded same] rf.at_most_one [OF rf.single_run [OF assms(1) new_single]] by blast
qed

text \<open>For every interleaving of editing, submitting, answers, dismissing and leaving, one creation of an API key is in
  flight at a time, only valid input is sent, and while a secret is on display none is in flight and the form
  sends nothing.\<close>

theorem key_form_shows_one_secret:
  assumes "(key_step tenantId)\<^sup>*\<^sup>* newKeyForm f"
  shows "length (sb_waiting f) \<le> 1 \<and> sent_ok tenantId f
    \<and> (kf_issued f \<noteq> None \<longrightarrow> sb_waiting f = [] \<and> submitKey tenantId session f = f)"
  using key_form_ok [OF assms] kf.at_most_one by (auto simp: secret_ok_def kf.single_def submitKey_def split: option.splits)

section \<open>Examples\<close>

definition example_letter :: dash_dead_letter where
  "example_letter = \<lparr>de_id = ''l'', de_eventId = ''e'', de_deliveryId = ''d'', de_tenantId = ''t'', de_targetUrl = ''u'',
     de_lastError = None, de_attemptCount = 8, de_createdAt = ''now'', de_eventType = ''x'', de_replay = None\<rparr>"

definition retried_control :: replay_control where
  "retried_control =
     confirmReplay example_letter True True ''other'' (settleReplay 0 (Inl (DashboardApiError 502 ''lost''))
       (confirmReplay example_letter True True ''k'' newReplayControl))"

lemma retried_run: "(replay_step ''t'' ''l'')\<^sup>*\<^sup>* newReplayControl retried_control"
proof -
  let ?c1 = "confirmReplay example_letter True True ''k'' newReplayControl"
  let ?c2 = "settleReplay 0 (Inl (DashboardApiError 502 ''lost'')) ?c1"
  have l: "de_tenantId example_letter = ''t''" "de_id example_letter = ''l''" by (simp_all add: example_letter_def)
  have "replay_step ''t'' ''l'' newReplayControl ?c1" by (rule replay_step.Confirm [OF _ l]) (simp add: newReplayControl_def)
  moreover have "replay_step ''t'' ''l'' ?c1 ?c2"
    by (rule replay_step.Settle)
      (simp add: newReplayControl_def confirmReplay_def eligibleToRequest_def canRequestReplay_def example_letter_def begin_submission_def
        Let_def)
  moreover have "replay_step ''t'' ''l'' ?c2 retried_control"
    unfolding retried_control_def by (rule replay_step.Confirm [OF _ l]) (code_simp)
  ultimately show ?thesis by (meson rtranclp.rtrancl_refl rtranclp.rtrancl_into_rtrancl)
qed

lemma retried_sent: "rc_sent retried_control = [(''t'', ''l'', ''k''), (''t'', ''l'', ''k'')]"
  by code_simp

theorem retried_replay_happens_once_witness:
  "\<exists>x. fst replay_run = Inr x \<and> fst (example_request_replay (snd replay_run)) = Inr x
     \<and> a_db (snd (example_request_replay (snd replay_run))) = a_db (snd replay_run) \<and> length (sb_waiting retried_control) \<le> 1"
proof -
  obtain x where x: "fst replay_run = Inr x" using replay_run_success by blast
  have first: "example_request_replay replay_start = (Inr x, snd replay_run)" using x by (simp add: replay_run_def prod_eq_iff)
  obtain again v' where again: "example_request_replay (snd replay_run) = (again, v')" by fastforce
  have mem: "(''t'', ''l'', ''k'') \<in> set (rc_sent retried_control)" by (simp add: retried_sent)
  obtain input where p: "parseReplayQuery (api_example None) (Some (JStr ''t'')) (Some (JStr ''l'')) (Some (JStr ''k'')) None
      (Some (JObj [])) = Inr input"
    by (simp add: parseReplayQuery_def uuid_value_def empty_object_def)
  have c: "a_outcome (api_example None) FindReplay = Completes" by simp
  have "length (sb_waiting retried_control) \<le> 1 \<and> a_db v' = a_db (snd replay_run) \<and> again = Inr x"
    using retried_replay_happens_once [OF retried_run mem mem first undisturbed_example again replays_ok_run, of input] p c by blast
  with x again show ?thesis by simp
qed

definition example_member :: dash_session where
  "example_member = \<lparr>ds_id = ''u'', ds_githubId = ''1'', ds_githubLogin = ''g'', ds_tenants = [(''t'', ''T'')],
     ds_csrfToken = ''x'', ds_expiresAt = ''e''\<rparr>"

definition sent_form :: key_form where
  "sent_form = submitKey ''t'' (Some example_member) (editName ''n'' newKeyForm)"

definition shown_form :: key_form where
  "shown_form = settleKey 0 (Inr (\<lparr>dk_id = ''i'', dk_tenantId = ''t'', dk_createdByUserId = ''u'', dk_name = ''n'', dk_createdAt = ''c'',
     dk_expiresAt = ''e'', dk_revokedAt = None\<rparr>, ''secret'')) sent_form"

lemma example_input: "ki_valid (form_input (editName ''n'' newKeyForm))"
proof -
  have "js_String_int 90 = ''90''" by code_simp
  then have "js_Number ''90'' = Num 90" using js_Number_String_int [of 90] by simp
  moreover have "js_trim ''n'' = ''n''" by code_simp
  ultimately show ?thesis
    by (simp add: form_input_def validateApiKeyInput_def editName_def editKeyForm_def newKeyForm_def js_isInteger_def)
qed

lemma sent_form_simps: "sb_waiting sent_form = [0]" "sb_alive sent_form"
  using example_input
  by (simp_all add: sent_form_def submitKey_def Let_def begin_submission_def editName_def editKeyForm_def newKeyForm_def example_member_def)

lemma shown_run: "(key_step ''t'')\<^sup>*\<^sup>* newKeyForm shown_form"
proof -
  have "key_step ''t'' newKeyForm (editName ''n'' newKeyForm)" by (rule key_step.EditName) (simp add: newKeyForm_def)
  moreover have "key_step ''t'' (editName ''n'' newKeyForm) sent_form"
    unfolding sent_form_def by (rule key_step.Submit) (simp add: newKeyForm_def editName_def editKeyForm_def)
  moreover have "key_step ''t'' sent_form shown_form" unfolding shown_form_def by (rule key_step.SettleKey) (simp add: sent_form_simps)
  ultimately show ?thesis by (meson rtranclp.rtrancl_refl rtranclp.rtrancl_into_rtrancl)
qed

theorem key_form_shows_one_secret_witness:
  "kf_issued shown_form \<noteq> None \<and> length (sb_waiting shown_form) \<le> 1 \<and> submitKey ''t'' None shown_form = shown_form"
proof -
  have "kf_issued shown_form \<noteq> None" by (simp add: shown_form_def settleKey_def sent_form_simps key_created_def end_submission_def)
  then show ?thesis using key_form_shows_one_secret [OF shown_run, of None] by blast
qed

end
