(* ===== verification/ListPages.thy ===== *)
theory ListPages
  imports DashboardForms
begin

text \<open>
  The lists of the website (\<open>DeliveryList\<close>, \<open>DeadLetterList\<close> and \<open>ApiKeyManagement\<close> of \<open>components/dashboard\<close>): a list
  loads a page whenever its query changes, and answers may come late and in any order.

  \<^item> A list is one mounted component.  Its requests are numbered in the order they are sent; the clean-up of the effect
    aborts a request when the next is sent or the list goes, and an aborted one may still settle with any answer.
  \<^item> An action is one step with the effect it triggers.
  \<^item> \<open>lp_received\<close> records which page answered which request; the code keeps no such list.
\<close>

section \<open>A list and its requests\<close>

datatype load_status = ListLoading | ListReady | ListFailed

record 'a list_resource =
  ls_key :: string
  ls_path :: string
  ls_status :: load_status
  ls_history :: "'a dash_page option"
  ls_error :: "(nat \<times> string) option"

record ('q, 'a) list_page =
  lp_query :: "'q list_query"
  lp_mounted :: bool
  lp_sent :: "(string \<times> string) list"
  lp_waiting :: "nat list"
  lp_resource :: "'a list_resource"
  lp_invalidated :: bool
  lp_received :: "(nat \<times> 'a dash_page) list"

definition query_key :: "('q list_query \<Rightarrow> string) \<Rightarrow> 'q list_query \<Rightarrow> string" where
  "query_key path_of q = path_of q @ '':'' @ js_String_nat (lq_revision q)"

text \<open>The list of deliveries forgets its page when it loads another; the other two keep it.\<close>

definition sendLoad :: "bool \<Rightarrow> ('q list_query \<Rightarrow> string) \<Rightarrow> ('q, 'a) list_page \<Rightarrow> ('q, 'a) list_page" where
  "sendLoad forget path_of s =
     (let key = query_key path_of (lp_query s); path = path_of (lp_query s)
      in s\<lparr>lp_sent := lp_sent s @ [(key, path)], lp_waiting := lp_waiting s @ [length (lp_sent s)],
           lp_resource := (if forget then \<lparr>ls_key = key, ls_path = path, ls_status = ListLoading, ls_history = None, ls_error = None\<rparr>
                           else lp_resource s)\<rparr>)"

definition newList :: "bool \<Rightarrow> ('q list_query \<Rightarrow> string) \<Rightarrow> 'q list_query \<Rightarrow> ('q, 'a) list_page" where
  "newList forget path_of q =
     sendLoad forget path_of
       \<lparr>lp_query = q, lp_mounted = True, lp_sent = [], lp_waiting = [],
        lp_resource = \<lparr>ls_key = [], ls_path = [], ls_status = ListLoading, ls_history = None, ls_error = None\<rparr>,
        lp_invalidated = False, lp_received = []\<rparr>"

definition actOnList ::
  "bool \<Rightarrow> ('q list_query \<Rightarrow> string) \<Rightarrow> ('q list_query \<Rightarrow> 'q list_action \<Rightarrow> 'q list_query) \<Rightarrow> 'q list_action
     \<Rightarrow> ('q, 'a) list_page \<Rightarrow> ('q, 'a) list_page" where
  "actOnList forget path_of reducer a s =
     (let s' = s\<lparr>lp_query := reducer (lp_query s) a\<rparr>
      in if query_key path_of (lp_query s') = query_key path_of (lp_query s) \<and> path_of (lp_query s') = path_of (lp_query s) then s'
         else sendLoad forget path_of s')"

definition load_aborted :: "nat \<Rightarrow> ('q, 'a) list_page \<Rightarrow> bool" where
  "load_aborted n s \<longleftrightarrow> \<not> lp_mounted s \<or> Suc n < length (lp_sent s)"

definition page_failed ::
  "bool \<Rightarrow> (dash_error \<Rightarrow> nat \<times> string) \<Rightarrow> string \<times> string \<Rightarrow> dash_error \<Rightarrow> ('q, 'a) list_page \<Rightarrow> ('q, 'a) list_page" where
  "page_failed forget failure kp e s =
     (case failure e of (n, message) \<Rightarrow>
        if n = 401 then s\<lparr>lp_invalidated := True\<rparr>
        else s\<lparr>lp_resource :=
          \<lparr>ls_key = fst kp, ls_path = snd kp, ls_status = ListFailed,
           ls_history = (if \<not> forget \<and> ls_path (lp_resource s) = snd kp \<and> n \<notin> {403, 404} then ls_history (lp_resource s) else None),
           ls_error = Some (n, message)\<rparr>\<rparr>)"

definition settlePage ::
  "bool \<Rightarrow> (dash_error \<Rightarrow> nat \<times> string) \<Rightarrow> nat \<Rightarrow> dash_error + 'a dash_page \<Rightarrow> ('q, 'a) list_page \<Rightarrow> ('q, 'a) list_page" where
  "settlePage forget failure n answer s =
     (let s' = s\<lparr>lp_waiting := remove1 n (lp_waiting s),
                 lp_received := (case answer of Inr h \<Rightarrow> (n, h) # lp_received s | Inl _ \<Rightarrow> lp_received s)\<rparr>
      in if load_aborted n s then s'
         else (case answer of
                 Inr h \<Rightarrow> s'\<lparr>lp_resource := \<lparr>ls_key = fst (lp_sent s ! n), ls_path = snd (lp_sent s ! n), ls_status = ListReady,
                                              ls_history = Some h, ls_error = None\<rparr>\<rparr>
               | Inl e \<Rightarrow> page_failed forget failure (lp_sent s ! n) e s'))"

definition leaveList :: "('q, 'a) list_page \<Rightarrow> ('q, 'a) list_page" where
  "leaveList s = s\<lparr>lp_mounted := False\<rparr>"

text \<open>What a list shows: the deliveries only for the key, the other two for the path.\<close>

definition shown_page :: "bool \<Rightarrow> ('q list_query \<Rightarrow> string) \<Rightarrow> ('q, 'a) list_page \<Rightarrow> 'a dash_page option" where
  "shown_page forget path_of s =
     (if forget
      then (if ls_key (lp_resource s) = query_key path_of (lp_query s) \<and> ls_status (lp_resource s) = ListReady
            then ls_history (lp_resource s) else None)
      else (if ls_path (lp_resource s) = path_of (lp_query s) then ls_history (lp_resource s) else None))"

definition list_loading :: "('q list_query \<Rightarrow> string) \<Rightarrow> ('q, 'a) list_page \<Rightarrow> bool" where
  "list_loading path_of s \<longleftrightarrow>
     ls_key (lp_resource s) \<noteq> query_key path_of (lp_query s) \<or> ls_status (lp_resource s) = ListLoading"

inductive list_step ::
  "bool \<Rightarrow> ('q list_query \<Rightarrow> string) \<Rightarrow> ('q list_query \<Rightarrow> 'q list_action \<Rightarrow> 'q list_query) \<Rightarrow> (dash_error \<Rightarrow> nat \<times> string)
     \<Rightarrow> ('q, 'a) list_page \<Rightarrow> ('q, 'a) list_page \<Rightarrow> bool"
  for forget path_of reducer failure where
  Act: "lp_mounted s \<Longrightarrow> list_step forget path_of reducer failure s (actOnList forget path_of reducer a s)"
| SettlePage: "n \<in> set (lp_waiting s) \<Longrightarrow> list_step forget path_of reducer failure s (settlePage forget failure n answer s)"
| LeaveList: "lp_mounted s \<Longrightarrow> list_step forget path_of reducer failure s (leaveList s)"

section \<open>The three lists\<close>

definition deliveriesError :: "dash_error \<Rightarrow> nat \<times> string" where
  "deliveriesError e = (case e of DashboardApiError n message \<Rightarrow> (n, message) | _ \<Rightarrow> (0, ''Unable to load deliveries. Please try again.''))"

definition deliveries_step ::
  "string \<Rightarrow> (DeliveryStatus option, dash_delivery) list_page \<Rightarrow> (DeliveryStatus option, dash_delivery) list_page \<Rightarrow> bool" where
  "deliveries_step tenantId = list_step True (deliveryHistoryPath tenantId) deliveryListReducer deliveriesError"

definition dead_letters_step ::
  "string \<Rightarrow> (unit, dash_dead_letter) list_page \<Rightarrow> (unit, dash_dead_letter) list_page \<Rightarrow> bool" where
  "dead_letters_step tenantId = list_step False (deadLetterListPath tenantId) deadLetterQueryReducer (\<lambda>e. deadLetterError e ListOperation)"

definition api_keys_step :: "string \<Rightarrow> (unit, dash_key) list_page \<Rightarrow> (unit, dash_key) list_page \<Rightarrow> bool" where
  "api_keys_step tenantId = list_step False (apiKeyListPath tenantId) apiKeyQueryReducer (\<lambda>e. apiKeyError e ListOperation)"

text \<open>A row whose replay was just accepted shows it, unless the page already does; a revoked key is shown as such.\<close>

definition rowsWithReceipts :: "(string \<times> replay_receipt) list \<Rightarrow> dash_dead_letter list \<Rightarrow> dash_dead_letter list" where
  "rowsWithReceipts stored =
     map (\<lambda>row. case map_of stored (de_id row) of
            Some r \<Rightarrow> if de_replay row = None
                      then row\<lparr>de_replay := Some \<lparr>dy_id = rr_replayId r, dy_eventId = rr_eventId r, dy_createdAt = rr_createdAt r\<rparr>\<rparr> else row
          | None \<Rightarrow> row)"

definition rowsWithOverrides :: "(string \<times> dash_key) list \<Rightarrow> dash_key list \<Rightarrow> dash_key list" where
  "rowsWithOverrides overrides = map (\<lambda>row. case map_of overrides (dk_id row) of Some k \<Rightarrow> k | None \<Rightarrow> row)"

section \<open>A list shows only answers to its query\<close>

definition answered_page :: "('q, 'a) list_page \<Rightarrow> 'a dash_page \<Rightarrow> bool" where
  "answered_page s h \<longleftrightarrow>
     (\<exists>n < length (lp_sent s). (n, h) \<in> set (lp_received s) \<and> snd (lp_sent s ! n) = ls_path (lp_resource s)
        \<and> (ls_status (lp_resource s) = ListReady \<longrightarrow> fst (lp_sent s ! n) = ls_key (lp_resource s)))"

definition page_ok :: "bool \<Rightarrow> ('q list_query \<Rightarrow> string) \<Rightarrow> ('q, 'a) list_page \<Rightarrow> bool" where
  "page_ok forget path_of s \<longleftrightarrow>
     lp_sent s \<noteq> [] \<and> last (lp_sent s) = (query_key path_of (lp_query s), path_of (lp_query s))
     \<and> (\<forall>n \<in> set (lp_waiting s). n < length (lp_sent s))
     \<and> (forget \<longrightarrow> ls_path (lp_resource s) = path_of (lp_query s))
     \<and> (\<forall>h. ls_history (lp_resource s) = Some h \<longrightarrow> answered_page s h)"

lemma answered_page_more:
  assumes "answered_page s h" and "lp_sent s' = lp_sent s @ more_sent" and "lp_received s' = lp_received s" and "lp_resource s' = lp_resource s"
  shows "answered_page s' h"
proof -
  from assms(1) obtain n where "n < length (lp_sent s)" "(n, h) \<in> set (lp_received s)" "snd (lp_sent s ! n) = ls_path (lp_resource s)"
    "ls_status (lp_resource s) = ListReady \<longrightarrow> fst (lp_sent s ! n) = ls_key (lp_resource s)"
    by (auto simp: answered_page_def)
  then show ?thesis by (auto simp: answered_page_def assms(2-4) nth_append intro!: exI [of _ n])
qed

lemma page_ok_send:
  assumes "\<forall>n \<in> set (lp_waiting s). n < length (lp_sent s)" and "\<forall>h. ls_history (lp_resource s) = Some h \<longrightarrow> answered_page s h"
  shows "page_ok forget path_of (sendLoad forget path_of s)"
proof -
  let ?s = "sendLoad forget path_of s"
  let ?kp = "(query_key path_of (lp_query s), path_of (lp_query s))"
  have fields: "lp_sent ?s = lp_sent s @ [?kp]" "lp_waiting ?s = lp_waiting s @ [length (lp_sent s)]" "lp_query ?s = lp_query s"
    "lp_received ?s = lp_received s"
    by (simp_all add: sendLoad_def Let_def)
  have "answered_page ?s h" if "ls_history (lp_resource ?s) = Some h" for h
  proof -
    have "lp_resource ?s = lp_resource s" using that by (auto simp: sendLoad_def Let_def split: if_splits)
    then show ?thesis using answered_page_more [OF _ fields(1,4)] assms(2) that by simp
  qed
  moreover have "forget \<longrightarrow> ls_path (lp_resource ?s) = path_of (lp_query ?s)" by (simp add: sendLoad_def Let_def)
  ultimately show ?thesis using assms(1) by (auto simp: page_ok_def fields)
qed

lemma page_ok_new: "page_ok forget path_of (newList forget path_of q)"
  unfolding newList_def by (rule page_ok_send) simp_all

lemma page_ok_act: "page_ok forget path_of s \<Longrightarrow> page_ok forget path_of (actOnList forget path_of reducer a s)"
proof -
  assume ok: "page_ok forget path_of s"
  let ?s = "s\<lparr>lp_query := reducer (lp_query s) a\<rparr>"
  have "page_ok forget path_of (sendLoad forget path_of ?s)"
    by (rule page_ok_send) (use ok in \<open>auto simp: page_ok_def answered_page_def\<close>)
  then show ?thesis using ok by (auto simp: actOnList_def Let_def page_ok_def answered_page_def)
qed

lemma latest_load:
  "page_ok forget path_of s \<Longrightarrow> n < length (lp_sent s) \<Longrightarrow> \<not> Suc n < length (lp_sent s) \<Longrightarrow>
     lp_sent s ! n = (query_key path_of (lp_query s), path_of (lp_query s))"
  unfolding page_ok_def by (metis One_nat_def Suc_lessI diff_Suc_1 last_conv_nth)

lemma page_ok_settle:
  assumes "page_ok forget path_of s" and "n \<in> set (lp_waiting s)"
  shows "page_ok forget path_of (settlePage forget failure n answer s)"
proof -
  have n: "n < length (lp_sent s)" using assms by (simp add: page_ok_def)
  note latest = latest_load [OF assms(1) n]
  have waiting: "\<forall>k \<in> set (remove1 n (lp_waiting s)). k < length (lp_sent s)"
    using assms(1) by (auto simp: page_ok_def dest: notin_set_remove1)
  show ?thesis
  proof (cases "load_aborted n s")
    case True
    then show ?thesis
      using assms(1) waiting by (auto simp: settlePage_def Let_def page_ok_def answered_page_def split: sum.splits)
  next
    case False
    then have at: "lp_sent s ! n = (query_key path_of (lp_query s), path_of (lp_query s))" using latest by (simp add: load_aborted_def)
    show ?thesis
    proof (cases answer)
      case (Inr h)
      then show ?thesis
        using assms(1) waiting at n False by (auto simp: settlePage_def Let_def page_ok_def answered_page_def)
    next
      case (Inl e)
      then show ?thesis
        using assms(1) waiting at False
        by (auto simp: settlePage_def Let_def page_ok_def answered_page_def page_failed_def split: prod.splits if_splits)
    qed
  qed
qed

lemma page_ok_step: "list_step forget path_of reducer failure s s' \<Longrightarrow> page_ok forget path_of s \<Longrightarrow> page_ok forget path_of s'"
proof (induction rule: list_step.induct)
  case (LeaveList s)
  then show ?case by (simp add: leaveList_def page_ok_def answered_page_def)
qed (auto intro: page_ok_act page_ok_settle)

lemma page_ok_run:
  "(list_step forget path_of reducer failure)\<^sup>*\<^sup>* (newList forget path_of q) s \<Longrightarrow> page_ok forget path_of s"
  by (induction rule: rtranclp_induct) (auto intro: page_ok_step page_ok_new)

text \<open>For every interleaving of actions and answers, late ones included, a page on display answered a request for the very
  query the list shows; and when the list shows no error and is not loading, a request made since the last refresh.\<close>

theorem list_shows_its_query:
  assumes "(list_step forget path_of reducer failure)\<^sup>*\<^sup>* (newList forget path_of q) s"
    and "shown_page forget path_of s = Some h"
  shows "\<exists>n. (n, h) \<in> set (lp_received s) \<and> snd (lp_sent s ! n) = path_of (lp_query s)
    \<and> (\<not> list_loading path_of s \<and> ls_status (lp_resource s) = ListReady \<longrightarrow> fst (lp_sent s ! n) = query_key path_of (lp_query s))"
  using page_ok_run [OF assms(1)] assms(2)
  by (fastforce simp: page_ok_def answered_page_def shown_page_def list_loading_def split: if_splits)

end
