(* ===== verification/JsonLine.thy ===== *)
theory JsonLine
  imports JsText
begin

text \<open>
  The colouring of a line of JSON on the website (\<open>jsonLineTokens\<close> of \<open>packages/web/src/lib/delivery-details.ts\<close>).  The
  regular expression is a function from a position to the length of its match, in the order in which the engine tries
  the alternatives.
\<close>

section \<open>The expression\<close>

datatype json_token_kind = KeyToken | StringToken | LiteralToken | PlainToken

record json_token =
  jt_kind :: json_token_kind
  jt_text :: string

definition is_word :: "char \<Rightarrow> bool" where
  "is_word c \<longleftrightarrow> is_digit c \<or> (let l = (of_char (lower_char c) :: nat) in 97 \<le> l \<and> l \<le> 122) \<or> c = CHR ''_''"

text \<open>\<open>\b\<close> between a character, or the start of the line, and a text.\<close>

definition word_boundary :: "char option \<Rightarrow> string \<Rightarrow> bool" where
  "word_boundary p s \<longleftrightarrow> (case p of None \<Rightarrow> False | Some c \<Rightarrow> is_word c) \<noteq> (case s of [] \<Rightarrow> False | c # _ \<Rightarrow> is_word c)"

text \<open>The length of \<open>(?:\\.|[^"\\])*"\<close> after the opening quote.\<close>

fun quoted_length :: "string \<Rightarrow> nat option" where
  "quoted_length [] = None"
| "quoted_length (c # s) =
     (if c = CHR 0x22 then Some 1
      else if c = CHR 0x5C
      then (case s of [] \<Rightarrow> None | d # t \<Rightarrow> if d = CHR 0x0A \<or> d = CHR 0x0D then None else map_option ((+) 2) (quoted_length t))
      else map_option Suc (quoted_length s))"

definition digit_ends :: "string \<Rightarrow> nat list" where
  "digit_ends s = rev [1..<Suc (length (takeWhile is_digit s))]"

definition fraction_ends :: "string \<Rightarrow> nat list" where
  "fraction_ends s = (case s of c # r \<Rightarrow> if c = CHR ''.'' then map Suc (digit_ends r) else [] | [] \<Rightarrow> []) @ [0]"

definition exponent_ends :: "string \<Rightarrow> nat list" where
  "exponent_ends s =
     (case s of
        c # r \<Rightarrow>
          if c = CHR ''e'' \<or> c = CHR ''E''
          then (case r of
                  d # t \<Rightarrow> if d = CHR ''+'' \<or> d = CHR ''-'' then map ((+) 2) (digit_ends t) else map Suc (digit_ends r)
                | [] \<Rightarrow> [])
          else []
      | [] \<Rightarrow> []) @ [0]"

definition number_ends :: "string \<Rightarrow> nat list" where
  "number_ends s =
     (let sign = (case s of c # _ \<Rightarrow> if c = CHR ''-'' then 1 else 0 | [] \<Rightarrow> 0); r = drop sign s
      in concat (map (\<lambda>a. concat (map (\<lambda>b. map (\<lambda>c. sign + a + b + c) (exponent_ends (drop (a + b) r)))
                                   (fraction_ends (drop a r))))
                   (digit_ends r)))"

definition word_ends :: "string \<Rightarrow> nat list" where
  "word_ends s =
     concat (map (\<lambda>w. if starts_with w s then [length w] else []) [''true'', ''false'', ''null'']) @ number_ends s"

definition token_length :: "char option \<Rightarrow> string \<Rightarrow> nat option" where
  "token_length p s =
     (case (case s of c # r \<Rightarrow> if c = CHR 0x22 then map_option Suc (quoted_length r) else None | [] \<Rightarrow> None) of
        Some n \<Rightarrow> Some n
      | None \<Rightarrow>
          if word_boundary p s then find (\<lambda>n. word_boundary (Some (s ! (n - 1))) (drop n s)) (word_ends s) else None)"

lemma quoted_length_bounds: "quoted_length s = Some n \<Longrightarrow> 0 < n \<and> n \<le> length s"
  by (induction s arbitrary: n rule: quoted_length.induct) (fastforce split: if_splits list.splits)+

lemma digit_ends_bounds: "n \<in> set (digit_ends s) \<Longrightarrow> 0 < n \<and> n \<le> length s"
  using length_takeWhile_le [of is_digit s] by (auto simp: digit_ends_def)

lemma fraction_ends_bounds: "n \<in> set (fraction_ends s) \<Longrightarrow> n \<le> length s"
  by (auto simp: fraction_ends_def dest: digit_ends_bounds split: list.splits if_splits)

lemma digit_ends_le: "n \<in> set (digit_ends s) \<Longrightarrow> n \<le> length s"
  using digit_ends_bounds by blast

lemma exponent_ends_cons:
  "exponent_ends (c # d # t) = (if c \<in> {CHR ''e'', CHR ''E''}
     then if d \<in> {CHR ''+'', CHR ''-''} then map ((+) 2) (digit_ends t) @ [0] else map Suc (digit_ends (d # t)) @ [0] else [0])"
  "exponent_ends [c] = [0]" "exponent_ends [] = [0]"
  by (simp_all add: exponent_ends_def)

lemma exponent_ends_bounds: "n \<in> set (exponent_ends s) \<Longrightarrow> n \<le> length s"
proof (cases s rule: remdups_adj.cases)
  case (3 c d t)
  have "m \<in> set (digit_ends t) \<Longrightarrow> m \<le> length t" "m \<in> set (digit_ends (d # t)) \<Longrightarrow> m \<le> Suc (length t)" for m
    using digit_ends_le [of m t] digit_ends_le [of m "d # t"] by simp_all
  then show "n \<in> set (exponent_ends s) \<Longrightarrow> ?thesis" by (fastforce simp: 3 exponent_ends_cons(1) split: if_split_asm)
qed (simp_all add: exponent_ends_cons)

lemma number_ends_bounds: "n \<in> set (number_ends s) \<Longrightarrow> 0 < n \<and> n \<le> length s"
  by (fastforce simp: number_ends_def Let_def dest!: digit_ends_bounds fraction_ends_bounds exponent_ends_bounds
      split: list.splits if_splits)

lemma word_ends_bounds: "n \<in> set (word_ends s) \<Longrightarrow> 0 < n \<and> n \<le> length s"
  by (auto simp: word_ends_def starts_with_iff split: if_splits dest: number_ends_bounds)

lemma token_length_bounds: "token_length p s = Some n \<Longrightarrow> 0 < n \<and> n \<le> length s"
  by (auto simp: token_length_def split: option.splits list.splits if_splits dest!: find_SomeD quoted_length_bounds word_ends_bounds)

section \<open>The tokens\<close>

definition plain_token :: "string \<Rightarrow> json_token list" where
  "plain_token s = (if s = [] then [] else [\<lparr>jt_kind = PlainToken, jt_text = s\<rparr>])"

text \<open>A quoted text before a colon is a key.\<close>

definition token_kind :: "string \<Rightarrow> string \<Rightarrow> json_token_kind" where
  "token_kind t rest =
     (if starts_with [CHR 0x22] t then (if starts_with '':'' (dropWhile js_space rest) then KeyToken else StringToken) else LiteralToken)"

text \<open>The search goes on after each match; \<open>plain\<close> is the text since the last one, \<open>p\<close> the character before.\<close>

function tokens_from :: "char option \<Rightarrow> string \<Rightarrow> string \<Rightarrow> json_token list" where
  "tokens_from p plain s =
     (case s of
        [] \<Rightarrow> plain_token plain
      | c # r \<Rightarrow>
          (case token_length p s of
             None \<Rightarrow> tokens_from (Some c) (plain @ [c]) r
           | Some n \<Rightarrow>
               plain_token plain @ \<lparr>jt_kind = token_kind (take n s) (drop n s), jt_text = take n s\<rparr>
                 # tokens_from (Some (s ! (n - 1))) [] (drop n s)))"
  by pat_completeness auto

termination
  by (relation "measure (\<lambda>(p, plain, s). length s)") (auto dest: token_length_bounds)

definition jsonLineTokens :: "string \<Rightarrow> json_token list" where
  "jsonLineTokens line = tokens_from None [] line"

declare tokens_from.simps [simp del]

lemma tokens_reassemble: "concat (map jt_text (tokens_from p plain s)) = plain @ s"
proof (induction p plain s rule: tokens_from.induct)
  case (1 p plain s)
  show ?case
  proof (cases s)
    case (Cons c r)
    have plain: "concat (map jt_text (plain_token plain)) = plain" by (simp add: plain_token_def)
    show ?thesis
    proof (cases "token_length p s")
      case None
      then show ?thesis using 1(1) [OF Cons] Cons by (simp add: tokens_from.simps [of p plain "c # r"])
    next
      case (Some n)
      then show ?thesis using 1(2) [OF Cons] Cons plain by (simp add: tokens_from.simps [of p plain "c # r"])
    qed
  qed (simp add: tokens_from.simps plain_token_def)
qed

text \<open>The colouring loses and adds no character, and no token is empty.\<close>

lemma line_tokens_reassemble: "concat (map jt_text (jsonLineTokens line)) = line"
  by (simp add: jsonLineTokens_def tokens_reassemble)

end
