(* ===== verification/DashboardSession.thy ===== *)
theory DashboardSession
  imports DashboardData
begin

text \<open>
  What the website keeps about the signed-in user: the session provider, in the session provider
  (\<open>components/dashboard/provider.tsx\<close>).

  \<^item> The provider is a state with an operation per event; a promise settles as an event with any answer, also one whose
    signal was aborted.  Loads are numbered by the generation that started them.
  \<^item> Browser storage, which is taken to work, is the remembered workspace; navigation is the list of paths the router was given.
\<close>

section \<open>The session provider\<close>

datatype session_state = SessionLoading | SignedOut | SessionError string | SessionReady dash_session

datatype sign_out = NoSignOut | ReadingSession | PostingLogout string

record provider =
  pv_state :: session_state
  pv_generation :: nat
  pv_loads :: "(nat \<times> bool) list"
  pv_active :: "nat option"
  pv_loggingOut :: bool
  pv_signingOut :: bool
  pv_logoutError :: "string option"
  pv_leaving :: sign_out
  pv_preference :: "string option"
  pv_routes :: "string list"

definition newProvider :: "string option \<Rightarrow> provider" where
  "newProvider preference =
     \<lparr>pv_state = SessionLoading, pv_generation = 0, pv_loads = [], pv_active = None, pv_loggingOut = False, pv_signingOut = False,
      pv_logoutError = None, pv_leaving = NoSignOut, pv_preference = preference, pv_routes = []\<rparr>"

fun dash_error_message :: "dash_error \<Rightarrow> string" where
  "dash_error_message (DashboardApiError _ message) = message"
| "dash_error_message (ConfigError (Error message)) = message"
| "dash_error_message AbortedRequest = ''The operation was aborted.''"

fun unauthorized :: "dash_error \<Rightarrow> bool" where
  "unauthorized (DashboardApiError n _) = (n = 401)"
| "unauthorized _ = False"

text \<open>The next generation, with the active load aborted.\<close>

definition supersede :: "provider \<Rightarrow> provider" where
  "supersede p =
     p\<lparr>pv_generation := pv_generation p + 1,
       pv_loads := map (\<lambda>(g, a). (g, a \<or> pv_active p = Some g)) (pv_loads p)\<rparr>"

definition saveWorkspacePreference :: "string option \<Rightarrow> provider \<Rightarrow> provider" where
  "saveWorkspacePreference i p = p\<lparr>pv_preference := (if i = Some [] then None else i)\<rparr>"

definition go :: "string \<Rightarrow> provider \<Rightarrow> provider" where
  "go path p = p\<lparr>pv_routes := pv_routes p @ [path]\<rparr>"

definition invalidate :: "provider \<Rightarrow> provider" where
  "invalidate p = go ''/app'' ((saveWorkspacePreference None (supersede p))\<lparr>pv_state := SignedOut\<rparr>)"

definition reload :: "provider \<Rightarrow> provider" where
  "reload p =
     (if pv_loggingOut p then p
      else let p' = supersede p in
        p'\<lparr>pv_active := Some (pv_generation p'), pv_loads := pv_loads p' @ [(pv_generation p', False)],
           pv_state := (case pv_state p' of SessionReady s \<Rightarrow> SessionReady s | _ \<Rightarrow> SessionLoading)\<rparr>)"

text \<open>The load of a generation settles: \<open>reload\<close> after its \<open>await\<close>.\<close>

definition settleLoad :: "nat \<Rightarrow> dash_error + dash_session \<Rightarrow> provider \<Rightarrow> provider" where
  "settleLoad g answer p =
     (case map_of (pv_loads p) g of
        None \<Rightarrow> p
      | Some aborted \<Rightarrow>
          let p' = p\<lparr>pv_loads := filter (\<lambda>l. fst l \<noteq> g) (pv_loads p)\<rparr> in
          (case answer of
             Inr s \<Rightarrow> if g = pv_generation p then p'\<lparr>pv_state := SessionReady s\<rparr> else p'
           | Inl e \<Rightarrow>
               if aborted \<or> g \<noteq> pv_generation p then p'
               else if unauthorized e then (saveWorkspacePreference None p')\<lparr>pv_state := SignedOut\<rparr>
               else p'\<lparr>pv_state := SessionError (dash_error_message e)\<rparr>))"

definition chooseWorkspace :: "string \<Rightarrow> provider \<Rightarrow> provider" where
  "chooseWorkspace i p =
     (case pv_state p of
        SessionReady s \<Rightarrow>
          if i \<in> fst ` set (ds_tenants s) then go (''/app/'' @ encodeURIComponent i) (saveWorkspacePreference (Some i) p) else p
      | _ \<Rightarrow> p)"

definition switchWorkspace :: "provider \<Rightarrow> provider" where
  "switchWorkspace p = go ''/app'' (saveWorkspacePreference None p)"

text \<open>\<open>stored\<close> tells whether the browser kept the time until which a return is expected.\<close>

definition signIn :: "string \<Rightarrow> bool \<Rightarrow> provider \<Rightarrow> provider" where
  "signIn origin stored p =
     go (origin @ ''/auth/github'')
       (if stored then p
        else p\<lparr>pv_logoutError := Some ''Your browser could not save the return location. You can reopen /app after signing in.''\<rparr>)"

definition beginSignOut :: "provider \<Rightarrow> provider" where
  "beginSignOut p =
     (if pv_loggingOut p then p
      else (supersede p)\<lparr>pv_loggingOut := True, pv_signingOut := True, pv_logoutError := None, pv_leaving := ReadingSession\<rparr>)"

definition endSignOut :: "provider \<Rightarrow> provider" where
  "endSignOut p = p\<lparr>pv_loggingOut := False, pv_signingOut := False, pv_leaving := NoSignOut\<rparr>"

definition signOutFailed :: "dash_error \<Rightarrow> provider \<Rightarrow> provider" where
  "signOutFailed e p =
     endSignOut (if unauthorized e then invalidate p else p\<lparr>pv_logoutError := Some (dash_error_message e)\<rparr>)"

definition sessionRead :: "dash_error + dash_session \<Rightarrow> provider \<Rightarrow> provider" where
  "sessionRead answer p =
     (if pv_leaving p \<noteq> ReadingSession then p
      else case answer of Inl e \<Rightarrow> signOutFailed e p | Inr s \<Rightarrow> p\<lparr>pv_leaving := PostingLogout (ds_csrfToken s)\<rparr>)"

definition logoutAnswered :: "dash_error option \<Rightarrow> provider \<Rightarrow> provider" where
  "logoutAnswered failure p =
     (case pv_leaving p of
        PostingLogout _ \<Rightarrow> (case failure of Some e \<Rightarrow> signOutFailed e p | None \<Rightarrow> endSignOut (invalidate p))
      | _ \<Rightarrow> p)"

datatype provider_event =
  Reload | LoadSettled nat "dash_error + dash_session" | Invalidate | Choose string | Switch | SignIn bool
| SignOut | SessionRead "dash_error + dash_session" | LogoutAnswered "dash_error option" | Unmount

fun provider_do :: "string \<Rightarrow> provider_event \<Rightarrow> provider \<Rightarrow> provider" where
  "provider_do origin Reload p = reload p"
| "provider_do origin (LoadSettled g answer) p = settleLoad g answer p"
| "provider_do origin Invalidate p = invalidate p"
| "provider_do origin (Choose i) p = chooseWorkspace i p"
| "provider_do origin Switch p = switchWorkspace p"
| "provider_do origin (SignIn stored) p = signIn origin stored p"
| "provider_do origin SignOut p = beginSignOut p"
| "provider_do origin (SessionRead answer) p = sessionRead answer p"
| "provider_do origin (LogoutAnswered failure) p = logoutAnswered failure p"
| "provider_do origin Unmount p = supersede p"

abbreviation provider_run :: "string \<Rightarrow> provider_event list \<Rightarrow> provider \<Rightarrow> provider" where
  "provider_run origin es p \<equiv> fold (provider_do origin) es p"

named_theorems provider_ops \<open>operations of the provider\<close>

lemmas [provider_ops] = supersede_def saveWorkspacePreference_def go_def invalidate_def reload_def chooseWorkspace_def
  switchWorkspace_def signIn_def beginSignOut_def endSignOut_def signOutFailed_def sessionRead_def logoutAnswered_def Let_def

subsection \<open>Only the latest load decides\<close>

text \<open>Loads are of past or the present generation, and while the user is signed out none is of the present one.\<close>

definition loads_ok :: "provider \<Rightarrow> bool" where
  "loads_ok p \<longleftrightarrow> (\<forall>l \<in> set (pv_loads p). fst l \<le> pv_generation p)
     \<and> (pv_state p = SignedOut \<longrightarrow> (\<forall>l \<in> set (pv_loads p). fst l < pv_generation p))"

lemma loads_ok_supersede: "loads_ok p \<Longrightarrow> \<forall>l \<in> set (pv_loads (supersede p)). fst l < pv_generation (supersede p)"
  by (auto simp: loads_ok_def supersede_def less_Suc_eq_le)

lemma loads_ok_settle: "loads_ok p \<Longrightarrow> loads_ok (settleLoad g answer p)"
  by (auto simp: loads_ok_def settleLoad_def saveWorkspacePreference_def Let_def less_le dest: map_of_SomeD
      split: option.splits sum.splits)

lemma loads_ok_do: "loads_ok p \<Longrightarrow> loads_ok (provider_do origin e p)"
proof (cases e)
  case (LoadSettled g answer)
  then show "loads_ok p \<Longrightarrow> ?thesis" by (simp add: loads_ok_settle)
qed (use loads_ok_supersede [of p] in \<open>auto simp: loads_ok_def provider_ops less_Suc_eq_le
      split: session_state.splits sum.splits option.splits sign_out.splits\<close>)

lemma loads_ok_run: "loads_ok p \<Longrightarrow> loads_ok (provider_run origin es p)"
  by (induction es arbitrary: p) (auto intro: loads_ok_do)

lemma loads_ok_new: "loads_ok (newProvider preference)"
  by (simp add: loads_ok_def newProvider_def)

definition signed_out :: "provider \<Rightarrow> bool" where
  "signed_out p \<longleftrightarrow> pv_state p = SignedOut \<and> pv_preference p = None"

lemma signed_out_settle: "loads_ok p \<Longrightarrow> signed_out p \<Longrightarrow> signed_out (settleLoad g answer p)"
  by (fastforce simp: loads_ok_def signed_out_def settleLoad_def saveWorkspacePreference_def Let_def dest: map_of_SomeD
      split: option.splits sum.splits)

lemma signed_out_do: "Reload \<noteq> e \<Longrightarrow> loads_ok p \<Longrightarrow> signed_out p \<Longrightarrow> signed_out (provider_do origin e p)"
proof (cases e)
  case (LoadSettled g answer)
  then show "loads_ok p \<Longrightarrow> signed_out p \<Longrightarrow> ?thesis" by (simp add: signed_out_settle)
qed (auto simp: signed_out_def provider_ops split: sum.splits option.splits sign_out.splits)

lemma signed_out_run:
  "Reload \<notin> set es \<Longrightarrow> loads_ok p \<Longrightarrow> signed_out p \<Longrightarrow> signed_out (provider_run origin es p)"
  by (induction es arbitrary: p) (auto intro: signed_out_do loads_ok_do)

text \<open>C39: Once the API has confirmed a sign-out, the website stays signed out and remembers no workspace, however late the
  answers of earlier session loads arrive and whatever else happens, until it asks the API for the session again.\<close>

theorem sign_out_is_final:
  assumes "pv_leaving p = PostingLogout token" and "p = provider_run origin es (newProvider preference)"
    and "Reload \<notin> set fs"
  shows "signed_out (provider_run origin fs (provider_do origin (LogoutAnswered None) p))"
proof -
  have ok: "loads_ok (provider_do origin (LogoutAnswered None) p)"
    unfolding assms(2) by (intro loads_ok_do loads_ok_run loads_ok_new)
  have "signed_out (provider_do origin (LogoutAnswered None) p)" using assms(1) by (simp add: signed_out_def provider_ops)
  then show ?thesis by (rule signed_out_run [OF assms(3) ok])
qed

text \<open>A load under way when the user signs out is answered after the sign-out.\<close>

definition example_user :: dash_session where
  "example_user = \<lparr>ds_id = ''u'', ds_githubId = ''1'', ds_githubLogin = ''g'', ds_tenants = [(''t'', ''T'')],
     ds_csrfToken = ''x'', ds_expiresAt = ''e''\<rparr>"

theorem sign_out_is_final_witness:
  "signed_out (provider_run ''a'' [LoadSettled 1 (Inr example_user)] (provider_do ''a'' (LogoutAnswered None)
     (provider_run ''a'' [Reload, SignOut, SessionRead (Inr example_user)] (newProvider None))))"
proof (rule sign_out_is_final)
  show "pv_leaving (provider_run ''a'' [Reload, SignOut, SessionRead (Inr example_user)] (newProvider None)) = PostingLogout ''x''"
    by (simp add: provider_ops newProvider_def example_user_def)
qed (rule refl, simp)

end
