(* ===== verification/WorkspaceCounts.thy ===== *)
theory WorkspaceCounts
  imports DashboardData
begin

text \<open>
  The delivery counts beside the workspaces of a user (\<open>components/dashboard/workspace-counts.ts\<close>): up to three workers
  take the workspaces in turn and read the summary of each.

  \<^item> A worker runs until its request is under way and goes on when it settles, with any answer; so its state is the
    workspace it reads, or \<open>None\<close> when it has returned.
  \<^item> The scope is the user and the workspaces the counts were started for; another scope aborts the workers.
\<close>

section \<open>The workers\<close>

datatype workspace_count = CountReady rat | CountUnavailable

record counts_run =
  cr_ids :: "string list"
  cr_scope :: string
  cr_next :: nat
  cr_workers :: "string option list"
  cr_asked :: "string list"
  cr_aborted :: bool
  cr_invalidated :: bool
  cr_shown :: string
  cr_values :: "(string \<times> workspace_count) list"

text \<open>The head of the loop of worker \<open>k\<close>: the next workspace, or the end.\<close>

definition take_workspace :: "nat \<Rightarrow> counts_run \<Rightarrow> counts_run" where
  "take_workspace k r =
     (if cr_next r < length (cr_ids r) \<and> \<not> cr_aborted r
      then r\<lparr>cr_workers := (cr_workers r)[k := Some (cr_ids r ! cr_next r)], cr_asked := cr_asked r @ [cr_ids r ! cr_next r],
             cr_next := cr_next r + 1\<rparr>
      else r\<lparr>cr_workers := (cr_workers r)[k := None]\<rparr>)"

definition startCounts :: "string list \<Rightarrow> string \<Rightarrow> counts_run" where
  "startCounts ids scope =
     (let n = min 3 (length ids)
      in fold take_workspace [0..<n]
           \<lparr>cr_ids = ids, cr_scope = scope, cr_next = 0, cr_workers = replicate n None, cr_asked = [], cr_aborted = False,
            cr_invalidated = False, cr_shown = scope, cr_values = []\<rparr>)"

fun is_unauthorized :: "dash_error \<Rightarrow> bool" where
  "is_unauthorized (DashboardApiError n _) = (n = 401)"
| "is_unauthorized _ = False"

definition setCount :: "string \<Rightarrow> workspace_count \<Rightarrow> counts_run \<Rightarrow> counts_run" where
  "setCount i v r =
     (if cr_aborted r then r
      else if cr_shown r = cr_scope r then r\<lparr>cr_values := (i, v) # cr_values r\<rparr> else r)"

text \<open>The request of worker \<open>k\<close> for workspace \<open>i\<close> settles with the JSON of its answer or an error.\<close>

definition settleCount :: "nat \<Rightarrow> string \<Rightarrow> dash_error + json option \<Rightarrow> counts_run \<Rightarrow> counts_run" where
  "settleCount k i answer r =
     (case bindE answer readDeliverySummary of
        Inr summary \<Rightarrow> take_workspace k (setCount i (CountReady (dm_total summary)) r)
      | Inl e \<Rightarrow>
          if cr_aborted r then r\<lparr>cr_workers := (cr_workers r)[k := None]\<rparr>
          else if is_unauthorized e
          then r\<lparr>cr_aborted := True, cr_invalidated := True, cr_workers := (cr_workers r)[k := None]\<rparr>
          else take_workspace k (setCount i CountUnavailable r))"

text \<open>The effect of another user or other workspaces: the workers are aborted, and the counts start anew.\<close>

definition abandonCounts :: "string \<Rightarrow> counts_run \<Rightarrow> counts_run" where
  "abandonCounts scope r = r\<lparr>cr_aborted := True, cr_shown := scope, cr_values := []\<rparr>"

inductive counts_step :: "counts_run \<Rightarrow> counts_run \<Rightarrow> bool" where
  Settle: "k < length (cr_workers r) \<Longrightarrow> cr_workers r ! k = Some i \<Longrightarrow> counts_step r (settleCount k i answer r)"
| Abandon: "counts_step r (abandonCounts scope r)"

definition workspaceCounts :: "string \<Rightarrow> counts_run \<Rightarrow> (string \<times> workspace_count) list" where
  "workspaceCounts scope r = (if cr_shown r = scope then cr_values r else [])"

section \<open>What the workers guarantee\<close>

definition reading_now :: "counts_run \<Rightarrow> string set" where
  "reading_now r = {i. Some i \<in> set (cr_workers r)}"

definition told :: "counts_run \<Rightarrow> string set" where
  "told r = fst ` set (cr_values r)"

text \<open>The workspaces asked for are the first ones of the list; until the run is aborted each has its count or is being
  read, and a worker stops only when the list is exhausted.\<close>

definition counts_ok :: "counts_run \<Rightarrow> bool" where
  "counts_ok r \<longleftrightarrow> cr_next r \<le> length (cr_ids r) \<and> cr_asked r = take (cr_next r) (cr_ids r)
     \<and> reading_now r \<subseteq> set (cr_asked r)
     \<and> (\<not> cr_aborted r \<longrightarrow> cr_shown r = cr_scope r \<and> told r \<subseteq> set (cr_ids r) \<and> set (cr_asked r) \<subseteq> told r \<union> reading_now r
          \<and> (None \<in> set (cr_workers r) \<longrightarrow> cr_next r = length (cr_ids r)))"

lemma reading_update:
  "k < length ws \<Longrightarrow> {i. Some i \<in> set (ws[k := x])} \<subseteq> {i. Some i \<in> set ws} \<union> {i. x = Some i}"
  using set_update_subset_insert [of ws k x] by auto

lemma reading_others:
  "k < length ws \<Longrightarrow> ws ! k = Some i \<Longrightarrow> Some j \<in> set ws \<Longrightarrow> j \<noteq> i \<Longrightarrow> Some j \<in> set (ws[k := x])"
  by (metis in_set_conv_nth length_list_update nth_list_update_neq option.inject)

lemma counts_frame:
  "cr_ids (take_workspace k r) = cr_ids r" "cr_scope (take_workspace k r) = cr_scope r"
  "length (cr_workers (take_workspace k r)) = length (cr_workers r)"
  "cr_ids (setCount i v r) = cr_ids r" "cr_scope (setCount i v r) = cr_scope r" "cr_workers (setCount i v r) = cr_workers r"
  by (simp_all add: take_workspace_def setCount_def)

lemma counts_frame_settle:
  "cr_ids (settleCount k i answer r) = cr_ids r" "cr_scope (settleCount k i answer r) = cr_scope r"
  "length (cr_workers (settleCount k i answer r)) = length (cr_workers r)"
  by (simp_all add: settleCount_def counts_frame split: sum.splits)

lemma counts_frame_step:
  "counts_step r r' \<Longrightarrow> cr_ids r' = cr_ids r \<and> cr_scope r' = cr_scope r \<and> length (cr_workers r') = length (cr_workers r)"
  by (induction rule: counts_step.induct) (simp_all add: counts_frame_settle abandonCounts_def)

text \<open>A worker that is done with its workspace takes the next.\<close>

lemma counts_ok_next:
  assumes "counts_ok r" and "k < length (cr_workers r)" and "cr_workers r ! k = Some i"
    and "\<not> cr_aborted r \<Longrightarrow> i \<in> told r"
  shows "counts_ok (take_workspace k r)"
proof -
  have sub: "Some j \<in> set ((cr_workers r)[k := x]) \<Longrightarrow> Some j \<in> set (cr_workers r) \<or> x = Some j" for j x
    using set_update_subset_insert [of "cr_workers r" k x] by auto
  have others: "Some j \<in> set (cr_workers r) \<Longrightarrow> j \<noteq> i \<Longrightarrow> Some j \<in> set ((cr_workers r)[k := x])" for j x
    by (rule reading_others [OF assms(2,3)])
  show ?thesis
  proof (cases "cr_next r < length (cr_ids r) \<and> \<not> cr_aborted r")
    case True
    let ?x = "cr_ids r ! cr_next r"
    have asked: "cr_asked (take_workspace k r) = take (Suc (cr_next r)) (cr_ids r)"
      using True assms(1) by (simp add: take_workspace_def counts_ok_def take_Suc_conv_app_nth)
    have here: "Some ?x \<in> set ((cr_workers r)[k := Some ?x])" using assms(2) by (simp add: set_update_memI)
    have busy: "None \<notin> set (cr_workers r)" using True assms(1) by (auto simp: counts_ok_def)
    have still: "None \<notin> set ((cr_workers r)[k := Some ?x])"
      using busy set_update_subset_insert [of "cr_workers r" k "Some ?x"] by auto
    let ?r = "take_workspace k r"
    have set_asked: "set (cr_asked ?r) = insert ?x (set (cr_asked r))" using True by (simp add: take_workspace_def)
    have frame: "cr_next ?r = Suc (cr_next r)" "cr_ids ?r = cr_ids r" "told ?r = told r" "cr_aborted ?r = cr_aborted r"
      "cr_shown ?r = cr_shown r" "cr_scope ?r = cr_scope r" "None \<notin> set (cr_workers ?r)"
      using True still by (simp_all add: take_workspace_def told_def)
    have reads: "reading_now ?r \<subseteq> insert ?x (reading_now r)" "reading_now r \<subseteq> insert i (reading_now ?r)" "?x \<in> reading_now ?r"
      using True sub others here by (auto simp: take_workspace_def reading_now_def)
    from assms(1) have ok: "reading_now r \<subseteq> set (cr_asked r)" "cr_shown r = cr_scope r" "told r \<subseteq> set (cr_ids r)"
      "set (cr_asked r) \<subseteq> told r \<union> reading_now r"
      using True unfolding counts_ok_def by auto
    show ?thesis
      unfolding counts_ok_def frame set_asked
      using asked reads ok frame(7) assms(4) True by auto
  next
    case False
    let ?r = "take_workspace k r"
    have frame: "cr_next ?r = cr_next r" "cr_ids ?r = cr_ids r" "told ?r = told r" "cr_aborted ?r = cr_aborted r"
      "cr_shown ?r = cr_shown r" "cr_scope ?r = cr_scope r" "cr_asked ?r = cr_asked r"
      using False by (auto simp: take_workspace_def told_def)
    have reads: "reading_now ?r \<subseteq> reading_now r" "reading_now r \<subseteq> insert i (reading_now ?r)"
      using False sub others by (auto simp: take_workspace_def reading_now_def)
    have "set (cr_asked r) \<subseteq> told r \<union> reading_now ?r" if "\<not> cr_aborted r"
    proof -
      have "set (cr_asked r) \<subseteq> told r \<union> reading_now r" using assms(1) that unfolding counts_ok_def by blast
      then show ?thesis using reads(2) assms(4) [OF that] by blast
    qed
    then show ?thesis
      using assms(1) reads(1) False unfolding counts_ok_def frame by auto
  qed
qed

lemma counts_ok_set:
  assumes "counts_ok r" and "i \<in> set (cr_asked r)"
  shows "counts_ok (setCount i v r)" and "\<not> cr_aborted r \<Longrightarrow> i \<in> told (setCount i v r)"
  using assms by (auto simp: counts_ok_def setCount_def told_def reading_now_def dest: in_set_takeD)

lemma counts_ok_abort: "counts_ok r \<Longrightarrow> cr_aborted r' \<Longrightarrow> reading_now r' \<subseteq> reading_now r \<Longrightarrow>
    cr_ids r' = cr_ids r \<Longrightarrow> cr_next r' = cr_next r \<Longrightarrow> cr_asked r' = cr_asked r \<Longrightarrow> counts_ok r'"
  by (auto simp: counts_ok_def)

lemma counts_ok_settle:
  assumes "counts_ok r" and "k < length (cr_workers r)" and "cr_workers r ! k = Some i"
  shows "counts_ok (settleCount k i answer r)"
proof -
  have "i \<in> set (cr_asked r)" using assms nth_mem [OF assms(2)] by (auto simp: counts_ok_def reading_now_def)
  note set = counts_ok_set [OF assms(1) this]
  have go: "counts_ok (take_workspace k (setCount i v r))" for v
    by (rule counts_ok_next [OF set(1)]) (use assms set(2) in \<open>auto simp: counts_frame setCount_def split: if_splits\<close>)
  have "reading_now (r\<lparr>cr_workers := (cr_workers r)[k := None]\<rparr>) \<subseteq> reading_now r"
    using reading_update [OF assms(2), of None] by (auto simp: reading_now_def)
  then show ?thesis
    using go by (auto simp: settleCount_def reading_now_def intro!: counts_ok_abort [OF assms(1)] split: sum.splits)
qed

lemma counts_ok_step: "counts_step r r' \<Longrightarrow> counts_ok r \<Longrightarrow> counts_ok r'"
  by (induction rule: counts_step.induct)
    (auto simp: counts_ok_settle abandonCounts_def reading_now_def intro: counts_ok_abort)

lemma start_fold:
  assumes "m \<le> length ids" and "m \<le> n"
  shows "fold take_workspace [0..<m]
      \<lparr>cr_ids = ids, cr_scope = scope, cr_next = 0, cr_workers = replicate n None, cr_asked = [], cr_aborted = False,
       cr_invalidated = False, cr_shown = scope, cr_values = []\<rparr>
    = \<lparr>cr_ids = ids, cr_scope = scope, cr_next = m, cr_workers = map Some (take m ids) @ replicate (n - m) None, cr_asked = take m ids,
       cr_aborted = False, cr_invalidated = False, cr_shown = scope, cr_values = []\<rparr>"
  using assms
proof (induction m)
  case (Suc m)
  have "replicate (n - m) (None :: string option) = None # replicate (n - Suc m) None"
    using Suc.prems by (metis Suc_diff_Suc Suc_le_eq replicate_Suc)
  then have "(map Some (take m ids) @ replicate (n - m) None)[m := Some (ids ! m)]
      = map Some (take (Suc m) ids) @ replicate (n - Suc m) None"
    using Suc.prems by (simp add: list_update_append take_Suc_conv_app_nth)
  then show ?case using Suc by (simp add: take_workspace_def take_Suc_conv_app_nth)
qed simp

lemma startCounts_ok:
  "counts_ok (startCounts ids scope)" "cr_ids (startCounts ids scope) = ids" "cr_scope (startCounts ids scope) = scope"
  "length (cr_workers (startCounts ids scope)) = min 3 (length ids)"
proof -
  let ?n = "min 3 (length ids)"
  have "startCounts ids scope = \<lparr>cr_ids = ids, cr_scope = scope, cr_next = ?n, cr_workers = map Some (take ?n ids),
      cr_asked = take ?n ids, cr_aborted = False, cr_invalidated = False, cr_shown = scope, cr_values = []\<rparr>"
    using start_fold [of ?n ids ?n scope] by (simp add: startCounts_def Let_def)
  then show "counts_ok (startCounts ids scope)" "cr_ids (startCounts ids scope) = ids" "cr_scope (startCounts ids scope) = scope"
    "length (cr_workers (startCounts ids scope)) = min 3 (length ids)"
    by (auto simp: counts_ok_def reading_now_def told_def)
qed

lemma counts_run_ok:
  "counts_step\<^sup>*\<^sup>* (startCounts ids scope) r \<Longrightarrow>
     counts_ok r \<and> cr_ids r = ids \<and> cr_scope r = scope \<and> length (cr_workers r) = min 3 (length ids)"
proof (induction rule: rtranclp_induct)
  case base
  show ?case by (simp add: startCounts_ok)
next
  case (step r r')
  then show ?case using counts_ok_step counts_frame_step by metis
qed

text \<open>For every interleaving of the workers: at most three summaries are read at a time, the workspaces are asked for in
  their order and each once, and when all workers have returned and none was aborted, exactly the user's
  workspaces have a count or are marked unavailable.\<close>

theorem every_workspace_is_counted:
  assumes "counts_step\<^sup>*\<^sup>* (startCounts ids scope) r"
  shows "length (cr_workers r) \<le> 3 \<and> cr_asked r = take (cr_next r) ids
    \<and> (cr_aborted r \<or> reading_now r \<noteq> {} \<or> fst ` set (workspaceCounts scope r) = set ids)"
proof -
  note ok = counts_run_ok [OF assms]
  have "fst ` set (workspaceCounts scope r) = set ids" if "\<not> cr_aborted r" "reading_now r = {}"
  proof -
    have "cr_asked r = ids"
    proof (cases "cr_workers r")
      case Nil
      then show ?thesis using ok by (auto simp: counts_ok_def)
    next
      case (Cons x xs)
      then have "None \<in> set (cr_workers r)" using that(2) by (cases x) (auto simp: reading_now_def)
      then show ?thesis using ok that(1) by (simp add: counts_ok_def)
    qed
    moreover have "told r \<subseteq> set ids" "set (cr_asked r) \<subseteq> told r" "workspaceCounts scope r = cr_values r"
      using ok that by (auto simp: counts_ok_def workspaceCounts_def)
    ultimately show ?thesis by (auto simp: told_def)
  qed
  then show ?thesis using ok by (auto simp: counts_ok_def)
qed

section \<open>Example\<close>

theorem every_workspace_is_counted_witness:
  "fst ` set (workspaceCounts ''s'' (settleCount 0 ''t'' (Inl AbortedRequest) (startCounts [''t''] ''s''))) = {''t''}"
proof -
  let ?r = "startCounts [''t''] ''s''"
  let ?r' = "settleCount 0 ''t'' (Inl AbortedRequest) ?r"
  have start: "?r = \<lparr>cr_ids = [''t''], cr_scope = ''s'', cr_next = 1, cr_workers = [Some ''t''], cr_asked = [''t''], cr_aborted = False,
      cr_invalidated = False, cr_shown = ''s'', cr_values = []\<rparr>"
    by (simp add: startCounts_def take_workspace_def)
  have "counts_step ?r ?r'" by (rule counts_step.Settle) (simp_all add: start)
  then have "counts_step\<^sup>*\<^sup>* ?r ?r'" by simp
  moreover have "\<not> cr_aborted ?r'" "reading_now ?r' = {}"
    by (simp_all add: start settleCount_def bindE_def take_workspace_def setCount_def reading_now_def)
  ultimately show ?thesis using every_workspace_is_counted [of "[''t'']" "''s''" ?r'] by simp
qed

end
