(* ===== verification/MonitorData.thy ===== *)
theory MonitorData
  imports DashboardData
begin

text \<open>
  The monitoring reports of the website (\<open>packages/web/src/server/observability.ts\<close>, \<open>lib/monitoring.ts\<close>,
  \<open>lib/observability.ts\<close>): the queries it makes, the validation of the answers of Prometheus, the report computed
  from them, the reader in the browser and the report as JSON.

  \<^item> Times and values are exact numbers up to the largest double, beyond which a literal or a sum is infinite; seconds
    for Prometheus, milliseconds for the clock of the server.
  \<^item> Every failure of a query has the same effect, so a query that failed is \<open>None\<close>.
  \<^item> Two label sets are the same series when they are equal as sets of pairs.
\<close>

section \<open>Ranges and queries\<close>

record monitoring_range =
  rg_seconds :: rat
  rg_step :: rat

definition monitoringRanges :: "(string \<times> monitoring_range) list" where
  "monitoringRanges =
     [(''5m'', \<lparr>rg_seconds = 300, rg_step = 15\<rparr>), (''1h'', \<lparr>rg_seconds = 3600, rg_step = 15\<rparr>),
      (''6h'', \<lparr>rg_seconds = 21600, rg_step = 60\<rparr>), (''24h'', \<lparr>rg_seconds = 86400, rg_step = 120\<rparr>)]"

record monitoring_limits =
  ml_bodyBytes :: nat
  ml_responseBytes :: nat
  ml_series :: nat
  ml_points :: nat
  ml_queryMs :: nat
  ml_snapshotMs :: nat
  ml_sessionMs :: nat
  ml_cacheMs :: nat

definition monitoringLimits :: monitoring_limits where
  "monitoringLimits =
     \<lparr>ml_bodyBytes = 524288, ml_responseBytes = 1048576, ml_series = 8, ml_points = 721, ml_queryMs = 5000,
      ml_snapshotMs = 8000, ml_sessionMs = 3000, ml_cacheMs = 10000\<rparr>"

definition webhookAttemptQuery :: string where
  \<open>webhookAttemptQuery = ''sum by (outcome) (rate(waybill_webhook_attempts_total[$__rate_interval]))''\<close>

definition webhookPercentileQuery :: "string \<Rightarrow> string" where
  \<open>webhookPercentileQuery quantile =
     ''histogram_quantile('' @ quantile @ '', sum by (le) (rate(waybill_webhook_duration_seconds_bucket[$__rate_interval])))''\<close>

definition monitoringQueries :: "(string \<times> string) list" where
  \<open>monitoringQueries =
     [(''attempts'', webhookAttemptQuery), (''p50'', webhookPercentileQuery ''0.5''), (''p95'', webhookPercentileQuery ''0.95''),
      (''p99'', webhookPercentileQuery ''0.99''),
      (''retries'', ''sum by (reason) (rate(waybill_delivery_retries_total[$__rate_interval]))''),
      (''deadLetters'', ''sum(rate(waybill_delivery_terminal_outcomes_total{outcome="dead_lettered"}[$__rate_interval]))''),
      (''outbox'', ''waybill:outbox_pending:fresh''), (''queue'', ''waybill:sqs_messages:fresh''),
      (''apiErrors'',
       ''sum by (status_class) (rate(waybill_http_requests_total{status_class=~"4xx|5xx|aborted",operation!="health"}[$__rate_interval]))'')]\<close>

text \<open>\<open>replaceAll\<close> of a nonempty text; the number counts the characters of an occurrence still to skip.\<close>

fun replace_from :: "string \<Rightarrow> string \<Rightarrow> nat \<Rightarrow> string \<Rightarrow> string" where
  "replace_from old new k [] = []"
| "replace_from old new (Suc k) (c # cs) = replace_from old new k cs"
| "replace_from old new 0 (c # cs) =
     (if starts_with old (c # cs) then new @ replace_from old new (length old - 1) cs else c # replace_from old new 0 cs)"

definition fixedMonitoringQueries :: "(string \<times> string) list" where
  \<open>fixedMonitoringQueries =
     map (\<lambda>(key, expression). (key, replace_from ''$__rate_interval'' ''1m'' 0 expression)) monitoringQueries
     @ [(''up'', ''up{job=~"waybill-(api|publisher|worker)"}''),
        (''scrapeTime'', ''timestamp(up{job=~"waybill-(api|publisher|worker)"})''),
        (''sampleSuccess'', ''waybill_backlog_sample_success''),
        (''sampleTime'', ''waybill_backlog_sample_timestamp_seconds''),
        (''durationObservations'', ''sum(rate(waybill_webhook_duration_seconds_count[1m]))'')]\<close>

definition historyKeys :: "string list" where
  "historyKeys = [''attempts'', ''p50'', ''p95'', ''p99'', ''durationObservations'', ''up'', ''scrapeTime'']"

section \<open>Answers of Prometheus\<close>

record m_series =
  ms_metric :: "(string \<times> string) list"
  ms_values :: "(rat \<times> string) list"

type_synonym m_query = "m_series list option"

text \<open>\<open>/^(?:NaN|[+-]?Inf|[+-]?(?:\d+\.?\d*|\.\d+)(?:e[+-]?\d+)?)$/i\<close>\<close>

definition sample_value_text :: "string \<Rightarrow> bool" where
  "sample_value_text s \<longleftrightarrow> lower_text s = ''nan'' \<or> lower_text (snd (split_sign s)) = ''inf''
     \<or> decimal_literal (snd (split_sign s)) \<noteq> None"

definition json_object :: "json option \<Rightarrow> (string \<times> json) list option" where
  "json_object v = (case v of Some (JObj ms) \<Rightarrow> Some ms | _ \<Rightarrow> None)"

fun read_samples :: "rat \<Rightarrow> rat \<Rightarrow> rat option \<Rightarrow> json list \<Rightarrow> (rat \<times> string) list option" where
  "read_samples start end previous [] = Some []"
| "read_samples start end previous (raw # raws) =
     (case raw of
        JArr [JNum (Num t), JStr v] \<Rightarrow>
          if start \<le> t \<and> t \<le> end \<and> (case previous of None \<Rightarrow> True | Some p \<Rightarrow> p < t) \<and> sample_value_text v
          then map_option ((#) (t, v)) (read_samples start end (Some t) raws) else None
      | _ \<Rightarrow> None)"

definition read_labels :: "(string \<times> json) list \<Rightarrow> (string \<times> string) list option" where
  "read_labels ms =
     (if 12 < length ms
         \<or> list_ex (\<lambda>(k, v). 100 < length k \<or> (case v of JStr s \<Rightarrow> 200 < length s | _ \<Rightarrow> True)) ms
      then None else Some (map (\<lambda>(k, v). (k, case v of JStr s \<Rightarrow> s | _ \<Rightarrow> [])) ms))"

definition read_series :: "bool \<Rightarrow> rat \<Rightarrow> rat \<Rightarrow> json \<Rightarrow> m_series option" where
  "read_series ranged start end item =
     Option.bind (json_object (Some item)) (\<lambda>row.
     Option.bind (json_object (map_of row ''metric'')) (\<lambda>ms.
     Option.bind (read_labels ms) (\<lambda>labels.
     case (if ranged then map_of row ''values'' else map_option (\<lambda>v. JArr [v]) (map_of row ''value'')) of
       Some (JArr raws) \<Rightarrow>
         if (if ranged then ml_points monitoringLimits else 1) < length raws then None
         else map_option (\<lambda>samples. \<lparr>ms_metric = labels, ms_values = samples\<rparr>) (read_samples start end None raws)
     | _ \<Rightarrow> None)))"

fun read_all :: "('a \<Rightarrow> 'b option) \<Rightarrow> 'a list \<Rightarrow> 'b list option" where
  "read_all f [] = Some []"
| "read_all f (x # xs) = Option.bind (f x) (\<lambda>y. map_option ((#) y) (read_all f xs))"

definition parseQuery :: "json \<Rightarrow> bool \<Rightarrow> rat \<Rightarrow> rat \<Rightarrow> m_query" where
  "parseQuery value ranged start end =
     Option.bind (json_object (Some value)) (\<lambda>content.
     Option.bind (json_object (map_of content ''data'')) (\<lambda>data.
     case map_of data ''result'' of
       Some (JArr items) \<Rightarrow>
         if map_of content ''status'' \<noteq> Some (JStr ''success'') \<or> map_of content ''warnings'' \<noteq> None
            \<or> map_of content ''infos'' \<noteq> None
            \<or> map_of data ''resultType'' \<noteq> Some (JStr (if ranged then ''matrix'' else ''vector''))
            \<or> ml_series monitoringLimits < length items
         then None
         else Option.bind (read_all (read_series ranged start end) items) (\<lambda>rows.
           if distinct (map (\<lambda>s. set (ms_metric s)) rows) then Some rows else None)
     | _ \<Rightarrow> None))"

section \<open>States of a metric\<close>

datatype MetricState = Ready | Missing | Stale | IdleMetric | NonFinite | Unavailable | Failing

record metric_value =
  mv_state :: MetricState
  mv_value :: "rat option"

definition metricValue :: "MetricState \<Rightarrow> rat option \<Rightarrow> metric_value" where
  "metricValue st v = \<lparr>mv_state = st, mv_value = v\<rparr>"

definition metric_number :: "string option \<Rightarrow> bool \<Rightarrow> metric_value" where
  "metric_number raw idle =
     (case raw of
        None \<Rightarrow> metricValue Missing None
      | Some s \<Rightarrow>
          (case js_Number s of
             Num n \<Rightarrow> if 0 \<le> n then metricValue Ready (Some n) else metricValue NonFinite None
           | _ \<Rightarrow> metricValue (if s = ''NaN'' \<and> idle then IdleMetric else NonFinite) None))"

definition series_at :: "m_series \<Rightarrow> rat option \<Rightarrow> string option" where
  "series_at s time =
     map_option snd (case time of
        None \<Rightarrow> (case ms_values s of [] \<Rightarrow> None | v # _ \<Rightarrow> Some v)
      | Some t \<Rightarrow> find (\<lambda>v. fst v = t) (ms_values s))"

definition label_of :: "m_series \<Rightarrow> string \<Rightarrow> string option" where
  "label_of s k = map_of (ms_metric s) k"

text \<open>\<open>Number(stamp && at(stamp, time))\<close>\<close>

definition stamp_number :: "m_series option \<Rightarrow> rat option \<Rightarrow> jsnum" where
  "stamp_number stamp time =
     (case Option.bind stamp (\<lambda>s. series_at s time) of None \<Rightarrow> NaN | Some v \<Rightarrow> js_Number v)"

definition source_state :: "m_series list \<Rightarrow> string \<Rightarrow> rat \<Rightarrow> rat option \<Rightarrow> m_series \<Rightarrow> MetricState option" where
  "source_state stamps job now_s time source =
     (case series_at source time of
        None \<Rightarrow> Some Missing
      | Some st \<Rightarrow>
          if st \<noteq> ''1'' then Some Unavailable
          else (case stamp_number (find (\<lambda>s. label_of s ''job'' = Some job \<and> label_of s ''instance'' = label_of source ''instance'') stamps) time of
                  Num t \<Rightarrow> if t \<le> 0 \<or> 45 \<le> now_s - t \<or> now_s < t then Some Stale else None
                | _ \<Rightarrow> Some Stale))"

definition sourceHealth :: "m_query \<Rightarrow> m_query \<Rightarrow> string \<Rightarrow> rat \<Rightarrow> rat option \<Rightarrow> MetricState" where
  "sourceHealth up stamps job now_s time =
     (case (up, stamps) of
        (Some rows, Some stampRows) \<Rightarrow>
          (let sources = filter (\<lambda>s. label_of s ''job'' = Some job) rows
           in if sources = [] then Missing
              else (case find (\<lambda>r. r \<noteq> None) (map (source_state stampRows job now_s time) sources) of
                      Some (Some st) \<Rightarrow> st | _ \<Rightarrow> Ready))
      | _ \<Rightarrow> Failing)"

text \<open>
  The first number that is not ready, or the sum. A running sum beyond the largest double is infinite and stays so; the
  JSON of the report shows it as \<open>null\<close>, so an infinite sum has no value although its state is ready.
\<close>

definition sum_step :: "metric_value \<Rightarrow> jsnum \<Rightarrow> jsnum" where
  "sum_step n acc = (case acc of Num a \<Rightarrow> js_round (a + the (mv_value n)) | _ \<Rightarrow> acc)"

definition sum_numbers :: "metric_value list \<Rightarrow> metric_value" where
  "sum_numbers ns =
     (case find (\<lambda>n. mv_state n \<noteq> Ready) ns of
        Some n \<Rightarrow> n
      | None \<Rightarrow> metricValue Ready (case fold sum_step ns (Num 0) of Num n \<Rightarrow> Some n | _ \<Rightarrow> None))"

definition readMonitorMetric :: "m_query \<Rightarrow> MetricState \<Rightarrow> (string \<times> string) option \<Rightarrow> bool \<Rightarrow> metric_value" where
  "readMonitorMetric query health label idle =
     (case query of
        None \<Rightarrow> metricValue Failing None
      | Some series \<Rightarrow>
          if health \<noteq> Ready then metricValue health None
          else (let rows = (case label of None \<Rightarrow> series | Some (k, v) \<Rightarrow> filter (\<lambda>s. label_of s k = Some v) series)
                in if rows = [] then metricValue Missing None
                   else sum_numbers (map (\<lambda>row. metric_number (series_at row None) idle) rows)))"

section \<open>The report\<close>

record monitoring_point =
  pt_time :: rat
  pt_metric :: metric_value

record monitoring_series =
  sr_label :: string
  sr_state :: MetricState
  sr_points :: "monitoring_point list"

record monitoring_report =
  rp_range :: string
  rp_start :: rat
  rp_end :: rat
  rp_step :: rat
  rp_checkedAt :: rat
  rp_partial :: bool
  rp_instant :: "(string \<times> metric_value) list"
  rp_attempts :: "monitoring_series list"
  rp_duration :: "monitoring_series list"

definition backlog_state :: "(string \<Rightarrow> m_query) \<Rightarrow> MetricState \<Rightarrow> rat \<Rightarrow> string \<Rightarrow> MetricState" where
  "backlog_state current publisher checkedAt source =
     (if publisher \<noteq> Ready then publisher
      else (case (current ''sampleSuccess'', current ''sampleTime'') of
              (Some successes, Some stamps) \<Rightarrow>
                (let rows = filter (\<lambda>s. label_of s ''source'' = Some source) successes;
                     fresh = (\<lambda>s. series_at s None = Some ''1''
                        \<and> (case stamp_number (find (\<lambda>t. label_of t ''instance'' = label_of s ''instance''
                                   \<and> label_of t ''job'' = label_of s ''job'' \<and> label_of t ''source'' = Some source) stamps) None of
                             Num time \<Rightarrow> 0 < time \<and> time \<le> checkedAt \<and> checkedAt - time < 90
                           | _ \<Rightarrow> False))
                 in if rows = [] then Missing
                    else if list_ex fresh rows then Ready
                    else if list_ex (\<lambda>s. series_at s None = Some ''1'') rows then Stale else Unavailable)
            | _ \<Rightarrow> Failing))"

definition instant_metrics :: "(string \<Rightarrow> m_query) \<Rightarrow> rat \<Rightarrow> (string \<times> metric_value) list" where
  "instant_metrics current checkedAt =
     (let health = (\<lambda>job. sourceHealth (current ''up'') (current ''scrapeTime'') job checkedAt None);
          worker = health ''waybill-worker''; api = health ''waybill-api''; publisher = health ''waybill-publisher'';
          idle = (mv_value (readMonitorMetric (current ''durationObservations'') worker None False) = Some 0);
          backlog = backlog_state current publisher checkedAt
      in [(''attempts'', readMonitorMetric (current ''attempts'') worker None False),
          (''p95'', readMonitorMetric (current ''p95'') worker None idle),
          (''retries'', readMonitorMetric (current ''retries'') worker None False),
          (''deadLetters'', readMonitorMetric (current ''deadLetters'') worker None False),
          (''outbox'', readMonitorMetric (current ''outbox'') (backlog ''outbox'') None False),
          (''visible'', readMonitorMetric (current ''queue'') (backlog ''sqs'') (Some (''state'', ''visible'')) False),
          (''inFlight'', readMonitorMetric (current ''queue'') (backlog ''sqs'') (Some (''state'', ''in_flight'')) False),
          (''delayed'', readMonitorMetric (current ''queue'') (backlog ''sqs'') (Some (''state'', ''delayed'')) False),
          (''clientErrors'', readMonitorMetric (current ''apiErrors'') api (Some (''status_class'', ''4xx'')) False),
          (''serverErrors'', readMonitorMetric (current ''apiErrors'') api (Some (''status_class'', ''5xx'')) False),
          (''aborted'', readMonitorMetric (current ''apiErrors'') api (Some (''status_class'', ''aborted'')) False)])"

definition historical_point :: "(string \<Rightarrow> m_query) \<Rightarrow> m_series list \<Rightarrow> rat \<Rightarrow> monitoring_point" where
  "historical_point history rows time =
     (let h = sourceHealth (history ''up'') (history ''scrapeTime'') ''waybill-worker'' time (Some time)
      in \<lparr>pt_time = time, pt_metric =
           (if h \<noteq> Ready then metricValue h None
            else let observed = Option.bind (history ''durationObservations'') (find (\<lambda>s. series_at s (Some time) \<noteq> None));
                     isIdle = (case observed of None \<Rightarrow> False | Some s \<Rightarrow> series_at s (Some time) = Some ''0'')
                 in sum_numbers (map (\<lambda>row. metric_number (series_at row (Some time)) isIdle) rows))\<rparr>)"

definition historical :: "(string \<Rightarrow> m_query) \<Rightarrow> string \<Rightarrow> string \<Rightarrow> string option \<Rightarrow> monitoring_series" where
  "historical history key label wanted =
     (case history key of
        None \<Rightarrow> \<lparr>sr_label = label, sr_state = Failing, sr_points = []\<rparr>
      | Some series \<Rightarrow>
          (let rows = (case wanted of None \<Rightarrow> series | Some v \<Rightarrow> filter (\<lambda>s. label_of s ''outcome'' = Some v) series);
               instants = sort (remdups (concat (map (\<lambda>s. map fst (ms_values s)) rows)));
               points = map (historical_point history rows) instants
           in \<lparr>sr_label = label,
               sr_state = (if list_ex (\<lambda>p. mv_state (pt_metric p) = Ready) points then Ready
                  else (case points of [] \<Rightarrow> Missing | p # _ \<Rightarrow> mv_state (pt_metric p))),
               sr_points = points\<rparr>))"

definition query_keys :: "string list" where
  "query_keys = map fst fixedMonitoringQueries"

definition build_report ::
  "string \<Rightarrow> monitoring_range \<Rightarrow> rat \<Rightarrow> (string \<Rightarrow> m_query) \<Rightarrow> (string \<Rightarrow> m_query) \<Rightarrow> monitoring_report" where
  "build_report rangeId r checkedAt current history =
     (let end = of_int \<lfloor>checkedAt / rg_step r\<rfloor> * rg_step r
      in \<lparr>rp_range = rangeId, rp_start = end - rg_seconds r, rp_end = end, rp_step = rg_step r, rp_checkedAt = checkedAt,
          rp_partial = (list_ex (\<lambda>k. current k = None) query_keys \<or> list_ex (\<lambda>k. history k = None) historyKeys),
          rp_instant = instant_metrics current checkedAt,
          rp_attempts = [historical history ''attempts'' ''success'' (Some ''success''), historical history ''attempts'' ''failure'' (Some ''failure'')],
          rp_duration = map (\<lambda>label. historical history label label None) [''p50'', ''p95'', ''p99'']\<rparr>)"

text \<open>
  The moment, on the clock of the server, at which the first source taken for live grows stale; at most ten seconds
  after the report is computed.
\<close>

definition sample_expiries :: "(string \<Rightarrow> m_query) \<Rightarrow> rat \<Rightarrow> (string \<times> rat) \<Rightarrow> rat list" where
  "sample_expiries current checkedAt boundary =
     (case current (fst boundary) of
        None \<Rightarrow> []
      | Some series \<Rightarrow> concat (map (\<lambda>s. case stamp_number (Some s) None of
            Num t \<Rightarrow> if checkedAt * 1000 < (t + snd boundary) * 1000 then [(t + snd boundary) * 1000] else []
          | _ \<Rightarrow> []) series))"

definition report_freshness :: "rat \<Rightarrow> (string \<Rightarrow> m_query) \<Rightarrow> rat \<Rightarrow> rat" where
  "report_freshness checkedAt current millis =
     fold min (concat (map (sample_expiries current checkedAt) [(''scrapeTime'', 45), (''sampleTime'', 90)]))
       (millis + of_nat (ml_cacheMs monitoringLimits))"

section \<open>Snapshots\<close>

record http_answer =
  ha_status :: nat
  ha_length :: "string option"
  ha_body :: "stream_event list option"

definition answer_ok :: "http_answer \<Rightarrow> bool" where
  "answer_ok a \<longleftrightarrow> 200 \<le> ha_status a \<and> ha_status a < 300"

fun read_within :: "nat \<Rightarrow> nat \<Rightarrow> nat list list \<Rightarrow> stream_event list \<Rightarrow> nat list option" where
  "read_within limit n got [] = None"
| "read_within limit n got (Deadline # es) = None"
| "read_within limit n got (StreamError e # es) = None"
| "read_within limit n got (EndOfBody # es) = Some (concat (rev got))"
| "read_within limit n got (Chunk b # es) =
     (if limit < n + length b then None else read_within limit (n + length b) (b # got) es)"

definition boundedJson :: "http_answer \<Rightarrow> nat \<Rightarrow> json option" where
  "boundedJson a limit =
     (if (case ha_length a of None \<Rightarrow> False | Some l \<Rightarrow> l \<noteq> [] \<and> (\<not> list_all is_digit l \<or> js_lt (Num (of_nat limit)) (js_Number l)))
      then None
      else Option.bind (ha_body a) (\<lambda>es.
        Option.bind (read_within limit 0 [] es) (\<lambda>bytes.
        Option.bind (utf8_decode bytes) json_parse)))"

definition query_url :: "string \<Rightarrow> string \<Rightarrow> (string \<times> string) list \<Rightarrow> string" where
  "query_url prometheus path params = prometheus @ path @ ''?'' @ search_params params"

definition query_params :: "string \<Rightarrow> (string \<times> rat) list \<Rightarrow> (string \<times> string) list" where
  "query_params key numbers =
     [(''query'', the (map_of fixedMonitoringQueries key)), (''timeout'', ''4s'')] @ map (\<lambda>(k, v). (k, js_String (Num v))) numbers"

definition current_url :: "string \<Rightarrow> string \<Rightarrow> rat \<Rightarrow> string" where
  "current_url prometheus key checkedAt = query_url prometheus ''/api/v1/query'' (query_params key [(''time'', checkedAt)])"

definition history_url :: "string \<Rightarrow> string \<Rightarrow> rat \<Rightarrow> rat \<Rightarrow> rat \<Rightarrow> string" where
  "history_url prometheus key start end step =
     query_url prometheus ''/api/v1/query_range'' (query_params key [(''start'', start), (''end'', end), (''step'', step)])"

text \<open>\<open>None\<close> is a request that failed, was redirected or met its deadline.\<close>

type_synonym fetch = "string \<Rightarrow> http_answer option"

definition run_query :: "fetch \<Rightarrow> string \<Rightarrow> bool \<Rightarrow> rat \<Rightarrow> rat \<Rightarrow> m_query" where
  "run_query fetched url ranged start end =
     Option.bind (fetched url) (\<lambda>a. if answer_ok a
       then Option.bind (boundedJson a (ml_bodyBytes monitoringLimits)) (\<lambda>v. parseQuery v ranged start end) else None)"

definition snapshot_time :: "rat \<Rightarrow> rat" where
  "snapshot_time millis = of_int \<lfloor>millis / 1000\<rfloor>"

text \<open>The clock is read when the snapshot starts and when its report is complete.\<close>

definition snapshot ::
  "fetch \<Rightarrow> string \<Rightarrow> string \<Rightarrow> monitoring_range \<Rightarrow> rat \<Rightarrow> rat \<Rightarrow> (monitoring_report \<times> rat) option" where
  "snapshot fetched prometheus rangeId r startClock endClock =
     (let checkedAt = snapshot_time startClock;
          end = of_int \<lfloor>checkedAt / rg_step r\<rfloor> * rg_step r; start = end - rg_seconds r;
          current = (\<lambda>k. run_query fetched (current_url prometheus k checkedAt) False checkedAt checkedAt);
          history = (\<lambda>k. run_query fetched (history_url prometheus k start end (rg_step r)) True start end)
      in if list_ex (\<lambda>k. current k \<noteq> None) query_keys
         then Some (build_report rangeId r checkedAt current history, report_freshness checkedAt current endClock)
         else None)"

section \<open>The reader in the browser\<close>

definition metricStateLabels :: "(MetricState \<times> string \<times> string) list" where
  "metricStateLabels =
     [(Ready, ''ready'', ''Observed''), (Missing, ''missing'', ''No series observed''), (Stale, ''stale'', ''Stale sample''),
      (IdleMetric, ''idle'', ''No observations in window''), (NonFinite, ''non-finite'', ''Non-finite sample''),
      (Unavailable, ''unavailable'', ''Source unavailable''), (Failing, ''error'', ''Query unavailable'')]"

definition state_name :: "MetricState \<Rightarrow> string" where
  "state_name st = fst (the (map_of metricStateLabels st))"

definition instantKeys :: "string list" where
  "instantKeys = [''attempts'', ''p95'', ''retries'', ''deadLetters'', ''outbox'', ''visible'', ''inFlight'', ''delayed'',
     ''clientErrors'', ''serverErrors'', ''aborted'']"

definition valid_state :: "json option \<Rightarrow> bool" where
  "valid_state v = (case v of Some (JStr s) \<Rightarrow> s \<in> set (map (fst \<circ> snd) metricStateLabels) | _ \<Rightarrow> False)"

definition validMetric :: "json option \<Rightarrow> bool" where
  "validMetric v =
     (case v of
        Some (JObj m) \<Rightarrow> valid_state (map_of m ''state'')
          \<and> (if map_of m ''state'' = Some (JStr ''ready'')
             then (case map_of m ''value'' of Some (JNum (Num n)) \<Rightarrow> 0 \<le> n | _ \<Rightarrow> False)
             else map_of m ''value'' = Some JNull)
      | _ \<Rightarrow> False)"

fun valid_points :: "rat \<Rightarrow> rat \<Rightarrow> rat option \<Rightarrow> json list \<Rightarrow> bool" where
  "valid_points start end previous [] \<longleftrightarrow> True"
| "valid_points start end previous (p # ps) \<longleftrightarrow>
     validMetric (Some p)
     \<and> (case p of
          JObj m \<Rightarrow> (case map_of m ''time'' of
             Some (JNum (Num t)) \<Rightarrow> start \<le> t \<and> t \<le> end \<and> (case previous of None \<Rightarrow> True | Some q \<Rightarrow> q < t)
               \<and> valid_points start end (Some t) ps
           | _ \<Rightarrow> False)
        | _ \<Rightarrow> False)"

definition valid_series :: "rat \<Rightarrow> rat \<Rightarrow> json \<Rightarrow> bool" where
  "valid_series start end v =
     (case v of
        JObj s \<Rightarrow> valid_state (map_of s ''state'')
          \<and> (case map_of s ''points'' of Some (JArr ps) \<Rightarrow> length ps \<le> 721 \<and> valid_points start end None ps | _ \<Rightarrow> False)
      | _ \<Rightarrow> False)"

definition json_label :: "json \<Rightarrow> json option" where
  "json_label v = (case v of JObj s \<Rightarrow> map_of s ''label'' | _ \<Rightarrow> None)"

definition valid_history :: "rat \<Rightarrow> rat \<Rightarrow> json option \<Rightarrow> string list \<Rightarrow> bool" where
  "valid_history start end v labels =
     (case v of
        Some (JArr series) \<Rightarrow>
          length series = length labels
          \<and> list_all (\<lambda>l. length (filter (\<lambda>s. json_label s = Some (JStr l)) series) = 1) labels
          \<and> list_all (valid_series start end) series
      | _ \<Rightarrow> False)"

definition readMonitoringReport :: "json \<Rightarrow> string \<Rightarrow> json option" where
  "readMonitoringReport value rangeId =
     (case (value, map_of monitoringRanges rangeId) of
        (JObj data, Some r) \<Rightarrow>
          (case (map_of data ''checkedAt'', map_of data ''start'', map_of data ''end'', map_of data ''partial'',
                 map_of data ''instant'', map_of data ''history'') of
             (Some (JNum (Num c)), Some (JNum (Num start)), Some (JNum (Num end)), Some (JBool b), Some (JObj instant), Some (JObj hist)) \<Rightarrow>
               if map_of data ''range'' = Some (JStr rangeId) \<and> map_of data ''step'' = Some (JNum (Num (rg_step r)))
                  \<and> end - start = rg_seconds r \<and> list_all (\<lambda>k. validMetric (map_of instant k)) instantKeys
                  \<and> valid_history start end (map_of hist ''attempts'') [''success'', ''failure'']
                  \<and> valid_history start end (map_of hist ''duration'') [''p50'', ''p95'', ''p99'']
               then Some value else None
           | _ \<Rightarrow> None)
      | _ \<Rightarrow> None)"

definition metricText :: "(rat \<Rightarrow> string) \<Rightarrow> metric_value option \<Rightarrow> string" where
  "metricText number_format m =
     (case m of
        None \<Rightarrow> ''Loading...''
      | Some v \<Rightarrow>
          if mv_state v \<noteq> Ready then (if mv_state v = IdleMetric then ''No observations'' else ''Unavailable'')
          else number_format (the (mv_value v)))"

text \<open>The points cut at every gap of more than one and a half steps; the current segment is kept in reverse.\<close>

fun segments_from :: "monitoring_point list \<Rightarrow> monitoring_point list \<Rightarrow> rat \<Rightarrow> monitoring_point list list" where
  "segments_from current [] step = (if current = [] then [] else [rev current])"
| "segments_from current (p # ps) step =
     (if mv_state (pt_metric p) \<noteq> Ready \<or> mv_value (pt_metric p) = None
      then (if current = [] then [] else [rev current]) @ segments_from [] ps step
      else if current \<noteq> [] \<and> step * (3 / 2) < pt_time p - pt_time (hd current)
      then rev current # segments_from [p] ps step
      else segments_from (p # current) ps step)"

definition monitoringSegments :: "monitoring_point list \<Rightarrow> rat \<Rightarrow> monitoring_point list list" where
  "monitoringSegments points step = segments_from [] points step"

section \<open>The report as JSON\<close>

definition metric_json :: "metric_value \<Rightarrow> (string \<times> json) list" where
  "metric_json m = [(''state'', JStr (state_name (mv_state m))),
     (''value'', case mv_value m of None \<Rightarrow> JNull | Some n \<Rightarrow> JNum (Num n))]"

definition point_json :: "monitoring_point \<Rightarrow> json" where
  "point_json p = JObj ((''time'', JNum (Num (pt_time p))) # metric_json (pt_metric p))"

definition series_json :: "monitoring_series \<Rightarrow> json" where
  "series_json s = JObj [(''label'', JStr (sr_label s)), (''state'', JStr (state_name (sr_state s))), (''points'', JArr (map point_json (sr_points s)))]"

definition report_json :: "monitoring_report \<Rightarrow> json" where
  "report_json p = JObj
     [(''range'', JStr (rp_range p)), (''start'', JNum (Num (rp_start p))), (''end'', JNum (Num (rp_end p))), (''step'', JNum (Num (rp_step p))),
      (''checkedAt'', JNum (Num (rp_checkedAt p))), (''partial'', JBool (rp_partial p)),
      (''instant'', JObj (map (\<lambda>(k, m). (k, JObj (metric_json m))) (rp_instant p))),
      (''history'', JObj [(''attempts'', JArr (map series_json (rp_attempts p))), (''duration'', JArr (map series_json (rp_duration p)))])]"

section \<open>Links to Grafana\<close>

definition grafanaDashboardUid :: string where "grafanaDashboardUid = ''waybill-services''"

definition localGrafanaDashboard :: string where
  "localGrafanaDashboard = ''http://127.0.0.1:3300/d/'' @ grafanaDashboardUid @ ''/waybill-service-metrics''"

datatype grafana_link = Configured string | NotConfigured | InvalidLink

definition grafana_path :: "string \<Rightarrow> bool" where
  "grafana_path path =
     (case split_on (CHR ''/'') path of
        [] # d # u # rest \<Rightarrow> d = ''d'' \<and> u = grafanaDashboardUid
          \<and> (case rest of [] \<Rightarrow> True | [_] \<Rightarrow> True | [n, e] \<Rightarrow> n \<noteq> [] \<and> e = [] | _ \<Rightarrow> False)
      | _ \<Rightarrow> False)"

definition grafanaLink :: "(string \<Rightarrow> url_parts option) \<Rightarrow> string option \<Rightarrow> bool \<Rightarrow> grafana_link" where
  "grafanaLink parse configured development =
     (case (case configured of None \<Rightarrow> if development then localGrafanaDashboard else [] | Some v \<Rightarrow> v) of
        [] \<Rightarrow> NotConfigured
      | value \<Rightarrow>
          (case parse value of
             None \<Rightarrow> InvalidLink
           | Some u \<Rightarrow>
               let local = url_hostname u \<in> {''127.0.0.1'', ''localhost'', ''[::1]''}
               in if (url_protocol u \<noteq> ''https:'' \<and> \<not> (development \<and> local \<and> url_protocol u = ''http:''))
                     \<or> url_username u \<noteq> [] \<or> url_password u \<noteq> [] \<or> url_search u \<noteq> [] \<or> url_hash u \<noteq> [] \<or> \<not> grafana_path (url_pathname u)
                  then InvalidLink
                  else Configured (url_origin u @ url_pathname u @ ''?'' @
                         search_params [(''from'', ''now-24h''), (''to'', ''now''), (''timezone'', ''utc'')])))"

end
