(* ===== verification/Monitor.thy ===== *)
theory Monitor
  imports MonitorData
begin

text \<open>
  The monitoring endpoint of the website (\<open>packages/web/src/server/observability.ts\<close>): who may read a report,
  and the cache and the snapshots under way that its requests share.

  \<^item> \<open>admit_reader\<close> is everything the handler checks before it looks in the cache.
  \<^item> Requests interleave at their awaits: a request arrives at the cache once its session is verified, a snapshot
    settles, and each request that waited for it resumes on its own.
  \<^item> \<open>mo_settled\<close> is a history no operation reads: the runs that settled, when each did, and what Prometheus answered it.
  \<^item> The \<open>URL\<close> class, \<open>Date.parse\<close> and the answers of the API and of Prometheus are parameters.
\<close>

section \<open>Configuration\<close>

record monitor_env =
  nv_api :: "string option"
  nv_web :: "string option"
  nv_prometheus :: "string option"
  nv_operators :: "string option"
  nv_production :: bool

record monitor_request =
  mq_host :: "string option"
  mq_urlOrigin :: string
  mq_origin :: "string option"
  mq_site :: "string option"
  mq_cookie :: "string option"
  mq_params :: "(string \<times> string) list"

type_synonym monitor_failure = "nat \<times> string"

definition github_id_form :: "string \<Rightarrow> bool" where
  "github_id_form s \<longleftrightarrow> s \<noteq> [] \<and> length s \<le> 20 \<and> list_all is_digit s \<and> hd s \<noteq> CHR ''0''"

definition operatorIds :: "string option \<Rightarrow> string list" where
  "operatorIds value =
     (case value of
        None \<Rightarrow> []
      | Some v \<Rightarrow>
          if v = [] \<or> 4096 < length v then []
          else (let ids = map js_trim (split_on (CHR '','') v)
                in if length ids \<le> 100 \<and> list_all github_id_form ids then ids else []))"

definition bad_configuration :: monitor_failure where
  "bad_configuration = (503, ''Monitoring configuration is unavailable.'')"

definition unsupported_topology :: monitor_failure where
  "unsupported_topology = (503, ''Monitoring session topology is unsupported.'')"

definition sign_in_required :: monitor_failure where
  "sign_in_required = (401, ''Sign in required.'')"

definition session_unavailable :: monitor_failure where
  "session_unavailable = (503, ''Session verification is unavailable.'')"

definition monitoring_unavailable :: monitor_failure where
  "monitoring_unavailable = (503, ''Monitoring is temporarily unavailable.'')"

definition monitor_origin :: "(string \<Rightarrow> url_parts option) \<Rightarrow> string option \<Rightarrow> monitor_failure + url_parts" where
  "monitor_origin parse value =
     (case parse (case value of None \<Rightarrow> [] | Some v \<Rightarrow> v) of
        None \<Rightarrow> Inl bad_configuration
      | Some u \<Rightarrow>
          if url_protocol u \<notin> {''http:'', ''https:''} \<or> url_username u \<noteq> [] \<or> url_password u \<noteq> [] \<or> url_pathname u \<noteq> ''/''
             \<or> url_search u \<noteq> [] \<or> url_hash u \<noteq> []
          then Inl bad_configuration else Inr u)"

text \<open>The host with its port: the origin without the protocol and the two slashes.\<close>

definition url_host :: "url_parts \<Rightarrow> string" where
  "url_host u = drop (length (url_protocol u) + 2) (url_origin u)"

definition matching_host :: "monitor_request \<Rightarrow> url_parts \<Rightarrow> bool" where
  "matching_host rq web =
     (if present (mq_host rq) then lower_text (the (mq_host rq)) = url_host web else mq_urlOrigin rq = url_origin web)"

definition monitoringTopology ::
  "(string \<Rightarrow> url_parts option) \<Rightarrow> monitor_env \<Rightarrow> monitor_request \<Rightarrow> monitor_failure + url_parts \<times> url_parts \<times> string" where
  "monitoringTopology parse env rq =
     bindE (monitor_origin parse (nv_api env)) (\<lambda>api.
     bindE (monitor_origin parse (nv_web env)) (\<lambda>web.
     let local = url_hostname web \<in> {''127.0.0.1'', ''localhost'', ''[::1]''}
     in if url_hostname api \<noteq> url_hostname web \<or> url_protocol api \<noteq> url_protocol web \<or> \<not> matching_host rq web
           \<or> (url_protocol web \<noteq> ''https:'' \<and> (\<not> local \<or> nv_production env))
        then Inl unsupported_topology
        else if (present (mq_origin rq) \<and> mq_origin rq \<noteq> Some (url_origin web)) \<or> mq_site rq = Some ''cross-site''
        then Inl (403, ''Monitoring access is restricted.'')
        else Inr (api, web, if url_protocol api = ''https:'' then ''__Host-waybill-session'' else ''waybill-session'')))"

definition short_number :: "string \<Rightarrow> bool" where
  "short_number s \<longleftrightarrow> s \<noteq> [] \<and> length s \<le> 3 \<and> list_all is_digit s"

definition private_address :: "string list \<Rightarrow> bool" where
  "private_address parts =
     (case parts of
        [a, b, c, d] \<Rightarrow> short_number c \<and> short_number d
          \<and> ((a = ''10'' \<and> short_number b) \<or> (a = ''192'' \<and> b = ''168'')
             \<or> (a = ''172'' \<and> list_all is_digit b \<and> length b = 2
                 \<and> ((hd b = CHR ''1'' \<and> b ! 1 \<in> {CHR ''6'', CHR ''7'', CHR ''8'', CHR ''9''}) \<or> hd b = CHR ''2''
                    \<or> (hd b = CHR ''3'' \<and> b ! 1 \<in> {CHR ''0'', CHR ''1''}))))
      | _ \<Rightarrow> False)"

definition is_lower :: "char \<Rightarrow> bool" where
  "is_lower c \<longleftrightarrow> 97 \<le> (of_char c :: nat) \<and> (of_char c :: nat) \<le> 122"

definition plain_host :: "string \<Rightarrow> bool" where
  "plain_host s \<longleftrightarrow> s \<noteq> [] \<and> is_lower (hd s) \<and> list_all (\<lambda>c. is_lower c \<or> is_digit c \<or> c = CHR ''-'') s"

definition prometheusOrigin :: "(string \<Rightarrow> url_parts option) \<Rightarrow> monitor_env \<Rightarrow> monitor_failure + string" where
  "prometheusOrigin parse env =
     bindE (monitor_origin parse (nv_prometheus env)) (\<lambda>u.
     let host = url_hostname u
     in if host \<in> {''localhost'', ''127.0.0.1'', ''[::1]''} \<or> private_address (split_on (CHR ''.'') host) \<or> plain_host host
           \<or> ends_with ''.internal'' host
        then Inr (url_origin u) else Inl bad_configuration)"

section \<open>Who may read\<close>

text \<open>The API is asked with exactly the cookie of the request; \<open>None\<close> is a request that failed.\<close>

type_synonym session_fetch = "string \<Rightarrow> string \<Rightarrow> http_answer option"

definition session_cookies :: "monitor_request \<Rightarrow> string \<Rightarrow> string list" where
  "session_cookies rq name =
     filter (starts_with (name @ ''='')) (map js_trim (split_on (CHR '';'') (case mq_cookie rq of None \<Rightarrow> [] | Some c \<Rightarrow> c)))"

definition session_cookie :: "monitor_request \<Rightarrow> string \<Rightarrow> monitor_failure + string" where
  "session_cookie rq name =
     (case session_cookies rq name of
        [c] \<Rightarrow> if token_chars (drop (length name + 1) c) then Inr c else Inl sign_in_required
      | _ \<Rightarrow> Inl sign_in_required)"

definition verified_session :: "http_answer option \<Rightarrow> monitor_failure + (string \<times> json) list" where
  "verified_session answer =
     (case answer of
        None \<Rightarrow> Inl session_unavailable
      | Some a \<Rightarrow>
          if ha_status a = 401 then Inl sign_in_required
          else if \<not> answer_ok a then Inl session_unavailable
          else (case json_object (boundedJson a 65536) of None \<Rightarrow> Inl monitoring_unavailable | Some session \<Rightarrow> Inr session))"

definition live_id :: "(string \<Rightarrow> jsnum) \<Rightarrow> rat \<Rightarrow> json option \<Rightarrow> json option \<Rightarrow> string option" where
  "live_id date_parse millis githubId expires =
     (case githubId of
        Some (JStr g) \<Rightarrow>
          (case expires of
             Some (JStr e) \<Rightarrow>
               if github_id_form g \<and> js_isFinite (date_parse e) \<and> js_lt (Num millis) (date_parse e) then Some g else None
           | _ \<Rightarrow> None)
      | _ \<Rightarrow> None)"

definition session_user :: "(string \<Rightarrow> jsnum) \<Rightarrow> rat \<Rightarrow> (string \<times> json) list \<Rightarrow> monitor_failure + string" where
  "session_user date_parse millis session =
     (case json_object (map_of session ''user'') of
        None \<Rightarrow> Inl monitoring_unavailable
      | Some user \<Rightarrow>
          (case live_id date_parse millis (map_of user ''githubId'') (map_of session ''expiresAt'') of
             None \<Rightarrow> Inl sign_in_required | Some g \<Rightarrow> Inr g))"

definition requested_range :: "monitor_request \<Rightarrow> monitor_failure + string" where
  "requested_range rq =
     (let asked = (case mq_params rq of [] \<Rightarrow> ''24h'' | (k, v) # _ \<Rightarrow> v)
      in if list_ex (\<lambda>(k, v). k \<noteq> ''range'') (mq_params rq) \<or> 1 < length (mq_params rq) \<or> asked \<notin> set (map fst monitoringRanges)
         then Inl (400, ''Use a supported monitoring range.'') else Inr asked)"

definition admit_reader ::
  "(string \<Rightarrow> url_parts option) \<Rightarrow> (string \<Rightarrow> jsnum) \<Rightarrow> monitor_env \<Rightarrow> session_fetch \<Rightarrow> rat \<Rightarrow> monitor_request
     \<Rightarrow> monitor_failure + string \<times> string" where
  "admit_reader parse date_parse env fetch_session millis rq =
     bindE (monitoringTopology parse env rq) (\<lambda>(api, web, cookieName).
     bindE (session_cookie rq cookieName) (\<lambda>cookie.
     bindE (verified_session (fetch_session (url_origin api @ ''/auth/me'') cookie)) (\<lambda>session.
     bindE (session_user date_parse millis session) (\<lambda>user.
     if user \<notin> set (operatorIds (nv_operators env)) then Inl (403, ''Operator access required.'')
     else bindE (requested_range rq) (\<lambda>rangeId.
          bindE (prometheusOrigin parse env) (\<lambda>prometheus. Inr (prometheus, rangeId)))))))"

section \<open>The handler\<close>

record visit =
  vi_request :: monitor_request
  vi_session :: session_fetch
  vi_at :: rat

record snapshot_run =
  ru_prometheus :: string
  ru_range :: string
  ru_start :: rat

record monitor_answer =
  ma_visit :: visit
  ma_at :: rat
  ma_cached :: bool
  ma_status :: nat
  ma_report :: "monitoring_report option"
  ma_body :: string

record monitor =
  mo_now :: rat
  mo_cache :: "(string \<times> rat \<times> monitoring_report) list"
  mo_inflight :: "(string \<times> nat) list"
  mo_runs :: "snapshot_run list"
  mo_results :: "(nat \<times> (monitoring_report \<times> rat) option) list"
  mo_settled :: "(snapshot_run \<times> rat \<times> fetch) list"
  mo_waiting :: "(visit \<times> string \<times> nat) list"
  mo_answers :: "monitor_answer list"

definition newMonitor :: "rat \<Rightarrow> monitor" where
  "newMonitor millis = \<lparr>mo_now = millis, mo_cache = [], mo_inflight = [], mo_runs = [], mo_results = [], mo_settled = [], mo_waiting = [], mo_answers = []\<rparr>"

definition error_text :: "string \<Rightarrow> string" where
  "error_text message = stringify (JObj [(''error'', JStr message)])"

definition refuse :: "visit \<Rightarrow> rat \<Rightarrow> monitor_failure \<Rightarrow> monitor_answer" where
  "refuse v millis e =
     \<lparr>ma_visit = v, ma_at = millis, ma_cached = False, ma_status = fst e, ma_report = None, ma_body = error_text (snd e)\<rparr>"

definition send_report :: "visit \<Rightarrow> rat \<Rightarrow> bool \<Rightarrow> monitoring_report \<Rightarrow> monitor_answer" where
  "send_report v millis cached report =
     (let content = stringify (report_json report)
      in if ml_responseBytes monitoringLimits < length (utf8_encode content)
         then refuse v millis (503, ''Monitoring result is unavailable.'')
         else \<lparr>ma_visit = v, ma_at = millis, ma_cached = cached, ma_status = 200, ma_report = Some report, ma_body = content\<rparr>)"

definition cache_key :: "string \<Rightarrow> string \<Rightarrow> string" where
  "cache_key prometheus rangeId = prometheus @ '':'' @ rangeId"

definition respond :: "monitor_answer \<Rightarrow> monitor \<Rightarrow> monitor" where
  "respond a m = m\<lparr>mo_answers := mo_answers m @ [a]\<rparr>"

text \<open>A request without a usable entry joins the snapshot of its key or starts one, unless three are under way.\<close>

definition enqueue_visit :: "visit \<Rightarrow> string \<Rightarrow> string \<Rightarrow> monitor \<Rightarrow> monitor" where
  "enqueue_visit v prometheus rangeId m =
     (let key = cache_key prometheus rangeId
      in case map_of (mo_inflight m) key of
           Some n \<Rightarrow> m\<lparr>mo_waiting := mo_waiting m @ [(v, key, n)]\<rparr>
         | None \<Rightarrow>
             if 3 \<le> length (mo_inflight m) then respond (refuse v (vi_at v) (503, ''Monitoring is busy. Try again shortly.'')) m
             else (let n = length (mo_runs m)
                   in m\<lparr>mo_runs := mo_runs m @ [\<lparr>ru_prometheus = prometheus, ru_range = rangeId, ru_start = vi_at v\<rparr>],
                        mo_inflight := mo_inflight m @ [(key, n)], mo_waiting := mo_waiting m @ [(v, key, n)]\<rparr>))"

text \<open>A request whose session has been verified reaches the cache.\<close>

definition arrive ::
  "(string \<Rightarrow> url_parts option) \<Rightarrow> (string \<Rightarrow> jsnum) \<Rightarrow> monitor_env \<Rightarrow> visit \<Rightarrow> monitor \<Rightarrow> monitor" where
  "arrive parse date_parse env v m =
     (case admit_reader parse date_parse env (vi_session v) (vi_at v) (vi_request v) of
        Inl e \<Rightarrow> respond (refuse v (vi_at v) e) m
      | Inr (prometheus, rangeId) \<Rightarrow>
          (let key = cache_key prometheus rangeId
           in case map_of (mo_cache m) key of
                Some (expires, report) \<Rightarrow>
                  if vi_at v < expires then respond (send_report v (vi_at v) True report) m
                  else enqueue_visit v prometheus rangeId m
              | None \<Rightarrow> enqueue_visit v prometheus rangeId m))"

text \<open>A snapshot under way settles: with its report, or with an error.\<close>

definition settle :: "fetch \<Rightarrow> nat \<Rightarrow> rat \<Rightarrow> monitor \<Rightarrow> monitor" where
  "settle fetched n millis m =
     (let run = mo_runs m ! n; r = the (map_of monitoringRanges (ru_range run))
      in m\<lparr>mo_inflight := filter (\<lambda>e. snd e \<noteq> n) (mo_inflight m),
           mo_results := (n, snapshot fetched (ru_prometheus run) (ru_range run) r (ru_start run) millis) # mo_results m,
           mo_settled := (run, millis, fetched) # mo_settled m\<rparr>)"

text \<open>The eldest entry leaves a full cache; a \<open>Map\<close> keeps the place of a key that is set again.\<close>

definition cache_report :: "string \<Rightarrow> rat \<Rightarrow> monitoring_report \<Rightarrow> monitor \<Rightarrow> monitor" where
  "cache_report key expires report m =
     (let kept = (if 3 \<le> length (mo_cache m) then tl (mo_cache m) else mo_cache m)
      in m\<lparr>mo_cache := AList.update key (expires, report) kept\<rparr>)"

definition resume :: "visit \<Rightarrow> string \<Rightarrow> nat \<Rightarrow> rat \<Rightarrow> monitor \<Rightarrow> monitor" where
  "resume v key n millis m =
     (let m' = m\<lparr>mo_waiting := remove1 (v, key, n) (mo_waiting m)\<rparr>
      in case map_of (mo_results m) n of
           Some (Some (report, fresh)) \<Rightarrow>
             respond (send_report v millis False report)
               (cache_report key (min (millis + of_nat (ml_cacheMs monitoringLimits)) fresh) report m')
         | Some None \<Rightarrow> respond (refuse v millis monitoring_unavailable) m'
         | None \<Rightarrow> m)"

inductive monitor_step ::
  "(string \<Rightarrow> url_parts option) \<Rightarrow> (string \<Rightarrow> jsnum) \<Rightarrow> monitor_env \<Rightarrow> monitor \<Rightarrow> monitor \<Rightarrow> bool"
  for parse date_parse env where
  Arrive: "mo_now m \<le> vi_at v \<Longrightarrow> monitor_step parse date_parse env m (arrive parse date_parse env v (m\<lparr>mo_now := vi_at v\<rparr>))"
| Settle: "mo_now m \<le> millis \<Longrightarrow> n \<in> snd ` set (mo_inflight m) \<Longrightarrow>
    monitor_step parse date_parse env m (settle fetched n millis (m\<lparr>mo_now := millis\<rparr>))"
| Resume: "mo_now m \<le> millis \<Longrightarrow> (v, key, n) \<in> set (mo_waiting m) \<Longrightarrow> map_of (mo_results m) n \<noteq> None \<Longrightarrow>
    monitor_step parse date_parse env m (resume v key n millis (m\<lparr>mo_now := millis\<rparr>))"

inductive monitor_reach ::
  "(string \<Rightarrow> url_parts option) \<Rightarrow> (string \<Rightarrow> jsnum) \<Rightarrow> monitor_env \<Rightarrow> monitor \<Rightarrow> bool"
  for parse date_parse env where
  Start: "monitor_reach parse date_parse env (newMonitor millis)"
| Next: "monitor_reach parse date_parse env m \<Longrightarrow> monitor_step parse date_parse env m m' \<Longrightarrow> monitor_reach parse date_parse env m'"

end
