(* ===== verification/GrantTenant.thy ===== *)
theory GrantTenant
  imports AuthProps Monitor
begin

text \<open>
  The tool that gives a user access to a tenant and takes it away (\<open>packages/shared/scripts/grant-tenant.ts\<close>), and what
  taking it away means for the API: the memberships of the schema own the keys their user created, so they go with them.
\<close>

section \<open>Arguments\<close>

fun grant_args ::
  "string list \<Rightarrow> string option \<Rightarrow> string option \<Rightarrow> bool \<Rightarrow> exn + string option \<times> string option \<times> bool" where
  "grant_args [] githubId tenantId revoke = Inr (githubId, tenantId, revoke)"
| "grant_args [a] githubId tenantId revoke =
     (if a = ''--github-id'' \<and> \<not> truthy_text githubId then Inr (None, tenantId, revoke)
      else if a = ''--tenant'' \<and> \<not> truthy_text tenantId then Inr (githubId, None, revoke)
      else if a = ''--revoke'' \<and> \<not> revoke then Inr (githubId, tenantId, True)
      else Inl (Error ''Use grant:tenant --help''))"
| "grant_args (a # b # rest) githubId tenantId revoke =
     (if a = ''--github-id'' \<and> \<not> truthy_text githubId then grant_args rest (Some b) tenantId revoke
      else if a = ''--tenant'' \<and> \<not> truthy_text tenantId then grant_args rest githubId (Some b) revoke
      else if a = ''--revoke'' \<and> \<not> revoke then grant_args (b # rest) githubId tenantId True
      else Inl (Error ''Use grant:tenant --help''))"

definition grant_input :: "string list \<Rightarrow> exn + string \<times> string \<times> bool" where
  "grant_input args =
     bindE (grant_args args None None False) (\<lambda>(githubId, tenantId, revoke).
     case (githubId, tenantId) of
       (Some g, Some t) \<Rightarrow>
         if github_id_form g \<and> uuid_form t then Inr (g, t, revoke)
         else Inl (Error ''Supply the immutable numeric GitHub user ID and an existing tenant UUID'')
     | _ \<Rightarrow> Inl (Error ''Supply the immutable numeric GitHub user ID and an existing tenant UUID''))"

section \<open>The transaction\<close>

record grant_result =
  gr_githubId :: string
  gr_githubLogin :: string
  gr_tenantId :: string
  gr_revoked :: bool

definition of_member :: "string \<Rightarrow> string \<Rightarrow> membership \<Rightarrow> bool" where
  "of_member u t m \<longleftrightarrow> mb_userId m = u \<and> mb_tenantId m = t"

text \<open>Deleting a membership deletes the keys that refer to it.\<close>

definition deleteMembership :: "string \<Rightarrow> string \<Rightarrow> auth_db \<Rightarrow> auth_db" where
  "deleteMembership u t d =
     d\<lparr>memberships := filter (\<lambda>m. \<not> of_member u t m) (memberships d),
       api_keys := filter (\<lambda>k. \<not> (ak_createdByUserId k = u \<and> ak_tenantId k = t)) (api_keys d)\<rparr>"

definition upsertMembership :: "string \<Rightarrow> string \<Rightarrow> auth_db \<Rightarrow> auth_db" where
  "upsertMembership u t d =
     (if \<exists>m \<in> set (memberships d). of_member u t m then d
      else d\<lparr>memberships := memberships d @ [\<lparr>mb_userId = u, mb_tenantId = t\<rparr>]\<rparr>)"

definition grantTenant :: "string \<Rightarrow> string \<Rightarrow> bool \<Rightarrow> auth_db \<Rightarrow> exn + grant_result \<times> auth_db" where
  "grantTenant githubId tenantId revoke d =
     (case find (\<lambda>u. us_githubId u = githubId) (users d) of
        None \<Rightarrow> Inl (Error ''No User found'')
      | Some u \<Rightarrow>
          (case find (\<lambda>t. tn_id t = tenantId) (auth_tenants d) of
             None \<Rightarrow> Inl (Error ''No Tenant found'')
           | Some t \<Rightarrow>
               Inr (\<lparr>gr_githubId = us_githubId u, gr_githubLogin = us_githubLogin u, gr_tenantId = tn_id t, gr_revoked = revoke\<rparr>,
                    (if revoke then deleteMembership else upsertMembership) (us_id u) (tn_id t) d)))"

text \<open>A transaction that fails leaves the tables as they were.\<close>

definition runGrant :: "string list \<Rightarrow> auth_db \<Rightarrow> (exn + grant_result option) \<times> auth_db" where
  "runGrant args d =
     (if ''--help'' \<in> set args then (Inr None, d)
      else (case grant_input args of
              Inl e \<Rightarrow> (Inl e, d)
            | Inr (g, t, revoke) \<Rightarrow> (case grantTenant g t revoke d of Inl e \<Rightarrow> (Inl e, d) | Inr (r, d') \<Rightarrow> (Inr (Some r), d'))))"

section \<open>What the tool does to access\<close>

lemma grantTenantE:
  assumes "grantTenant g t revoke d = Inr (r, d')"
  obtains u where "find (\<lambda>u. us_githubId u = g) (users d) = Some u" "gr_tenantId r = t" "gr_githubId r = g" "gr_revoked r = revoke"
    "d' = (if revoke then deleteMembership else upsertMembership) (us_id u) t d"
  using assms by (auto simp: grantTenant_def split: option.splits dest!: find_SomeD)

lemma runGrantE:
  assumes "runGrant args d = (Inr (Some r), d')"
  obtains u where "find (\<lambda>u. us_githubId u = gr_githubId r) (users d) = Some u"
    "d' = (if gr_revoked r then deleteMembership else upsertMembership) (us_id u) (gr_tenantId r) d"
proof -
  from assms obtain g t revoke where "grantTenant g t revoke d = Inr (r, d')"
    by (auto simp: runGrant_def split: if_splits sum.splits prod.splits)
  then show thesis by (rule grantTenantE) (auto intro: that)
qed

lemma granting_keeps_users:
  "users (deleteMembership u t d) = users d" "users (upsertMembership u t d) = users d"
  "auth_sessions (deleteMembership u t d) = auth_sessions d" "auth_sessions (upsertMembership u t d) = auth_sessions d"
  by (simp_all add: deleteMembership_def upsertMembership_def)

text \<open>Granting twice is granting once, and so is revoking.\<close>

lemma grant_idempotent:
  "upsertMembership u t (upsertMembership u t d) = upsertMembership u t d"
  "deleteMembership u t (deleteMembership u t d) = deleteMembership u t d"
  by (auto simp: upsertMembership_def deleteMembership_def of_member_def filter_filter intro!: arg_cong2 [where f = filter])

definition is_member :: "string \<Rightarrow> string \<Rightarrow> auth_db \<Rightarrow> bool" where
  "is_member u t d \<longleftrightarrow> (\<exists>m \<in> set (memberships d). of_member u t m)"

text \<open>The foreign key of the table of keys: a key belongs to the membership of its creator.\<close>

definition keys_of_members :: "auth_db \<Rightarrow> bool" where
  "keys_of_members d \<longleftrightarrow> (\<forall>k \<in> set (api_keys d). is_member (ak_createdByUserId k) (ak_tenantId k) d)"

text \<open>The request shows the session of a user, or a key of the tenant that the user created.\<close>

definition proved_by :: "auth_env \<Rightarrow> session_settings \<Rightarrow> request \<Rightarrow> auth_db \<Rightarrow> string \<Rightarrow> string \<Rightarrow> bool" where
  "proved_by env settings rq d tenantId userId \<longleftrightarrow>
     (case rq_authorization rq of
        None \<Rightarrow> \<exists>token s. cookieToken (rq_cookie rq) (cn_session (cookieNames (secure settings))) = Some token
          \<and> s \<in> set (auth_sessions d) \<and> as_tokenHash s = tokenHash env token \<and> as_userId s = userId
      | Some header \<Rightarrow> \<exists>token i k. bearer_match header = Some (token, i)
          \<and> k \<in> set (api_keys d) \<and> ak_id k = i \<and> ak_tokenHash k = tokenHash env token
          \<and> ak_tenantId k = tenantId \<and> ak_createdByUserId k = userId)"

text \<open>Whatever proves access proves it for a member.\<close>

lemma access_by_member:
  assumes "access_proved env settings fromBody rq d tm t" and "keys_of_members d"
  shows "\<exists>v. is_member v t d \<and> proved_by env settings rq d t v"
proof (cases "rq_authorization rq")
  case None
  with assms(1) show ?thesis by (fastforce simp: access_proved_def proved_by_def is_member_def of_member_def)
next
  case (Some header)
  with assms(1) obtain token i k where k: "bearer_match header = Some (token, i)" "k \<in> set (api_keys d)" "ak_id k = i"
    "ak_tokenHash k = tokenHash env token" "ak_tenantId k = t"
    by (auto simp: access_proved_def)
  with assms(2) have "is_member (ak_createdByUserId k) t d" by (auto simp: keys_of_members_def)
  with k Some show ?thesis by (auto simp: proved_by_def)
qed

lemma deleteMembership_effect:
  "\<not> is_member u t (deleteMembership u t d)" "keys_of_members d \<Longrightarrow> keys_of_members (deleteMembership u t d)"
proof -
  have m: "is_member x y (deleteMembership u t d) \<longleftrightarrow> is_member x y d \<and> \<not> (x = u \<and> y = t)" for x y
    by (auto simp: is_member_def deleteMembership_def of_member_def)
  show "\<not> is_member u t (deleteMembership u t d)" by (simp add: m)
  show "keys_of_members (deleteMembership u t d)" if "keys_of_members d"
    using that unfolding keys_of_members_def m by (auto simp: deleteMembership_def)
qed

text \<open>C40: When the tool has revoked a user's access to a tenant, the user is no member of it and no key of the user is left
  for it; and as long as nobody grants the membership again, whatever else happens to the tables that keeps the
  foreign key of the keys, every request that the API's guard lets through to that tenant is proved by
  another member of the tenant: by that member's session or by a key of the tenant which that member created.  The user's own
  sessions and keys are worth nothing there.\<close>

theorem revoked_user_is_locked_out:
  assumes "runGrant args d = (Inr (Some r), d')" and "gr_revoked r" and "keys_of_members d"
  shows "\<exists>u. find (\<lambda>u. us_githubId u = gr_githubId r) (users d) = Some u
    \<and> \<not> is_member (us_id u) (gr_tenantId r) d' \<and> keys_of_members d'
    \<and> (\<forall>env settings fromBody rq w w'. guard env (Session settings) fromBody rq w = (Inr (), w')
         \<and> uuid_param env (if fromBody then rq_body_tenantId rq else rq_path_tenantId rq) = Some (gr_tenantId r)
         \<and> \<not> is_member (us_id u) (gr_tenantId r) (au_db w') \<and> keys_of_members (au_db w') \<longrightarrow>
         (\<exists>v. v \<noteq> us_id u \<and> is_member v (gr_tenantId r) (au_db w') \<and> proved_by env settings rq (au_db w') (gr_tenantId r) v))"
proof -
  obtain u where u: "find (\<lambda>u. us_githubId u = gr_githubId r) (users d) = Some u" and d': "d' = deleteMembership (us_id u) (gr_tenantId r) d"
    using runGrantE [OF assms(1)] assms(2) by auto
  have "\<exists>v. v \<noteq> us_id u \<and> is_member v (gr_tenantId r) (au_db w') \<and> proved_by env settings rq (au_db w') (gr_tenantId r) v"
    if "guard env (Session settings) fromBody rq w = (Inr (), w')"
      "uuid_param env (if fromBody then rq_body_tenantId rq else rq_path_tenantId rq) = Some (gr_tenantId r)"
      "\<not> is_member (us_id u) (gr_tenantId r) (au_db w')" "keys_of_members (au_db w')" for env settings fromBody rq w w'
  proof -
    from guard_admission [OF that(1)] that(2) obtain t where "access_proved env settings fromBody rq (au_db w') t (gr_tenantId r)"
      by auto
    from access_by_member [OF this that(4)] that(3) show ?thesis by metis
  qed
  with u d' deleteMembership_effect(1) deleteMembership_effect(2) [OF assms(3)] show ?thesis by blast
qed

text \<open>Two members of a tenant, of whom one is revoked; the other one's request is still let through.\<close>

definition granted_db :: auth_db where
  "granted_db = example_auth_db
     \<lparr>users := [\<lparr>us_id = ''u'', us_githubId = ''1'', us_githubLogin = ''l''\<rparr>, \<lparr>us_id = ''v'', us_githubId = ''2'', us_githubLogin = ''m''\<rparr>],
      memberships := [\<lparr>mb_userId = ''u'', mb_tenantId = example_uuid\<rparr>, \<lparr>mb_userId = ''v'', mb_tenantId = example_uuid\<rparr>],
      auth_tenants := [\<lparr>tn_id = example_uuid, tn_name = ''T'', tn_hmacSecret = ''s''\<rparr>]\<rparr>"

definition revoked_db :: auth_db where
  "revoked_db = granted_db\<lparr>memberships := [\<lparr>mb_userId = ''u'', mb_tenantId = example_uuid\<rparr>]\<rparr>"

definition member_request :: request where
  "member_request = example_request\<lparr>rq_body_tenantId := Some (JStr example_uuid)\<rparr>"

definition open_env :: auth_env where
  "open_env = auth_example\<lparr>valid_uuid := \<lambda>_. True\<rparr>"

lemma revoked_run:
  "runGrant [''--github-id'', ''2'', ''--tenant'', example_uuid, ''--revoke''] granted_db
    = (Inr (Some \<lparr>gr_githubId = ''2'', gr_githubLogin = ''m'', gr_tenantId = example_uuid, gr_revoked = True\<rparr>), revoked_db)"
proof -
  have "split_on CHR ''-'' example_uuid = [''00000000'', ''0000'', ''4000'', ''8000'', ''000000000001'']" by (simp add: example_uuid_def)
  moreover have "is_hex (lower_char CHR ''0'')" "is_hex (lower_char CHR ''1'')" "is_hex (lower_char CHR ''4'')" "is_hex (lower_char CHR ''8'')"
    by code_simp+
  ultimately have "uuid_form example_uuid" by (simp add: uuid_form_def)
  moreover have "github_id_form ''2''" by code_simp
  moreover have "grant_args [''--github-id'', ''2'', ''--tenant'', example_uuid, ''--revoke''] None None False = Inr (Some ''2'', Some example_uuid, True)"
    by (simp add: truthy_text_def)
  moreover have "''--help'' \<notin> set [''--github-id'', ''2'', ''--tenant'', example_uuid, ''--revoke'']" by (simp add: example_uuid_def)
  ultimately show ?thesis
    by (simp add: runGrant_def grant_input_def grantTenant_def granted_db_def revoked_db_def deleteMembership_def of_member_def example_auth_db_def
        del: grant_args.simps)
qed

lemma member_admitted: "guard open_env (Session example_settings) True member_request \<lparr>au_now = 5, au_db = revoked_db\<rparr>
    = (Inr (), \<lparr>au_now = 6, au_db = revoked_db\<rparr>)"
  by code_simp

theorem revoked_user_is_locked_out_witness:
  "\<exists>v. v \<noteq> ''v'' \<and> is_member v example_uuid revoked_db \<and> proved_by open_env example_settings member_request revoked_db example_uuid v"
proof -
  let ?r = "\<lparr>gr_githubId = ''2'', gr_githubLogin = ''m'', gr_tenantId = example_uuid, gr_revoked = True\<rparr>"
  have fk: "keys_of_members granted_db" by (simp add: keys_of_members_def granted_db_def example_auth_db_def)
  have t: "uuid_param open_env (if True then rq_body_tenantId member_request else rq_path_tenantId member_request) = Some (gr_tenantId ?r)"
    by (simp add: member_request_def open_env_def uuid_param_def)
  obtain u where u: "find (\<lambda>u. us_githubId u = gr_githubId ?r) (users granted_db) = Some u"
    and out: "\<not> is_member (us_id u) (gr_tenantId ?r) revoked_db" "keys_of_members revoked_db"
    and later: "\<And>env settings fromBody rq w w'. guard env (Session settings) fromBody rq w = (Inr (), w') \<Longrightarrow>
         uuid_param env (if fromBody then rq_body_tenantId rq else rq_path_tenantId rq) = Some (gr_tenantId ?r) \<Longrightarrow>
         \<not> is_member (us_id u) (gr_tenantId ?r) (au_db w') \<Longrightarrow> keys_of_members (au_db w') \<Longrightarrow>
         \<exists>v. v \<noteq> us_id u \<and> is_member v (gr_tenantId ?r) (au_db w') \<and> proved_by env settings rq (au_db w') (gr_tenantId ?r) v"
    using revoked_user_is_locked_out [OF revoked_run _ fk] by auto
  have id: "us_id u = ''v''" using u by (auto simp: granted_db_def)
  from later [OF member_admitted t] out show ?thesis unfolding id by simp
qed

end
