(* ===== verification/TenantTurns.thy ===== *)
theory TenantTurns
  imports JsNumber
begin

text \<open>
  The worker's per-cycle turn budget (\<open>packages/worker/src/delivery/tenant-turns.ts\<close>): a map from
  tenants to the number of turns taken, created anew for every receive cycle.  \<open>take\<close> is called
  \<open>take_turn\<close> here.
\<close>

record tenant_turns =
  used :: "(string \<times> int) list"
  limit :: jsnum

definition newTenantTurns :: "jsnum \<Rightarrow> exn + tenant_turns" where
  "newTenantTurns n_limit =
     (if \<not> js_isInteger n_limit \<or> js_lt n_limit (Num 1)
      then Inl (Error ''Tenant turn limit must be a positive integer'')
      else Inr \<lparr>used = [], limit = n_limit\<rparr>)"

definition DEFAULT_TURN_LIMIT :: jsnum where
  "DEFAULT_TURN_LIMIT = Num 10"

definition take_turn :: "tenant_turns \<Rightarrow> string \<Rightarrow> bool \<times> tenant_turns" where
  "take_turn turns tenantId =
     (let count = (case map_of (used turns) tenantId of None \<Rightarrow> 0 | Some n \<Rightarrow> n)
      in if js_le (limit turns) (Num (of_int count)) then (False, turns)
         else (True, turns\<lparr>used := AList.update tenantId (count + 1) (used turns)\<rparr>))"

fun take_turns :: "tenant_turns \<Rightarrow> string list \<Rightarrow> bool list" where
  "take_turns turns [] = []"
| "take_turns turns (t # ts) = (case take_turn turns t of (ok, turns') \<Rightarrow> ok # take_turns turns' ts)"

lemma newTenantTurns_iff:
  "newTenantTurns n_limit = Inr turns \<longleftrightarrow>
     (\<exists>n. n_limit = Num (of_int n) \<and> 1 \<le> n \<and> turns = \<lparr>used = [], limit = Num (of_int n)\<rparr>)"
proof -
  have "js_lt (Num (of_int n)) (Num 1) \<longleftrightarrow> n < 1" for n by simp
  then show ?thesis by (auto simp: newTenantTurns_def js_isInteger_iff)
qed

text \<open>The state after serving the requests \<open>h\<close>: each tenant has the turns it was granted.\<close>

definition turns_after :: "int \<Rightarrow> string list \<Rightarrow> tenant_turns \<Rightarrow> bool" where
  "turns_after n h turns \<longleftrightarrow> limit turns = Num (of_int n)
     \<and> (\<forall>t. (case map_of (used turns) t of None \<Rightarrow> 0 | Some k \<Rightarrow> k) = min n (int (count_list h t)))"

lemma take_turn_after:
  assumes "turns_after n h turns"
  shows "fst (take_turn turns t) \<longleftrightarrow> int (count_list h t) < n"
    and "turns_after n (h @ [t]) (snd (take_turn turns t))"
proof -
  let ?c = "case map_of (used turns) t of None \<Rightarrow> 0 | Some k \<Rightarrow> k"
  have c: "?c = min n (int (count_list h t))" and l: "limit turns = Num (of_int n)"
    using assms by (simp_all add: turns_after_def)
  have g: "js_le (limit turns) (Num (of_int ?c)) \<longleftrightarrow> n \<le> int (count_list h t)"
    unfolding c l by simp
  show "fst (take_turn turns t) \<longleftrightarrow> int (count_list h t) < n"
    using g by (simp add: take_turn_def Let_def not_le)
  show "turns_after n (h @ [t]) (snd (take_turn turns t))"
  proof (cases "n \<le> int (count_list h t)")
    case True
    then have "snd (take_turn turns t) = turns" using g by (simp add: take_turn_def Let_def)
    with assms True show ?thesis by (auto simp: turns_after_def)
  next
    case False
    then have s: "snd (take_turn turns t) = turns\<lparr>used := AList.update t (?c + 1) (used turns)\<rparr>"
      using g by (simp add: take_turn_def Let_def)
    show ?thesis
      unfolding turns_after_def
    proof (intro conjI allI)
      fix x
      show "(case map_of (used (snd (take_turn turns t))) x of None \<Rightarrow> 0 | Some k \<Rightarrow> k)
          = min n (int (count_list (h @ [t]) x))"
        using assms False c by (cases "x = t") (auto simp: s update_conv' turns_after_def)
    qed (simp add: s l)
  qed
qed

lemma take_turns_after:
  "turns_after n h turns \<Longrightarrow> i < length ts \<Longrightarrow>
   take_turns turns ts ! i \<longleftrightarrow> int (count_list (h @ take i ts) (ts ! i)) < n"
proof (induction ts arbitrary: h turns i)
  case (Cons t ts)
  have after: "turns_after n (h @ [t]) (snd (take_turn turns t))"
    and fst: "fst (take_turn turns t) \<longleftrightarrow> int (count_list h t) < n"
    using take_turn_after [OF Cons.prems(1)] by blast+
  show ?case
  proof (cases i)
    case 0
    then show ?thesis using fst by (simp add: case_prod_beta)
  next
    case (Suc j)
    then show ?thesis using Cons.IH [OF after, of j] Cons.prems(2) by (simp add: case_prod_beta)
  qed
qed simp

lemma length_take_turns [simp]: "length (take_turns turns ts) = length ts"
  by (induction ts arbitrary: turns) (simp_all add: case_prod_beta)

section \<open>Properties\<close>

text \<open>With a limit of \<open>n\<close>, the \<open>i\<close>-th request of a cycle gets a turn exactly when its tenant made
  fewer than \<open>n\<close> requests before it: no tenant gets more than \<open>n\<close> turns, and no tenant's turns
  depend on how many messages the others have.\<close>

theorem turns_are_per_tenant:
  assumes "newTenantTurns n_limit = Inr turns" and "i < length ts"
  shows "\<exists>n. n_limit = Num (of_int n) \<and> (take_turns turns ts ! i \<longleftrightarrow> int (count_list (take i ts) (ts ! i)) < n)"
proof -
  obtain n where n: "n_limit = Num (of_int n)" "1 \<le> n" "turns = \<lparr>used = [], limit = Num (of_int n)\<rparr>"
    using assms(1) by (auto simp: newTenantTurns_iff)
  then have "turns_after n [] turns" by (simp add: turns_after_def)
  from take_turns_after [OF this assms(2)] n(1) show ?thesis by auto
qed

theorem turns_are_per_tenant_witness:
  "take_turns \<lparr>used = [], limit = Num 2\<rparr> [''a'', ''a'', ''a'', ''b''] ! 3
   \<and> \<not> take_turns \<lparr>used = [], limit = Num 2\<rparr> [''a'', ''a'', ''a'', ''b''] ! 2"
proof -
  have n: "newTenantTurns (Num 2) = Inr \<lparr>used = [], limit = Num 2\<rparr>"
    by (simp add: newTenantTurns_def js_isInteger_def)
  have two: "(2 :: rat) = of_int k \<longleftrightarrow> k = 2" for k by (metis of_int_eq_iff of_int_numeral)
  show ?thesis
    using turns_are_per_tenant [OF n, of 3 "[''a'', ''a'', ''a'', ''b'']"]
      turns_are_per_tenant [OF n, of 2 "[''a'', ''a'', ''a'', ''b'']"]
    by (simp add: two numeral_3_eq_3 numeral_2_eq_2)
qed

end
