(* ===== verification/MessageBatch.thy ===== *)
theory MessageBatch
  imports JsNumber
begin

text \<open>
  Handling a batch of messages (\<open>packages/worker/src/delivery/message-batch.ts\<close>): the messages are
  handled one after the other, while the acknowledgements they return run beside the loop, at most
  \<open>limit\<close> at a time.

  The loop and its pending tasks are a step relation.  What the caller's functions do is left open:
  \<open>handle\<close> returns nothing, returns an acknowledgement or throws, an acknowledgement succeeds or
  fails, at any time, and \<open>onError\<close> returns or throws.  The lists \<open>handled\<close>, \<open>skipped\<close>, \<open>acknowledged\<close>
  and \<open>failed\<close> record the calls made; the code keeps no such lists.
\<close>

section \<open>State and operations\<close>

record 'm confirmations =
  task_limit :: jsnum
  tasks :: "(nat \<times> 'm) list"
  next_task :: nat
  callbackErrors :: "exn list"

definition newDeliveryConfirmations :: "jsnum \<Rightarrow> exn + 'm confirmations" where
  "newDeliveryConfirmations n =
     (if \<not> js_isSafeInteger n \<or> js_lt n (Num 1)
      then Inl (Error ''Confirmation limit must be a positive integer'')
      else Inr \<lparr>task_limit = n, tasks = [], next_task = 0, callbackErrors = []\<rparr>)"

definition DEFAULT_CONFIRMATION_LIMIT :: jsnum where
  "DEFAULT_CONFIRMATION_LIMIT = Num 10"

text \<open>\<open>schedule\<close> waits while \<open>full\<close> holds and then adds the task.\<close>

definition full :: "'m confirmations \<Rightarrow> bool" where
  "full c \<longleftrightarrow> js_le (task_limit c) (Num (of_nat (length (tasks c))))"

definition addTask :: "'m \<Rightarrow> 'm confirmations \<Rightarrow> 'm confirmations" where
  "addTask m c = c\<lparr>tasks := tasks c @ [(next_task c, m)], next_task := next_task c + 1\<rparr>"

definition deleteTask :: "nat \<Rightarrow> 'm confirmations \<Rightarrow> 'm confirmations" where
  "deleteTask k c = c\<lparr>tasks := filter (\<lambda>(k', _). k' \<noteq> k) (tasks c)\<rparr>"

text \<open>\<open>drain\<close> waits until no task is pending; what it then throws.\<close>

definition drainResult :: "'m confirmations \<Rightarrow> exn option" where
  "drainResult c = (if callbackErrors c = [] then None else Some (Error ''Confirmation error callback failed''))"

datatype 'm control =
  Loop "'m list"
| Handling 'm "'m list"
| Scheduling 'm "'m list"
| Finally "exn option"
| Finished "exn option"

record 'm batch_run =
  control :: "'m control"
  confirmations :: "'m confirmations"
  handled :: "'m list"
  skipped :: "'m list"
  acknowledged :: "'m list"
  failed :: "'m list"

text \<open>\<open>own\<close> says that the call created its confirmations itself, so that it also drains them.\<close>

inductive batch_step :: "bool \<Rightarrow> 'm batch_run \<Rightarrow> 'm batch_run \<Rightarrow> bool" for own :: bool where
  next_message: "control b = Loop (m # ms) \<Longrightarrow>
    batch_step own b (b\<lparr>control := Handling m ms, handled := handled b @ [m]\<rparr>)"
| handle_void: "control b = Handling m ms \<Longrightarrow>
    batch_step own b (b\<lparr>control := Loop ms, skipped := skipped b @ [m]\<rparr>)"
| handle_ack: "control b = Handling m ms \<Longrightarrow> batch_step own b (b\<lparr>control := Scheduling m ms\<rparr>)"
| handle_error: "control b = Handling m ms \<Longrightarrow>
    batch_step own b (b\<lparr>control := Loop ms, failed := failed b @ [m]\<rparr>)"
| handle_error_throws: "control b = Handling m ms \<Longrightarrow>
    batch_step own b (b\<lparr>control := Finally (Some e), failed := failed b @ [m]\<rparr>)"
| schedule: "control b = Scheduling m ms \<Longrightarrow> \<not> full (confirmations b) \<Longrightarrow>
    batch_step own b (b\<lparr>control := Loop ms, confirmations := addTask m (confirmations b)\<rparr>)"
| ack_ok: "(k, m) \<in> set (tasks (confirmations b)) \<Longrightarrow>
    batch_step own b (b\<lparr>confirmations := deleteTask k (confirmations b), acknowledged := acknowledged b @ [m]\<rparr>)"
| ack_error: "(k, m) \<in> set (tasks (confirmations b)) \<Longrightarrow>
    batch_step own b (b\<lparr>confirmations := deleteTask k (confirmations b), failed := failed b @ [m]\<rparr>)"
| ack_error_throws: "(k, m) \<in> set (tasks (confirmations b)) \<Longrightarrow>
    batch_step own b (b\<lparr>confirmations := (deleteTask k (confirmations b))
        \<lparr>callbackErrors := callbackErrors (confirmations b) @ [e]\<rparr>, failed := failed b @ [m]\<rparr>)"
| loop_end: "control b = Loop [] \<Longrightarrow> batch_step own b (b\<lparr>control := Finally None\<rparr>)"
| drained: "control b = Finally thrown \<Longrightarrow> own \<Longrightarrow> tasks (confirmations b) = [] \<Longrightarrow>
    batch_step own b (b\<lparr>control := Finished
      (case drainResult (confirmations b) of None \<Rightarrow> thrown | Some e \<Rightarrow> Some e)\<rparr>)"
| not_drained: "control b = Finally thrown \<Longrightarrow> \<not> own \<Longrightarrow> batch_step own b (b\<lparr>control := Finished thrown\<rparr>)"

definition startBatch :: "'m list \<Rightarrow> 'm confirmations \<Rightarrow> 'm batch_run" where
  "startBatch messages c =
     \<lparr>control = Loop messages, confirmations = c, handled = [], skipped = [], acknowledged = [], failed = []\<rparr>"

section \<open>Invariants\<close>

definition conf_ok :: "'m confirmations \<Rightarrow> bool" where
  "conf_ok c \<longleftrightarrow> distinct (map fst (tasks c)) \<and> (\<forall>(k, m) \<in> set (tasks c). k < next_task c)
     \<and> (\<exists>n. task_limit c = Num (of_nat n) \<and> 0 < n \<and> length (tasks c) \<le> n)"

lemma newDeliveryConfirmations_ok:
  "newDeliveryConfirmations n = Inr c \<Longrightarrow> conf_ok c \<and> tasks c = [] \<and> callbackErrors c = [] \<and> task_limit c = n"
proof -
  assume new: "newDeliveryConfirmations n = Inr c"
  then obtain i where i: "n = Num (of_int i)" "1 \<le> i"
    by (auto simp: newDeliveryConfirmations_def js_isSafeInteger_iff split: if_splits)
  have c: "c = \<lparr>task_limit = n, tasks = [], next_task = 0, callbackErrors = []\<rparr>"
    using new by (simp add: newDeliveryConfirmations_def split: if_splits)
  have "task_limit c = Num (of_nat (nat i)) \<and> 0 < nat i \<and> length (tasks c) \<le> nat i" using i by (simp add: c)
  then have "\<exists>k. task_limit c = Num (of_nat k) \<and> 0 < k \<and> length (tasks c) \<le> k" by blast
  then show ?thesis by (simp add: conf_ok_def c)
qed

lemma conf_ok_addTask: "conf_ok c \<Longrightarrow> \<not> full c \<Longrightarrow> conf_ok (addTask m c)"
  by (force simp: conf_ok_def full_def addTask_def)

lemma conf_ok_deleteTask: "conf_ok c \<Longrightarrow> conf_ok (deleteTask k c)"
  by (auto simp: conf_ok_def deleteTask_def distinct_map_filter intro: order_trans [OF length_filter_le])

lemma filter_key:
  assumes "distinct (map fst xs)" and "(k, m) \<in> set xs"
  shows "mset xs = add_mset (k, m) (mset (filter (\<lambda>(k', _). k' \<noteq> k) xs))"
  using assms
proof (induction xs)
  case (Cons x xs)
  obtain k' m' where x: "x = (k', m')" by (cases x)
  show ?case
  proof (cases "k' = k")
    case True
    then have "filter (\<lambda>(k', _). k' \<noteq> k) xs = xs" and "m' = m"
      using Cons.prems x by (force simp: filter_id_conv)+
    with True show ?thesis by (simp add: x)
  next
    case False
    then show ?thesis using Cons x by auto
  qed
qed simp

lemma deleteTask_mset:
  assumes "conf_ok c" and "(k, m) \<in> set (tasks c)"
  shows "image_mset snd (mset (tasks c)) = add_mset m (image_mset snd (mset (tasks (deleteTask k c))))"
    and "length (tasks c) = Suc (length (tasks (deleteTask k c)))"
proof -
  have f: "mset (tasks c) = add_mset (k, m) (mset (tasks (deleteTask k c)))"
    using filter_key [of "tasks c" k m] assms by (simp add: conf_ok_def deleteTask_def)
  then show "image_mset snd (mset (tasks c)) = add_mset m (image_mset snd (mset (tasks (deleteTask k c))))"
    by simp
  show "length (tasks c) = Suc (length (tasks (deleteTask k c)))"
    using arg_cong [OF f, of size] by simp
qed




lemma task_limit_simps [simp]:
  "task_limit (addTask m c) = task_limit c" "task_limit (deleteTask k c) = task_limit c"
  by (simp_all add: addTask_def deleteTask_def)

lemma conf_ok_callbackErrors [simp]: "conf_ok (c\<lparr>callbackErrors := es\<rparr>) = conf_ok c"
  by (simp add: conf_ok_def)

lemma batch_step_conf_ok:
  "batch_step own b b' \<Longrightarrow> conf_ok (confirmations b) \<Longrightarrow>
   conf_ok (confirmations b') \<and> task_limit (confirmations b') = task_limit (confirmations b)"
  by (induction rule: batch_step.induct) (auto intro: conf_ok_addTask conf_ok_deleteTask)





lemma batch_steps_conf_ok:
  "(batch_step own)\<^sup>*\<^sup>* b b' \<Longrightarrow> conf_ok (confirmations b) \<Longrightarrow>
   conf_ok (confirmations b') \<and> task_limit (confirmations b') = task_limit (confirmations b)"
  by (induction rule: rtranclp_induct) (auto dest: batch_step_conf_ok)

section \<open>Every run ends\<close>

fun control_work :: "'m control \<Rightarrow> nat" where
  "control_work (Loop ms) = 4 * length ms + 2"
| "control_work (Handling m ms) = 4 * length ms + 5"
| "control_work (Scheduling m ms) = 4 * length ms + 4"
| "control_work (Finally _) = 1"
| "control_work (Finished _) = 0"

definition batch_work :: "'m batch_run \<Rightarrow> nat" where
  "batch_work b = control_work (control b) + length (tasks (confirmations b))"

lemma batch_step_work:
  assumes "batch_step own b b'" and ok: "conf_ok (confirmations b)"
  shows "batch_work b' < batch_work b"
  using assms(1) by (cases rule: batch_step.cases)
    (auto simp: batch_work_def addTask_def dest: deleteTask_mset(2) [OF ok])

lemma batch_step_possible:
  assumes ok: "conf_ok (confirmations b)" and n: "\<nexists>thrown. control b = Finished thrown"
  shows "\<exists>b'. batch_step own b b'"
proof -
  have ack: "\<exists>b'. batch_step own b b'" if "tasks (confirmations b) \<noteq> []"
    using that batch_step.ack_ok [of "fst (hd (tasks (confirmations b)))" "snd (hd (tasks (confirmations b)))" b own]
    by auto
  show ?thesis
  proof (cases "control b")
    case (Scheduling m ms)
    show ?thesis
    proof (cases "full (confirmations b)")
      case True
      with ok have "tasks (confirmations b) \<noteq> []" by (auto simp: full_def conf_ok_def)
      then show ?thesis by (rule ack)
    next
      case False
      with Scheduling show ?thesis using batch_step.schedule [of b m ms own] by blast
    qed
  next
    case (Finally thrown)
    then show ?thesis using ack batch_step.drained batch_step.not_drained by blast
  next
    case (Loop ms)
    then show ?thesis by (cases ms) (blast intro: batch_step.next_message batch_step.loop_end)+
  next
    case (Handling m ms)
    then show ?thesis by (blast intro: batch_step.handle_void)
  next
    case (Finished thrown)
    with n show ?thesis by blast
  qed
qed

section \<open>Properties\<close>

text \<open>The run of a batch of one message whose acknowledgement succeeds, used to instantiate the
  properties: its state with the acknowledgement pending, and its end.\<close>

definition one_limit :: "string confirmations" where
  "one_limit = \<lparr>task_limit = Num 1, tasks = [], next_task = 0, callbackErrors = []\<rparr>"

definition one_pending :: "string batch_run" where
  "one_pending = \<lparr>control = Loop [], confirmations = addTask ''m'' one_limit, handled = [''m''], skipped = [],
     acknowledged = [], failed = []\<rparr>"

definition one_done :: "string batch_run" where
  "one_done = \<lparr>control = Finished None, confirmations = one_limit\<lparr>next_task := 1\<rparr>, handled = [''m''], skipped = [],
     acknowledged = [''m''], failed = []\<rparr>"

lemma one_limit: "newDeliveryConfirmations (Num 1) = Inr one_limit"
  by (simp add: newDeliveryConfirmations_def js_isSafeInteger_def one_limit_def)

lemma one_pending_run: "(batch_step True ^^ 3) (startBatch [''m''] one_limit) one_pending"
proof -
  let ?b = "startBatch [''m''] one_limit"
  let ?b1 = "?b\<lparr>control := Handling ''m'' [], handled := [''m'']\<rparr>"
  let ?b2 = "?b1\<lparr>control := Scheduling ''m'' []\<rparr>"
  have "batch_step True ?b ?b1" using batch_step.next_message [of ?b "''m''" "[]" True] by (simp add: startBatch_def)
  moreover have "batch_step True ?b1 ?b2" using batch_step.handle_ack [of ?b1 "''m''" "[]" True] by simp
  moreover have "batch_step True ?b2 one_pending"
    using batch_step.schedule [of ?b2 "''m''" "[]" True]
    by (simp add: startBatch_def one_pending_def full_def one_limit_def)
  ultimately show ?thesis by (auto simp: numeral_3_eq_3 relcompp_apply)
qed

lemma one_done_run: "(batch_step True ^^ 6) (startBatch [''m''] one_limit) one_done"
proof -
  let ?b1 = "one_pending\<lparr>confirmations := deleteTask 0 (confirmations one_pending), acknowledged := [''m'']\<rparr>"
  let ?b2 = "?b1\<lparr>control := Finally None\<rparr>"
  have "batch_step True one_pending ?b1"
    using batch_step.ack_ok [of 0 "''m''" one_pending True] by (simp add: one_pending_def addTask_def one_limit_def)
  moreover have "batch_step True ?b1 ?b2"
    using batch_step.loop_end [of ?b1 True] by (simp add: one_pending_def)
  moreover have "batch_step True ?b2 one_done"
    using batch_step.drained [of ?b2 None True]
    by (simp add: one_pending_def one_done_def deleteTask_def addTask_def one_limit_def drainResult_def)
  ultimately have "(batch_step True ^^ 3) one_pending one_done" by (auto simp: numeral_3_eq_3 relcompp_apply)
  with one_pending_run have "(batch_step True ^^ (3 + 3)) (startBatch [''m''] one_limit) one_done"
    unfolding relpowp_add by blast
  then show ?thesis by simp
qed

text \<open>At no moment are more acknowledgements pending than the limit, whatever the caller's functions
  do and whether or not the confirmations are shared with other batches.\<close>

theorem confirmations_stay_within_limit:
  assumes "newDeliveryConfirmations n = Inr c"
    and "(batch_step own)\<^sup>*\<^sup>* (startBatch messages c) b"
  shows "js_le (Num (of_nat (length (tasks (confirmations b))))) n"
proof -
  have c: "conf_ok c" "task_limit c = n" using newDeliveryConfirmations_ok [OF assms(1)] by auto
  then have "conf_ok (confirmations b)" "task_limit (confirmations b) = n"
    using batch_steps_conf_ok [OF assms(2)] by (auto simp: startBatch_def)
  then show ?thesis by (auto simp: conf_ok_def)
qed

theorem confirmations_stay_within_limit_witness:
  "js_le (Num (of_nat (length (tasks (confirmations one_pending))))) (Num 1)"
  by (rule confirmations_stay_within_limit [OF one_limit one_pending_run [THEN relpowp_imp_rtranclp]])



text \<open>C34: the loop never blocks for ever: every run of a batch is finite, its length is bounded by the
  work at its start, and a run that cannot go on has ended.\<close>

theorem batch_terminates:
  assumes "conf_ok c" and "(batch_step own ^^ n) (startBatch messages c) b"
  shows "n \<le> 4 * length messages + length (tasks c) + 2
    \<and> ((\<nexists>b'. batch_step own b b') \<longrightarrow> (\<exists>thrown. control b = Finished thrown))"
proof -
  have "conf_ok (confirmations b) \<and> batch_work b + n \<le> batch_work (startBatch messages c)"
    using assms(2)
  proof (induction n arbitrary: b)
    case 0
    then show ?case using assms(1) by (auto simp: startBatch_def)
  next
    case (Suc n)
    then obtain b1 where "(batch_step own ^^ n) (startBatch messages c) b1" "batch_step own b1 b" by auto
    then show ?case using Suc.IH [of b1] batch_step_work [of own b1 b] batch_step_conf_ok [of own b1 b] by simp
  qed
  then show ?thesis
    using batch_step_possible [of b own] by (auto simp: startBatch_def batch_work_def)
qed

text \<open>The run of one message takes six steps and ends; no run of it takes seven.\<close>

theorem batch_terminates_witness:
  "(batch_step True ^^ 6) (startBatch [''m''] one_limit) one_done \<and> control one_done = Finished None
   \<and> \<not> (\<exists>b. (batch_step True ^^ 7) (startBatch [''m''] one_limit) b)"
proof -
  have "\<not> (batch_step True ^^ 7) (startBatch [''m''] one_limit) b" for b
  proof
    assume "(batch_step True ^^ 7) (startBatch [''m''] one_limit) b"
    from batch_terminates [OF newDeliveryConfirmations_ok [OF one_limit, THEN conjunct1] this] show False by (simp add: one_limit_def)
  qed
  then show ?thesis using one_done_run by (simp add: one_done_def)
qed

end
