(* ===== verification/ReceiveCycle.thy ===== *)
theory ReceiveCycle
  imports WorkerSafety TenantTurns MessageBatch
begin

text \<open>
  One iteration of the worker's main loop (\<open>main\<close> in \<open>packages/worker/src/index.ts\<close>): ten concurrent
  receives, the turns of the tenants, the confirmations that run beside the handler, and at the end
  \<open>deferExcessMessages\<close>, which puts the messages of tenants without a turn back into the queue.

  The iteration is a step relation between the local variables of the loop and the worker's world.  A
  handler run is one step, the deletions it leaves to \<open>DeliveryConfirmations\<close> are steps of their own,
  and between two steps anything else may happen: time passes, leases are renewed or lost, other
  workers change the database.  Only the list of deleted receipts is this worker's own.
  \<open>received\<close>, \<open>skippedMessages\<close>, \<open>handledMessages\<close>, \<open>askedTurns\<close> and \<open>logged\<close> record what happened; the
  code keeps no such lists.
\<close>

section \<open>Putting messages back\<close>

definition RECEIVE_BATCHES :: nat where "RECEIVE_BATCHES = 10"

definition receipts_of :: "sqs_message list \<Rightarrow> string list" where
  "receipts_of ms = concat (map (\<lambda>m. if truthy_text (ReceiptHandle m) then [the (ReceiptHandle m)] else []) ms)"

fun releaseAll :: "env \<Rightarrow> string list \<Rightarrow> unit act" where
  "releaseAll env [] = ret ()"
| "releaseAll env (r # rs) = andThen (releaseLease env r) (\<lambda>_. releaseAll env rs)"

definition batch_confirmed :: "string list \<Rightarrow> batch_result \<Rightarrow> bool" where
  "batch_confirmed rs result \<longleftrightarrow>
     (Failed result = None \<or> Failed result = Some []) \<and> length (confirmedBatchReceipts rs result) = length rs"

text \<open>The queue's side of a \<open>ChangeMessageVisibilityBatch\<close> request: for the entries, each an \<open>Id\<close> with a
  receipt, the \<open>Id\<close>s that it carries out, and what its caller sees, an error or an answer.  The answer to a
  request that was carried out may be lost.\<close>

type_synonym batch_queue = "(string \<times> string) list \<Rightarrow> string list \<times> (exn + batch_result)"

definition batch_entries :: "string list \<Rightarrow> (string \<times> string) list" where
  "batch_entries rs = map (\<lambda>i. (js_String_nat i, rs ! i)) [0..<length rs]"

definition changeVisibilityBatch :: "batch_queue \<Rightarrow> string list \<Rightarrow> nat \<Rightarrow> batch_result act" where
  "changeVisibilityBatch queue rs seconds w =
     (let (ids, reply) = queue (batch_entries rs)
      in (reply, w\<lparr>hidden_until := (\<lambda>r. if \<exists>i \<in> set ids. (i, r) \<in> set (batch_entries rs)
            then now w + 1000 * int seconds else hidden_until w r)\<rparr>))"

definition deferBatch :: "env \<Rightarrow> batch_queue \<Rightarrow> string list \<Rightarrow> unit act" where
  "deferBatch env queue rs =
     andThen (observeSqsOperation env ChangeVisibility (changeVisibilityBatch queue rs 30) (batch_confirmed rs)) (\<lambda>result.
     let confirmed = confirmedBatchReceipts rs result
     in andThen (if confirmed \<noteq> [] then recordMetric env (DeferralMetric TenantTurn (length confirmed)) else ret ()) (\<lambda>_.
        if batch_confirmed rs result then ret ()
        else throw (Error ''Incomplete tenant-turn deferral'')))"

fun settle_all :: "('a \<Rightarrow> unit act) \<Rightarrow> 'a list \<Rightarrow> exn option list act" where
  "settle_all f [] = ret []"
| "settle_all f (x # xs) =
     andThen (catching (andThen (f x) (\<lambda>_. ret None)) (\<lambda>e. ret (Some e)))
       (\<lambda>r. andThen (settle_all f xs) (\<lambda>rs. ret (r # rs)))"

text \<open>\<open>deferExcessMessages\<close> gives, for every request, the error it logs.\<close>

definition deferExcessMessages ::
  "env \<Rightarrow> batch_queue \<Rightarrow> sqs_message list \<Rightarrow> exn option list act" where
  "deferExcessMessages env queue messages =
     (let receipts = receipts_of messages
      in andThen (releaseAll env receipts) (\<lambda>_. settle_all (deferBatch env queue) (batches_of 10 receipts)))"

section \<open>The loop\<close>

datatype phase =
  Racing
| Batch "sqs_message list"
| ToConfirm sqs_message acknowledge "sqs_message list"
| Draining
| Ended "exn option"

record cycle =
  awaiting :: "nat list"
  arrived :: "(nat \<times> (exn + sqs_message list)) list"
  phase :: phase
  turns :: tenant_turns
  deferred :: "sqs_message list"
  acks :: "(sqs_message \<times> acknowledge) confirmations"
  receiveFailed :: bool
  world_of :: world
  received :: "sqs_message list"
  skippedMessages :: "sqs_message list"
  handledMessages :: "sqs_message list"
  askedTurns :: "string list"
  logged :: "(sqs_message \<times> exn) list"

definition startCycle :: "world \<Rightarrow> cycle" where
  "startCycle w = \<lparr>awaiting = [0..<RECEIVE_BATCHES], arrived = [], phase = Racing,
     turns = \<lparr>used = [], limit = DEFAULT_TURN_LIMIT\<rparr>, deferred = [],
     acks = \<lparr>task_limit = DEFAULT_CONFIRMATION_LIMIT, tasks = [], next_task = 0, callbackErrors = []\<rparr>,
     receiveFailed = False, world_of = w, received = [], skippedMessages = [], handledMessages = [],
     askedTurns = [], logged = []\<rparr>"

definition trackAll :: "sqs_message list \<Rightarrow> world \<Rightarrow> world" where
  "trackAll ms w = w\<lparr>held := foldl (\<lambda>ls r. track (now w) r ls) (held w) (receipts_of ms)\<rparr>"

datatype disposition = NotOwned | OverBudget | Returned "acknowledge option" | Threw exn

text \<open>The function the loop passes to \<open>processDeliveryBatch\<close>.\<close>

definition releaseOf :: "env \<Rightarrow> sqs_message \<Rightarrow> unit act" where
  "releaseOf env message =
     (if truthy_text (ReceiptHandle message) then releaseLease env (the (ReceiptHandle message)) else ret ())"

definition runHandler :: "env \<Rightarrow> string \<Rightarrow> sqs_message \<Rightarrow> acknowledge option act" where
  "runHandler env targetUrl message =
     catching
       (andThen (handleMessage env targetUrl message) (\<lambda>acknowledge.
          andThen (if acknowledge = None then releaseOf env message else ret ()) (\<lambda>_. ret acknowledge)))
       (\<lambda>err. andThen (releaseOf env message) (\<lambda>_. throw err))"

definition dispatch :: "env \<Rightarrow> string \<Rightarrow> sqs_message \<Rightarrow> tenant_turns \<Rightarrow> world \<Rightarrow> disposition \<times> tenant_turns \<times> world" where
  "dispatch env targetUrl message ts w =
     (if truthy_text (ReceiptHandle message) \<and> \<not> isCurrent (now w) (the (ReceiptHandle message)) (held w)
      then (NotOwned, ts, snd (releaseOf env message w))
      else let (granted, ts') = (case parseQueueMessage (message_body message) of
                 None \<Rightarrow> (True, ts) | Some parsed \<Rightarrow> take_turn ts (qm_tenantId parsed))
           in if \<not> granted then (OverBudget, ts', w)
              else (case runHandler env targetUrl message w of
                      (Inl e, w') \<Rightarrow> (Threw e, ts', w') | (Inr a, w') \<Rightarrow> (Returned a, ts', w')))"

definition asked :: "sqs_message \<Rightarrow> string list" where
  "asked message = (case parseQueueMessage (message_body message) of None \<Rightarrow> [] | Some m \<Rightarrow> [qm_tenantId m])"

definition nextMessage :: "env \<Rightarrow> string \<Rightarrow> sqs_message \<Rightarrow> sqs_message list \<Rightarrow> cycle \<Rightarrow> cycle" where
  "nextMessage env targetUrl m ms c =
     (let (d, ts, w) = dispatch env targetUrl m (turns c) (world_of c);
          c = c\<lparr>turns := ts, world_of := w\<rparr>
      in case d of
           NotOwned \<Rightarrow> c\<lparr>phase := Batch ms, skippedMessages := skippedMessages c @ [m]\<rparr>
         | OverBudget \<Rightarrow> c\<lparr>phase := Batch ms, deferred := deferred c @ [m], askedTurns := askedTurns c @ asked m\<rparr>
         | Returned None \<Rightarrow> c\<lparr>phase := Batch ms, handledMessages := handledMessages c @ [m], askedTurns := askedTurns c @ asked m\<rparr>
         | Returned (Some a) \<Rightarrow> c\<lparr>phase := ToConfirm m a ms, handledMessages := handledMessages c @ [m], askedTurns := askedTurns c @ asked m\<rparr>
         | Threw e \<Rightarrow> c\<lparr>phase := Batch ms, handledMessages := handledMessages c @ [m], askedTurns := askedTurns c @ asked m,
                       logged := logged c @ [(m, e)]\<rparr>)"

definition runTask :: "env \<Rightarrow> nat \<Rightarrow> sqs_message \<Rightarrow> acknowledge \<Rightarrow> cycle \<Rightarrow> cycle" where
  "runTask env k m a c =
     (let (res, w) = runAcknowledge env a (world_of c); c = c\<lparr>world_of := w, acks := deleteTask k (acks c)\<rparr>
      in case res of Inl e \<Rightarrow> c\<lparr>logged := logged c @ [(m, e)]\<rparr> | Inr _ \<Rightarrow> c)"

inductive cycle_step :: "string \<Rightarrow> cycle \<Rightarrow> cycle \<Rightarrow> bool" for targetUrl :: string where
  arrives: "i \<in> set (awaiting c) \<Longrightarrow> length ms \<le> 10 \<Longrightarrow>
    cycle_step targetUrl c (c\<lparr>awaiting := remove1 i (awaiting c), arrived := arrived c @ [(i, Inr ms)],
      received := received c @ ms, world_of := trackAll ms (world_of c)\<rparr>)"
| receive_fails: "i \<in> set (awaiting c) \<Longrightarrow>
    cycle_step targetUrl c (c\<lparr>awaiting := remove1 i (awaiting c), arrived := arrived c @ [(i, Inl e)]\<rparr>)"
| race: "phase c = Racing \<Longrightarrow> (i, r) \<in> set (arrived c) \<Longrightarrow>
    cycle_step targetUrl c (c\<lparr>arrived := remove1 (i, r) (arrived c),
      phase := Batch (case r of Inl _ \<Rightarrow> [] | Inr ms \<Rightarrow> ms), receiveFailed := receiveFailed c \<or> isl r\<rparr>)"
| dispatch: "phase c = Batch (m # ms) \<Longrightarrow> cycle_step targetUrl c (nextMessage env targetUrl m ms c)"
| schedule: "phase c = ToConfirm m a ms \<Longrightarrow> \<not> full (acks c) \<Longrightarrow>
    cycle_step targetUrl c (c\<lparr>phase := Batch ms, acks := addTask (m, a) (acks c)\<rparr>)"
| acknowledge: "(k, m, a) \<in> set (tasks (acks c)) \<Longrightarrow> cycle_step targetUrl c (runTask env k m a c)"
| batch_done: "phase c = Batch [] \<Longrightarrow> cycle_step targetUrl c (c\<lparr>phase := Racing\<rparr>)"
| all_received: "phase c = Racing \<Longrightarrow> awaiting c = [] \<Longrightarrow> arrived c = [] \<Longrightarrow>
    cycle_step targetUrl c (c\<lparr>phase := Draining\<rparr>)"
| drained: "phase c = Draining \<Longrightarrow> tasks (acks c) = [] \<Longrightarrow>
    cycle_step targetUrl c (c\<lparr>phase := Ended (drainResult (acks c)),
      world_of := (if drainResult (acks c) = None
        then snd (deferExcessMessages env queue (deferred c) (world_of c)) else world_of c)\<rparr>)"
| elsewhere: "now (world_of c) \<le> now w \<Longrightarrow> deleted w = deleted (world_of c) \<Longrightarrow>
    cycle_step targetUrl c (c\<lparr>world_of := w\<rparr>)"

section \<open>Accounting\<close>

definition tenant_of_message :: "sqs_message \<Rightarrow> string option" where
  "tenant_of_message m = map_option qm_tenantId (parseQueueMessage (message_body m))"

definition of_tenant :: "string \<Rightarrow> sqs_message list \<Rightarrow> nat" where
  "of_tenant t ms = length (filter (\<lambda>m. tenant_of_message m = Some t) ms)"

lemma of_tenant_append [simp]: "of_tenant t (xs @ ys) = of_tenant t xs + of_tenant t ys"
  by (simp add: of_tenant_def)

lemma of_tenant_single: "of_tenant t [m] = count_list (asked m) t"
  by (auto simp: of_tenant_def tenant_of_message_def asked_def split: option.splits)

text \<open>The messages still to be handled.\<close>

fun batch_rest :: "phase \<Rightarrow> sqs_message list" where
  "batch_rest (Batch ms) = ms"
| "batch_rest (ToConfirm m a ms) = ms"
| "batch_rest _ = []"

definition waiting_messages :: "(nat \<times> (exn + sqs_message list)) list \<Rightarrow> sqs_message list" where
  "waiting_messages as = concat (map (\<lambda>(_, r). case r of Inl _ \<Rightarrow> [] | Inr ms \<Rightarrow> ms) as)"

definition accounts :: "cycle \<Rightarrow> bool" where
  "accounts c \<longleftrightarrow>
     mset (received c) = mset (skippedMessages c) + mset (deferred c) + mset (handledMessages c)
       + mset (batch_rest (phase c)) + mset (waiting_messages (arrived c))"

definition fair :: "cycle \<Rightarrow> bool" where
  "fair c \<longleftrightarrow> turns_after 10 (askedTurns c) (turns c)
     \<and> (\<forall>t. of_tenant t (handledMessages c) + of_tenant t (deferred c) = count_list (askedTurns c) t
           \<and> int (of_tenant t (handledMessages c)) = min 10 (int (count_list (askedTurns c) t)))"

fun confirming_ok :: "phase \<Rightarrow> sqs_message list \<Rightarrow> bool" where
  "confirming_ok (ToConfirm m a ms) hs \<longleftrightarrow> a = Acknowledge (the (ReceiptHandle m)) \<and> m \<in> set hs"
| "confirming_ok _ hs \<longleftrightarrow> True"

definition deleted_ok :: "string list \<Rightarrow> cycle \<Rightarrow> bool" where
  "deleted_ok del0 c \<longleftrightarrow>
     (\<forall>r \<in> set (deleted (world_of c)) - set del0. \<exists>m \<in> set (handledMessages c). r = the (ReceiptHandle m))
   \<and> (\<forall>(k, m, a) \<in> set (tasks (acks c)). a = Acknowledge (the (ReceiptHandle m)) \<and> m \<in> set (handledMessages c))
   \<and> confirming_ok (phase c) (handledMessages c)"

text \<open>Putting messages back deletes nothing.\<close>

lemma deleted_releaseLease [simp]: "deleted (snd (releaseLease env r w)) = deleted w"
  by (simp add: releaseLease_def tick_for_def andThen_def modify_def)

lemma deleted_releaseOf [simp]: "deleted (snd (releaseOf env m w)) = deleted w"
  by (simp add: releaseOf_def ret_def)

lemma releaseOf_Inr: "fst (releaseOf env m w) = Inr ()"
  by (simp add: releaseOf_def ret_def releaseLease_def tick_for_def andThen_def modify_def)

lemma releaseAll_Inr: "fst (releaseAll env rs w) = Inr ()" "deleted (snd (releaseAll env rs w)) = deleted w"
  by (induction rs arbitrary: w) (simp_all add: ret_def andThen_def releaseLease_def tick_for_def modify_def)

lemma keeps_deferBatch: "keeps (\<lambda>w. deleted w = del) (deferBatch env queue b)"
  unfolding deferBatch_def observeSqsOperation_def Let_def recordMetric_def
  by (intro keeps_andThen keeps_catching keeps_if keeps_modify keeps_ret keeps_throw)
    (auto simp: keeps_def changeVisibilityBatch_def Let_def split: sum.splits prod.splits)

lemma keeps_settle_all: "(\<And>x. keeps P (f x)) \<Longrightarrow> keeps P (settle_all f xs)"
  by (induction xs) (auto intro!: keeps_andThen keeps_catching keeps_ret)

lemma deleted_defer: "deleted (snd (deferExcessMessages env queue ms w)) = deleted w"
proof -
  have "keeps (\<lambda>v. deleted v = deleted w) (settle_all (deferBatch env queue) bs)" for bs
    by (rule keeps_settle_all) (rule keeps_deferBatch)
  note kept = keepsD [OF this]
  obtain w1 where "releaseAll env (receipts_of ms) w = (Inr (), w1)" "deleted w1 = deleted w"
    using releaseAll_Inr [of env "receipts_of ms" w] by (cases "releaseAll env (receipts_of ms) w") auto
  then show ?thesis using kept [of w1] by (simp add: deferExcessMessages_def Let_def andThen_def)
qed

lemma handler_deletes_own:
  assumes "handleMessage env u m w = (res, w')"
  shows "deleted w' = deleted w \<or> deleted w' = deleted w @ [the (ReceiptHandle m)]"
    and "res = Inr (Some a) \<Longrightarrow> a = Acknowledge (the (ReceiptHandle m))"
proof -
  let ?D = "\<lambda>del. del = deleted w \<or> del = deleted w @ [the (ReceiptHandle m)]"
  have "triple (core (\<lambda>_ del _. del = deleted w)) (handleMessage env u m)
     (\<lambda>res. core (\<lambda>_ del _. ?D del \<and> (\<forall>a. res = Some a \<longrightarrow> a = Acknowledge (the (ReceiptHandle m)))))
     (core (\<lambda>_ del _. ?D del))"
    by (rule triple_handle [where A = "\<lambda>_ _ _ del _. del = deleted w" and B = "\<lambda>_ _ _ del _. del = deleted w"
          and R = "\<lambda>_ _ _ del _. del = deleted w"]) auto
  from handle_triple [OF this _ assms] show "?D (deleted w')" "res = Inr (Some a) \<Longrightarrow> a = Acknowledge (the (ReceiptHandle m))"
    by (auto split: sum.splits)
qed

lemma runHandler_deletes_own:
  assumes "runHandler env u m w = (res, w')"
  shows "deleted w' = deleted w \<or> deleted w' = deleted w @ [the (ReceiptHandle m)]"
    and "res = Inr (Some a) \<Longrightarrow> a = Acknowledge (the (ReceiptHandle m))"
proof -
  obtain r w1 where h: "handleMessage env u m w = (r, w1)" by fastforce
  obtain w2 where rel: "releaseOf env m w1 = (Inr (), w2)" "deleted w2 = deleted w1"
    using releaseOf_Inr [of env m w1] deleted_releaseOf [of env m w1] by (cases "releaseOf env m w1") auto
  have res: "(deleted w' = deleted w1) \<and> (res = r)"
    using assms h rel
    by (cases r) (auto simp: runHandler_def andThen_def catching_def ret_def throw_def split: if_splits)
  from handler_deletes_own [OF h] show "deleted w' = deleted w \<or> deleted w' = deleted w @ [the (ReceiptHandle m)]"
    "res = Inr (Some a) \<Longrightarrow> a = Acknowledge (the (ReceiptHandle m))" by (simp_all add: res)
qed

text \<open>What a dispatch does, by its outcome.\<close>

definition dispatch_ok :: "string list \<Rightarrow> sqs_message \<Rightarrow> tenant_turns \<Rightarrow> world \<Rightarrow> disposition \<Rightarrow> tenant_turns \<Rightarrow> world \<Rightarrow> bool" where
  "dispatch_ok h m ts w d ts' w' \<longleftrightarrow>
     (case d of
        NotOwned \<Rightarrow> ts' = ts \<and> deleted w' = deleted w
      | OverBudget \<Rightarrow> turns_after 10 (h @ asked m) ts' \<and> deleted w' = deleted w
          \<and> (\<exists>t. asked m = [t] \<and> 10 \<le> int (count_list h t))
      | _ \<Rightarrow> turns_after 10 (h @ asked m) ts' \<and> (\<forall>t \<in> set (asked m). int (count_list h t) < 10)
          \<and> (deleted w' = deleted w \<or> deleted w' = deleted w @ [the (ReceiptHandle m)])
          \<and> (\<forall>a. d = Returned (Some a) \<longrightarrow> a = Acknowledge (the (ReceiptHandle m))))"

lemma dispatch_outcome:
  assumes "turns_after 10 h ts" and "dispatch env u m ts w = (d, ts', w')"
  shows "dispatch_ok h m ts w d ts' w'"
proof (cases "truthy_text (ReceiptHandle m) \<and> \<not> isCurrent (now w) (the (ReceiptHandle m)) (held w)")
  case True
  then show ?thesis using assms(2) deleted_releaseOf [of env m w] by (auto simp: dispatch_def dispatch_ok_def)
next
  case False
  let ?grant = "case parseQueueMessage (message_body m) of None \<Rightarrow> (True, ts) | Some p \<Rightarrow> take_turn ts (qm_tenantId p)"
  obtain granted ts1 where g: "?grant = (granted, ts1)" by (cases ?grant)
  have turns: "turns_after 10 (h @ asked m) ts1 \<and> (granted \<longleftrightarrow> (\<forall>t \<in> set (asked m). int (count_list h t) < 10))"
  proof (cases "parseQueueMessage (message_body m)")
    case (Some p)
    then show ?thesis using g take_turn_after [OF assms(1), of "qm_tenantId p"] by (simp add: asked_def)
  qed (use g assms(1) in \<open>simp add: asked_def\<close>)
  show ?thesis
  proof (cases granted)
    case False
    then have "d = OverBudget" "ts' = ts1" "w' = w"
      using assms(2) g \<open>\<not> (truthy_text _ \<and> _)\<close> by (auto simp: dispatch_def)
    then show ?thesis using turns False by (auto simp: dispatch_ok_def asked_def split: option.splits)
  next
    case True
    obtain res w1 where r: "runHandler env u m w = (res, w1)" by fastforce
    have "ts' = ts1" "w' = w1" "d = (case res of Inl e \<Rightarrow> Threw e | Inr a \<Rightarrow> Returned a)"
      using assms(2) g True r \<open>\<not> (truthy_text _ \<and> _)\<close> by (auto simp: dispatch_def split: sum.splits)
    then show ?thesis using turns True runHandler_deletes_own [OF r]
      by (auto simp: dispatch_ok_def split: sum.splits)
  qed
qed

definition cycle_inv :: "string list \<Rightarrow> cycle \<Rightarrow> bool" where
  "cycle_inv del0 c \<longleftrightarrow> accounts c \<and> fair c \<and> deleted_ok del0 c \<and> callbackErrors (acks c) = []
     \<and> (phase c = Draining \<or> (\<exists>e. phase c = Ended e) \<longrightarrow> awaiting c = [] \<and> arrived c = [])"

lemma cycle_inv_start: "cycle_inv (deleted w) (startCycle w)"
  by (simp add: cycle_inv_def accounts_def fair_def deleted_ok_def startCycle_def waiting_messages_def
      turns_after_def DEFAULT_TURN_LIMIT_def of_tenant_def)

lemma count_single: "count_list [x] t = (if x = t then 1 else 0)"
  by simp

lemma of_tenant_snoc: "of_tenant t (xs @ [m]) = of_tenant t xs + count_list (asked m) t"
  by (simp add: of_tenant_single)

lemma asked_cases: "asked m = [] \<or> (\<exists>t. asked m = [t])"
  by (auto simp: asked_def split: option.splits)

lemma cycle_inv_next:
  assumes inv: "cycle_inv del0 c" and ph: "phase c = Batch (m # ms)"
  shows "cycle_inv del0 (nextMessage env u m ms c)"
proof -
  obtain d ts w where d: "dispatch env u m (turns c) (world_of c) = (d, ts, w)" by (cases "dispatch env u m (turns c) (world_of c)") auto
  have "turns_after 10 (askedTurns c) (turns c)" using inv by (simp add: cycle_inv_def fair_def)
  note out = dispatch_outcome [OF this d]
  have acc: "mset (received c) = mset (skippedMessages c) + mset (deferred c) + mset (handledMessages c)
       + add_mset m (mset ms) + mset (waiting_messages (arrived c))"
    using inv ph by (simp add: cycle_inv_def accounts_def)
  have fair: "of_tenant t (handledMessages c) + of_tenant t (deferred c) = count_list (askedTurns c) t"
    "int (of_tenant t (handledMessages c)) = min 10 (int (count_list (askedTurns c) t))" for t
    using inv by (simp_all add: cycle_inv_def fair_def)
  have del: "deleted_ok del0 c" and rest: "callbackErrors (acks c) = []" using inv by (simp_all add: cycle_inv_def)
  have handled: "int (of_tenant t (handledMessages c @ [m])) = min 10 (int (count_list (askedTurns c @ asked m) t))"
    if "\<forall>t \<in> set (asked m). int (count_list (askedTurns c) t) < 10" for t
    using fair(2) [of t] that asked_cases [of m] by (auto simp: of_tenant_single)
  have over: "int (of_tenant t (handledMessages c)) = min 10 (int (count_list (askedTurns c @ [x]) t))"
    if "10 \<le> int (count_list (askedTurns c) x)" for t x
    using fair(2) [of t] that by (cases "x = t") auto
  have fair1: "of_tenant t (handledMessages c @ [m]) + of_tenant t (deferred c) = count_list (askedTurns c @ asked m) t"
    "of_tenant t (handledMessages c) + of_tenant t (deferred c @ [m]) = count_list (askedTurns c @ asked m) t" for t
    using fair(1) [of t] by (simp_all add: of_tenant_single)
  note parts = cycle_inv_def accounts_def deleted_ok_def fair_def
  show ?thesis
  proof (cases d)
    case NotOwned
    then show ?thesis using out acc fair del rest ph d inv
      by (auto simp: nextMessage_def parts dispatch_ok_def)
  next
    case OverBudget
    then obtain x where "asked m = [x]" "10 \<le> int (count_list (askedTurns c) x)" "turns_after 10 (askedTurns c @ [x]) ts"
      "deleted w = deleted (world_of c)" using out by (auto simp: dispatch_ok_def)
    then show ?thesis using acc fair1(2) over del rest ph OverBudget d
      by (auto simp: nextMessage_def parts)
  next
    case (Returned a)
    then show ?thesis using out acc fair1(1) handled del rest ph d
      by (cases a) (auto simp: nextMessage_def parts dispatch_ok_def)
  next
    case (Threw e)
    then show ?thesis using out acc fair1(1) handled del rest ph d
      by (auto simp: nextMessage_def parts dispatch_ok_def)
  qed
qed

lemma acknowledge_deletes:
  "deleted (snd (acknowledgeMessage env r w)) = deleted w \<or> deleted (snd (acknowledgeMessage env r w)) = deleted w @ [r]"
proof -
  have "triple (core (\<lambda>_ del _. del = deleted w)) (acknowledgeMessage env r)
     (\<lambda>_. core (\<lambda>_ del _. del = deleted w \<or> del = deleted w @ [r])) (core (\<lambda>_ del _. del = deleted w \<or> del = deleted w @ [r]))"
    by (rule triple_conseq [OF triple_acknowledge [where P = "\<lambda>_ del _. del = deleted w" and
            Q = "\<lambda>_ del _. del = deleted w \<or> del = deleted w @ [r]"]]) (auto simp: core_def)
  from tripleD [OF this, of w] show ?thesis by (auto simp: core_def split: sum.splits prod.splits)
qed

lemma task_members:
  assumes "(k, m, a) \<in> set (tasks c)"
  shows "set (tasks (deleteTask k c)) \<subseteq> set (tasks c)" "callbackErrors (deleteTask k c) = callbackErrors c"
  by (auto simp: deleteTask_def)

lemma cycle_inv_task:
  assumes inv: "cycle_inv del0 c" and task: "(k, m, a) \<in> set (tasks (acks c))"
  shows "cycle_inv del0 (runTask env k m a c)"
proof -
  have a: "a = Acknowledge (the (ReceiptHandle m))" "m \<in> set (handledMessages c)"
    using inv task by (auto simp: cycle_inv_def deleted_ok_def)
  obtain res w where run: "runAcknowledge env a (world_of c) = (res, w)" by (cases "runAcknowledge env a (world_of c)") auto
  have del: "deleted w = deleted (world_of c) \<or> deleted w = deleted (world_of c) @ [the (ReceiptHandle m)]"
    using acknowledge_deletes [of env "the (ReceiptHandle m)" "world_of c"] run by (simp add: runAcknowledge_def a(1))
  have "deleted_ok del0 (c\<lparr>world_of := w, acks := deleteTask k (acks c)\<rparr>)"
    using inv del a(2) task_members(1) [OF task] by (auto simp: cycle_inv_def deleted_ok_def)
  moreover have "runTask env k m a c = c\<lparr>world_of := w, acks := deleteTask k (acks c)\<rparr>
      \<or> (\<exists>e. runTask env k m a c = c\<lparr>world_of := w, acks := deleteTask k (acks c), logged := logged c @ [(m, e)]\<rparr>)"
    by (cases res) (auto simp: runTask_def run)
  ultimately show ?thesis using inv task_members(2) [OF task]
    by (auto simp: cycle_inv_def accounts_def fair_def deleted_ok_def)
qed

lemma waiting_remove:
  assumes "(i, r) \<in> set as"
  shows "mset (waiting_messages as) = mset (case r of Inl _ \<Rightarrow> [] | Inr ms \<Rightarrow> ms) + mset (waiting_messages (remove1 (i, r) as))"
  using assms by (induction as) (auto simp: waiting_messages_def)

lemma waiting_snoc: "waiting_messages (as @ [(i, r)]) = waiting_messages as @ (case r of Inl _ \<Rightarrow> [] | Inr ms \<Rightarrow> ms)"
  by (simp add: waiting_messages_def)

lemma remove1_empty: "i \<in> set xs \<Longrightarrow> xs \<noteq> []" by auto

lemma cycle_inv_step:
  assumes "cycle_step u c c'" and inv: "cycle_inv del0 c"
  shows "cycle_inv del0 c'"
  using assms(1)
proof cases
  case (arrives i ms)
  then show ?thesis using inv
    by (auto simp: cycle_inv_def accounts_def fair_def deleted_ok_def waiting_snoc trackAll_def dest: remove1_empty)
next
  case (receive_fails i e)
  then show ?thesis using inv
    by (auto simp: cycle_inv_def accounts_def fair_def deleted_ok_def waiting_snoc dest: remove1_empty)
next
  case (race i r)
  then show ?thesis using inv waiting_remove [OF race(3)]
    by (auto simp: cycle_inv_def accounts_def fair_def deleted_ok_def)
next
  case (dispatch m ms env)
  then show ?thesis using cycle_inv_next [OF inv] by simp
next
  case (schedule m a ms)
  then show ?thesis using inv
    by (auto simp: cycle_inv_def accounts_def fair_def deleted_ok_def addTask_def)
next
  case (acknowledge k m a env)
  then show ?thesis using cycle_inv_task [OF inv] by simp
next
  case batch_done
  then show ?thesis using inv by (auto simp: cycle_inv_def accounts_def fair_def deleted_ok_def)
next
  case all_received
  then show ?thesis using inv by (auto simp: cycle_inv_def accounts_def fair_def deleted_ok_def)
next
  case (drained env queue)
  then show ?thesis using inv by (auto simp: cycle_inv_def accounts_def fair_def deleted_ok_def deleted_defer)
next
  case (elsewhere w)
  then show ?thesis using inv by (auto simp: cycle_inv_def accounts_def fair_def deleted_ok_def)
qed

lemma cycle_inv_steps: "(cycle_step u)\<^sup>*\<^sup>* c c' \<Longrightarrow> cycle_inv del0 c \<Longrightarrow> cycle_inv del0 c'"
  by (induction rule: rtranclp_induct) (auto intro: cycle_inv_step)

text \<open>C17: For every interleaving of the receives, the handler, the acknowledgements and whatever else
  happens, when a receive cycle ends every message received was skipped because its lease was lost, put
  back because its tenant had no turn left, or handled, exactly one of them; a tenant had ten messages
  handled or, when it had fewer, all of them; and only receipts of handled messages were deleted.\<close>

theorem receive_cycle_is_fair_and_complete:
  assumes "(cycle_step targetUrl)\<^sup>*\<^sup>* (startCycle w) c" and "phase c = Ended e"
  shows "mset (received c) = mset (skippedMessages c) + mset (deferred c) + mset (handledMessages c)
    \<and> of_tenant t (handledMessages c) = min 10 (of_tenant t (handledMessages c) + of_tenant t (deferred c))
    \<and> set (deleted (world_of c)) \<subseteq> set (deleted w) \<union> {the (ReceiptHandle m) |m. m \<in> set (handledMessages c)}"
proof -
  have inv: "cycle_inv (deleted w) c" by (rule cycle_inv_steps [OF assms(1) cycle_inv_start])
  have "int (of_tenant t (handledMessages c)) = min 10 (int (of_tenant t (handledMessages c) + of_tenant t (deferred c)))"
    using inv by (simp add: cycle_inv_def fair_def)
  then have "of_tenant t (handledMessages c) = min 10 (of_tenant t (handledMessages c) + of_tenant t (deferred c))" by linarith
  then show ?thesis using inv assms(2)
    by (auto simp: cycle_inv_def accounts_def deleted_ok_def waiting_messages_def)
qed

text \<open>A cycle in which nine receives fail and the tenth brings a message without a receipt.\<close>

lemma fail_all:
  "phase c = Racing \<Longrightarrow> arrived c = [] \<Longrightarrow> \<exists>f. (cycle_step u)\<^sup>*\<^sup>* c (c\<lparr>awaiting := [], receiveFailed := f\<rparr>)"
proof (induction "awaiting c" arbitrary: c)
  case Nil
  then have "c = c\<lparr>awaiting := [], receiveFailed := receiveFailed c\<rparr>" by simp
  then show ?case using rtranclp.rtrancl_refl [of "cycle_step u" c] by metis
next
  case (Cons i ids)
  let ?e = "Error ''down''"
  let ?c1 = "c\<lparr>awaiting := ids, arrived := [(i, Inl ?e)]\<rparr>"
  let ?c2 = "c\<lparr>awaiting := ids, phase := Batch [], receiveFailed := True\<rparr>"
  let ?c3 = "c\<lparr>awaiting := ids, receiveFailed := True\<rparr>"
  have "cycle_step u c (c\<lparr>awaiting := remove1 i (awaiting c), arrived := arrived c @ [(i, Inl ?e)]\<rparr>)"
    by (rule receive_fails) (simp add: Cons(2) [symmetric])
  then have s1: "cycle_step u c ?c1" using Cons.prems(2) Cons(2) [symmetric] by simp
  have same: "c\<lparr>awaiting := ids, arrived := [], phase := Batch [], receiveFailed := True\<rparr> = ?c2"
    using Cons.prems(2) by (cases c) simp
  have "cycle_step u ?c1 (c\<lparr>awaiting := ids, arrived := [], phase := Batch [], receiveFailed := True\<rparr>)"
    using race [of ?c1 i "Inl ?e" u] Cons.prems by simp
  then have s2: "cycle_step u ?c1 ?c2" by (simp only: same)
  have "c\<lparr>awaiting := ids, receiveFailed := True, phase := Racing\<rparr> = ?c3" using Cons.prems(1) by (cases c) simp
  moreover have "cycle_step u ?c2 (c\<lparr>awaiting := ids, receiveFailed := True, phase := Racing\<rparr>)"
    using batch_done [of ?c2 u] by simp
  ultimately have s3: "cycle_step u ?c2 ?c3" by simp
  obtain f where "(cycle_step u)\<^sup>*\<^sup>* ?c3 (c\<lparr>awaiting := [], receiveFailed := f\<rparr>)"
    using Cons(1) [of ?c3] Cons.prems by auto
  with s1 s2 s3 show ?case by (meson converse_rtranclp_into_rtranclp)
qed

definition no_receipt :: sqs_message where
  "no_receipt = \<lparr>ReceiptHandle = None, Body = None\<rparr>"

lemma dispatch_no_receipt:
  "dispatch env u no_receipt ts w = (Threw (Error ''SQS message missing ReceiptHandle''), ts, w)"
  "asked no_receipt = []"
proof -
  have "parseQueueMessage [] = None" by code_simp
  then show "dispatch env u no_receipt ts w = (Threw (Error ''SQS message missing ReceiptHandle''), ts, w)"
    "asked no_receipt = []"
    by (simp_all add: dispatch_def no_receipt_def truthy_text_def message_body_def runHandler_def handleMessage_def
        catching_def andThen_def throw_def releaseOf_def ret_def asked_def)
qed

lemma example_cycle:
  "\<exists>c. (cycle_step ''u'')\<^sup>*\<^sup>* (startCycle w) c \<and> phase c = Ended None \<and> received c = [no_receipt]"
proof -
  let ?s = "startCycle w" and ?e = "Error ''SQS message missing ReceiptHandle''"
  have await: "awaiting ?s = 0 # [1..<10]" by (simp add: startCycle_def RECEIVE_BATCHES_def upt_conv_Cons)
  let ?c1 = "?s\<lparr>awaiting := [1..<10], arrived := [(0, Inr [no_receipt])], received := [no_receipt]\<rparr>"
  let ?c2 = "?s\<lparr>awaiting := [1..<10], received := [no_receipt], phase := Batch [no_receipt]\<rparr>"
  let ?c3 = "?s\<lparr>awaiting := [1..<10], received := [no_receipt], phase := Batch [],
    handledMessages := [no_receipt], logged := [(no_receipt, ?e)]\<rparr>"
  let ?c4 = "?c3\<lparr>phase := Racing\<rparr>"
  have track: "trackAll [no_receipt] w = w" by (simp add: trackAll_def receipts_of_def no_receipt_def truthy_text_def)
  have s1: "cycle_step ''u'' ?s ?c1"
    using arrives [of 0 ?s "[no_receipt]" "''u''"] by (simp add: await track) (simp add: startCycle_def track)
  have s2: "cycle_step ''u'' ?c1 ?c2"
    using race [of ?c1 0 "Inr [no_receipt]" "''u''"] by (simp add: startCycle_def)
  have s3: "cycle_step ''u'' ?c2 ?c3"
    using cycle_step.dispatch [of ?c2 no_receipt "[]" "''u''" plain_env]
    by (simp add: nextMessage_def dispatch_no_receipt) (simp add: startCycle_def)
  have s4: "cycle_step ''u'' ?c3 ?c4" using batch_done [of ?c3 "''u''"] by simp
  obtain f where "(cycle_step ''u'')\<^sup>*\<^sup>* ?c4 (?c4\<lparr>awaiting := [], receiveFailed := f\<rparr>)"
    using fail_all [of ?c4 "''u''"] by (auto simp: startCycle_def)
  moreover let ?c5 = "?c4\<lparr>awaiting := [], receiveFailed := f\<rparr>"
  have s5: "cycle_step ''u'' ?c5 (?c5\<lparr>phase := Draining\<rparr>)"
    using all_received [of ?c5 "''u''"] by (simp add: startCycle_def)
  moreover let ?c6 = "?c5\<lparr>phase := Draining\<rparr>"
  have "\<exists>c. cycle_step ''u'' ?c6 c \<and> phase c = Ended None \<and> received c = [no_receipt]"
    by (intro exI conjI, rule drained [where env = plain_env and queue = "\<lambda>_. ([], Inl ?e)"])
      (simp_all add: startCycle_def drainResult_def)
  ultimately show ?thesis using s1 s2 s3 s4 by (meson converse_rtranclp_into_rtranclp rtranclp.rtrancl_into_rtrancl)
qed

theorem receive_cycle_is_fair_and_complete_witness:
  "\<exists>c :: cycle. received c = [no_receipt]
    \<and> mset (received c) = mset (skippedMessages c) + mset (deferred c) + mset (handledMessages c)
    \<and> of_tenant ''t'' (handledMessages c) = min 10 (of_tenant ''t'' (handledMessages c) + of_tenant ''t'' (deferred c))
    \<and> set (deleted (world_of c)) \<subseteq> set (deleted empty_world) \<union> {the (ReceiptHandle m) |m. m \<in> set (handledMessages c)}"
proof -
  obtain c where c: "(cycle_step ''u'')\<^sup>*\<^sup>* (startCycle empty_world) c" "phase c = Ended None" "received c = [no_receipt]"
    using example_cycle [of empty_world] by blast
  show ?thesis by (rule exI, rule conjI [OF c(3) receive_cycle_is_fair_and_complete [OF c(1,2), of "''t''"]])
qed

section \<open>What putting back does\<close>

text \<open>The documented behaviour of the queue: an answer reports an entry as successful only when the queue carried
  it out, and as failed only when it did not; entries that were not sent are not carried out.\<close>

definition successful_ids :: "batch_result \<Rightarrow> string option set" where
  "successful_ids result = set (case Successful result of None \<Rightarrow> [] | Some es \<Rightarrow> es)"

definition failed_ids :: "batch_result \<Rightarrow> string option set" where
  "failed_ids result = set (case Failed result of None \<Rightarrow> [] | Some es \<Rightarrow> es)"

definition queue_ok :: "batch_queue \<Rightarrow> bool" where
  "queue_ok queue \<longleftrightarrow> (\<forall>es ids reply. queue es = (ids, reply) \<longrightarrow> set ids \<subseteq> fst ` set es
     \<and> (\<forall>result. reply = Inr result \<longrightarrow> (\<forall>i \<in> fst ` set es.
          (Some i \<in> successful_ids result \<longrightarrow> i \<in> set ids) \<and> (Some i \<in> failed_ids result \<longrightarrow> i \<notin> set ids))))"

text \<open>The receipts that the queue hides for a request, and two ways to answer: every entry was carried out;
  exactly the entries that were carried out are reported.\<close>

definition hidden_by :: "batch_queue \<Rightarrow> string list \<Rightarrow> string set" where
  "hidden_by queue rs = {rs ! i | i. i < length rs \<and> js_String_nat i \<in> set (fst (queue (batch_entries rs)))}"

definition wholly_reported :: "batch_queue \<Rightarrow> string list \<Rightarrow> bool" where
  "wholly_reported queue rs \<longleftrightarrow> (case snd (queue (batch_entries rs)) of Inl _ \<Rightarrow> False
     | Inr result \<Rightarrow> failed_ids result = {} \<and> (\<forall>i < length rs. Some (js_String_nat i) \<in> successful_ids result))"

definition reports_exactly :: "batch_queue \<Rightarrow> string list \<Rightarrow> bool" where
  "reports_exactly queue rs \<longleftrightarrow> (case snd (queue (batch_entries rs)) of Inl _ \<Rightarrow> False
     | Inr result \<Rightarrow> \<forall>i \<in> set (fst (queue (batch_entries rs))). Some i \<in> successful_ids result)"

lemma mem_batch_entries: "(k, r) \<in> set (batch_entries rs) \<longleftrightarrow> (\<exists>i < length rs. k = js_String_nat i \<and> r = rs ! i)"
  by (auto simp: batch_entries_def)

lemma ids_batch_entries: "fst ` set (batch_entries rs) = {js_String_nat i | i. i < length rs}"
  by (force simp: batch_entries_def image_iff)

lemma hidden_by_entries:
  "queue (batch_entries rs) = (ids, reply) \<Longrightarrow> (\<exists>i \<in> set ids. (i, r) \<in> set (batch_entries rs)) \<longleftrightarrow> r \<in> hidden_by queue rs"
  by (auto simp: hidden_by_def mem_batch_entries)

lemma hidden_by_subset: "hidden_by queue rs \<subseteq> set rs"
  by (auto simp: hidden_by_def)

text \<open>What the worker counts as confirmed.\<close>

definition counted_of :: "batch_queue \<Rightarrow> string list \<Rightarrow> string list" where
  "counted_of queue rs = (case snd (queue (batch_entries rs)) of Inl _ \<Rightarrow> [] | Inr result \<Rightarrow> confirmedBatchReceipts rs result)"

lemma counted_hidden:
  assumes "queue_ok queue"
  shows "set (counted_of queue rs) \<subseteq> hidden_by queue rs"
    and "reports_exactly queue rs \<Longrightarrow> set (counted_of queue rs) = hidden_by queue rs"
proof -
  obtain ids reply where q: "queue (batch_entries rs) = (ids, reply)" by fastforce
  have ok: "\<And>result i. reply = Inr result \<Longrightarrow> i < length rs \<Longrightarrow>
      (Some (js_String_nat i) \<in> successful_ids result \<longrightarrow> js_String_nat i \<in> set ids)
      \<and> (Some (js_String_nat i) \<in> failed_ids result \<longrightarrow> js_String_nat i \<notin> set ids)"
    using assms [unfolded queue_ok_def, rule_format, OF q, THEN conjunct2, rule_format] by (auto simp: ids_batch_entries)
  show "set (counted_of queue rs) \<subseteq> hidden_by queue rs"
    using ok by (auto simp: counted_of_def q confirmedBatchReceipts_set hidden_by_def entry_confirmed_def successful_ids_def split: sum.splits)
  show "set (counted_of queue rs) = hidden_by queue rs" if "reports_exactly queue rs"
  proof -
    from that obtain result where r: "reply = Inr result" "\<forall>i \<in> set ids. Some i \<in> successful_ids result"
      by (auto simp: reports_exactly_def q split: sum.splits)
    have "entry_confirmed result i \<longleftrightarrow> js_String_nat i \<in> set ids" if "i < length rs" for i
      using ok [OF r(1) that] r(2) by (auto simp: entry_confirmed_def successful_ids_def failed_ids_def)
    then show ?thesis by (auto simp: counted_of_def q r(1) confirmedBatchReceipts_set hidden_by_def)
  qed
qed

lemma confirmed_reported:
  assumes "distinct rs" and "snd (queue (batch_entries rs)) = Inr result"
  shows "batch_confirmed rs result \<longleftrightarrow> wholly_reported queue rs"
  using assms confirmation_count_is_complete [OF assms(1), of result]
  by (cases "Failed result"; cases "Successful result")
    (auto simp: batch_confirmed_def wholly_reported_def entry_confirmed_def successful_ids_def failed_ids_def)

fun turn_deferrals :: "metric list \<Rightarrow> nat" where
  "turn_deferrals [] = 0"
| "turn_deferrals (DeferralMetric TenantTurn n # ms) = n + turn_deferrals ms"
| "turn_deferrals (_ # ms) = turn_deferrals ms"

lemma turn_deferrals_append [simp]: "turn_deferrals (xs @ ys) = turn_deferrals xs + turn_deferrals ys"
  by (induction xs rule: turn_deferrals.induct) simp_all

lemma deferBatch_effect:
  assumes "metrics_on env" and "deferBatch env queue b w = (res, w')" and "distinct b"
  shows "held w' = held w" "now w' = now w" "deleted w' = deleted w" "db w' = db w"
    "isl res \<longleftrightarrow> \<not> wholly_reported queue b"
    "turn_deferrals (metrics w') = turn_deferrals (metrics w) + length (counted_of queue b)"
    "hidden_until w' = (\<lambda>r. if r \<in> hidden_by queue b then now w + 30000 else hidden_until w r)"
proof -
  obtain ids reply where q: "queue (batch_entries b) = (ids, reply)" by fastforce
  have h: "(\<exists>i \<in> set ids. (i, r) \<in> set (batch_entries b)) \<longleftrightarrow> r \<in> hidden_by queue b" for r by (rule hidden_by_entries [of queue, OF q])
  have c: "reply = Inr result \<Longrightarrow> batch_confirmed b result \<longleftrightarrow> wholly_reported queue b" for result
    by (rule confirmed_reported [OF assms(3)]) (simp add: q)
  have n: "reply = Inl e \<Longrightarrow> \<not> wholly_reported queue b" for e by (simp add: wholly_reported_def q)
  show "held w' = held w" "now w' = now w" "deleted w' = deleted w" "db w' = db w"
    "isl res \<longleftrightarrow> \<not> wholly_reported queue b"
    "turn_deferrals (metrics w') = turn_deferrals (metrics w) + length (counted_of queue b)"
    "hidden_until w' = (\<lambda>r. if r \<in> hidden_by queue b then now w + 30000 else hidden_until w r)"
    using assms(1,2) c n
    by (auto simp: deferBatch_def changeVisibilityBatch_def q h observeSqsOperation_def andThen_def catching_def recordMetric_def
        modify_def ret_def throw_def Let_def counted_of_def split: sum.splits if_splits)
qed

lemma settle_all_defer:
  assumes "metrics_on env"
  shows "settle_all (deferBatch env queue) bs w = (res, w') \<Longrightarrow> \<forall>b \<in> set bs. distinct b \<Longrightarrow>
    held w' = held w \<and> now w' = now w \<and> deleted w' = deleted w \<and> db w' = db w
    \<and> (\<exists>es. res = Inr es \<and> map (\<lambda>e. e = None) es = map (wholly_reported queue) bs)
    \<and> turn_deferrals (metrics w') = turn_deferrals (metrics w) + sum_list (map (length \<circ> counted_of queue) bs)
    \<and> hidden_until w' = (\<lambda>r. if r \<in> (\<Union>b \<in> set bs. hidden_by queue b) then now w + 30000 else hidden_until w r)"
proof (induction bs arbitrary: w res w')
  case (Cons b bs)
  obtain r1 w1 where d: "deferBatch env queue b w = (r1, w1)" by fastforce
  obtain r2 w2 where t: "settle_all (deferBatch env queue) bs w1 = (r2, w2)" by fastforce
  have dist: "distinct b" "\<forall>b \<in> set bs. distinct b" using Cons.prems(2) by simp_all
  note ih = Cons.IH [OF t dist(2)]
  from ih obtain es where es: "r2 = Inr es" "map (\<lambda>e. e = None) es = map (wholly_reported queue) bs" by blast
  have w': "w' = w2" and res: "res = Inr ((case r1 of Inl e \<Rightarrow> Some e | Inr _ \<Rightarrow> None) # es)"
    using Cons.prems(1) d t es(1) by (cases r1; simp add: andThen_def catching_def ret_def)+
  have head: "((case r1 of Inl e \<Rightarrow> Some e | Inr _ \<Rightarrow> None) = None) = wholly_reported queue b"
    using deferBatch_effect(5) [OF assms d dist(1)] by (cases r1) auto
  show ?case
    unfolding w' res using ih deferBatch_effect [OF assms d dist(1)] es head
    by (auto simp: fun_eq_iff)
qed (simp add: ret_def)

text \<open>Disjoint requests: what is counted for each adds up to no more than what is hidden.\<close>

lemma card_hidden:
  assumes "distinct (concat bs)"
  shows "card (\<Union>b \<in> set bs. hidden_by queue b) = sum_list (map (card \<circ> hidden_by queue) bs)"
  using assms
proof (induction bs)
  case (Cons b bs)
  have fin: "finite (hidden_by queue x)" for x using finite_subset [OF hidden_by_subset] by blast
  have "hidden_by queue b \<inter> (\<Union>b \<in> set bs. hidden_by queue b) \<subseteq> set b \<inter> set (concat bs)"
    using hidden_by_subset [of queue] by fastforce
  then have "hidden_by queue b \<inter> (\<Union>b \<in> set bs. hidden_by queue b) = {}" using Cons.prems by auto
  then show ?case using Cons fin by (simp add: card_Un_disjoint)
qed simp

lemma counted_sum:
  assumes "queue_ok queue"
  shows "sum_list (map (length \<circ> counted_of queue) bs) \<le> sum_list (map (card \<circ> hidden_by queue) bs)"
    and "\<forall>b \<in> set bs. reports_exactly queue b \<Longrightarrow>
      sum_list (map (length \<circ> counted_of queue) bs) = sum_list (map (card \<circ> hidden_by queue) bs)"
proof -
  have len: "length (counted_of queue b) = card (set (counted_of queue b))" for b
    by (simp add: counted_of_def distinct_card split: sum.split)
  have fin: "finite (hidden_by queue b)" for b using finite_subset [OF hidden_by_subset] by blast
  have "length (counted_of queue b) \<le> card (hidden_by queue b)" for b
    unfolding len by (rule card_mono [OF fin counted_hidden(1) [OF assms]])
  then show "sum_list (map (length \<circ> counted_of queue) bs) \<le> sum_list (map (card \<circ> hidden_by queue) bs)"
    by (intro sum_list_mono) simp
  show "sum_list (map (length \<circ> counted_of queue) bs) = sum_list (map (card \<circ> hidden_by queue) bs)"
    if "\<forall>b \<in> set bs. reports_exactly queue b"
    using that counted_hidden(2) [OF assms] by (intro arg_cong [of _ _ sum_list] map_cong) (simp_all add: len)
qed

lemma map_of_delete: "map_of (AList.delete k xs) r = (if r = k then None else map_of xs r)"
  by (simp add: delete_conv')

lemma releaseAll_effect:
  "releaseAll env rs w = (res, w') \<Longrightarrow> map_of (receipts (held w')) r = (if r \<in> set rs then None else map_of (receipts (held w)) r)
    \<and> res = Inr () \<and> db w' = db w \<and> deleted w' = deleted w \<and> metrics w' = metrics w \<and> hidden_until w' = hidden_until w"
proof (induction rs arbitrary: w)
  case (Cons x rs)
  let ?w = "w\<lparr>now := now w + int (elapse env WaitRelease), held := fst (release x (held w))\<rparr>"
  have "releaseAll env rs ?w = (res, w')"
    using Cons.prems by (simp add: andThen_def releaseLease_def tick_for_def modify_def)
  from Cons.IH [OF this] show ?case by (auto simp: release_def map_of_delete)
qed (auto simp: ret_def)

lemma distinct_concat_mem: "distinct (concat bs) \<Longrightarrow> b \<in> set bs \<Longrightarrow> distinct b"
  by (induction bs) auto

text \<open>C18: The messages put back at the end of a cycle, for a queue that reports an entry as successful only when
  it carried it out but may lose any answer, and distinct receipts: every lease is given up first, nothing is deleted and no table is
  touched; the receipts that the queue hides, and no others, are hidden for thirty seconds; no more deferrals
  are counted than receipts were hidden, and just as many when every answer arrives and reports all that was
  done; and an error is logged for exactly the requests whose answer did not report every message, so the
  messages of a request without an error are all hidden.\<close>

theorem deferral_accounts_for_every_answer:
  assumes "metrics_on env" and "deferExcessMessages env queue ms w = (res, w')"
    and "queue_ok queue" and "distinct (receipts_of ms)"
  shows "let bs = batches_of 10 (receipts_of ms); hidden = (\<Union>b \<in> set bs. hidden_by queue b) in
      concat bs = receipts_of ms \<and> (\<forall>r \<in> set (receipts_of ms). map_of (receipts (held w')) r = None)
    \<and> deleted w' = deleted w \<and> db w' = db w
    \<and> hidden_until w' = (\<lambda>r. if r \<in> hidden then now w' + 30000 else hidden_until w r)
    \<and> turn_deferrals (metrics w') \<le> turn_deferrals (metrics w) + card hidden
    \<and> ((\<forall>b \<in> set bs. reports_exactly queue b) \<longrightarrow> turn_deferrals (metrics w') = turn_deferrals (metrics w) + card hidden)
    \<and> (\<exists>es. res = Inr es \<and> map (\<lambda>e. e = None) es = map (wholly_reported queue) bs)
    \<and> (\<forall>b \<in> set bs. wholly_reported queue b \<longrightarrow> set b \<subseteq> hidden)"
proof -
  let ?bs = "batches_of 10 (receipts_of ms)"
  obtain w1 where r: "releaseAll env (receipts_of ms) w = (Inr (), w1)"
    using releaseAll_Inr(1) [of env "receipts_of ms" w] by (cases "releaseAll env (receipts_of ms) w") auto
  note rel = releaseAll_effect [OF r]
  have run: "settle_all (deferBatch env queue) ?bs w1 = (res, w')"
    using assms(2) r by (simp add: deferExcessMessages_def Let_def andThen_def)
  have dist: "distinct (concat ?bs)" using assms(4) by (simp add: concat_batches_of)
  note eff = settle_all_defer [OF assms(1) run ballI [OF distinct_concat_mem [OF dist]]]
  note sum = counted_sum [OF assms(3), of ?bs]
  have whole: "set b \<subseteq> hidden_by queue b" if "wholly_reported queue b" for b
  proof
    fix x assume "x \<in> set b"
    then obtain i where i: "i < length b" "x = b ! i" by (auto simp: in_set_conv_nth)
    obtain ids reply where p: "queue (batch_entries b) = (ids, reply)" by fastforce
    with that obtain result where q: "reply = Inr result" "\<forall>i < length b. Some (js_String_nat i) \<in> successful_ids result"
      by (auto simp: wholly_reported_def split: sum.splits)
    have "js_String_nat i \<in> fst ` set (batch_entries b)" using i(1) by (auto simp: ids_batch_entries)
    with assms(3) [unfolded queue_ok_def, rule_format, OF p, THEN conjunct2, rule_format, OF q(1)] q(2) i(1)
    have "js_String_nat i \<in> set ids" by blast
    with i p show "x \<in> hidden_by queue b" by (auto simp: hidden_by_def)
  qed
  have all: "\<forall>b \<in> set ?bs. wholly_reported queue b \<longrightarrow> set b \<subseteq> (\<Union>b \<in> set ?bs. hidden_by queue b)"
    using whole by blast
  show ?thesis
    using rel eff sum card_hidden [OF dist, of queue] unfolding Let_def
    by (intro conjI all) (auto simp: concat_batches_of fun_eq_iff)
qed

text \<open>A queue that hides the first entry and reports it, and one that hides it while its answer is lost.\<close>

definition first_only :: batch_queue where
  "first_only es = (case es of [] \<Rightarrow> ([], Inr \<lparr>Successful = None, Failed = None\<rparr>)
     | (k, _) # es \<Rightarrow> ([k], Inr \<lparr>Successful = Some [Some k], Failed = Some (map (Some \<circ> fst) (filter (\<lambda>e. fst e \<noteq> k) es))\<rparr>))"

definition answer_lost :: batch_queue where
  "answer_lost es = (case es of [] \<Rightarrow> ([], Inl (Error ''timeout'')) | (k, _) # _ \<Rightarrow> ([k], Inl (Error ''timeout'')))"

lemma example_queues: "queue_ok first_only" "queue_ok answer_lost"
  by (auto simp: queue_ok_def first_only_def answer_lost_def successful_ids_def failed_ids_def split: list.splits prod.splits)

definition other_message :: sqs_message where
  "other_message = \<lparr>ReceiptHandle = Some ''s'', Body = None\<rparr>"

theorem deferral_accounts_for_every_answer_witness:
  "(let (res, w') = deferExcessMessages plain_env first_only [example_message, other_message] empty_world
    in turn_deferrals (metrics w') = 1 \<and> hidden_until w' ''r'' = now w' + 30000 \<and> hidden_until w' ''s'' = 0
      \<and> res \<noteq> Inr [None])
   \<and> (let (res, w') = deferExcessMessages plain_env answer_lost [example_message, other_message] empty_world
    in turn_deferrals (metrics w') \<le> 1 \<and> hidden_until w' ''r'' = now w' + 30000 \<and> res \<noteq> Inr [None])"
proof -
  let ?ms = "[example_message, other_message]"
  obtain res w' where run: "deferExcessMessages plain_env first_only ?ms empty_world = (res, w')" by fastforce
  obtain out v' where lost: "deferExcessMessages plain_env answer_lost ?ms empty_world = (out, v')" by fastforce
  have on: "metrics_on plain_env" by (simp add: plain_env_def)
  have ms: "receipts_of ?ms = [''r'', ''s'']"
    by (simp add: receipts_of_def example_message_def other_message_def truthy_text_def)
  have dist: "distinct (receipts_of ?ms)" by (simp add: ms)
  have bs: "batches_of 10 (receipts_of ?ms) = [[''r'', ''s'']]" unfolding ms by (simp add: batches_of.simps)
  have neq: "js_String_nat 0 \<noteq> js_String_nat 1" by code_simp
  have es: "batch_entries [''r'', ''s''] = [(js_String_nat 0, ''r''), (js_String_nat 1, ''s'')]"
    by (simp add: batch_entries_def upt_rec)
  have h: "hidden_by first_only [''r'', ''s''] = {''r''}" "hidden_by answer_lost [''r'', ''s''] = {''r''}"
    using neq by (auto simp: hidden_by_def first_only_def answer_lost_def es less_Suc_eq numeral_2_eq_2)
  have n: "\<not> wholly_reported first_only [''r'', ''s'']" "\<not> wholly_reported answer_lost [''r'', ''s'']" "reports_exactly first_only [''r'', ''s'']"
    using neq by (auto simp: wholly_reported_def reports_exactly_def first_only_def answer_lost_def es successful_ids_def failed_ids_def)
  have z: "turn_deferrals (metrics empty_world) = 0" "hidden_until empty_world r = 0" for r by (simp_all add: empty_world_def)
  from deferral_accounts_for_every_answer [OF on run example_queues(1) dist]
    deferral_accounts_for_every_answer [OF on lost example_queues(2) dist]
  show ?thesis unfolding bs by (auto simp: run lost h n z ms)
qed

end
