(* ===== verification/Leader.thy ===== *)
theory Leader
  imports OutboxProps
begin

text \<open>
  Several outbox publishers and the advisory lock of PostgreSQL (\<open>tryBecomeLeader\<close>, \<open>releaseLeader\<close> and
  \<open>main\<close> in \<open>packages/worker/src/outbox-poller.ts\<close>).

  \<^item> The server's part is its documented behaviour: the lock belongs to a session; \<open>pg_try_advisory_lock\<close>
    answers whether the caller's session holds it now; the end of a session frees its lock; a query on a
    session that the server has closed fails.  No other program uses the key of the lock.
  \<^item> Every \<open>await\<close> of \<open>main\<close> separates two steps of a publisher: the server decides on the lock, later the
    answer arrives (or is lost) and the flag \<open>isLeader\<close> is assigned; an error clears the flag, later
    \<open>$disconnect\<close> succeeds or fails; a failing \<open>$disconnect\<close> ends the loop; the shutdown releases the lock
    and then disconnects, and either may fail.
  \<^item> \<open>$disconnect\<close> closes the client's connection; the server ends the session at some later step.  A process
    may also be killed, and the client may replace a session that the server has closed by a new one.
  \<^item> A publisher learns that its session is gone only from a failed query, so it may still take itself for
    the leader.  The auxiliary field \<open>grantedOn\<close> holds the session on which the publisher was last given the
    lock; no step reads it.
  \<^item> The rows of a tick are published step by step; the steps of all publishers interleave, and other
    clients change the database meanwhile.  They mark no row as published and do not attach an outbox row to
    another event: \<open>ev\<close> gives the event of each row.
  \<^item> The backlog sampler and the metrics listener, which \<open>main\<close> starts and stops too, do not touch this
    state.
\<close>

section \<open>State\<close>

definition OUTBOX_LOCK_KEY :: int where
  "OUTBOX_LOCK_KEY = 728401"

text \<open>Where a publisher is in \<open>main\<close>: at the head of the loop (or asleep), waiting for the answer of
  \<open>tryBecomeLeader\<close>, having the answer (nothing when the query failed), reading the rows, publishing them,
  waiting for \<open>$disconnect\<close> in the handler of an error, waiting for \<open>releaseLeader\<close> or for \<open>$disconnect\<close> in the
  \<open>finally\<close> block, ended.\<close>

datatype work = Idle | Asking | Answered "bool option" | Elected | Publishing "(outbox \<times> event) list" "progress list"
  | Dropping | Unlocking | Closing | Stopped

record poller =
  session :: "nat option"
  isLeader :: bool
  stopping :: bool
  afterTenantId :: string
  doing :: work
  grantedOn :: "nat option"

record cluster =
  lock_holder :: "nat option"
  live :: "nat set"
  next_session :: nat
  pollers :: "nat \<Rightarrow> poller"
  shared :: publisher_world

definition newPoller :: poller where
  "newPoller = \<lparr>session = None, isLeader = False, stopping = False, afterTenantId = [], doing = Idle, grantedOn = None\<rparr>"

definition startCluster :: "publisher_world \<Rightarrow> cluster" where
  "startCluster w = \<lparr>lock_holder = None, live = {}, next_session = 0, pollers = (\<lambda>_. newPoller), shared = w\<rparr>"

definition set_poller :: "nat \<Rightarrow> poller \<Rightarrow> cluster \<Rightarrow> cluster" where
  "set_poller i p c = c\<lparr>pollers := (pollers c)(i := p)\<rparr>"

section \<open>The server\<close>

text \<open>A new session; a query opens one when the client has none.\<close>

definition open_session :: "nat \<Rightarrow> cluster \<Rightarrow> cluster" where
  "open_session i c = set_poller i ((pollers c i)\<lparr>session := Some (next_session c)\<rparr>)
     (c\<lparr>live := insert (next_session c) (live c), next_session := next_session c + 1\<rparr>)"

definition ensure_session :: "nat \<Rightarrow> cluster \<Rightarrow> nat \<times> cluster" where
  "ensure_session i c = (case session (pollers c i) of Some s \<Rightarrow> (s, c) | None \<Rightarrow> (next_session c, open_session i c))"

definition end_session :: "nat \<Rightarrow> cluster \<Rightarrow> cluster" where
  "end_session s c = c\<lparr>live := live c - {s}, lock_holder := (if lock_holder c = Some s then None else lock_holder c)\<rparr>"

section \<open>The publisher\<close>

text \<open>The query of \<open>tryBecomeLeader\<close>: the answer, or nothing when the query fails.\<close>

definition tryBecomeLeader :: "nat \<Rightarrow> cluster \<Rightarrow> bool option \<times> cluster" where
  "tryBecomeLeader i c =
     (let (s, c) = ensure_session i c
      in if s \<notin> live c then (None, c)
         else if lock_holder c = None \<or> lock_holder c = Some s
         then (Some True, set_poller i ((pollers c i)\<lparr>grantedOn := Some s\<rparr>) (c\<lparr>lock_holder := Some s\<rparr>))
         else (Some False, c))"

definition releaseLeader :: "nat \<Rightarrow> cluster \<Rightarrow> cluster" where
  "releaseLeader i c =
     (let (s, c) = ensure_session i c in if s \<in> live c \<and> lock_holder c = Some s then c\<lparr>lock_holder := None\<rparr> else c)"

text \<open>\<open>isLeader = await tryBecomeLeader(db)\<close> when the answer has arrived.\<close>

definition becomeLeader :: "nat \<Rightarrow> bool \<Rightarrow> cluster \<Rightarrow> cluster" where
  "becomeLeader i b c = set_poller i ((pollers c i)\<lparr>isLeader := b, doing := (if b then Elected else Idle)\<rparr>) c"

text \<open>The handler of an error in the loop, up to its \<open>await\<close>; the loop goes on when \<open>$disconnect\<close> succeeds.\<close>

definition stepDown :: "nat \<Rightarrow> cluster \<Rightarrow> cluster" where
  "stepDown i c = set_poller i ((pollers c i)\<lparr>isLeader := False, doing := Dropping\<rparr>) c"

definition disconnected :: "nat \<Rightarrow> cluster \<Rightarrow> cluster" where
  "disconnected i c = set_poller i ((pollers c i)\<lparr>session := None, doing := Idle\<rparr>) c"

text \<open>The \<open>finally\<close> block of \<open>main\<close>, whose statements run whether those before them fail or not.\<close>

definition leaveLoop :: "nat \<Rightarrow> cluster \<Rightarrow> cluster" where
  "leaveLoop i c = set_poller i ((pollers c i)\<lparr>doing := (if isLeader (pollers c i) then Unlocking else Closing)\<rparr>) c"

definition unlocked :: "nat \<Rightarrow> cluster \<Rightarrow> cluster" where
  "unlocked i c = set_poller i ((pollers c i)\<lparr>doing := Closing\<rparr>) c"

definition shutDown :: "nat \<Rightarrow> cluster \<Rightarrow> cluster" where
  "shutDown i c = set_poller i ((pollers c i)\<lparr>session := None, doing := Stopped\<rparr>) c"

definition tickDone :: "nat \<Rightarrow> (outbox \<times> event) list \<Rightarrow> progress list \<Rightarrow> cluster \<Rightarrow> cluster" where
  "tickDone i rows ps c =
     (let p = (pollers c i)\<lparr>afterTenantId := (if rows = [] then afterTenantId (pollers c i) else tenant_of (last rows)), doing := Idle\<rparr>
      in if \<exists>x \<in> set ps. x \<noteq> Fulfilled then stepDown i (set_poller i p c) else set_poller i p c)"

text \<open>The tables attach every outbox row to its event.\<close>

definition rows_fixed :: "(string \<Rightarrow> string) \<Rightarrow> database \<Rightarrow> bool" where
  "rows_fixed ev d \<longleftrightarrow> (\<forall>r \<in> set (outboxes d). ob_eventId r = ev (ob_id r))"

inductive cluster_step :: "(string \<Rightarrow> string) \<Rightarrow> cluster \<Rightarrow> cluster \<Rightarrow> bool" for ev where
  ask: "doing (pollers c i) = Idle \<Longrightarrow> \<not> isLeader (pollers c i) \<Longrightarrow> \<not> stopping (pollers c i) \<Longrightarrow>
    cluster_step ev c (set_poller i ((pollers c i)\<lparr>doing := Asking\<rparr>) c)"
| lock_decided: "doing (pollers c i) = Asking \<Longrightarrow> tryBecomeLeader i c = (r, c') \<Longrightarrow> a = r \<or> a = None \<Longrightarrow>
    cluster_step ev c (set_poller i ((pollers c' i)\<lparr>doing := Answered a\<rparr>) c')"
| learn: "doing (pollers c i) = Answered (Some b) \<Longrightarrow> cluster_step ev c (becomeLeader i b c)"
| lead_again: "doing (pollers c i) = Idle \<Longrightarrow> isLeader (pollers c i) \<Longrightarrow> \<not> stopping (pollers c i) \<Longrightarrow>
    cluster_step ev c (set_poller i ((pollers c i)\<lparr>doing := Elected\<rparr>) c)"
| query_fails: "doing (pollers c i) \<in> {Asking, Answered None, Elected} \<Longrightarrow> cluster_step ev c (stepDown i c)"
| begin_tick: "doing (pollers c i) = Elected \<Longrightarrow>
    rows = listUnpublished seen (p_db (shared c)) BATCH_SIZE (afterTenantId (pollers c i)) \<Longrightarrow>
    cluster_step ev c (set_poller i ((pollers c i)\<lparr>doing := Publishing rows (replicate (length rows) ToSend)\<rparr>) c)"
| publish: "doing (pollers c i) = Publishing rows ps \<Longrightarrow> j < length ps \<Longrightarrow>
    advance env (rows ! j) (ps ! j) (shared c) = (x, w) \<Longrightarrow>
    cluster_step ev c (set_poller i ((pollers c i)\<lparr>doing := Publishing rows (ps[j := x])\<rparr>) (c\<lparr>shared := w\<rparr>))"
| tick_done: "doing (pollers c i) = Publishing rows ps \<Longrightarrow> list_all is_settled ps \<Longrightarrow>
    cluster_step ev c (tickDone i rows ps c)"
| disconnects: "doing (pollers c i) = Dropping \<Longrightarrow> cluster_step ev c (disconnected i c)"
| disconnect_fails: "doing (pollers c i) = Dropping \<Longrightarrow> cluster_step ev c (leaveLoop i c)"
| signal: "cluster_step ev c (set_poller i ((pollers c i)\<lparr>stopping := True\<rparr>) c)"
| leave: "doing (pollers c i) = Idle \<Longrightarrow> stopping (pollers c i) \<Longrightarrow> cluster_step ev c (leaveLoop i c)"
| unlocks: "doing (pollers c i) = Unlocking \<Longrightarrow> cluster_step ev c (unlocked i (releaseLeader i c))"
| unlock_fails: "doing (pollers c i) = Unlocking \<Longrightarrow> cluster_step ev c (unlocked i c)"
| shut_down: "doing (pollers c i) = Closing \<Longrightarrow> cluster_step ev c (shutDown i c)"
| killed: "cluster_step ev c (shutDown i c)"
| reconnects: "session (pollers c i) = Some s \<Longrightarrow> s \<notin> live c \<Longrightarrow> cluster_step ev c (open_session i c)"
| session_lost: "s \<in> live c \<Longrightarrow> cluster_step ev c (end_session s c)"
| others: "published_ids d \<subseteq> published_ids (p_db (shared c)) \<Longrightarrow> rows_fixed ev d \<Longrightarrow> p_now (shared c) \<le> t \<Longrightarrow>
    cluster_step ev c (c\<lparr>shared := (shared c)\<lparr>p_db := d, p_now := t\<rparr>\<rparr>)"

section \<open>The lock\<close>

text \<open>A publisher takes itself for the leader while its flag is set and it has not left its loop.  It has lost
  its election when the server has ended the session on which it was given the lock.\<close>

definition leading :: "poller \<Rightarrow> bool" where
  "leading p \<longleftrightarrow> isLeader p \<and> doing p \<notin> {Unlocking, Closing, Stopped}"

definition lost :: "cluster \<Rightarrow> nat \<Rightarrow> bool" where
  "lost c i \<longleftrightarrow> (case grantedOn (pollers c i) of None \<Rightarrow> False | Some s \<Rightarrow> s \<notin> live c)"

text \<open>A publisher on standby: it sleeps, asks or was refused.\<close>

definition standing_by :: "poller \<Rightarrow> bool" where
  "standing_by p \<longleftrightarrow> \<not> isLeader p \<and> doing p \<in> {Idle, Asking, Answered (Some False)}"

definition uses :: "cluster \<Rightarrow> nat \<Rightarrow> nat \<Rightarrow> bool" where
  "uses c i s \<longleftrightarrow> session (pollers c i) = Some s \<or> grantedOn (pollers c i) = Some s"

definition sessions_ok :: "cluster \<Rightarrow> bool" where
  "sessions_ok c \<longleftrightarrow>
     (\<forall>i s. uses c i s \<longrightarrow> s < next_session c)
   \<and> (\<forall>i j s. uses c i s \<and> uses c j s \<longrightarrow> i = j)
   \<and> (\<forall>s \<in> live c. s < next_session c)"

text \<open>A publisher with a claim: it leads, the answer that it leads is under way, or it is about to unlock.\<close>

definition claims :: "poller \<Rightarrow> bool" where
  "claims p \<longleftrightarrow> doing p = Answered (Some True) \<or> isLeader p \<and> doing p \<notin> {Closing, Stopped}"

definition lock_ok :: "cluster \<Rightarrow> bool" where
  "lock_ok c \<longleftrightarrow>
     (\<forall>s. lock_holder c = Some s \<longrightarrow> s \<in> live c \<and> (\<forall>i. session (pollers c i) = Some s \<longrightarrow> \<not> standing_by (pollers c i)))
   \<and> (\<forall>i. claims (pollers c i) \<longrightarrow> (\<exists>s. grantedOn (pollers c i) = Some s \<and> (s \<in> live c \<longrightarrow> lock_holder c = Some s)))"

text \<open>The flag at every point of \<open>main\<close>.\<close>

definition flag_ok :: "poller \<Rightarrow> bool" where
  "flag_ok p \<longleftrightarrow> (case doing p of Asking \<Rightarrow> \<not> isLeader p | Answered _ \<Rightarrow> \<not> isLeader p | Dropping \<Rightarrow> \<not> isLeader p
     | Elected \<Rightarrow> isLeader p | Publishing _ _ \<Rightarrow> isLeader p | Unlocking \<Rightarrow> isLeader p | _ \<Rightarrow> True)"

lemma pollers_set_poller [simp]: "pollers (set_poller i p c) j = (if j = i then p else pollers c j)"
  by (simp add: set_poller_def)

lemma set_poller_simps [simp]:
  "live (set_poller i p c) = live c" "lock_holder (set_poller i p c) = lock_holder c"
  "next_session (set_poller i p c) = next_session c" "shared (set_poller i p c) = shared c"
  by (simp_all add: set_poller_def)

lemma end_session_simps [simp]:
  "live (end_session s c) = live c - {s}" "pollers (end_session s c) = pollers c"
  "lock_holder (end_session s c) = (if lock_holder c = Some s then None else lock_holder c)"
  "next_session (end_session s c) = next_session c" "shared (end_session s c) = shared c"
  by (simp_all add: end_session_def)

lemma open_session_simps [simp]:
  "live (open_session i c) = insert (next_session c) (live c)" "next_session (open_session i c) = Suc (next_session c)"
  "lock_holder (open_session i c) = lock_holder c" "shared (open_session i c) = shared c"
  "pollers (open_session i c) j = (if j = i then (pollers c i)\<lparr>session := Some (next_session c)\<rparr> else pollers c j)"
  by (simp_all add: open_session_def)

lemmas poller_moves = becomeLeader_def stepDown_def disconnected_def leaveLoop_def unlocked_def shutDown_def tickDone_def Let_def

lemmas poller_views = standing_by_def claims_def flag_ok_def

text \<open>A step of one publisher that adds no claim and does not put a holder of the lock on standby.\<close>

lemma ok_set_poller:
  assumes "sessions_ok c" "lock_ok c"
    and "session p = None \<or> session p = session (pollers c i)" "grantedOn p = grantedOn (pollers c i)"
    and "claims p \<Longrightarrow> claims (pollers c i)"
    and "session p \<noteq> None \<Longrightarrow> standing_by p \<Longrightarrow> standing_by (pollers c i)"
  shows "sessions_ok (set_poller i p c) \<and> lock_ok (set_poller i p c)"
proof
  have u: "uses (set_poller i p c) j s \<Longrightarrow> uses c j s" for j s
    using assms(3,4) by (auto simp: uses_def split: if_splits)
  show "sessions_ok (set_poller i p c)"
    using assms(1) u unfolding sessions_ok_def set_poller_simps by blast
  show "lock_ok (set_poller i p c)"
    unfolding lock_ok_def set_poller_simps
  proof (intro conjI allI impI)
    fix s assume s: "lock_holder c = Some s"
    then show "s \<in> live c" using assms(2) by (simp add: lock_ok_def)
    fix j assume "session (pollers (set_poller i p c) j) = Some s"
    then have "j = i \<and> session p = Some s \<and> session (pollers c i) = Some s \<or> j \<noteq> i \<and> session (pollers c j) = Some s"
      using assms(3) by (auto split: if_splits)
    then show "\<not> standing_by (pollers (set_poller i p c) j)"
      using assms(2,6) s by (auto simp: lock_ok_def)
  next
    fix j assume "claims (pollers (set_poller i p c) j)"
    then show "\<exists>s. grantedOn (pollers (set_poller i p c) j) = Some s \<and> (s \<in> live c \<longrightarrow> lock_holder c = Some s)"
      using assms(2,4,5) by (auto simp: lock_ok_def split: if_splits)
  qed
qed

lemma ok_end_session:
  assumes "sessions_ok c" "lock_ok c"
  shows "sessions_ok (end_session s c) \<and> lock_ok (end_session s c)"
  using assms by (auto simp: sessions_ok_def lock_ok_def uses_def)

text \<open>Opening a session: it is new, so it holds no lock and nobody was given the lock on it.\<close>

lemma ok_open_session:
  assumes ok: "sessions_ok c" "lock_ok c"
  shows "sessions_ok (open_session i c) \<and> lock_ok (open_session i c)"
proof
  have fresh: "\<not> uses c j (next_session c)" for j using ok(1) by (auto simp: sessions_ok_def)
  have u: "uses (open_session i c) j s \<Longrightarrow> uses c j s \<or> j = i \<and> s = next_session c" for j s
    by (auto simp: uses_def split: if_splits)
  have lt: "uses c j s \<Longrightarrow> s < next_session c" for j s using ok(1) by (auto simp: sessions_ok_def)
  show "sessions_ok (open_session i c)"
    unfolding sessions_ok_def open_session_simps(1,2)
  proof (intro conjI allI impI ballI)
    fix j s assume "uses (open_session i c) j s"
    with u have "uses c j s \<or> s = next_session c" by blast
    then show "s < Suc (next_session c)" using lt by (auto intro: less_SucI)
  next
    fix j k s assume "uses (open_session i c) j s \<and> uses (open_session i c) k s"
    then show "j = k" using u fresh ok(1) unfolding sessions_ok_def by blast
  next
    fix s assume "s \<in> insert (next_session c) (live c)"
    then show "s < Suc (next_session c)" using ok(1) by (auto simp: sessions_ok_def intro: less_SucI)
  qed
  have held: "lock_holder c = Some s \<Longrightarrow> s \<noteq> next_session c" for s
    using ok by (auto simp: sessions_ok_def lock_ok_def)
  have given: "grantedOn (pollers c j) = Some s \<Longrightarrow> s \<noteq> next_session c" for j s
    using fresh by (auto simp: uses_def)
  show "lock_ok (open_session i c)"
    using ok(2) held given by (fastforce simp: lock_ok_def claims_def standing_by_def)
qed

lemma connectedE:
  assumes "ensure_session i c = (s, c')" and ok: "sessions_ok c" "lock_ok c"
  obtains "sessions_ok c'" "lock_ok c'" "session (pollers c' i) = Some s" "lock_holder c' = lock_holder c" "shared c' = shared c"
    "\<And>j. \<exists>x. pollers c' j = (pollers c j)\<lparr>session := x\<rparr>"
proof (cases "session (pollers c i)")
  case None
  then have "c' = open_session i c" "s = next_session c" using assms(1) by (auto simp: ensure_session_def)
  moreover have "\<exists>x. pollers (open_session i c) j = (pollers c j)\<lparr>session := x\<rparr>" for j
    by (cases "j = i") (auto intro: exI [of _ "session (pollers c j)"])
  ultimately show ?thesis using ok_open_session [OF ok, of i] that by simp
next
  case (Some t)
  then have "c' = c" "s = t" using assms(1) by (auto simp: ensure_session_def)
  moreover have "\<exists>x. pollers c j = (pollers c j)\<lparr>session := x\<rparr>" for j by (rule exI [of _ "session (pollers c j)"]) simp
  ultimately show ?thesis using Some ok that by blast
qed

lemma views_session [simp]:
  "claims (p\<lparr>session := x\<rparr>) = claims p" "standing_by (p\<lparr>session := x\<rparr>) = standing_by p" "flag_ok (p\<lparr>session := x\<rparr>) = flag_ok p"
  by (simp_all add: poller_views cong: work.case_cong)

text \<open>The server's decision.  A publisher that asks stands by, so the lock is never given to a session that has it.\<close>

lemma ok_lock_decided:
  assumes ok: "sessions_ok c" "lock_ok c" and asking: "doing (pollers c i) = Asking" "\<not> isLeader (pollers c i)"
    and lock: "tryBecomeLeader i c = (r, c')" and a: "a = r \<or> a = None"
  shows "sessions_ok (set_poller i ((pollers c' i)\<lparr>doing := Answered a\<rparr>) c')
    \<and> lock_ok (set_poller i ((pollers c' i)\<lparr>doing := Answered a\<rparr>) c')" (is "?G c'")
proof -
  obtain s c1 where e: "ensure_session i c = (s, c1)" by (cases "ensure_session i c")
  obtain okc: "sessions_ok c1" "lock_ok c1" and s: "session (pollers c1 i) = Some s"
    and shape: "\<And>j. \<exists>x. pollers c1 j = (pollers c j)\<lparr>session := x\<rparr>"
    using connectedE [OF e ok] by metis
  obtain x where x: "pollers c1 i = (pollers c i)\<lparr>session := x\<rparr>" using shape by blast
  have idle: "standing_by (pollers c1 i)" "\<not> isLeader (pollers c1 i)" unfolding x using asking by (simp_all add: standing_by_def)
  then have free: "lock_holder c1 \<noteq> Some s" using okc(2) s by (auto simp: lock_ok_def)
  show ?thesis
  proof (cases "r = Some True")
    case False
    then have c': "c' = c1" using lock e by (auto simp: tryBecomeLeader_def split: if_splits)
    have "a \<noteq> Some True" using False a by auto
    then show ?thesis unfolding c' using idle by (intro ok_set_poller [OF okc]) (auto simp: claims_def)
  next
    case True
    then have live: "s \<in> live c1" and none: "lock_holder c1 = None"
      and c': "c' = set_poller i ((pollers c1 i)\<lparr>grantedOn := Some s\<rparr>) (c1\<lparr>lock_holder := Some s\<rparr>)"
      using lock e free by (auto simp: tryBecomeLeader_def split: if_splits)
    let ?d = "set_poller i ((pollers c' i)\<lparr>doing := Answered a\<rparr>) c'"
    have p: "pollers ?d j = (if j = i then (pollers c1 i)\<lparr>grantedOn := Some s, doing := Answered a\<rparr> else pollers c1 j)" for j
      by (simp add: c')
    have u: "uses ?d j t \<Longrightarrow> uses c1 j t" for j t unfolding uses_def p using s by (auto split: if_splits)
    have mine: "session (pollers c1 j) = Some s \<Longrightarrow> j = i" for j
      using okc(1) s unfolding sessions_ok_def uses_def by blast
    have "live ?d = live c1" "next_session ?d = next_session c1" by (simp_all add: c')
    then have "sessions_ok ?d" using okc(1) u unfolding sessions_ok_def by metis
    moreover have "lock_ok ?d"
      unfolding lock_ok_def
    proof (intro conjI allI impI)
      fix t assume "lock_holder ?d = Some t"
      then have t: "t = s" by (simp add: c')
      then show "t \<in> live ?d" using live by (simp add: c')
      fix j assume "session (pollers ?d j) = Some t"
      with t p [of j] have "j \<noteq> i \<Longrightarrow> session (pollers c1 j) = Some s" by simp
      with mine have "j = i" by blast
      then show "\<not> standing_by (pollers ?d j)" unfolding p using True a by (auto simp: standing_by_def)
    next
      fix j assume j: "claims (pollers ?d j)"
      show "\<exists>t. grantedOn (pollers ?d j) = Some t \<and> (t \<in> live ?d \<longrightarrow> lock_holder ?d = Some t)"
      proof (cases "j = i")
        case False
        then have "claims (pollers c1 j)" using j unfolding p by simp
        then obtain t where "grantedOn (pollers c1 j) = Some t" "t \<in> live c1 \<longrightarrow> lock_holder c1 = Some t"
          using okc(2) by (auto simp: lock_ok_def)
        then show ?thesis using False none by (simp add: p) (simp add: c')
      qed (simp add: c')
    qed
    ultimately show ?thesis by blast
  qed
qed

lemma ok_unlocks:
  assumes ok: "sessions_ok c" "lock_ok c" and at: "doing (pollers c i) = Unlocking"
  shows "sessions_ok (unlocked i (releaseLeader i c)) \<and> lock_ok (unlocked i (releaseLeader i c))"
proof -
  obtain s c1 where e: "ensure_session i c = (s, c1)" by (cases "ensure_session i c")
  obtain okc: "sessions_ok c1" "lock_ok c1" and s: "session (pollers c1 i) = Some s"
    using connectedE [OF e ok] by metis
  have *: "sessions_ok (unlocked i c1) \<and> lock_ok (unlocked i c1)"
    unfolding unlocked_def by (intro ok_set_poller [OF okc]) (auto simp: poller_views)
  have only: "grantedOn (pollers c1 j) = Some s \<Longrightarrow> j = i" for j
    using okc(1) s unfolding sessions_ok_def uses_def by blast
  show ?thesis
  proof (cases "s \<in> live c1 \<and> lock_holder c1 = Some s")
    case True
    let ?d = "unlocked i (c1\<lparr>lock_holder := None\<rparr>)"
    have r: "releaseLeader i c = c1\<lparr>lock_holder := None\<rparr>" using e True by (simp add: releaseLeader_def)
    have p: "pollers ?d j = pollers (unlocked i c1) j" "live ?d = live c1" "next_session ?d = next_session c1" for j
      by (simp_all add: unlocked_def)
    have u: "uses ?d j t = uses (unlocked i c1) j t" for j t by (simp only: uses_def p)
    have "next_session (unlocked i c1) = next_session c1" "live (unlocked i c1) = live c1" by (simp_all add: unlocked_def)
    then have "sessions_ok ?d" using conjunct1 [OF *] by (simp only: sessions_ok_def u p)
    moreover have "lock_ok ?d"
      unfolding lock_ok_def p
    proof (intro conjI allI impI)
      fix j assume j: "claims (pollers (unlocked i c1) j)"
      then have ji: "j \<noteq> i" and cl: "claims (pollers c1 j)" by (auto simp: unlocked_def claims_def split: if_splits)
      from okc(2) cl obtain t where "grantedOn (pollers c1 j) = Some t" "t \<in> live c1 \<longrightarrow> lock_holder c1 = Some t"
        by (auto simp: lock_ok_def)
      then show "\<exists>t. grantedOn (pollers (unlocked i c1) j) = Some t \<and> (t \<in> live c1 \<longrightarrow> lock_holder ?d = Some t)"
        using True ji only by (auto simp: unlocked_def)
    qed (simp_all add: unlocked_def)
    ultimately show ?thesis by (simp add: r)
  next
    case False
    then have "releaseLeader i c = c1" using e by (auto simp: releaseLeader_def)
    then show ?thesis using * by simp
  qed
qed

lemma ok_shared: "sessions_ok (c\<lparr>shared := w\<rparr>) = sessions_ok c" "lock_ok (c\<lparr>shared := w\<rparr>) = lock_ok c"
  by (simp_all add: sessions_ok_def lock_ok_def uses_def)

definition cluster_ok :: "cluster \<Rightarrow> bool" where
  "cluster_ok c \<longleftrightarrow> sessions_ok c \<and> lock_ok c \<and> (\<forall>i. flag_ok (pollers c i))"

lemma cluster_okI:
  assumes "cluster_ok c" and "sessions_ok c' \<and> lock_ok c'"
    and "\<And>j. j \<noteq> i \<Longrightarrow> flag_ok (pollers c' j) = flag_ok (pollers c j)" and "flag_ok (pollers c' i)"
  shows "cluster_ok c'"
  using assms unfolding cluster_ok_def by metis

lemma tryBecomeLeader_shape:
  assumes "tryBecomeLeader i c = (r, c')"
  shows "\<exists>x y. pollers c' j = (pollers c j)\<lparr>session := x, grantedOn := y\<rparr>" and "shared c' = shared c"
proof -
  have id: "\<exists>x y. p = p\<lparr>session := x, grantedOn := y\<rparr>" for p :: poller
    by (intro exI [of _ "session p"] exI [of _ "grantedOn p"]) simp
  have gr: "\<exists>x y. p\<lparr>grantedOn := g\<rparr> = p\<lparr>session := x, grantedOn := y\<rparr>" for p :: poller and g
    by (intro exI [of _ "session p"] exI [of _ g]) simp
  have se: "\<exists>x y. p\<lparr>session := g\<rparr> = p\<lparr>session := x, grantedOn := y\<rparr>" for p :: poller and g
    by (intro exI [of _ g] exI [of _ "grantedOn p"]) simp
  have "(\<exists>x y. pollers (snd (tryBecomeLeader i c)) j = (pollers c j)\<lparr>session := x, grantedOn := y\<rparr>)
    \<and> shared (snd (tryBecomeLeader i c)) = shared c"
    by (cases "session (pollers c i)"; cases "j = i")
      (auto simp: tryBecomeLeader_def ensure_session_def Let_def intro: id gr se)
  then show "\<exists>x y. pollers c' j = (pollers c j)\<lparr>session := x, grantedOn := y\<rparr>" "shared c' = shared c" by (simp_all add: assms)
qed

lemma releaseLeader_shape:
  "(\<exists>x. pollers (releaseLeader i c) j = (pollers c j)\<lparr>session := x\<rparr>) \<and> shared (releaseLeader i c) = shared c"
proof -
  have id: "p = p\<lparr>session := session p\<rparr>" for p :: poller by simp
  show ?thesis
    by (cases "session (pollers c i)"; cases "j = i")
      (auto simp: releaseLeader_def ensure_session_def Let_def intro: id exI)
qed

lemma flag_ok_shape: "flag_ok (p\<lparr>session := x, grantedOn := y\<rparr>) = flag_ok p" "flag_ok (p\<lparr>session := x\<rparr>) = flag_ok p"
  by (simp_all add: flag_ok_def cong: work.case_cong)

lemma ok_move:
  assumes ok: "cluster_ok c" and "session p = None \<or> session p = session (pollers c i)" "grantedOn p = grantedOn (pollers c i)"
    and "claims p \<Longrightarrow> claims (pollers c i)" "session p \<noteq> None \<Longrightarrow> standing_by p \<Longrightarrow> standing_by (pollers c i)" "flag_ok p"
  shows "cluster_ok (set_poller i p c)"
proof (rule cluster_okI [OF ok, of _ i])
  show "sessions_ok (set_poller i p c) \<and> lock_ok (set_poller i p c)"
    using ok assms(2-5) unfolding cluster_ok_def by (intro ok_set_poller) blast+
qed (simp_all add: assms(6))

lemma ok_step:
  assumes "cluster_step ev c c'" and ok: "cluster_ok c"
  shows "cluster_ok c'"
proof -
  have s: "sessions_ok c" and l: "lock_ok c" and f: "\<And>i. flag_ok (pollers c i)" using ok by (simp_all add: cluster_ok_def)
  from assms(1) show ?thesis
  proof cases
    case (ask i)
    then show ?thesis by (auto intro!: ok_move [OF ok] simp: poller_views)
  next
    case (lock_decided i r d a)
    have no: "\<not> isLeader (pollers c i)" using f [of i] lock_decided(2) by (simp add: flag_ok_def)
    have shape: "\<exists>x y. pollers d j = (pollers c j)\<lparr>session := x, grantedOn := y\<rparr>" for j
      by (rule tryBecomeLeader_shape(1) [OF lock_decided(3)])
    then have flags: "flag_ok (pollers d j) = flag_ok (pollers c j)" for j by (metis flag_ok_shape(1))
    from shape [of i] no have "\<not> isLeader (pollers d i)" by auto
    then show ?thesis unfolding lock_decided(1)
      using cluster_okI [OF ok ok_lock_decided [OF s l lock_decided(2) no lock_decided(3,4)], of i] flags by (simp add: flag_ok_def)
  next
    case (learn i b)
    with f [of i] have "\<not> isLeader (pollers c i)" by (simp add: flag_ok_def)
    with learn show ?thesis by (auto intro!: ok_move [OF ok] simp: poller_views becomeLeader_def)
  next
    case (lead_again i)
    then show ?thesis by (auto intro!: ok_move [OF ok] simp: poller_views)
  next
    case (query_fails i)
    then show ?thesis by (auto intro!: ok_move [OF ok] simp: poller_views stepDown_def)
  next
    case (begin_tick i rows seen)
    then show ?thesis using f [of i] by (auto intro!: ok_move [OF ok] simp: poller_views)
  next
    case (publish i rows ps j env x w)
    have "cluster_ok (c\<lparr>shared := w\<rparr>)" using ok by (simp add: cluster_ok_def ok_shared)
    then show ?thesis unfolding publish(1) using f [of i] publish(2) by (auto intro!: ok_move simp: poller_views)
  next
    case (tick_done i rows ps)
    let ?p = "(pollers c i)\<lparr>afterTenantId := if rows = [] then afterTenantId (pollers c i) else tenant_of (last rows), doing := Idle\<rparr>"
    have p: "cluster_ok (set_poller i ?p c)"
      using f [of i] tick_done(2) by (auto intro!: ok_move [OF ok] simp: poller_views)
    then have "cluster_ok (stepDown i (set_poller i ?p c))"
      unfolding stepDown_def by (intro ok_move [OF p]) (simp_all add: poller_views)
    with p show ?thesis unfolding tick_done(1) by (simp add: tickDone_def Let_def)
  next
    case (disconnects i)
    then show ?thesis using f [of i] by (auto intro!: ok_move [OF ok] simp: poller_views disconnected_def)
  next
    case (disconnect_fails i)
    then show ?thesis using f [of i] by (auto intro!: ok_move [OF ok] simp: poller_views leaveLoop_def)
  next
    case (signal i)
    then show ?thesis using f [of i] by (auto intro!: ok_move [OF ok] simp: poller_views cong: work.case_cong)
  next
    case (leave i)
    then show ?thesis by (auto intro!: ok_move [OF ok] simp: poller_views leaveLoop_def)
  next
    case (unlocks i)
    obtain g where g: "\<And>j. pollers (releaseLeader i c) j = (pollers c j)\<lparr>session := g j\<rparr>"
      using releaseLeader_shape [of i c] by metis
    show ?thesis unfolding unlocks(1)
      by (rule cluster_okI [OF ok ok_unlocks [OF s l unlocks(2)], of i]) (simp_all add: unlocked_def g flag_ok_shape, simp add: flag_ok_def)
  next
    case (unlock_fails i)
    then show ?thesis by (auto intro!: ok_move [OF ok] simp: poller_views unlocked_def)
  next
    case (shut_down i)
    then show ?thesis by (auto intro!: ok_move [OF ok] simp: poller_views shutDown_def)
  next
    case (killed i)
    then show ?thesis by (auto intro!: ok_move [OF ok] simp: poller_views shutDown_def)
  next
    case (reconnects i t)
    show ?thesis unfolding reconnects(1)
      by (rule cluster_okI [OF ok ok_open_session [OF s l], of i]) (simp_all add: flag_ok_shape f)
  next
    case (session_lost t)
    show ?thesis unfolding session_lost(1) by (rule cluster_okI [OF ok ok_end_session [OF s l]]) (simp_all add: f)
  next
    case (others d t)
    then show ?thesis using ok by (simp add: cluster_ok_def ok_shared)
  qed
qed

lemma ok_reach: "(cluster_step ev)\<^sup>*\<^sup>* (startCluster w) c \<Longrightarrow> cluster_ok c"
proof (induction rule: rtranclp_induct)
  case base
  show ?case
    by (simp add: cluster_ok_def sessions_ok_def lock_ok_def uses_def poller_views startCluster_def newPoller_def)
qed (use ok_step in blast)

text \<open>C6: However the steps of the publishers between their \<open>await\<close>s, the server and other clients interleave,
  whatever queries, \<open>$disconnect\<close>s and answers fail, and whichever processes are killed: of two publishers that
  both take themselves for the leader, at least one has lost the database session on which it was given the
  lock; a publisher that reads or publishes rows takes itself for the leader; and the lock is never stuck with
  a standby: it is free, or its holder is a live session, and a publisher that uses this session leads, is being
  told so, or is giving the session up.\<close>

theorem one_leader_with_a_session:
  assumes "(cluster_step ev)\<^sup>*\<^sup>* (startCluster w) c"
  shows "(i \<noteq> j \<and> leading (pollers c i) \<and> leading (pollers c j) \<longrightarrow> lost c i \<or> lost c j)
    \<and> (doing (pollers c i) = Elected \<or> (\<exists>rows ps. doing (pollers c i) = Publishing rows ps) \<longrightarrow> leading (pollers c i))
    \<and> (case lock_holder c of None \<Rightarrow> True
       | Some s \<Rightarrow> s \<in> live c \<and> (\<forall>k. session (pollers c k) = Some s \<longrightarrow> \<not> standing_by (pollers c k)))"
proof -
  have ok: "sessions_ok c" "lock_ok c" and f: "flag_ok (pollers c i)" using ok_reach [OF assms] by (simp_all add: cluster_ok_def)
  have "lost c i \<or> lost c j" if ij: "i \<noteq> j" "leading (pollers c i)" "leading (pollers c j)"
  proof (rule ccontr)
    assume none: "\<not> (lost c i \<or> lost c j)"
    have "claims (pollers c i)" "claims (pollers c j)" using ij(2,3) by (auto simp: leading_def claims_def)
    then obtain s s' where s: "grantedOn (pollers c i) = Some s" "grantedOn (pollers c j) = Some s'"
      "s \<in> live c \<longrightarrow> lock_holder c = Some s" "s' \<in> live c \<longrightarrow> lock_holder c = Some s'"
      using ok(2) unfolding lock_ok_def by meson
    with none have "s = s'" by (simp add: lost_def)
    with s(1,2) ok(1) ij(1) show False unfolding sessions_ok_def uses_def by blast
  qed
  moreover have "doing (pollers c i) = Elected \<or> (\<exists>rows ps. doing (pollers c i) = Publishing rows ps) \<longrightarrow> leading (pollers c i)"
    using f by (auto simp: flag_ok_def leading_def)
  ultimately show ?thesis using ok(2) by (auto simp: lock_ok_def split: option.split)
qed

section \<open>Published means sent, for all publishers\<close>

text \<open>A message in the queue that carries the event to which the tables attach the row.\<close>

definition row_was_sent :: "outbox \<Rightarrow> publisher_world \<Rightarrow> bool" where
  "row_was_sent r w \<longleftrightarrow> (\<exists>e. ev_id e = ob_eventId r \<and> sent_for (r, e) \<in> set (p_queue w))"

definition cluster_sent :: "(string \<Rightarrow> string) \<Rightarrow> string set \<Rightarrow> cluster \<Rightarrow> bool" where
  "cluster_sent ev old c \<longleftrightarrow>
     rows_fixed ev (p_db (shared c))
   \<and> (\<forall>r \<in> set (outboxes (p_db (shared c))). ob_published r \<longrightarrow> ob_id r \<in> old \<or> row_was_sent r (shared c))
   \<and> (\<forall>i rows ps. doing (pollers c i) = Publishing rows ps \<longrightarrow> length ps = length rows
        \<and> (\<forall>row \<in> set rows. ev_id (snd row) = ev (ob_id (fst row)))
        \<and> (\<forall>j < length ps. ps ! j = ToMark \<longrightarrow> sent_for (rows ! j) \<in> set (p_queue (shared c))))"

lemma markPublished_rows:
  assumes "markPublished k t d = Inr (n, d')" and "r \<in> set (outboxes d')"
  shows "\<exists>r0 \<in> set (outboxes d). ob_id r0 = ob_id r \<and> ob_eventId r0 = ob_eventId r
    \<and> (ob_published r \<longrightarrow> ob_published r0 \<or> ob_id r = k)"
  using assms by (fastforce simp: markPublished_def set_update_where Let_def)

lemma publishMark_rows:
  assumes "publishMark env row w = (res, w')" and "r \<in> set (outboxes (p_db w'))"
  shows "\<exists>r0 \<in> set (outboxes (p_db w)). ob_id r0 = ob_id r \<and> ob_eventId r0 = ob_eventId r
    \<and> (ob_published r \<longrightarrow> ob_published r0 \<or> ob_id r = ob_id (fst row))"
  using assms
  by (cases "mark_outcome env (ob_id (fst row))")
    (auto simp: publishMark_def catching_def andThen_def recordPublication_def dest: markPublished_rows
      split: if_splits sum.splits prod.splits)

lemma advance_effect:
  assumes "advance env row p w = (x, w')"
  shows "set (p_queue w) \<subseteq> set (p_queue w')"
    and "r \<in> set (outboxes (p_db w')) \<Longrightarrow> \<exists>r0 \<in> set (outboxes (p_db w)). ob_id r0 = ob_id r \<and> ob_eventId r0 = ob_eventId r
      \<and> (ob_published r \<longrightarrow> ob_published r0 \<or> p = ToMark \<and> ob_id r = ob_id (fst row))"
    and "x = ToMark \<Longrightarrow> sent_for row \<in> set (p_queue w')"
proof -
  have "set (p_queue w) \<subseteq> set (p_queue w')
    \<and> (r \<in> set (outboxes (p_db w')) \<longrightarrow> (\<exists>r0 \<in> set (outboxes (p_db w)). ob_id r0 = ob_id r \<and> ob_eventId r0 = ob_eventId r
        \<and> (ob_published r \<longrightarrow> ob_published r0 \<or> p = ToMark \<and> ob_id r = ob_id (fst row))))
    \<and> (x = ToMark \<longrightarrow> sent_for row \<in> set (p_queue w'))"
  proof (cases p)
    case ToSend
    obtain res v where s: "publishSend env row w = (res, v)" by (cases "publishSend env row w")
    with assms ToSend have "w' = v" "x = ToMark \<longrightarrow> res = Inr ()" by (auto simp: advance_def split: sum.splits)
    with publishSend_effect [OF s] show ?thesis by auto
  next
    case ToMark
    obtain res v where s: "publishMark env row w = (res, v)" by (cases "publishMark env row w")
    with assms ToMark have v: "w' = v" "x \<noteq> ToMark" by (auto simp: advance_def split: sum.splits)
    have "set (p_queue w) \<subseteq> set (p_queue w')" using publishMark_effect [OF s] v(1) by simp
    moreover have "r \<in> set (outboxes (p_db w')) \<Longrightarrow> \<exists>r0 \<in> set (outboxes (p_db w)). ob_id r0 = ob_id r
        \<and> ob_eventId r0 = ob_eventId r \<and> (ob_published r \<longrightarrow> ob_published r0 \<or> p = ToMark \<and> ob_id r = ob_id (fst row))"
      using publishMark_rows [OF s, of r] v(1) ToMark by blast
    ultimately show ?thesis using v(2) by blast
  qed (use assms in \<open>auto simp: advance_def\<close>)
  then show "set (p_queue w) \<subseteq> set (p_queue w')"
    "r \<in> set (outboxes (p_db w')) \<Longrightarrow> \<exists>r0 \<in> set (outboxes (p_db w)). ob_id r0 = ob_id r \<and> ob_eventId r0 = ob_eventId r
      \<and> (ob_published r \<longrightarrow> ob_published r0 \<or> p = ToMark \<and> ob_id r = ob_id (fst row))"
    "x = ToMark \<Longrightarrow> sent_for row \<in> set (p_queue w')" by blast+
qed

text \<open>A row that a tick reads comes with its event.\<close>

lemma listUnpublished_event:
  assumes "rows_fixed ev d" and "row \<in> set (listUnpublished seen d n a)"
  shows "ev_id (snd row) = ev (ob_id (fst row))"
proof -
  obtain q where "refetch d q = Some row"
    using assms(2) by (auto simp: listUnpublished_def List.map_filter_def)
  then obtain r e where r: "row = (r, e)" "r \<in> set (outboxes d)" "event_of d r = Some e"
    by (auto simp: refetch_def split: option.splits dest: find_SomeD)
  then have "ev_id e = ob_eventId r" by (auto simp: event_of_def dest: find_SomeD)
  with r assms(1) show ?thesis by (simp add: rows_fixed_def)
qed

lemma sent_mono: "set (p_queue w) \<subseteq> set (p_queue w') \<Longrightarrow> row_was_sent r w \<Longrightarrow> row_was_sent r w'"
  by (auto simp: row_was_sent_def)

lemma cluster_sent_same:
  assumes inv: "cluster_sent ev old c" and "shared c' = shared c"
    and "\<And>i rows ps. doing (pollers c' i) = Publishing rows ps \<Longrightarrow> doing (pollers c i) = Publishing rows ps"
  shows "cluster_sent ev old c'"
  using inv unfolding cluster_sent_def assms(2) by (blast dest: assms(3))

lemma cluster_sent_step:
  assumes "cluster_step ev c c'" and inv: "cluster_sent ev old c"
  shows "cluster_sent ev old c'"
  using assms(1)
proof cases
  case (publish i rows ps j env x w)
  have own: "length ps = length rows" "\<forall>row \<in> set rows. ev_id (snd row) = ev (ob_id (fst row))"
    and mark: "\<forall>m < length ps. ps ! m = ToMark \<longrightarrow> sent_for (rows ! m) \<in> set (p_queue (shared c))"
    using inv publish(2) by (auto simp: cluster_sent_def)
  note eff = advance_effect [OF publish(4)]
  have fixed: "rows_fixed ev (p_db w)"
    using inv eff(2) unfolding cluster_sent_def rows_fixed_def by metis
  have sent: "ob_id r \<in> old \<or> row_was_sent r w" if r: "r \<in> set (outboxes (p_db w))" "ob_published r" for r
  proof -
    obtain r0 where r0: "r0 \<in> set (outboxes (p_db (shared c)))" "ob_id r0 = ob_id r" "ob_eventId r0 = ob_eventId r"
      "ob_published r0 \<or> ps ! j = ToMark \<and> ob_id r = ob_id (fst (rows ! j))"
      using eff(2) [OF r(1)] r(2) by blast
    from r0(4) show ?thesis
    proof
      assume "ob_published r0"
      then have "ob_id r0 \<in> old \<or> row_was_sent r0 (shared c)" using inv r0(1) by (auto simp: cluster_sent_def)
      then show ?thesis using sent_mono [OF eff(1)] r0(2,3) by (auto simp: row_was_sent_def sent_for_def tenant_of_def)
    next
      assume m: "ps ! j = ToMark \<and> ob_id r = ob_id (fst (rows ! j))"
      then have "sent_for (rows ! j) \<in> set (p_queue w)" using mark publish(3) eff(1) by blast
      moreover have "ev_id (snd (rows ! j)) = ob_eventId r"
        using own publish(3) m fixed r(1) by (auto simp: rows_fixed_def)
      ultimately show ?thesis
        by (auto simp: row_was_sent_def sent_for_def tenant_of_def intro!: exI [of _ "snd (rows ! j)"])
    qed
  qed
  have waits: "\<forall>m < length ps. (ps[j := x]) ! m = ToMark \<longrightarrow> sent_for (rows ! m) \<in> set (p_queue w)"
  proof (intro allI impI)
    fix m assume m: "m < length ps" "(ps[j := x]) ! m = ToMark"
    show "sent_for (rows ! m) \<in> set (p_queue w)"
    proof (cases "m = j")
      case True
      with m have "x = ToMark" by simp
      then show ?thesis using eff(3) True by simp
    next
      case False
      with m have "ps ! m = ToMark" by simp
      then show ?thesis using mark m(1) eff(1) by blast
    qed
  qed
  have "cluster_sent ev old (c\<lparr>shared := w\<rparr>)"
    using inv fixed sent eff(1) by (auto simp: cluster_sent_def)
  with own waits show ?thesis unfolding publish(1) by (auto simp: cluster_sent_def)
next
  case (others d t)
  have "ob_id r \<in> old \<or> row_was_sent r (shared c)" if r: "r \<in> set (outboxes d)" "ob_published r" for r
  proof -
    have "ob_id r \<in> published_ids (p_db (shared c))" using r others(2) by (auto simp: published_ids_def)
    then obtain r0 where "r0 \<in> set (outboxes (p_db (shared c)))" "ob_published r0" "ob_id r0 = ob_id r"
      by (auto simp: published_ids_def)
    moreover from this have "ob_eventId r0 = ob_eventId r"
      using inv others(3) r(1) by (auto simp: cluster_sent_def rows_fixed_def)
    ultimately show ?thesis using inv by (auto simp: cluster_sent_def row_was_sent_def sent_for_def tenant_of_def)
  qed
  then show ?thesis using inv others(3) unfolding others(1) by (auto simp: cluster_sent_def row_was_sent_def)
next
  case (begin_tick i rows seen)
  then show ?thesis using inv listUnpublished_event [of ev "p_db (shared c)"] by (auto simp: cluster_sent_def)
next
  case (lock_decided i r d a)
  have "doing (pollers d j) = doing (pollers c j)" for j
    using tryBecomeLeader_shape(1) [OF lock_decided(3), of j] by auto
  then show ?thesis unfolding lock_decided(1) using tryBecomeLeader_shape(2) [OF lock_decided(3)]
    by (intro cluster_sent_same [OF inv]) (auto split: if_splits)
next
  case (unlocks i)
  have "doing (pollers (releaseLeader i c) j) = doing (pollers c j)" for j using releaseLeader_shape [of i c j] by auto
  then show ?thesis unfolding unlocks(1) using releaseLeader_shape [of i c i]
    by (intro cluster_sent_same [OF inv]) (auto simp: unlocked_def split: if_splits)
qed (intro cluster_sent_same [OF inv]; auto simp: poller_moves split: if_splits)+

lemma cluster_sent_reach:
  "(cluster_step ev)\<^sup>*\<^sup>* (startCluster w) c \<Longrightarrow> rows_fixed ev (p_db w) \<Longrightarrow> cluster_sent ev (published_ids (p_db w)) c"
proof (induction rule: rtranclp_induct)
  case base
  then show ?case by (auto simp: cluster_sent_def startCluster_def newPoller_def published_ids_def)
qed (use cluster_sent_step in blast)

text \<open>C7: Whatever publishers take over from one another, lose their sessions in the middle of a batch, fail
  or publish side by side: for every outbox row that one of them has marked published, a message that carries
  the event of this very row is in the queue.\<close>

theorem no_publisher_marks_unsent_rows:
  assumes "(cluster_step ev)\<^sup>*\<^sup>* (startCluster w) c" and "rows_fixed ev (p_db w)"
    and "r \<in> set (outboxes (p_db (shared c)))" and "ob_published r" and "ob_id r \<notin> published_ids (p_db w)"
  shows "\<exists>e. ev_id e = ob_eventId r \<and> sent_for (r, e) \<in> set (p_queue (shared c))"
  using cluster_sent_reach [OF assms(1,2)] assms(3-5) by (auto simp: cluster_sent_def row_was_sent_def)

section \<open>Examples\<close>

text \<open>The first publisher is elected; it loses its session, and the second is elected too.\<close>

definition elected :: "nat \<Rightarrow> poller" where
  "elected s = \<lparr>session = Some s, isLeader = True, stopping = False, afterTenantId = [], doing = Elected, grantedOn = Some s\<rparr>"

definition one_elected :: "publisher_world \<Rightarrow> cluster" where
  "one_elected w = \<lparr>lock_holder = Some 0, live = {0}, next_session = 1, pollers = (\<lambda>_. newPoller)(0 := elected 0), shared = w\<rparr>"

text \<open>An election in three steps: asked, decided, learnt.\<close>

lemma steps_elect:
  assumes "pollers c i = newPoller" and "lock_holder c = None"
  shows "(cluster_step ev)\<^sup>*\<^sup>* c (set_poller i (elected (next_session c))
    (c\<lparr>lock_holder := Some (next_session c), live := insert (next_session c) (live c), next_session := Suc (next_session c)\<rparr>))"
proof -
  let ?z = "set_poller i (elected (next_session c))
    (c\<lparr>lock_holder := Some (next_session c), live := insert (next_session c) (live c), next_session := Suc (next_session c)\<rparr>)"
  let ?a = "set_poller i (newPoller\<lparr>doing := Asking\<rparr>) c"
  have s1: "cluster_step ev c ?a" using ask [of c i ev] assms(1) by (simp add: newPoller_def)
  obtain b where b: "tryBecomeLeader i ?a = (Some True, b)" by (simp add: tryBecomeLeader_def ensure_session_def newPoller_def assms(2))
  let ?b = "set_poller i ((pollers b i)\<lparr>doing := Answered (Some True)\<rparr>) b"
  have s2: "cluster_step ev ?a ?b" using lock_decided [of ?a i "Some True" b "Some True" ev] b by (simp add: newPoller_def)
  have s3: "cluster_step ev ?b (becomeLeader i True ?b)" by (rule learn) simp
  have "becomeLeader i True ?b = ?z"
    using b by (auto simp: tryBecomeLeader_def ensure_session_def newPoller_def assms(2) becomeLeader_def open_session_def
        set_poller_def elected_def)
  with s1 s2 s3 show ?thesis by (metis converse_rtranclp_into_rtranclp rtranclp.rtrancl_refl)
qed

lemma steps_elected: "(cluster_step ev)\<^sup>*\<^sup>* (startCluster w) (one_elected w)"
  using steps_elect [of "startCluster w" 0 ev] by (simp add: startCluster_def one_elected_def set_poller_def)

theorem one_leader_with_a_session_witness:
  "\<exists>c :: cluster. leading (pollers c 0) \<and> leading (pollers c 1) \<and> (lost c 0 \<or> lost c 1)
    \<and> lock_holder c = Some 1 \<and> 1 \<in> live c"
proof -
  let ?w = "publisher_start two_tenants"
  let ?lost = "(one_elected ?w)\<lparr>live := {}, lock_holder := None\<rparr>"
  let ?d = "set_poller 1 (elected 1) (?lost\<lparr>lock_holder := Some 1, live := {1}, next_session := 2\<rparr>)"
  have "cluster_step id (one_elected ?w) ?lost"
    using session_lost [of 0 "one_elected ?w"] by (simp add: one_elected_def end_session_def)
  moreover have "(cluster_step id)\<^sup>*\<^sup>* ?lost ?d"
    using steps_elect [of ?lost 1 id] by (simp add: one_elected_def numeral_2_eq_2)
  ultimately have "(cluster_step id)\<^sup>*\<^sup>* (startCluster ?w) ?d"
    using steps_elected [of id ?w] by (meson rtranclp.rtrancl_into_rtrancl rtranclp_trans)
  from one_leader_with_a_session [OF this, of 0 1] show ?thesis
    by (intro exI [of _ ?d]) (simp add: elected_def one_elected_def leading_def)
qed

lemma first_row_published:
  "case advance quiet_env (listUnpublished two_tenants two_tenants BATCH_SIZE [] ! 0) ToSend (publisher_start two_tenants) of
     (x, w) \<Rightarrow> x = ToMark \<and> (case advance quiet_env (listUnpublished two_tenants two_tenants BATCH_SIZE [] ! 0) ToMark w of
        (y, w') \<Rightarrow> list_ex (\<lambda>r. ob_id r = ''o1'' \<and> ob_eventId r = ''e1'' \<and> ob_published r) (outboxes (p_db w')))"
  by code_simp

theorem no_publisher_marks_unsent_rows_witness:
  "\<exists>(c :: cluster) r e. ob_id r = ''o1'' \<and> ob_published r \<and> r \<in> set (outboxes (p_db (shared c)))
    \<and> ev_id e = ''e1'' \<and> sent_for (r, e) \<in> set (p_queue (shared c))"
proof -
  let ?w = "publisher_start two_tenants" and ?rows = "listUnpublished two_tenants two_tenants BATCH_SIZE []"
  let ?ev = "\<lambda>k. if k = ''o3'' then ''e2'' else ''e1''"
  obtain w1 where w1: "advance quiet_env (?rows ! 0) ToSend ?w = (ToMark, w1)"
    using first_row_published by (auto split: prod.splits)
  obtain y w2 r where w2: "advance quiet_env (?rows ! 0) ToMark w1 = (y, w2)"
    and r: "r \<in> set (outboxes (p_db w2))" "ob_id r = ''o1''" "ob_eventId r = ''e1''" "ob_published r"
    using first_row_published w1 by (auto simp: list_ex_iff split: prod.splits)
  have len: "0 < length ?rows" by code_simp
  let ?p = "\<lambda>ps. (elected 0)\<lparr>doing := Publishing ?rows ps\<rparr>" and ?ps = "replicate (length ?rows) ToSend"
  let ?c1 = "set_poller 0 (?p ?ps) (one_elected ?w)"
  let ?c2 = "set_poller 0 (?p (?ps[0 := ToMark])) ((one_elected ?w)\<lparr>shared := w1\<rparr>)"
  let ?c3 = "set_poller 0 (?p (?ps[0 := y])) ((one_elected ?w)\<lparr>shared := w2\<rparr>)"
  have db: "p_db (shared (one_elected ?w)) = two_tenants" by (simp add: one_elected_def publisher_start_def)
  have p0: "pollers (one_elected ?w) 0 = elected 0" by (simp add: one_elected_def)
  have s1: "cluster_step ?ev (one_elected ?w) ?c1"
    using begin_tick [of "one_elected ?w" 0 ?rows two_tenants ?ev] db by (simp add: p0) (simp add: elected_def)
  have s2: "cluster_step ?ev ?c1 ?c2"
    using publish [of ?c1 0 ?rows ?ps 0 quiet_env ToMark w1 ?ev] len w1
    by (simp add: set_poller_def) (simp add: one_elected_def elected_def)
  have s3: "cluster_step ?ev ?c2 ?c3"
    using publish [of ?c2 0 ?rows "?ps[0 := ToMark]" 0 quiet_env y w2 ?ev] len w2 by (simp add: set_poller_def)
  have run: "(cluster_step ?ev)\<^sup>*\<^sup>* (startCluster ?w) ?c3"
    using steps_elected [of ?ev ?w] s1 s2 s3 by (meson rtranclp.rtrancl_into_rtrancl)
  have fixed: "rows_fixed ?ev (p_db ?w)" unfolding rows_fixed_def list_all_iff [symmetric] by code_simp
  have new: "ob_id r \<notin> published_ids (p_db ?w)" unfolding r(2) published_ids_iff by code_simp
  have in3: "r \<in> set (outboxes (p_db (shared ?c3)))" using r(1) by simp
  from no_publisher_marks_unsent_rows [OF run fixed in3 r(4) new] r(2,3,4) in3 show ?thesis by metis
qed

end
