(* ===== verification/Metrics.thy ===== *)
theory Metrics
  imports Outbox JsText
begin

text \<open>
  The metrics of the services (\<open>packages/shared/src/metrics.ts\<close>, \<open>metrics-server.ts\<close>,
  \<open>packages/api/src/metrics.ts\<close>): which meters each process declares, and the calls its operations make on them.

  \<^item> What the metrics library does with a call is not modelled: a registry is the meters declared on it and
    the calls made so far, in order.
  \<^item> The optional second argument of an increment is 1 when the code leaves it out.
\<close>

section \<open>Registries\<close>

datatype meter_kind = CounterMeter | GaugeMeter | HistogramMeter "rat list"

record meter =
  mt_name :: string
  mt_help :: string
  mt_kind :: meter_kind
  mt_labels :: "string list"

datatype meter_call =
  Increase string "(string \<times> string) list" jsnum
| Observe string "(string \<times> string) list" jsnum
| SetGauge string "(string \<times> string) list" jsnum

record registry =
  rg_defaults :: "(string \<times> string) list"
  rg_meters :: "meter list"
  rg_calls :: "meter_call list"

definition declare_meter :: "string \<Rightarrow> string \<Rightarrow> meter_kind \<Rightarrow> string list \<Rightarrow> registry \<Rightarrow> registry" where
  "declare_meter name help kind labels r = r\<lparr>rg_meters := rg_meters r @ [\<lparr>mt_name = name, mt_help = help, mt_kind = kind, mt_labels = labels\<rparr>]\<rparr>"

definition call_meter :: "meter_call \<Rightarrow> registry \<Rightarrow> registry" where
  "call_meter c r = r\<lparr>rg_calls := rg_calls r @ [c]\<rparr>"

section \<open>What the processes declare\<close>

definition HTTP_DURATION_BUCKETS :: "rat list" where
  "HTTP_DURATION_BUCKETS = [5/1000, 1/100, 25/1000, 5/100, 1/10, 25/100, 5/10, 1, 25/10, 5, 10, 20]"

definition WEBHOOK_DURATION_BUCKETS :: "rat list" where
  "WEBHOOK_DURATION_BUCKETS = [1/100, 25/1000, 5/100, 1/10, 25/100, 5/10, 1, 25/10, 5, 10, 15, 20, 30]"

datatype service_role = ApiService | PublisherService | WorkerService

definition service_name :: "service_role \<Rightarrow> string" where
  "service_name s = (case s of ApiService \<Rightarrow> ''api'' | PublisherService \<Rightarrow> ''publisher'' | WorkerService \<Rightarrow> ''worker'')"

definition createProcessRegistry :: "service_role \<Rightarrow> registry" where
  "createProcessRegistry role =
     declare_meter ''waybill_process_heap_used_bytes'' ''Used JavaScript heap in bytes.'' GaugeMeter []
     (declare_meter ''waybill_process_resident_memory_bytes'' ''Resident memory used by this process in bytes.'' GaugeMeter []
     (declare_meter ''waybill_process_uptime_seconds'' ''Elapsed time since process startup in seconds.'' GaugeMeter []
     \<lparr>rg_defaults = [(''service'', service_name role)], rg_meters = [], rg_calls = []\<rparr>))"

text \<open>The library runs these callbacks when the registry is read.\<close>

record process_usage =
  pu_uptime :: jsnum
  pu_resident :: jsnum
  pu_heap :: jsnum

definition collectProcess :: "process_usage \<Rightarrow> registry \<Rightarrow> registry" where
  "collectProcess u r =
     call_meter (SetGauge ''waybill_process_heap_used_bytes'' [] (pu_heap u))
     (call_meter (SetGauge ''waybill_process_resident_memory_bytes'' [] (pu_resident u))
     (call_meter (SetGauge ''waybill_process_uptime_seconds'' [] (pu_uptime u)) r))"

datatype http_operation = Ingestion | History | Summary | DeadLetters | ArchiveRead | ReplayRequest | Health | Unmatched

datatype http_method = Get | Head | Post | Put | Patch | DeleteMethod | Options | OtherMethod

datatype status_class = Class nat | OtherStatus | Aborted

definition operation_name :: "http_operation \<Rightarrow> string" where
  "operation_name k = (case k of Ingestion \<Rightarrow> ''ingestion'' | History \<Rightarrow> ''history'' | Summary \<Rightarrow> ''summary''
     | DeadLetters \<Rightarrow> ''dead_letters'' | ArchiveRead \<Rightarrow> ''archive'' | ReplayRequest \<Rightarrow> ''replay'' | Health \<Rightarrow> ''health''
     | Unmatched \<Rightarrow> ''unmatched'')"

definition method_name :: "http_method \<Rightarrow> string" where
  "method_name m = (case m of Get \<Rightarrow> ''GET'' | Head \<Rightarrow> ''HEAD'' | Post \<Rightarrow> ''POST'' | Put \<Rightarrow> ''PUT'' | Patch \<Rightarrow> ''PATCH''
     | DeleteMethod \<Rightarrow> ''DELETE'' | Options \<Rightarrow> ''OPTIONS'' | OtherMethod \<Rightarrow> ''OTHER'')"

definition status_class_name :: "status_class \<Rightarrow> string" where
  "status_class_name c = (case c of Class n \<Rightarrow> js_digits n @ ''xx'' | OtherStatus \<Rightarrow> ''other'' | Aborted \<Rightarrow> ''aborted'')"

definition createApiMetrics :: registry where
  "createApiMetrics =
     declare_meter ''waybill_http_request_duration_seconds''
       ''API request lifetime through response completion or connection closure in seconds.''
       (HistogramMeter HTTP_DURATION_BUCKETS) [''operation'', ''method'', ''status_class'']
     (declare_meter ''waybill_http_requests_total'' ''Completed or aborted API requests, including rejected requests.''
       CounterMeter [''operation'', ''method'', ''status_class'']
     (createProcessRegistry ApiService))"

definition observeHttp :: "http_operation \<Rightarrow> http_method \<Rightarrow> status_class \<Rightarrow> jsnum \<Rightarrow> registry \<Rightarrow> registry" where
  "observeHttp k m c seconds r =
     (let labels = [(''operation'', operation_name k), (''method'', method_name m), (''status_class'', status_class_name c)]
      in call_meter (Observe ''waybill_http_request_duration_seconds'' labels (js_max (Num 0) seconds))
           (call_meter (Increase ''waybill_http_requests_total'' labels (Num 1)) r))"

definition createQueueMetrics :: "registry \<Rightarrow> registry" where
  "createQueueMetrics r =
     declare_meter ''waybill_sqs_operations_total''
       ''Publishing and delivery SQS operations; incomplete batch confirmations count as failures.''
       CounterMeter [''operation'', ''outcome''] r"

definition sqs_operation_name :: "sqs_operation \<Rightarrow> string" where
  "sqs_operation_name k = (case k of Send \<Rightarrow> ''send'' | Receive \<Rightarrow> ''receive'' | Delete \<Rightarrow> ''delete''
     | ChangeVisibility \<Rightarrow> ''change_visibility'')"

definition outcome_name :: "bool \<Rightarrow> string" where
  "outcome_name ok = (if ok then ''success'' else ''failure'')"

definition recordSqs :: "sqs_operation \<Rightarrow> bool \<Rightarrow> registry \<Rightarrow> registry" where
  "recordSqs k ok r =
     call_meter (Increase ''waybill_sqs_operations_total''
       [(''operation'', sqs_operation_name k), (''outcome'', outcome_name ok)] (Num 1)) r"

definition createPublisherMetrics :: registry where
  "createPublisherMetrics =
     createQueueMetrics
     (declare_meter ''waybill_outbox_publications_total''
       ''Outbox publication results after queue send and database update resolution.'' CounterMeter [''outcome'']
     (createProcessRegistry PublisherService))"

definition publication_name :: "publication \<Rightarrow> string" where
  "publication_name k = (case k of Published \<Rightarrow> ''published'' | AlreadyPublished \<Rightarrow> ''already_published''
     | SendFailed \<Rightarrow> ''send_failed'' | PersistFailed \<Rightarrow> ''persist_failed'')"

definition countPublication :: "publication \<Rightarrow> registry \<Rightarrow> registry" where
  "countPublication k r = call_meter (Increase ''waybill_outbox_publications_total'' [(''outcome'', publication_name k)] (Num 1)) r"

definition createWorkerMetrics :: registry where
  "createWorkerMetrics =
     createQueueMetrics
     (declare_meter ''waybill_buffered_reservations''
       ''Locally tracked buffered receipts with unexpired visibility ownership.'' GaugeMeter []
     (declare_meter ''waybill_delivery_deferrals_total''
       ''Receipts with a confirmed visibility deferral, excluding visibility renewals.'' CounterMeter [''reason'']
     (declare_meter ''waybill_delivery_terminal_outcomes_total''
       ''Successful terminal-state database updates, independent of SQS acknowledgements.'' CounterMeter [''outcome'']
     (declare_meter ''waybill_delivery_retries_total''
       ''Retry decisions after database update resolution, independent of visibility confirmation.'' CounterMeter [''reason'']
     (declare_meter ''waybill_webhook_duration_seconds'' ''Webhook call attempt duration in seconds.''
       (HistogramMeter WEBHOOK_DURATION_BUCKETS) [''outcome'']
     (declare_meter ''waybill_webhook_attempts_total''
       ''Completed webhook call attempts, excluding preparation failures and completed redeliveries.'' CounterMeter [''outcome'']
     (createProcessRegistry WorkerService)))))))"

definition collectReservations :: "jsnum \<Rightarrow> registry \<Rightarrow> registry" where
  "collectReservations n r = call_meter (SetGauge ''waybill_buffered_reservations'' [] n) r"

definition recordWebhook :: "bool \<Rightarrow> jsnum \<Rightarrow> registry \<Rightarrow> registry" where
  "recordWebhook ok seconds r =
     call_meter (Observe ''waybill_webhook_duration_seconds'' [(''outcome'', outcome_name ok)] (js_max (Num 0) seconds))
       (call_meter (Increase ''waybill_webhook_attempts_total'' [(''outcome'', outcome_name ok)] (Num 1)) r)"

definition recordRetry :: "retry_reason \<Rightarrow> registry \<Rightarrow> registry" where
  "recordRetry reason r =
     call_meter (Increase ''waybill_delivery_retries_total''
       [(''reason'', case reason of Preparation \<Rightarrow> ''preparation'' | Webhook \<Rightarrow> ''webhook'')] (Num 1)) r"

definition recordTerminal :: "terminal_outcome \<Rightarrow> registry \<Rightarrow> registry" where
  "recordTerminal out r =
     call_meter (Increase ''waybill_delivery_terminal_outcomes_total''
       [(''outcome'', case out of Succeeded \<Rightarrow> ''succeeded'' | DeadLettered \<Rightarrow> ''dead_lettered'')] (Num 1)) r"

definition deferral_name :: "deferral_reason \<Rightarrow> string" where
  "deferral_name reason = (case reason of CircuitOpen \<Rightarrow> ''circuit_open'' | RateLimited \<Rightarrow> ''rate_limit''
     | NotDue \<Rightarrow> ''not_due'' | TenantTurn \<Rightarrow> ''tenant_turn'')"

definition recordDeferral :: "deferral_reason \<Rightarrow> nat \<Rightarrow> registry \<Rightarrow> registry" where
  "recordDeferral reason n r =
     call_meter (Increase ''waybill_delivery_deferrals_total'' [(''reason'', deferral_name reason)] (Num (of_nat n))) r"

section \<open>Observing requests\<close>

text \<open>\<open>packages/api/src/metrics.ts\<close>\<close>

definition method_of :: "string \<Rightarrow> http_method" where
  "method_of m =
     (if m = ''GET'' then Get else if m = ''HEAD'' then Head else if m = ''POST'' then Post else if m = ''PUT'' then Put
      else if m = ''PATCH'' then Patch else if m = ''DELETE'' then DeleteMethod else if m = ''OPTIONS'' then Options
      else OtherMethod)"

definition operationFor :: "string \<Rightarrow> string \<Rightarrow> http_operation" where
  "operationFor m path =
     (let reads = (m = ''GET'' \<or> m = ''HEAD'')
      in if m = ''POST'' \<and> path_matches [Some ''events''] path then Ingestion
         else if reads \<and> path_matches [Some ''health''] path then Health
         else if reads \<and> path_matches [Some ''tenants'', None, Some ''deliveries''] path then History
         else if reads \<and> path_matches [Some ''tenants'', None, Some ''deliveries'', Some ''summary''] path then Summary
         else if reads \<and> path_matches [Some ''tenants'', None, Some ''dead-letters''] path then DeadLetters
         else if reads \<and> path_matches [Some ''tenants'', None, Some ''dead-letters'', None, Some ''payload''] path then ArchiveRead
         else if m = ''POST'' \<and> path_matches [Some ''tenants'', None, Some ''dead-letters'', None, Some ''replay''] path
         then ReplayRequest
         else Unmatched)"

text \<open>A request under observation, and the events of its response with the status and the time at each.\<close>

record observed_request =
  oq_method :: string
  oq_path :: string
  oq_started :: rat

datatype response_event = Finish int rat | Close bool int rat

definition status_class_of :: "bool \<Rightarrow> int \<Rightarrow> status_class" where
  "status_class_of aborted code =
     (if aborted then Aborted else if 100 \<le> code \<and> code < 600 then Class (nat (code div 100)) else OtherStatus)"

definition record_response :: "observed_request \<Rightarrow> bool \<Rightarrow> int \<Rightarrow> rat \<Rightarrow> bool \<times> registry \<Rightarrow> bool \<times> registry" where
  "record_response rq aborted code t = (\<lambda>(recorded, r).
     if recorded then (recorded, r)
     else (True, observeHttp (operationFor (oq_method rq) (oq_path rq)) (method_of (oq_method rq)) (status_class_of aborted code)
                   (Num ((t - oq_started rq) / 1000)) r))"

fun response_step :: "observed_request \<Rightarrow> response_event \<Rightarrow> bool \<times> registry \<Rightarrow> bool \<times> registry" where
  "response_step rq (Finish code t) = record_response rq False code t"
| "response_step rq (Close finished code t) = record_response rq (\<not> finished) code t"

definition observeApiRequest :: "observed_request \<Rightarrow> response_event list \<Rightarrow> registry \<Rightarrow> registry" where
  "observeApiRequest rq es r = snd (fold (response_step rq) es (False, r))"

section \<open>The listener\<close>

definition metricsServerOptions :: "(string \<Rightarrow> string option) \<Rightarrow> jsnum \<Rightarrow> string \<Rightarrow> exn + (string \<times> jsnum) option" where
  "metricsServerOptions vars defaultPort portVariable =
     (if vars ''METRICS_ENABLED'' \<noteq> Some ''true'' then Inr None
      else let hostname = (case vars ''METRICS_HOST'' of None \<Rightarrow> ''127.0.0.1'' | Some h \<Rightarrow> h)
        in if hostname \<noteq> ''127.0.0.1'' \<and> hostname \<noteq> ''::1''
           then Inl (Error ''METRICS_HOST must be a loopback address until private monitoring networking is configured'')
           else let port = (case vars portVariable of None \<Rightarrow> defaultPort | Some p \<Rightarrow> js_Number p)
             in if \<not> js_isInteger port \<or> js_lt port (Num 1) \<or> js_lt (Num 65535) port
                then Inl (Error (portVariable @ '' must be an integer from 1 to 65535''))
                else Inr (Some (hostname, port)))"

record text_answer =
  ta_status :: nat
  ta_headers :: "(string \<times> string) list"
  ta_text :: string

definition metrics_answer :: "(registry \<Rightarrow> exn + string) \<Rightarrow> string \<Rightarrow> registry \<Rightarrow> string \<Rightarrow> string \<Rightarrow> text_answer" where
  "metrics_answer render contentType r path meth =
     (if path \<noteq> ''/metrics'' then \<lparr>ta_status = 404, ta_headers = [], ta_text = ''Not found''\<rparr>
      else if meth \<noteq> ''GET'' then \<lparr>ta_status = 405, ta_headers = [(''Allow'', ''GET'')], ta_text = ''Method not allowed''\<rparr>
      else (case render r of
              Inl _ \<Rightarrow> \<lparr>ta_status = 503, ta_headers = [], ta_text = ''Metrics unavailable''\<rparr>
            | Inr t \<Rightarrow> \<lparr>ta_status = 200, ta_headers = [(''Content-Type'', contentType), (''Cache-Control'', ''no-store'')], ta_text = t\<rparr>))"

section \<open>Every call is of a declared meter\<close>

text \<open>What the models of the worker and the publisher log, as calls of their registries.\<close>

fun apply_metric :: "metric \<times> jsnum \<Rightarrow> registry \<Rightarrow> registry" where
  "apply_metric (SqsMetric k ok, _) = recordSqs k ok"
| "apply_metric (WebhookMetric ok, seconds) = recordWebhook ok seconds"
| "apply_metric (RetryMetric reason, _) = recordRetry reason"
| "apply_metric (TerminalMetric out, _) = recordTerminal out"
| "apply_metric (DeferralMetric reason n, _) = recordDeferral reason n"

fun fits :: "meter \<Rightarrow> meter_call \<Rightarrow> bool" where
  "fits m (Increase name labels v) \<longleftrightarrow> mt_kind m = CounterMeter \<and> mt_name m = name \<and> mt_labels m = map fst labels \<and> js_le (Num 0) v"
| "fits m (Observe name labels v) \<longleftrightarrow> (case mt_kind m of HistogramMeter _ \<Rightarrow> True | _ \<Rightarrow> False)
     \<and> mt_name m = name \<and> mt_labels m = map fst labels \<and> \<not> js_lt v (Num 0)"
| "fits m (SetGauge name labels v) \<longleftrightarrow> mt_kind m = GaugeMeter \<and> mt_name m = name \<and> mt_labels m = map fst labels"

definition well_typed :: "registry \<Rightarrow> bool" where
  "well_typed r \<longleftrightarrow> distinct (map mt_name (rg_meters r)) \<and> list_all (\<lambda>c. list_ex (\<lambda>m. fits m c) (rg_meters r)) (rg_calls r)"

lemma call_meter_meters [simp]: "rg_meters (call_meter c r) = rg_meters r"
  by (simp add: call_meter_def)

lemma well_typed_call: "well_typed r \<Longrightarrow> list_ex (\<lambda>m. fits m c) (rg_meters r) \<Longrightarrow> well_typed (call_meter c r)"
  by (simp add: well_typed_def call_meter_def)

lemma max_zero_not_negative [simp]: "\<not> js_lt (js_max (Num 0) v) (Num 0)"
  by (cases v) (auto simp: js_max_def)

lemma fold_well_typed:
  assumes "well_typed r" and "\<And>x r'. rg_meters r' = rg_meters r \<Longrightarrow> well_typed r' \<Longrightarrow> well_typed (f x r') \<and> rg_meters (f x r') = rg_meters r"
  shows "well_typed (fold f xs r) \<and> rg_meters (fold f xs r) = rg_meters r"
  using assms(1)
proof (induction xs rule: rev_induct)
  case (snoc x xs)
  then show ?case using assms(2) [of "fold f xs r" x] by simp
qed simp

lemma new_registries_well_typed: "well_typed createApiMetrics" "well_typed createPublisherMetrics" "well_typed createWorkerMetrics"
  by code_simp+

lemmas registry_defs = createApiMetrics_def createPublisherMetrics_def createWorkerMetrics_def createQueueMetrics_def
  createProcessRegistry_def declare_meter_def

lemma observeHttp_well_typed:
  assumes "rg_meters r = rg_meters createApiMetrics" and "well_typed r"
  shows "well_typed (observeHttp k m c seconds r) \<and> rg_meters (observeHttp k m c seconds r) = rg_meters createApiMetrics"
  using assms by (auto simp: observeHttp_def Let_def registry_defs intro!: well_typed_call)

lemma apply_metric_well_typed:
  assumes "rg_meters r = rg_meters createWorkerMetrics" and "well_typed r"
  shows "well_typed (apply_metric x r) \<and> rg_meters (apply_metric x r) = rg_meters createWorkerMetrics"
  using assms
  by (cases x rule: apply_metric.cases)
    (auto simp: recordSqs_def recordWebhook_def recordRetry_def recordTerminal_def recordDeferral_def registry_defs intro!: well_typed_call)

lemma countPublication_well_typed:
  assumes "rg_meters r = rg_meters createPublisherMetrics" and "well_typed r"
  shows "well_typed (countPublication k r) \<and> rg_meters (countPublication k r) = rg_meters createPublisherMetrics"
  using assms by (auto simp: countPublication_def registry_defs intro!: well_typed_call)

text \<open>The responses a run of the API observes: each request with its events.\<close>

definition api_run :: "(observed_request \<times> response_event list) list \<Rightarrow> registry" where
  "api_run rs = fold (\<lambda>(rq, es). observeApiRequest rq es) rs createApiMetrics"

lemma response_steps:
  "fold (response_step rq) es (True, r) = (True, r)"
proof (induction es)
  case (Cons e es)
  have "response_step rq e (True, r) = (True, r)" by (cases e) (simp_all add: record_response_def)
  with Cons show ?case by simp
qed simp

definition first_class :: "response_event \<Rightarrow> status_class" where
  "first_class e = (case e of Finish code _ \<Rightarrow> status_class_of False code | Close finished code _ \<Rightarrow> status_class_of (\<not> finished) code)"

lemma observeApiRequest_once:
  "observeApiRequest rq es r = (case es of [] \<Rightarrow> r
     | e # _ \<Rightarrow> observeHttp (operationFor (oq_method rq) (oq_path rq)) (method_of (oq_method rq)) (first_class e)
         (Num (((case e of Finish _ t \<Rightarrow> t | Close _ _ t \<Rightarrow> t) - oq_started rq) / 1000)) r)"
proof (cases es)
  case (Cons e es')
  then show ?thesis by (cases e) (simp_all add: observeApiRequest_def record_response_def response_steps first_class_def)
qed (simp add: observeApiRequest_def)

lemma api_run_well_typed: "well_typed (api_run rs) \<and> rg_meters (api_run rs) = rg_meters createApiMetrics"
  unfolding api_run_def
proof (rule fold_well_typed [OF new_registries_well_typed(1)])
  fix x and r :: registry
  assume "rg_meters r = rg_meters createApiMetrics" "well_typed r"
  then show "well_typed ((case x of (rq, es) \<Rightarrow> observeApiRequest rq es) r) \<and>
      rg_meters ((case x of (rq, es) \<Rightarrow> observeApiRequest rq es) r) = rg_meters createApiMetrics"
    by (auto simp: observeApiRequest_once observeHttp_well_typed split: prod.split list.split)
qed

text \<open>Every call the services make on their metrics is well typed: it names a meter the process declares,
  of the kind the call needs, with exactly its labels in order; counters never go down and no negative duration
  is observed. This holds for every sequence of worker events, of publications and of requests with their response
  events.\<close>

theorem metric_calls_are_well_typed:
  "well_typed (fold apply_metric ms createWorkerMetrics) \<and> well_typed (fold countPublication ks createPublisherMetrics)
   \<and> well_typed (api_run rs)"
proof (intro conjI)
  show "well_typed (fold apply_metric ms createWorkerMetrics)"
    by (rule conjunct1, rule fold_well_typed [OF new_registries_well_typed(3)], rule apply_metric_well_typed)
  show "well_typed (fold countPublication ks createPublisherMetrics)"
    by (rule conjunct1, rule fold_well_typed [OF new_registries_well_typed(2)], rule countPublication_well_typed)
qed (rule conjunct1 [OF api_run_well_typed])

end
