(* ===== verification/BacklogSampler.thy ===== *)
theory BacklogSampler
  imports Metrics AuthState
begin

text \<open>
  The backlog gauges and their background sampling (\<open>packages/shared/src/backlog-metrics.ts\<close>,
  \<open>packages/worker/src/metrics/backlog-sampler.ts\<close>, \<open>packages/worker/src/repositories/queue-backlog.ts\<close>,
  \<open>outbox-backlog.ts\<close>) and the addresses of the database connections (\<open>packages/shared/src/read-replica.ts\<close>).

  \<^item> A sample that settles is taken, its failure caught and its next run scheduled in one step, for these are
    microtasks that follow one another without a timer between them.
  \<^item> The deadline, the start of the read, its settlement, the next run and the stop are separate steps, in any order.
  \<^item> The address of a connection with parameters set is a parameter (the \<open>URL\<close> class).
\<close>

section \<open>The gauges\<close>

datatype backlog_source = OutboxSource | SqsSource

definition source_name :: "backlog_source \<Rightarrow> string" where
  "source_name s = (case s of OutboxSource \<Rightarrow> ''outbox'' | SqsSource \<Rightarrow> ''sqs'')"

record queue_depth =
  qd_visible :: jsnum
  qd_in_flight :: jsnum
  qd_delayed :: jsnum

definition validateBacklogCount :: "jsnum \<Rightarrow> exn + jsnum" where
  "validateBacklogCount v =
     (if \<not> js_isSafeInteger v \<or> js_lt v (Num 0) then Inl (Error ''Backlog count must be a nonnegative safe integer'') else Inr v)"

definition set_success :: "backlog_source \<Rightarrow> jsnum \<Rightarrow> registry \<Rightarrow> registry" where
  "set_success s v r = call_meter (SetGauge ''waybill_backlog_sample_success'' [(''source'', source_name s)] v) r"

definition set_timestamp :: "backlog_source \<Rightarrow> jsnum \<Rightarrow> registry \<Rightarrow> registry" where
  "set_timestamp s v r = call_meter (SetGauge ''waybill_backlog_sample_timestamp_seconds'' [(''source'', source_name s)] v) r"

definition set_queue :: "string \<Rightarrow> jsnum \<Rightarrow> registry \<Rightarrow> registry" where
  "set_queue k v r = call_meter (SetGauge ''waybill_sqs_messages'' [(''state'', k)] v) r"

definition set_pending :: "jsnum \<Rightarrow> registry \<Rightarrow> registry" where
  "set_pending v r = call_meter (SetGauge ''waybill_outbox_pending'' [] v) r"

definition createBacklogMetrics :: "registry \<Rightarrow> registry" where
  "createBacklogMetrics r0 =
     (let r1 = declare_meter ''waybill_outbox_pending'' ''Unpublished outbox rows at the last successful background sample.'' GaugeMeter [] r0;
          r2 = declare_meter ''waybill_sqs_messages'' ''Approximate SQS depth at the last successful background sample.'' GaugeMeter [''state''] r1;
          r3 = declare_meter ''waybill_backlog_sample_success''
                 ''Whether the latest background sample succeeded; zero before the first success.'' GaugeMeter [''source''] r2;
          r4 = declare_meter ''waybill_backlog_sample_timestamp_seconds''
                 ''Unix time of the last successful background sample; zero before the first success.'' GaugeMeter [''source''] r3;
          r5 = fold (\<lambda>k. set_queue k NaN) [''visible'', ''in_flight'', ''delayed''] (set_pending NaN r4)
      in fold (\<lambda>s r. set_timestamp s (Num 0) (set_success s (Num 0) r)) [OutboxSource, SqsSource] r5)"

definition sample_completed :: "backlog_source \<Rightarrow> jsnum \<Rightarrow> registry \<Rightarrow> registry" where
  "sample_completed s t r = set_success s (Num 1) (set_timestamp s t r)"

definition recordOutbox :: "jsnum \<Rightarrow> jsnum \<Rightarrow> registry \<Rightarrow> exn + registry" where
  "recordOutbox n t r =
     (case validateBacklogCount n of Inl e \<Rightarrow> Inl e | Inr _ \<Rightarrow> Inr (sample_completed OutboxSource t (set_pending n r)))"

definition recordQueue :: "queue_depth \<Rightarrow> jsnum \<Rightarrow> registry \<Rightarrow> exn + registry" where
  "recordQueue d t r =
     (case (validateBacklogCount (qd_visible d), validateBacklogCount (qd_in_flight d), validateBacklogCount (qd_delayed d)) of
        (Inl e, _, _) \<Rightarrow> Inl e
      | (Inr _, Inl e, _) \<Rightarrow> Inl e
      | (Inr _, Inr _, Inl e) \<Rightarrow> Inl e
      | (Inr _, Inr _, Inr _) \<Rightarrow>
          Inr (sample_completed SqsSource t
                (set_queue ''delayed'' (qd_delayed d) (set_queue ''in_flight'' (qd_in_flight d) (set_queue ''visible'' (qd_visible d) r)))))"

definition recordFailure :: "backlog_source \<Rightarrow> registry \<Rightarrow> registry" where
  "recordFailure s r = set_success s (Num 0) r"

section \<open>Reading the backlogs\<close>

definition attribute_count :: "(string \<Rightarrow> string option) option \<Rightarrow> string \<Rightarrow> exn + jsnum" where
  "attribute_count attributes key =
     (case Option.bind attributes (\<lambda>m. m key) of
        None \<Rightarrow> Inl (Error (''Missing or invalid SQS backlog attribute: '' @ key))
      | Some v \<Rightarrow>
          if v = [] \<or> \<not> list_all is_digit v then Inl (Error (''Missing or invalid SQS backlog attribute: '' @ key))
          else validateBacklogCount (js_Number v))"

definition parseQueueDepth :: "(string \<Rightarrow> string option) option \<Rightarrow> exn + queue_depth" where
  "parseQueueDepth attributes =
     (case attribute_count attributes ''ApproximateNumberOfMessages'' of
        Inl e \<Rightarrow> Inl e
      | Inr v \<Rightarrow>
          (case attribute_count attributes ''ApproximateNumberOfMessagesNotVisible'' of
             Inl e \<Rightarrow> Inl e
           | Inr f \<Rightarrow>
               (case attribute_count attributes ''ApproximateNumberOfMessagesDelayed'' of
                  Inl e \<Rightarrow> Inl e
                | Inr d \<Rightarrow> Inr \<lparr>qd_visible = v, qd_in_flight = f, qd_delayed = d\<rparr>)))"

text \<open>A read under a signal: it is refused when the signal is aborted before or when the answer comes.\<close>

definition readQueueBacklog :: "bool \<Rightarrow> bool \<Rightarrow> exn \<Rightarrow> exn + (string \<Rightarrow> string option) option \<Rightarrow> exn + queue_depth" where
  "readQueueBacklog aborted_before aborted_after reason answer =
     (if aborted_before then Inl reason
      else (case answer of Inl e \<Rightarrow> Inl e
            | Inr attributes \<Rightarrow> if aborted_after then Inl reason else parseQueueDepth attributes))"

definition countOutbox :: "bool \<Rightarrow> bool \<Rightarrow> exn \<Rightarrow> exn + jsnum list \<Rightarrow> exn + jsnum" where
  "countOutbox aborted_before aborted_after reason answer =
     (if aborted_before then Inl reason
      else (case answer of Inl e \<Rightarrow> Inl e
            | Inr rows \<Rightarrow>
                if aborted_after then Inl reason
                else (case rows of [] \<Rightarrow> Inl (Error ''Outbox count returned no result'') | n # _ \<Rightarrow> validateBacklogCount n)))"

section \<open>Connection addresses\<close>

record url_class =
  uc_parse :: "string \<Rightarrow> url_parts option"
  uc_with_params :: "string \<Rightarrow> (string \<times> string) list \<Rightarrow> string"

definition postgres_address :: "url_parts \<Rightarrow> bool" where
  "postgres_address u \<longleftrightarrow> url_protocol u \<in> {''postgresql:'', ''postgres:''} \<and> url_hostname u \<noteq> [] \<and> 2 \<le> length (url_pathname u)"

definition outboxSamplerUrl :: "url_class \<Rightarrow> string option \<Rightarrow> exn + string" where
  "outboxSamplerUrl uc v =
     (let text = (case v of None \<Rightarrow> [] | Some t \<Rightarrow> t)
      in case uc_parse uc text of
           None \<Rightarrow> Inl (Error ''Outbox sampling requires a PostgreSQL DATABASE_URL'')
         | Some u \<Rightarrow>
             if \<not> postgres_address u then Inl (Error ''Outbox sampling requires a PostgreSQL DATABASE_URL'')
             else Inr (uc_with_params uc text [(''connection_limit'', ''1''), (''connect_timeout'', ''2''), (''pool_timeout'', ''1''),
                         (''socket_timeout'', ''5'')]))"

definition readReplicaUrl :: "url_class \<Rightarrow> string option \<Rightarrow> exn + string" where
  "readReplicaUrl uc v =
     (let text = (case v of None \<Rightarrow> [] | Some t \<Rightarrow> t)
      in if js_trim text = [] then Inl (Error ''READ_REPLICA_DATABASE_URL is required for dashboard reads'')
         else (case uc_parse uc text of
                 None \<Rightarrow> Inl (Error ''READ_REPLICA_DATABASE_URL must be a PostgreSQL connection URL'')
               | Some u \<Rightarrow>
                   if \<not> postgres_address u then Inl (Error ''READ_REPLICA_DATABASE_URL must identify a PostgreSQL database'')
                   else Inr (uc_with_params uc text [(''connect_timeout'', ''5''), (''pool_timeout'', ''5''), (''socket_timeout'', ''10'')])))"

section \<open>The sampler\<close>

definition BACKLOG_SAMPLE_INTERVAL_MS :: jsnum where "BACKLOG_SAMPLE_INTERVAL_MS = Num 30000"
definition BACKLOG_SAMPLE_TIMEOUT_MS :: jsnum where "BACKLOG_SAMPLE_TIMEOUT_MS = Num 5000"

datatype sample_value = OutboxCount jsnum | Depth queue_depth

datatype sample_phase = Queued | Reading | Finished

record sample_run =
  sr_source :: backlog_source
  sr_phase :: sample_phase
  sr_failed :: bool
  sr_aborted :: bool
  sr_deadline :: bool

text \<open>The runs by number (their controllers and pending tasks), the numbers of the runs whose next timer is armed,
  the gauges, and what each run reported (\<open>True\<close> for a recorded sample).\<close>

record sampler =
  sm_stopped :: bool
  sm_runs :: "sample_run list"
  sm_waits :: "nat list"
  sm_gauges :: registry
  sm_reports :: "(nat \<times> bool) list"

definition timing_ok :: "jsnum option \<Rightarrow> jsnum option \<Rightarrow> bool" where
  "timing_ok interval deadline =
     (let i = (case interval of None \<Rightarrow> BACKLOG_SAMPLE_INTERVAL_MS | Some v \<Rightarrow> v);
          d = (case deadline of None \<Rightarrow> BACKLOG_SAMPLE_TIMEOUT_MS | Some v \<Rightarrow> v)
      in \<not> (\<not> js_isFinite i \<or> js_le i (Num 0) \<or> \<not> js_isFinite d \<or> js_le d (Num 0)))"

definition run_sample :: "backlog_source \<Rightarrow> sampler \<Rightarrow> sampler" where
  "run_sample source s =
     (if sm_stopped s then s
      else s\<lparr>sm_runs := sm_runs s @ [\<lparr>sr_source = source, sr_phase = Queued, sr_failed = False, sr_aborted = False, sr_deadline = True\<rparr>]\<rparr>)"

definition startBacklogSampler :: "jsnum option \<Rightarrow> jsnum option \<Rightarrow> registry \<Rightarrow> exn + sampler" where
  "startBacklogSampler interval deadline gauges =
     (if \<not> timing_ok interval deadline then Inl (Error ''Backlog sampling intervals and deadlines must be positive finite numbers'')
      else Inr (run_sample SqsSource (run_sample OutboxSource
             \<lparr>sm_stopped = False, sm_runs = [], sm_waits = [], sm_gauges = gauges, sm_reports = []\<rparr>)))"

definition sample_failure :: "nat \<Rightarrow> sampler \<Rightarrow> sampler" where
  "sample_failure i s =
     (let r = sm_runs s ! i
      in if sm_stopped s \<or> sr_failed r then s
         else s\<lparr>sm_runs := (sm_runs s)[i := r\<lparr>sr_failed := True\<rparr>], sm_gauges := recordFailure (sr_source r) (sm_gauges s),
                sm_reports := sm_reports s @ [(i, False)]\<rparr>)"

definition finish_sample :: "nat \<Rightarrow> sampler \<Rightarrow> sampler" where
  "finish_sample i s =
     (let s' = s\<lparr>sm_runs := (sm_runs s)[i := (sm_runs s ! i)\<lparr>sr_phase := Finished, sr_deadline := False\<rparr>]\<rparr>
      in if sm_stopped s then s' else s'\<lparr>sm_waits := sm_waits s @ [i]\<rparr>)"

definition begin_sample :: "nat \<Rightarrow> sampler \<Rightarrow> sampler" where
  "begin_sample i s =
     (let r = sm_runs s ! i
      in if sr_aborted r then finish_sample i (sample_failure i s)
         else s\<lparr>sm_runs := (sm_runs s)[i := r\<lparr>sr_phase := Reading\<rparr>]\<rparr>)"

definition record_sample :: "sample_value \<Rightarrow> jsnum \<Rightarrow> registry \<Rightarrow> exn + registry" where
  "record_sample v t r = (case v of OutboxCount n \<Rightarrow> recordOutbox n t r | Depth d \<Rightarrow> recordQueue d t r)"

text \<open>The read resolves with a value, at a time given in milliseconds, or is rejected.\<close>

definition settle_sample :: "nat \<Rightarrow> exn + sample_value \<Rightarrow> jsnum \<Rightarrow> sampler \<Rightarrow> sampler" where
  "settle_sample i result t s =
     finish_sample i
       (case result of
          Inl _ \<Rightarrow> sample_failure i s
        | Inr v \<Rightarrow>
            if sm_stopped s \<or> sr_aborted (sm_runs s ! i) then s
            else (case record_sample v (js_div t (Num 1000)) (sm_gauges s) of
                    Inl _ \<Rightarrow> sample_failure i s
                  | Inr g \<Rightarrow> s\<lparr>sm_gauges := g, sm_reports := sm_reports s @ [(i, True)]\<rparr>))"

definition deadline_fires :: "nat \<Rightarrow> sampler \<Rightarrow> sampler" where
  "deadline_fires i s =
     sample_failure i (s\<lparr>sm_runs := (sm_runs s)[i := (sm_runs s ! i)\<lparr>sr_aborted := True, sr_deadline := False\<rparr>]\<rparr>)"

definition next_fires :: "nat \<Rightarrow> sampler \<Rightarrow> sampler" where
  "next_fires i s = run_sample (sr_source (sm_runs s ! i)) (s\<lparr>sm_waits := remove1 i (sm_waits s)\<rparr>)"

definition stop_sampler :: "sampler \<Rightarrow> sampler" where
  "stop_sampler s = s\<lparr>sm_stopped := True, sm_waits := [],
     sm_runs := map (\<lambda>r. if sr_phase r = Finished then r else r\<lparr>sr_aborted := True, sr_deadline := False\<rparr>) (sm_runs s)\<rparr>"

inductive sampler_step :: "sampler \<Rightarrow> sampler \<Rightarrow> bool" where
  begins: "i < length (sm_runs s) \<Longrightarrow> sr_phase (sm_runs s ! i) = Queued \<Longrightarrow> sampler_step s (begin_sample i s)"
| settles: "i < length (sm_runs s) \<Longrightarrow> sr_phase (sm_runs s ! i) = Reading
    \<Longrightarrow> (case result of Inr (OutboxCount _) \<Rightarrow> sr_source (sm_runs s ! i) = OutboxSource
        | Inr (Depth _) \<Rightarrow> sr_source (sm_runs s ! i) = SqsSource | Inl _ \<Rightarrow> True)
    \<Longrightarrow> sampler_step s (settle_sample i result t s)"
| deadline: "i < length (sm_runs s) \<Longrightarrow> sr_deadline (sm_runs s ! i) \<Longrightarrow> sampler_step s (deadline_fires i s)"
| waited: "i \<in> set (sm_waits s) \<Longrightarrow> sampler_step s (next_fires i s)"
| stops: "sampler_step s (stop_sampler s)"

section \<open>One sample at a time\<close>

text \<open>The claims on a source: the runs that are not over and the timers that will start one.\<close>

definition live :: "sampler \<Rightarrow> backlog_source \<Rightarrow> nat" where
  "live s x = length (filter (\<lambda>r. sr_source r = x \<and> sr_phase r \<noteq> Finished) (sm_runs s))
     + length (filter (\<lambda>i. sr_source (sm_runs s ! i) = x) (sm_waits s))"

text \<open>A run that has not failed has reported nothing; one that failed is aborted. Runs in \<open>X\<close> are excused while
  they are being settled.\<close>

definition runs_ok :: "nat set \<Rightarrow> sampler \<Rightarrow> bool" where
  "runs_ok X s \<longleftrightarrow>
     (\<forall>i < length (sm_runs s). sr_phase (sm_runs s ! i) \<noteq> Finished \<longrightarrow> i \<notin> X \<longrightarrow>
        (if sr_failed (sm_runs s ! i) then sr_aborted (sm_runs s ! i) else i \<notin> fst ` set (sm_reports s)))
   \<and> (\<forall>i < length (sm_runs s). sr_phase (sm_runs s ! i) = Finished \<longrightarrow> \<not> sr_deadline (sm_runs s ! i))
   \<and> distinct (map fst (sm_reports s))
   \<and> (\<forall>i \<in> fst ` set (sm_reports s). i < length (sm_runs s))
   \<and> (\<forall>i \<in> set (sm_waits s). i < length (sm_runs s))"

definition one_claim :: "sampler \<Rightarrow> bool" where
  "one_claim s \<longleftrightarrow> (\<forall>x. if sm_stopped s then live s x \<le> 1 else live s x = 1)"

lemma filter_update:
  "i < length xs \<Longrightarrow> length (filter P (xs[i := y])) + (if P (xs ! i) then 1 else 0) = length (filter P xs) + (if P y then 1 else 0)"
proof (induction xs arbitrary: i)
  case (Cons x xs)
  then show ?case by (cases i) auto
qed simp

lemma filter_keep: "i < length xs \<Longrightarrow> P (xs ! i) = P y \<Longrightarrow> length (filter P (xs[i := y])) = length (filter P xs)"
  using filter_update [of i xs P y] by (auto split: if_splits)

lemma live_keep:
  assumes "i < length (sm_runs s)" and "sr_source r = sr_source (sm_runs s ! i)"
    and "(sr_phase r = Finished) = (sr_phase (sm_runs s ! i) = Finished)"
  shows "live (s\<lparr>sm_runs := (sm_runs s)[i := r]\<rparr>) x = live s x"
proof -
  have src: "sr_source ((sm_runs s)[i := r] ! j) = sr_source (sm_runs s ! j)" for j
    using assms(1,2) by (cases "j = i") auto
  show ?thesis using assms unfolding live_def by (simp add: src filter_keep)
qed

lemma failure_simps [simp]:
  "sm_stopped (sample_failure i s) = sm_stopped s" "sm_waits (sample_failure i s) = sm_waits s"
  "length (sm_runs (sample_failure i s)) = length (sm_runs s)"
  by (simp_all add: sample_failure_def Let_def)

lemma live_frame [simp]:
  "live (s\<lparr>sm_gauges := g\<rparr>) x = live s x" "live (s\<lparr>sm_reports := ps\<rparr>) x = live s x" "live (s\<lparr>sm_stopped := b\<rparr>) x = live s x"
  by (simp_all add: live_def)

lemma live_failure: "i < length (sm_runs s) \<Longrightarrow> live (sample_failure i s) x = live s x"
  using live_keep [of i s "(sm_runs s ! i)\<lparr>sr_failed := True\<rparr>" x] by (simp add: sample_failure_def Let_def live_def)

lemma failure_run:
  "i < length (sm_runs s) \<Longrightarrow> sr_phase (sm_runs (sample_failure i s) ! j) = sr_phase (sm_runs s ! j)"
  "i < length (sm_runs s) \<Longrightarrow> sr_source (sm_runs (sample_failure i s) ! j) = sr_source (sm_runs s ! j)"
  by (cases "j = i"; simp add: sample_failure_def Let_def)+

lemma failure_ok:
  assumes "runs_ok X s" and "i < length (sm_runs s)" and "sr_phase (sm_runs s ! i) \<noteq> Finished" and "i \<notin> X"
  shows "runs_ok (if sr_aborted (sm_runs s ! i) then X else insert i X) (sample_failure i s)"
proof (cases "sm_stopped s \<or> sr_failed (sm_runs s ! i)")
  case True
  then have "sample_failure i s = s" by (simp add: sample_failure_def Let_def)
  then show ?thesis using assms(1) by (simp add: runs_ok_def)
next
  case False
  then have s': "sample_failure i s = s\<lparr>sm_runs := (sm_runs s)[i := (sm_runs s ! i)\<lparr>sr_failed := True\<rparr>],
      sm_gauges := recordFailure (sr_source (sm_runs s ! i)) (sm_gauges s), sm_reports := sm_reports s @ [(i, False)]\<rparr>"
    by (simp add: sample_failure_def Let_def)
  have "i \<notin> fst ` set (sm_reports s)" using assms False by (auto simp: runs_ok_def)
  then show ?thesis using assms unfolding runs_ok_def s' by (auto simp: nth_list_update)
qed

lemma finish_ok:
  assumes "runs_ok X s" and "i < length (sm_runs s)" and "X \<subseteq> {i}"
  shows "runs_ok {} (finish_sample i s)"
proof -
  have "j \<notin> X" if "j \<noteq> i" for j using assms(3) that by blast
  with assms(1,2) show ?thesis
    unfolding runs_ok_def finish_sample_def Let_def by (auto simp: nth_list_update split: if_splits)
qed

lemma live_finish:
  assumes "i < length (sm_runs s)" and "sr_phase (sm_runs s ! i) \<noteq> Finished"
  shows "live (finish_sample i s) x = (if sm_stopped s \<and> sr_source (sm_runs s ! i) = x then live s x - 1 else live s x)"
proof -
  let ?r = "(sm_runs s ! i)\<lparr>sr_phase := Finished, sr_deadline := False\<rparr>"
  have src: "sr_source ((sm_runs s)[i := ?r] ! j) = sr_source (sm_runs s ! j)" for j
    using assms(1) by (cases "j = i") auto
  show ?thesis
    using assms filter_update [of i "sm_runs s" "\<lambda>r. sr_source r = x \<and> sr_phase r \<noteq> Finished" ?r]
    by (auto simp: finish_sample_def Let_def live_def src split: if_splits)
qed

lemma runs_ok_weaken: "runs_ok X s \<Longrightarrow> X \<subseteq> Y \<Longrightarrow> runs_ok Y s"
  unfolding runs_ok_def by blast

lemma settled_claim:
  assumes "one_claim s" and "i < length (sm_runs s)" and "sr_phase (sm_runs s ! i) \<noteq> Finished"
    and "sm_stopped s' = sm_stopped s" "length (sm_runs s') = length (sm_runs s)" "\<And>x. live s' x = live s x"
    and "sr_phase (sm_runs s' ! i) = sr_phase (sm_runs s ! i)"
  shows "one_claim (finish_sample i s')"
proof -
  have "sm_stopped (finish_sample i s') = sm_stopped s" using assms(4) by (simp add: finish_sample_def Let_def)
  moreover have "live (finish_sample i s') x = (if sm_stopped s \<and> sr_source (sm_runs s' ! i) = x then live s x - 1 else live s x)" for x
    using live_finish [of i s' x] assms by simp
  ultimately show ?thesis using assms(1) unfolding one_claim_def by (auto split: if_splits)
qed

lemma run_sample_ok:
  assumes "runs_ok {} s" and "sm_stopped s \<or> live s y = 0" and "\<And>x. x \<noteq> y \<Longrightarrow> sm_stopped s \<or> live s x = 1"
    and "\<And>x. sm_stopped s \<Longrightarrow> live s x \<le> 1"
  shows "runs_ok {} (run_sample y s)" "one_claim (run_sample y s)"
proof -
  let ?r = "\<lparr>sr_source = y, sr_phase = Queued, sr_failed = False, sr_aborted = False, sr_deadline = True\<rparr>"
  show "runs_ok {} (run_sample y s)"
    using assms(1) unfolding runs_ok_def run_sample_def
    by (auto simp: nth_append less_Suc_eq image_iff split: if_splits)
  have waits: "filter (\<lambda>i. sr_source ((sm_runs s @ [?r]) ! i) = x) (sm_waits s) = filter (\<lambda>i. sr_source (sm_runs s ! i) = x) (sm_waits s)" for x
    using assms(1) by (intro filter_cong) (auto simp: runs_ok_def nth_append)
  have "live (run_sample y s) x = (if sm_stopped s \<or> x \<noteq> y then live s x else live s x + 1)" for x
    using waits [of x] by (auto simp: run_sample_def live_def)
  then show "one_claim (run_sample y s)"
    using assms(2-4) unfolding one_claim_def by (auto simp: run_sample_def)
qed

lemma sampler_step_ok:
  assumes "sampler_step s s'" and ok: "runs_ok {} s" and claim: "one_claim s"
  shows "runs_ok {} s' \<and> one_claim s'"
  using assms(1)
proof cases
  case (begins i)
  let ?r = "sm_runs s ! i"
  show ?thesis
  proof (cases "sr_aborted ?r")
    case True
    have "runs_ok {} (finish_sample i (sample_failure i s))"
      using failure_ok [OF ok begins(2)] True begins(3) by (intro finish_ok [where X = "{}"]) (simp_all add: begins(2))
    moreover have "one_claim (finish_sample i (sample_failure i s))"
      using begins(2,3) by (intro settled_claim [OF claim begins(2)]) (simp_all add: live_failure failure_run)
    ultimately show ?thesis using True by (simp add: begins(1) begin_sample_def)
  next
    case False
    have "live (s\<lparr>sm_runs := (sm_runs s)[i := ?r\<lparr>sr_phase := Reading\<rparr>]\<rparr>) x = live s x" for x
      using begins(2,3) by (intro live_keep) simp_all
    then show ?thesis
      using False ok claim begins(2,3) unfolding runs_ok_def one_claim_def
      by (auto simp: begins(1) begin_sample_def nth_list_update)
  qed
next
  case (settles i result t)
  have live_phase: "sr_phase (sm_runs s ! i) \<noteq> Finished" using settles(3) by simp
  let ?m = "case result of
          Inl _ \<Rightarrow> sample_failure i s
        | Inr v \<Rightarrow>
            if sm_stopped s \<or> sr_aborted (sm_runs s ! i) then s
            else (case record_sample v (js_div t (Num 1000)) (sm_gauges s) of
                    Inl _ \<Rightarrow> sample_failure i s
                  | Inr g \<Rightarrow> s\<lparr>sm_gauges := g, sm_reports := sm_reports s @ [(i, True)]\<rparr>)"
  have fresh: "i \<notin> fst ` set (sm_reports s)" if "\<not> sr_aborted (sm_runs s ! i)"
    using ok that settles(2) live_phase by (auto simp: runs_ok_def split: if_splits)
  have "runs_ok {i} ?m"
    using failure_ok [OF ok settles(2) live_phase] runs_ok_weaken [OF ok, of "{i}"] ok fresh settles(2)
    by (auto simp: runs_ok_def split: sum.split if_splits)
  then have "runs_ok {} (settle_sample i result t s)"
    unfolding settle_sample_def using settles(2) by (intro finish_ok [where X = "{i}"]) (auto split: sum.split)
  moreover have "one_claim (settle_sample i result t s)"
    unfolding settle_sample_def
    by (intro settled_claim [OF claim settles(2) live_phase])
      (auto simp: live_failure failure_run settles(2) split: sum.split)
  ultimately show ?thesis by (simp add: settles(1))
next
  case (deadline i)
  let ?r = "(sm_runs s ! i)\<lparr>sr_aborted := True, sr_deadline := False\<rparr>"
  let ?s = "s\<lparr>sm_runs := (sm_runs s)[i := ?r]\<rparr>"
  have open_run: "sr_phase (sm_runs s ! i) \<noteq> Finished" using ok deadline(2,3) by (auto simp: runs_ok_def)
  have "runs_ok {} ?s" using ok deadline(2) unfolding runs_ok_def by (auto simp: nth_list_update split: if_splits)
  from failure_ok [OF this, of i] have "runs_ok {} (sample_failure i ?s)"
    using deadline(2) open_run by simp
  moreover have "live (sample_failure i ?s) x = live s x" for x
    using live_failure [of i ?s x] live_keep [of i s ?r x] deadline(2) by simp
  ultimately show ?thesis using claim by (simp add: deadline(1) deadline_fires_def one_claim_def split: if_splits)
next
  case (waited i)
  let ?s = "s\<lparr>sm_waits := remove1 i (sm_waits s)\<rparr>" and ?y = "sr_source (sm_runs s ! i)"
  have removed: "length (filter P (remove1 i xs)) + (if P i then 1 else 0) = length (filter P xs)" if "i \<in> set xs" for P xs
    using that by (induction xs) auto
  have live: "live ?s x = (if x = ?y then live s x - 1 else live s x) \<and> (x = ?y \<longrightarrow> 1 \<le> live s x)" for x
    using removed [OF waited(2), of "\<lambda>j. sr_source (sm_runs s ! j) = x"] by (auto simp: live_def split: if_splits)
  have s: "runs_ok {} ?s" using ok set_remove1_subset [of i "sm_waits s"] unfolding runs_ok_def by auto
  have c: "sm_stopped s \<Longrightarrow> live s x \<le> 1" "\<not> sm_stopped s \<Longrightarrow> live s x = 1" for x
    using claim unfolding one_claim_def by (auto split: if_splits)
  have "sm_stopped ?s \<or> live ?s ?y = 0" "sm_stopped ?s \<Longrightarrow> live ?s x \<le> 1" "x \<noteq> ?y \<Longrightarrow> sm_stopped ?s \<or> live ?s x = 1" for x
    using live [of x] live [of ?y] c [of x] c [of ?y] by (auto split: if_splits)
  from run_sample_ok [OF s this(1) this(3) this(2)] show ?thesis by (simp add: waited(1) next_fires_def)
next
  case stops
  have "live (stop_sampler s) x \<le> live s x" for x
  proof -
    have "filter (\<lambda>r. sr_source r = x \<and> sr_phase r \<noteq> Finished) (sm_runs (stop_sampler s))
        = map (\<lambda>r. if sr_phase r = Finished then r else r\<lparr>sr_aborted := True, sr_deadline := False\<rparr>)
            (filter (\<lambda>r. sr_source r = x \<and> sr_phase r \<noteq> Finished) (sm_runs s))"
      unfolding stop_sampler_def by (simp add: filter_map o_def) (rule arg_cong [where f = "map _"], rule filter_cong, auto)
    then show ?thesis by (simp add: live_def stop_sampler_def)
  qed
  moreover have "live s x \<le> 1" for x
    using spec [OF claim [unfolded one_claim_def], of x] by (simp split: if_splits)
  moreover have "sm_stopped (stop_sampler s)" by (simp add: stop_sampler_def)
  ultimately have "one_claim (stop_sampler s)" unfolding one_claim_def using le_trans by metis
  moreover have "runs_ok {} (stop_sampler s)"
    using ok unfolding runs_ok_def stop_sampler_def by auto
  ultimately show ?thesis by (simp add: stops)
qed

lemma stopped_frozen:
  assumes "sampler_step s s'" and "sm_stopped s"
  shows "sm_stopped s' \<and> sm_gauges s' = sm_gauges s \<and> sm_reports s' = sm_reports s \<and> length (sm_runs s') = length (sm_runs s)"
  using assms
  by cases (auto simp: begin_sample_def settle_sample_def finish_sample_def sample_failure_def deadline_fires_def next_fires_def
      run_sample_def stop_sampler_def Let_def split: sum.splits)

lemma sampler_reachable_ok: "sampler_step\<^sup>*\<^sup>* s s' \<Longrightarrow> runs_ok {} s \<Longrightarrow> one_claim s \<Longrightarrow> runs_ok {} s' \<and> one_claim s'"
  by (induction rule: rtranclp_induct) (use sampler_step_ok in blast)+

lemma start_ok:
  assumes "startBacklogSampler interval deadline g = Inr s"
  shows "runs_ok {} s \<and> one_claim s"
proof -
  have s: "s = \<lparr>sm_stopped = False, sm_runs = [\<lparr>sr_source = OutboxSource, sr_phase = Queued, sr_failed = False, sr_aborted = False, sr_deadline = True\<rparr>,
       \<lparr>sr_source = SqsSource, sr_phase = Queued, sr_failed = False, sr_aborted = False, sr_deadline = True\<rparr>],
       sm_waits = [], sm_gauges = g, sm_reports = []\<rparr>"
    using assms by (simp add: startBacklogSampler_def run_sample_def split: if_splits)
  have "live s x = 1" for x by (cases x) (simp_all add: live_def s)
  then have "one_claim s" by (simp add: one_claim_def s)
  moreover have "runs_ok {} s" by (simp add: runs_ok_def s less_Suc_eq)
  ultimately show ?thesis by blast
qed

lemma stopped_stays: "sampler_step\<^sup>*\<^sup>* s s' \<Longrightarrow> sm_stopped s \<Longrightarrow>
    sm_stopped s' \<and> sm_gauges s' = sm_gauges s \<and> sm_reports s' = sm_reports s \<and> length (sm_runs s') = length (sm_runs s)"
  by (induction rule: rtranclp_induct) (use stopped_frozen in fastforce)+

text \<open>The sampler never reads a backlog twice at a time and never gives up on one: however reads, deadlines,
  timers and the stop interleave, each source has exactly one run or armed timer until the sampler is stopped and
  at most one after, every run reports one result at most, and after the stop no gauge changes and no run starts.\<close>

theorem sampler_takes_one_sample_at_a_time:
  assumes "startBacklogSampler interval deadline gauges = Inr s0" and "sampler_step\<^sup>*\<^sup>* s0 s"
  shows "(if sm_stopped s then live s x \<le> 1 else live s x = 1) \<and> distinct (map fst (sm_reports s))
    \<and> (sm_stopped s \<and> sampler_step\<^sup>*\<^sup>* s s' \<longrightarrow>
        sm_gauges s' = sm_gauges s \<and> sm_reports s' = sm_reports s \<and> length (sm_runs s') = length (sm_runs s))"
proof -
  from start_ok [OF assms(1)] sampler_reachable_ok [OF assms(2)] have "runs_ok {} s" "one_claim s" by blast+
  then have "if sm_stopped s then live s x \<le> 1 else live s x = 1" "distinct (map fst (sm_reports s))"
    unfolding runs_ok_def one_claim_def by blast+
  then show ?thesis using stopped_stays [of s s'] by blast
qed

definition sampler_example :: sampler where
  "sampler_example = run_sample SqsSource (run_sample OutboxSource
     \<lparr>sm_stopped = False, sm_runs = [], sm_waits = [], sm_gauges = createBacklogMetrics createPublisherMetrics, sm_reports = []\<rparr>)"

theorem sampler_takes_one_sample_at_a_time_witness:
  "live (deadline_fires 0 (begin_sample 0 sampler_example)) OutboxSource = 1
   \<and> sm_reports (settle_sample 0 (Inr (OutboxCount (Num 3))) (Num 5) (deadline_fires 0 (begin_sample 0 sampler_example))) = [(0, False)]
   \<and> distinct (map fst (sm_reports (deadline_fires 0 (begin_sample 0 sampler_example))))"
proof -
  have start: "startBacklogSampler None None (createBacklogMetrics createPublisherMetrics) = Inr sampler_example"
    by (simp add: startBacklogSampler_def timing_ok_def sampler_example_def BACKLOG_SAMPLE_INTERVAL_MS_def BACKLOG_SAMPLE_TIMEOUT_MS_def)
  have "sampler_step sampler_example (begin_sample 0 sampler_example)" by (rule begins) code_simp+
  moreover have "sampler_step (begin_sample 0 sampler_example) (deadline_fires 0 (begin_sample 0 sampler_example))"
    by (rule deadline) code_simp+
  ultimately have run: "sampler_step\<^sup>*\<^sup>* sampler_example (deadline_fires 0 (begin_sample 0 sampler_example))" by simp
  have "\<not> sm_stopped (deadline_fires 0 (begin_sample 0 sampler_example))"
    "sm_reports (settle_sample 0 (Inr (OutboxCount (Num 3))) (Num 5) (deadline_fires 0 (begin_sample 0 sampler_example))) = [(0, False)]"
    by code_simp+
  with sampler_takes_one_sample_at_a_time [OF start run, of OutboxSource] show ?thesis by simp
qed

end
