(* ===== verification/Processes.thy ===== *)
theory Processes
  imports ReceiveCycle Leader BacklogSampler Metrics
begin

text \<open>
  How the two processes of the worker package start and stop (\<open>main\<close> of \<open>packages/worker/src/index.ts\<close> and of
  \<open>outbox-poller.ts\<close>, with the clients of \<open>packages/shared/src/aws.ts\<close> and \<open>prisma.ts\<close>), and the renewal of leases
  the worker installs.

  \<^item> \<open>vars\<close> is the environment of the process, \<open>listens\<close> whether the metrics listener starts, \<open>connect\<close> the error of the
    connection to Redis.  A client is the settings it was constructed with.
  \<^item> \<open>fails\<close> gives the error of each clean-up call; a \<open>finally\<close> block runs after an error too, and an error it throws
    replaces the first one.
\<close>

section \<open>Settings and clients\<close>

definition LONG_POLL_SECONDS :: nat where "LONG_POLL_SECONDS = 20"
definition VISIBILITY_TIMEOUT_SECONDS :: nat where "VISIBILITY_TIMEOUT_SECONDS = 30"

definition requireEnv :: "(string \<Rightarrow> string option) \<Rightarrow> string \<Rightarrow> exn + string" where
  "requireEnv vars name = (if truthy_text (vars name) then Inr (the (vars name)) else Inl (Error (''Missing required env var: '' @ name)))"

text \<open>The region of the queue's client, kept for the process, and of a client of the object store.\<close>

definition createSqsClient :: "(string \<Rightarrow> string option) \<Rightarrow> string option \<Rightarrow> exn + string" where
  "createSqsClient vars client = (case client of Some c \<Rightarrow> Inr c | None \<Rightarrow> requireEnv vars ''AWS_REGION'')"

definition createS3Client :: "(string \<Rightarrow> string option) \<Rightarrow> exn + string" where
  "createS3Client vars = requireEnv vars ''AWS_REGION''"

definition createRedisClient :: "(string \<Rightarrow> string option) \<Rightarrow> exn + string" where
  "createRedisClient vars = requireEnv vars ''REDIS_URL''"

text \<open>\<open>has url name\<close> tells whether a URL has a parameter.\<close>

definition databaseUrl :: "url_class \<Rightarrow> (string \<Rightarrow> string \<Rightarrow> bool) \<Rightarrow> (string \<Rightarrow> string option) \<Rightarrow> exn + string" where
  "databaseUrl uc has vars =
     bindE (requireEnv vars ''DATABASE_URL'') (\<lambda>url.
     case uc_parse uc url of
       None \<Rightarrow> Inl (Error ''Invalid URL'')
     | Some _ \<Rightarrow> Inr (uc_with_params uc url (if has url ''connect_timeout'' then [] else [(''connect_timeout'', ''5'')])))"

definition createSingleConnectionPrisma :: "url_class \<Rightarrow> (string \<Rightarrow> string \<Rightarrow> bool) \<Rightarrow> (string \<Rightarrow> string option) \<Rightarrow> exn + string" where
  "createSingleConnectionPrisma uc has vars =
     bindE (databaseUrl uc has vars) (\<lambda>url.
     Inr (uc_with_params uc url [(''connection_limit'', ''1''), (''socket_timeout'', ''10'')]))"

section \<open>Starting\<close>

record started_worker =
  sw_queueUrl :: string
  sw_targetUrl :: string
  sw_metrics :: "(string \<times> jsnum) option"
  sw_listening :: bool

definition startWorker :: "(string \<Rightarrow> string option) \<Rightarrow> bool \<Rightarrow> exn option \<Rightarrow> exn + started_worker" where
  "startWorker vars listens connect =
     bindE (requireEnv vars ''SQS_QUEUE_URL'') (\<lambda>queueUrl.
     bindE (requireEnv vars ''RECEIVER_URL'') (\<lambda>targetUrl.
     bindE (metricsServerOptions vars (Num 9102) ''WORKER_METRICS_PORT'') (\<lambda>metricsOptions.
     bindE (createSqsClient vars None) (\<lambda>_.
     bindE (createRedisClient vars) (\<lambda>_.
     case connect of
       Some e \<Rightarrow> Inl e
     | None \<Rightarrow> Inr \<lparr>sw_queueUrl = queueUrl, sw_targetUrl = targetUrl, sw_metrics = metricsOptions,
                    sw_listening = (metricsOptions \<noteq> None \<and> listens)\<rparr>)))))"

record started_publisher =
  su_metrics :: "(string \<times> jsnum) option"
  su_listening :: bool
  su_sampler :: "string option"
  su_database :: string

definition startPublisher ::
  "url_class \<Rightarrow> (string \<Rightarrow> string \<Rightarrow> bool) \<Rightarrow> (string \<Rightarrow> string option) \<Rightarrow> bool \<Rightarrow> exn + started_publisher" where
  "startPublisher uc has vars listens =
     bindE (requireEnv vars ''SQS_QUEUE_URL'') (\<lambda>_.
     bindE (requireEnv vars ''AWS_REGION'') (\<lambda>_.
     bindE (metricsServerOptions vars (Num 9101) ''PUBLISHER_METRICS_PORT'') (\<lambda>metricsOptions.
     bindE (if metricsOptions = None then Inr None else bindE (outboxSamplerUrl uc (vars ''DATABASE_URL'')) (\<lambda>u. Inr (Some u))) (\<lambda>sampler.
     bindE (createSingleConnectionPrisma uc has vars) (\<lambda>database.
     Inr \<lparr>su_metrics = metricsOptions, su_listening = (metricsOptions \<noteq> None \<and> listens), su_sampler = sampler, su_database = database\<rparr>)))))"

section \<open>Renewal of leases\<close>

text \<open>The callback of \<open>VisibilityLeases\<close>: the queue hides the receipts whose entries it carries out for the time of a
  lease, and the worker takes those for renewed that the answer confirms.\<close>

definition renewVisibility :: "env \<Rightarrow> batch_queue \<Rightarrow> string list \<Rightarrow> string list act" where
  "renewVisibility env queue rs =
     andThen (observeSqsOperation env ChangeVisibility (changeVisibilityBatch queue rs VISIBILITY_TIMEOUT_SECONDS)
       (batch_confirmed rs)) (\<lambda>result. ret (confirmedBatchReceipts rs result))"

text \<open>A receipt whose renewal the worker counts is hidden for the time of a lease.\<close>

lemma renewed_receipts_are_hidden:
  assumes "renewVisibility env queue rs w = (Inr confirmed, w')" and "r \<in> set confirmed" and "queue_ok queue"
  shows "hidden_until w' r = now w + 30000"
proof -
  obtain ids reply where q: "queue (batch_entries rs) = (ids, reply)" by fastforce
  have "r \<in> set (counted_of queue rs)"
    using assms(1,2) by (auto simp: renewVisibility_def changeVisibilityBatch_def q counted_of_def observeSqsOperation_def andThen_def
        catching_def recordMetric_def modify_def ret_def throw_def split: sum.splits if_splits prod.splits)
  then have "r \<in> hidden_by queue rs" using counted_hidden(1) [OF assms(3)] by blast
  then have h: "\<exists>i \<in> set ids. (i, r) \<in> set (batch_entries rs)" using hidden_by_entries [of queue rs ids reply r] q by blast
  have "w' = snd (changeVisibilityBatch queue rs VISIBILITY_TIMEOUT_SECONDS w)\<lparr>metrics := metrics w'\<rparr>"
    using assms(1) by (auto simp: renewVisibility_def changeVisibilityBatch_def q observeSqsOperation_def andThen_def
        catching_def recordMetric_def modify_def ret_def throw_def split: sum.splits if_splits prod.splits)
  moreover have "hidden_until (snd (changeVisibilityBatch queue rs VISIBILITY_TIMEOUT_SECONDS w)\<lparr>metrics := ms\<rparr>) r = now w + 30000" for ms
    using h by (auto simp: changeVisibilityBatch_def q VISIBILITY_TIMEOUT_SECONDS_def)
  ultimately show ?thesis by metis
qed

lemma lost_renewal_counts_nothing:
  "snd (queue (batch_entries rs)) = Inl e \<Longrightarrow> \<exists>w'. renewVisibility env queue rs w = (Inl e, w')"
  by (cases "queue (batch_entries rs)")
    (simp add: renewVisibility_def changeVisibilityBatch_def observeSqsOperation_def andThen_def catching_def recordMetric_def modify_def throw_def)

section \<open>Stopping\<close>

datatype cleanup = StopLeases | QuitRedis | StopMetricsServer | StopSampler | DisconnectReader | ReleaseLeader | DisconnectDatabase

text \<open>Nested \<open>finally\<close> blocks: every call is made, and the last error is thrown.\<close>

fun finally_all :: "(cleanup \<Rightarrow> exn option) \<Rightarrow> cleanup list \<Rightarrow> exn option \<Rightarrow> exn option" where
  "finally_all fails [] e = e"
| "finally_all fails (c # cs) e = finally_all fails cs (case fails c of None \<Rightarrow> e | Some e' \<Rightarrow> Some e')"

text \<open>The calls and the error with which \<open>main\<close> ends: the worker's loop ends only with an error, the publisher's also when it
  is told to stop.\<close>

definition stopWorker :: "(cleanup \<Rightarrow> exn option) \<Rightarrow> bool \<Rightarrow> exn \<Rightarrow> cleanup list \<times> exn option" where
  "stopWorker fails listening e =
     (let (calls, e1) = (case fails StopLeases of
            Some x \<Rightarrow> ([StopLeases], Some x)
          | None \<Rightarrow> ([StopLeases, QuitRedis], (case fails QuitRedis of None \<Rightarrow> Some e | Some x \<Rightarrow> Some x)));
          server = (if listening then [StopMetricsServer] else [])
      in (calls @ server, finally_all fails server e1))"

definition stopPublisher :: "(cleanup \<Rightarrow> exn option) \<Rightarrow> bool \<Rightarrow> bool \<Rightarrow> bool \<Rightarrow> exn option \<Rightarrow> cleanup list \<times> exn option" where
  "stopPublisher fails sampling leads listening e =
     (let calls = (if sampling then [StopSampler, DisconnectReader] else []) @ (if leads then [ReleaseLeader] else [])
                  @ [DisconnectDatabase] @ (if listening then [StopMetricsServer] else [])
      in (calls, finally_all fails calls e))"

definition exitCode :: "exn option \<Rightarrow> nat" where
  "exitCode e = (if e = None then 0 else 1)"

lemma finally_all_None: "finally_all fails cs e = None \<longleftrightarrow> e = None \<and> (\<forall>c \<in> set cs. fails c = None)"
  by (induction cs arbitrary: e) (auto split: option.splits)

text \<open>Whatever fails, a publisher that leads asks for the release of the lock and disconnects after it, which ends the
  session that holds the lock; and it exits with 0 exactly when every call succeeded.\<close>

lemma stopped_publisher_disconnects:
  "DisconnectDatabase \<in> set (fst (stopPublisher fails sampling leads listening e))"
  "leads \<Longrightarrow> \<exists>before after. fst (stopPublisher fails sampling leads listening e) = before @ [ReleaseLeader, DisconnectDatabase] @ after"
  "exitCode (snd (stopPublisher fails sampling leads listening e)) = 0
     \<longleftrightarrow> e = None \<and> (\<forall>c \<in> set (fst (stopPublisher fails sampling leads listening e)). fails c = None)"
proof -
  show "DisconnectDatabase \<in> set (fst (stopPublisher fails sampling leads listening e))" by (simp add: stopPublisher_def)
  show "leads \<Longrightarrow> \<exists>before after. fst (stopPublisher fails sampling leads listening e) = before @ [ReleaseLeader, DisconnectDatabase] @ after"
    by (intro exI [of _ "if sampling then [StopSampler, DisconnectReader] else []"] exI [of _ "if listening then [StopMetricsServer] else []"])
      (simp add: stopPublisher_def)
  show "exitCode (snd (stopPublisher fails sampling leads listening e)) = 0
     \<longleftrightarrow> e = None \<and> (\<forall>c \<in> set (fst (stopPublisher fails sampling leads listening e)). fails c = None)"
    by (simp add: stopPublisher_def Let_def exitCode_def finally_all_None)
qed

lemma stopped_worker_reports:
  "exitCode (snd (stopWorker fails listening e)) = 1"
  "listening \<Longrightarrow> StopMetricsServer \<in> set (fst (stopWorker fails listening e))"
  by (auto simp: stopWorker_def exitCode_def finally_all_None split: option.splits)

end
