(* ===== verification/CostGuard.thy ===== *)
theory CostGuard
  imports Json JsText
begin

text \<open>
  The guard that gives the hosted services permission to run (\<open>infra/oracle/guard.ts\<close>, with the estimate of
  \<open>infra/oracle/estimate.ts\<close>): the policy, the account's plan, the lease, the health and usage checks, and the
  three modes of the program over its files.

  \<^item> \<open>Date.parse\<close>, the clock at each of its reads, the decoder of bytes, the commands and the answers of the
    monitoring server are parameters; a text is the list of its bytes.
  \<^item> Any write of a file may fail.
\<close>

section \<open>Data\<close>

record policy =
  po_accountId :: string
  po_startsAt :: rat
  po_endsAt :: rat
  po_benefitsExpireAt :: rat
  po_minimumCreditsUsd :: rat
  po_maxSqsPerHour :: rat
  po_maxWritesPerHour :: rat
  po_maxArchiveReadsPerHour :: rat

record plan =
  pl_accountId :: string
  pl_expiresAt :: rat
  pl_credits :: rat

record lease =
  le_issuedAt :: rat
  le_validUntil :: rat
  le_cutoff :: rat

definition second :: rat where "second = 1000"
definition day :: rat where "day = 86400 * second"
definition grace :: rat where "grace = 120 * second"
definition leaseLife :: rat where "leaseLife = 180 * second"

definition directory :: string where "directory = ''/run/waybill-guard''"
definition leasePath :: string where "leasePath = directory @ ''/allowed.json''"
definition latch :: string where "latch = ''/var/lib/waybill-guard/STOPPED''"
definition policyPath :: string where "policyPath = ''/etc/waybill/cost-policy.json''"

definition MAX_SAFE :: rat where "MAX_SAFE = 9007199254740991"

record queries =
  qu_up :: string
  qu_timestamp :: string
  qu_sqs :: string
  qu_writes :: string
  qu_archives :: string

definition guard_queries :: queries where
  "guard_queries =
     \<lparr>qu_up = ''count(up{job=~\"waybill-(api|publisher|worker)\"} == 1)'',
      qu_timestamp = ''min(timestamp(up{job=~\"waybill-(api|publisher|worker)\"}))'',
      qu_sqs = ''sum(increase(waybill_sqs_operations_total[1h]))'',
      qu_writes = ''sum(increase(waybill_http_requests_total{operation=~\"ingestion|replay\",status_class=\"2xx\"}[1h]))'',
      qu_archives = ''sum(increase(waybill_http_requests_total{operation=\"archive\"}[1h]))''\<rparr>"

section \<open>Reading values\<close>

text \<open>An absent member of an object is \<open>None\<close>.\<close>

definition guard_object :: "json option \<Rightarrow> exn + (string \<times> json) list" where
  "guard_object v = (case v of Some (JObj ms) \<Rightarrow> Inr ms | _ \<Rightarrow> Inl (Error ''invalid-data''))"

definition guard_time :: "(string \<Rightarrow> jsnum) \<Rightarrow> json option \<Rightarrow> exn + rat" where
  "guard_time date_parse v =
     (case v of Some (JStr s) \<Rightarrow> (case date_parse s of Num q \<Rightarrow> Inr q | _ \<Rightarrow> Inl (Error ''invalid-time''))
      | _ \<Rightarrow> Inl (Error ''invalid-time''))"

definition guard_number :: "json option \<Rightarrow> rat \<Rightarrow> rat \<Rightarrow> exn + rat" where
  "guard_number v lo hi =
     (case v of Some (JNum (Num q)) \<Rightarrow> if q < lo \<or> hi < q then Inl (Error ''invalid-number'') else Inr q
      | _ \<Rightarrow> Inl (Error ''invalid-number''))"

definition readPolicy :: "(string \<Rightarrow> jsnum) \<Rightarrow> json \<Rightarrow> exn + policy" where
  "readPolicy date_parse value =
     bindE (guard_object (Some value)) (\<lambda>raw.
       case (map_of raw ''coveredServicesVerified'', map_of raw ''accountId'') of
         (Some (JBool True), Some (JStr accountId)) \<Rightarrow>
           if length accountId \<noteq> 12 \<or> \<not> list_all is_digit accountId then Inl (Error ''coverage-not-verified'')
           else
             bindE (guard_time date_parse (map_of raw ''startsAt'')) (\<lambda>startsAt.
             bindE (guard_time date_parse (map_of raw ''endsAt'')) (\<lambda>endsAt.
             bindE (guard_time date_parse (map_of raw ''benefitsExpireAt'')) (\<lambda>benefits.
             if endsAt \<le> startsAt \<or> 60 * day < endsAt - startsAt \<or> benefits \<le> startsAt + 3 * day
             then Inl (Error ''invalid-operating-window'')
             else
               bindE (guard_number (map_of raw ''minimumCreditsUsd'') 5 10000) (\<lambda>credits.
               bindE (guard_number (map_of raw ''maxSqsPerHour'') 2000 100000) (\<lambda>sqs.
               bindE (guard_number (map_of raw ''maxWritesPerHour'') 1 10000) (\<lambda>writes.
               bindE (guard_number (map_of raw ''maxArchiveReadsPerHour'') 1 10000) (\<lambda>reads.
               Inr \<lparr>po_accountId = accountId, po_startsAt = startsAt, po_endsAt = endsAt, po_benefitsExpireAt = benefits,
                    po_minimumCreditsUsd = credits, po_maxSqsPerHour = sqs, po_maxWritesPerHour = writes,
                    po_maxArchiveReadsPerHour = reads\<rparr>)))))))
       | _ \<Rightarrow> Inl (Error ''coverage-not-verified''))"

definition readPlan :: "(string \<Rightarrow> jsnum) \<Rightarrow> json \<Rightarrow> policy \<Rightarrow> exn + plan" where
  "readPlan date_parse value policy =
     bindE (guard_object (Some value)) (\<lambda>raw.
     bindE (guard_object (map_of raw ''accountPlanRemainingCredits'')) (\<lambda>credit.
     if map_of raw ''accountId'' \<noteq> Some (JStr (po_accountId policy)) \<or> map_of raw ''accountPlanType'' \<noteq> Some (JStr ''FREE'')
        \<or> map_of raw ''accountPlanStatus'' \<noteq> Some (JStr ''ACTIVE'') \<or> map_of credit ''unit'' \<noteq> Some (JStr ''USD'')
     then Inl (Error ''unsupported-account-plan'')
     else
       bindE (guard_time date_parse (map_of raw ''accountPlanExpirationDate'')) (\<lambda>expires.
       bindE (guard_number (map_of credit ''amount'') 0 1000000) (\<lambda>credits.
       Inr \<lparr>pl_accountId = po_accountId policy, pl_expiresAt = expires, pl_credits = credits\<rparr>))))"

section \<open>The checks\<close>

definition permission :: "policy \<Rightarrow> plan \<Rightarrow> rat \<Rightarrow> exn + lease" where
  "permission policy plan now =
     (let cutoff = min (po_endsAt policy) (min (po_benefitsExpireAt policy - 3 * day) (pl_expiresAt plan - 3 * day))
      in if now < po_startsAt policy \<or> cutoff \<le> now \<or> pl_credits plan \<le> po_minimumCreditsUsd policy
         then Inl (Error ''coverage-window-or-reserve'')
         else Inr \<lparr>le_issuedAt = now, le_validUntil = min (now + leaseLife) cutoff, le_cutoff = cutoff\<rparr>)"

definition validLease :: "json \<Rightarrow> rat \<Rightarrow> bool" where
  "validLease value now =
     (case bindE (guard_object (Some value)) (\<lambda>raw.
             bindE (guard_number (map_of raw ''issuedAt'') 0 MAX_SAFE) (\<lambda>issued.
             bindE (guard_number (map_of raw ''validUntil'') 0 MAX_SAFE) (\<lambda>until.
             bindE (guard_number (map_of raw ''cutoff'') 0 MAX_SAFE) (\<lambda>cutoff.
             Inr (issued \<le> now + 5 * second \<and> issued \<le> until \<and> until \<le> issued + leaseLife \<and> now < until \<and> until \<le> cutoff))))) of
        Inl _ \<Rightarrow> False | Inr b \<Rightarrow> b)"

definition healthyBackup :: "jsnum \<Rightarrow> rat \<Rightarrow> bool" where
  "healthyBackup timestamp now =
     (case timestamp of Num t \<Rightarrow> 0 < t \<and> t \<le> now + 5 * second \<and> now - t \<le> 36 * 3600 * second | _ \<Rightarrow> False)"

definition healthPermission :: "bool \<Rightarrow> rat option \<Rightarrow> rat \<Rightarrow> exn + rat option" where
  "healthPermission healthy previousBad now =
     (if healthy then Inr None
      else let since = (case previousBad of None \<Rightarrow> now | Some t \<Rightarrow> t)
        in if now < since \<or> grace \<le> now - since then Inl (Error ''health-grace-exhausted'') else Inr (Some since))"

definition withinUsage :: "policy \<Rightarrow> jsnum \<Rightarrow> jsnum \<Rightarrow> jsnum \<Rightarrow> bool" where
  "withinUsage policy sqs writes archives =
     (case (sqs, writes, archives) of
        (Num s, Num w, Num a) \<Rightarrow> 0 \<le> s \<and> 0 \<le> w \<and> 0 \<le> a \<and> s + 120 \<le> po_maxSqsPerHour policy
          \<and> w \<le> po_maxWritesPerHour policy \<and> a \<le> po_maxArchiveReadsPerHour policy
      | _ \<Rightarrow> False)"

definition readMetric :: "json \<Rightarrow> bool \<Rightarrow> exn + rat" where
  "readMetric value emptyAllowed =
     bindE (guard_object (Some value)) (\<lambda>raw.
     bindE (guard_object (map_of raw ''data'')) (\<lambda>data.
     case map_of data ''result'' of
       Some (JArr rows) \<Rightarrow>
         if map_of raw ''status'' \<noteq> Some (JStr ''success'') \<or> map_of data ''resultType'' \<noteq> Some (JStr ''vector'')
         then Inl (Error ''invalid-monitoring'')
         else if rows = [] \<and> emptyAllowed then Inr 0
         else (case rows of
                 [r] \<Rightarrow>
                   bindE (guard_object (Some r)) (\<lambda>row.
                     case map_of row ''value'' of
                       Some (JArr [_, JStr s]) \<Rightarrow>
                         if js_trim s = [] then Inl (Error ''invalid-monitoring'')
                         else guard_number (Some (JNum (js_Number s))) 0 MAX_SAFE
                     | _ \<Rightarrow> Inl (Error ''invalid-monitoring''))
               | _ \<Rightarrow> Inl (Error ''invalid-monitoring''))
     | _ \<Rightarrow> Inl (Error ''invalid-monitoring'')))"

section \<open>The program\<close>

record file_entry =
  fe_uid :: nat
  fe_mode :: nat
  fe_regular :: bool
  fe_text :: string

datatype guard_site =
  MakeDirectory | ChmodDirectory | WriteHealth | WriteLease | ChmodLease | RenameLease | UnlinkLease

record guard_env =
  ge_mode :: string
  ge_root :: bool
  ge_now :: "nat \<Rightarrow> rat"
  ge_date_parse :: "string \<Rightarrow> jsnum"
  ge_decode :: "string \<Rightarrow> string"
  ge_command :: "string list \<Rightarrow> exn + string list \<times> int"
  ge_fetch :: "string \<Rightarrow> exn + bool \<times> string list option"
  ge_outcome :: "guard_site \<Rightarrow> exn outcome"

type_synonym files = "string \<Rightarrow> file_entry option"
type_synonym 'a guarded = "(exn, files, 'a) io"

fun bounded_chunks :: "nat \<Rightarrow> string \<Rightarrow> string list \<Rightarrow> exn + string" where
  "bounded_chunks n got [] = Inr got"
| "bounded_chunks n got (c # cs) =
     (if n < length got + length c then Inl (Error ''response-too-large'') else bounded_chunks n (got @ c) cs)"

definition bounded :: "guard_env \<Rightarrow> string list \<Rightarrow> nat \<Rightarrow> exn + string" where
  "bounded env chunks n = map_sum id (ge_decode env) (bounded_chunks n [] chunks)"

definition run_command :: "guard_env \<Rightarrow> string list \<Rightarrow> exn + string" where
  "run_command env args =
     bindE (ge_command env args) (\<lambda>(chunks, exit).
     bindE (bounded env chunks 32768) (\<lambda>text.
     if exit \<noteq> 0 then Inl (Error ''command-failed'') else Inr text))"

definition parse_json :: "string \<Rightarrow> exn + json" where
  "parse_json t = (case json_parse t of None \<Rightarrow> Inl (Error ''SyntaxError'') | Some v \<Rightarrow> Inr v)"

definition guard_metric :: "guard_env \<Rightarrow> string \<Rightarrow> bool \<Rightarrow> exn + rat" where
  "guard_metric env query emptyAllowed =
     bindE (ge_fetch env query) (\<lambda>(ok, content).
       case content of
         None \<Rightarrow> Inl (Error ''monitoring-unavailable'')
       | Some chunks \<Rightarrow>
           if \<not> ok then Inl (Error ''monitoring-unavailable'')
           else bindE (bounded env chunks 32768) (\<lambda>text. bindE (parse_json text) (\<lambda>v. readMetric v emptyAllowed)))"

definition secureRead :: "string \<Rightarrow> files \<Rightarrow> exn + string" where
  "secureRead path fs =
     (case fs path of
        None \<Rightarrow> Inl (Error ''ENOENT'')
      | Some f \<Rightarrow>
          if fe_uid f \<noteq> 0 \<or> odd (fe_mode f div 16) \<or> odd (fe_mode f div 2) \<or> 32768 < length (fe_text f) \<or> \<not> fe_regular f
          then Inl (Error ''unsafe-local-file'') else Inr (fe_text f))"

definition guard_call :: "guard_env \<Rightarrow> guard_site \<Rightarrow> (files \<Rightarrow> files) \<Rightarrow> unit guarded" where
  "guard_call env site f = external (ge_outcome env site) (modify f)"

definition put_file :: "string \<Rightarrow> string \<Rightarrow> nat \<Rightarrow> files \<Rightarrow> files" where
  "put_file path text mode fs =
     fs(path \<mapsto> (case fs path of Some f \<Rightarrow> f\<lparr>fe_text := text\<rparr>
                 | None \<Rightarrow> \<lparr>fe_uid = 0, fe_mode = mode, fe_regular = True, fe_text = text\<rparr>))"

definition chmod_file :: "string \<Rightarrow> nat \<Rightarrow> files \<Rightarrow> files" where
  "chmod_file path mode fs = fs(path := map_option (\<lambda>f. f\<lparr>fe_mode := mode\<rparr>) (fs path))"

definition make_directory :: "string \<Rightarrow> nat \<Rightarrow> files \<Rightarrow> files" where
  "make_directory path mode fs =
     (if fs path = None then fs(path \<mapsto> \<lparr>fe_uid = 0, fe_mode = mode, fe_regular = False, fe_text = []\<rparr>) else fs)"

definition rename_file :: "string \<Rightarrow> string \<Rightarrow> files \<Rightarrow> files" where
  "rename_file old new fs = fs(new := fs old, old := None)"

definition lease_json :: "lease \<Rightarrow> json" where
  "lease_json l = JObj [(''issuedAt'', JNum (Num (le_issuedAt l))), (''validUntil'', JNum (Num (le_validUntil l))),
     (''cutoff'', JNum (Num (le_cutoff l)))]"

definition healthPath :: string where "healthPath = directory @ ''/health.json''"

definition plan_command :: "string list" where
  "plan_command = [''/usr/local/bin/aws'', ''freetier'', ''get-account-plan-state'', ''--region'', ''us-east-1'', ''--output'', ''json'',
     ''--no-cli-pager'', ''--cli-connect-timeout'', ''5'', ''--cli-read-timeout'', ''8'']"

definition health_command :: "string list" where
  "health_command = [''/bin/bash'', ''/opt/waybill/current/infra/oracle/health.sh'']"

text \<open>What the checks establish before anything is stored: the lease, and since when the health is bad.\<close>

definition run_checks :: "guard_env \<Rightarrow> files \<Rightarrow> exn + lease \<times> rat option" where
  "run_checks env fs =
     (let now = ge_now env 0 in
      bindE (bindE (secureRead policyPath fs) parse_json) (\<lambda>policyValue.
      bindE (readPolicy (ge_date_parse env) policyValue) (\<lambda>policy.
      if now < po_startsAt policy \<or> min (po_endsAt policy) (po_benefitsExpireAt policy - 3 * day) \<le> now
      then Inl (Error ''outside-local-window'')
      else
        bindE (secureRead ''/var/lib/waybill-backup/success'' fs) (\<lambda>stamp.
        if \<not> healthyBackup (js_mul (js_Number (js_trim stamp)) (Num second)) now then Inl (Error ''backup-not-current'')
        else
          bindE (run_command env plan_command) (\<lambda>planText.
          bindE (guard_metric env (qu_up guard_queries) True) (\<lambda>up.
          bindE (guard_metric env (qu_timestamp guard_queries) True) (\<lambda>timestamp.
          bindE (guard_metric env (qu_sqs guard_queries) True) (\<lambda>sqs.
          bindE (guard_metric env (qu_writes guard_queries) True) (\<lambda>writes.
          bindE (guard_metric env (qu_archives guard_queries) True) (\<lambda>archives.
          bindE (parse_json planText) (\<lambda>planValue.
          bindE (readPlan (ge_date_parse env) planValue policy) (\<lambda>plan.
          bindE (permission policy plan (ge_now env 1)) (\<lambda>lease.
          if \<not> withinUsage policy (Num sqs) (Num writes) (Num archives) then Inl (Error ''usage-circuit-open'')
          else
            bindE (if fs healthPath = None then Inr None
                      else bindE (bindE (secureRead healthPath fs) parse_json) (\<lambda>v.
                           bindE (guard_object (Some v)) (\<lambda>ms.
                             if map_of ms ''badSince'' = Some JNull then Inr None
                             else map_sum id Some (guard_number (map_of ms ''badSince'') 0 MAX_SAFE)))) (\<lambda>previous.
            bindE (healthPermission
                        (\<not> isl (run_command env health_command) \<and> up = 3
                          \<and> ge_now env 2 - 90000 \<le> timestamp * second \<and> timestamp * second \<le> ge_now env 3 + 5000)
                        previous (ge_now env 4)) (\<lambda>badSince.
            Inr (lease, badSince))))))))))))))))"

definition guard_main :: "guard_env \<Rightarrow> unit guarded" where
  "guard_main env =
     (if ge_mode env = ''lease''
      then andThen (reading (\<lambda>fs. bindE (secureRead leasePath fs) parse_json)) (\<lambda>r.
             case r of Inl e \<Rightarrow> throw e
             | Inr v \<Rightarrow> if validLease v (ge_now env 0) then ret () else throw (Error ''expired-lease''))
      else if ge_mode env \<noteq> ''check'' \<and> ge_mode env \<noteq> ''enforce'' then throw (Error ''invalid-mode'')
      else if \<not> ge_root env then throw (Error ''root-required'')
      else andThen (reading (\<lambda>fs. fs latch \<noteq> None)) (\<lambda>latched.
        if latched then (if ge_mode env = ''enforce'' then ret () else throw (Error ''shutdown-latched''))
        else andThen (reading (run_checks env)) (\<lambda>checked.
          case checked of Inl e \<Rightarrow> throw e
          | Inr (lease, badSince) \<Rightarrow>
              if ge_mode env = ''check'' then (if badSince \<noteq> None then throw (Error ''health-not-ready'') else ret ())
              else
                andThen (guard_call env MakeDirectory (make_directory directory 493)) (\<lambda>_.
                andThen (guard_call env ChmodDirectory (chmod_file directory 493)) (\<lambda>_.
                andThen (guard_call env WriteHealth (put_file healthPath
                  (stringify (JObj [(''badSince'', case badSince of None \<Rightarrow> JNull | Some t \<Rightarrow> JNum (Num t))])) 384)) (\<lambda>_.
                andThen (guard_call env WriteLease (put_file (leasePath @ ''.tmp'') (stringify (lease_json lease)) 420)) (\<lambda>_.
                andThen (guard_call env ChmodLease (chmod_file (leasePath @ ''.tmp'') 420)) (\<lambda>_.
                guard_call env RenameLease (rename_file (leasePath @ ''.tmp'') leasePath)))))))))"

text \<open>The exit code; a refusal in mode \<open>enforce\<close> removes the lease.\<close>

definition guard_program :: "guard_env \<Rightarrow> files \<Rightarrow> nat \<times> files" where
  "guard_program env fs =
     (case guard_main env fs of
        (Inr _, fs') \<Rightarrow> (0, fs')
      | (Inl _, fs') \<Rightarrow> (78, if ge_mode env = ''enforce'' then snd (guard_call env UnlinkLease (\<lambda>f. f(leasePath := None)) fs') else fs'))"

section \<open>The estimate\<close>

record idle_requests =
  ir_receive :: rat
  ir_sample :: rat
  ir_total :: rat

definition idleRequests :: "rat \<Rightarrow> rat \<Rightarrow> rat \<Rightarrow> rat \<Rightarrow> idle_requests" where
  "idleRequests days parallelReceives pollSeconds sampleSeconds =
     (let seconds = days * 86400
      in \<lparr>ir_receive = seconds / pollSeconds * parallelReceives, ir_sample = seconds / sampleSeconds,
          ir_total = seconds / pollSeconds * parallelReceives + seconds / sampleSeconds\<rparr>)"

section \<open>What a lease guarantees\<close>

lemma guard_call_Inr: "guard_call env site f fs = (Inr u, fs') \<Longrightarrow> fs' = f fs"
  by (cases "ge_outcome env site") (auto simp: guard_call_def andThen_def split: prod.splits sum.splits)

lemma run_checks_success:
  assumes "run_checks env fs = Inr (lease, badSince)"
  shows "\<exists>policyText policyValue policy planText planValue plan sqs writes archives.
    secureRead policyPath fs = Inr policyText \<and> json_parse policyText = Some policyValue
    \<and> readPolicy (ge_date_parse env) policyValue = Inr policy
    \<and> run_command env plan_command = Inr planText \<and> json_parse planText = Some planValue
    \<and> readPlan (ge_date_parse env) planValue policy = Inr plan
    \<and> guard_metric env (qu_sqs guard_queries) True = Inr sqs \<and> guard_metric env (qu_writes guard_queries) True = Inr writes
    \<and> guard_metric env (qu_archives guard_queries) True = Inr archives
    \<and> withinUsage policy (Num sqs) (Num writes) (Num archives)
    \<and> permission policy plan (ge_now env 1) = Inr lease"
proof -
  have p: "parse_json t = Inr v \<longleftrightarrow> json_parse t = Some v" for t v by (simp add: parse_json_def split: option.split)
  show ?thesis
    using assms unfolding run_checks_def Let_def bindE_Inr if_distrib [where f = "\<lambda>x. x = Inr y" for y] if_False p
    apply (elim exE conjE)
    apply (simp split: if_splits)
    apply (cases "fs healthPath"; simp)
    done
qed

lemma enforce_stores_lease:
  assumes "guard_main env fs = (Inr u, fs')" and "ge_mode env = ''enforce''" and "fs latch = None"
  obtains lease badSince f where "run_checks env fs = Inr (lease, badSince)"
    "fs' leasePath = Some f" "fe_text f = stringify (lease_json lease)"
proof -
  have mode: "\<not> ge_mode env = ''lease''" "\<not> ge_mode env = ''check''" using assms(2) by simp_all
  from assms mode obtain lease badSince where checks: "run_checks env fs = Inr (lease, badSince)"
    unfolding guard_main_def by (cases "run_checks env fs") (auto simp: andThen_Inr_iff split: if_splits)
  from assms(1) mode assms(2,3) checks obtain u1 u2 f1 f2 where
    lease: "guard_call env WriteLease (put_file (leasePath @ ''.tmp'') (stringify (lease_json lease)) 420) f1 = (Inr u1, f2)"
    and rest: "\<exists>u3 f3. guard_call env ChmodLease (chmod_file (leasePath @ ''.tmp'') 420) f2 = (Inr u3, f3)
      \<and> guard_call env RenameLease (rename_file (leasePath @ ''.tmp'') leasePath) f3 = (Inr u, fs')"
    unfolding guard_main_def by (simp add: andThen_Inr_iff split: if_splits) blast
  have "\<exists>f. fs' leasePath = Some f \<and> fe_text f = stringify (lease_json lease)"
    using guard_call_Inr [OF lease] rest
    by (cases "f1 (leasePath @ ''.tmp'')") (auto dest!: guard_call_Inr simp: rename_file_def chmod_file_def put_file_def)
  with checks that show thesis by blast
qed

lemma min_of_int: "min (of_int a :: rat) (of_int b) = of_int (min a b)"
  by (simp add: min_def)

text \<open>The lease that a check grants is bounded by the policy and the plan and lasts three minutes.\<close>

lemma permission_bounds:
  assumes "permission policy plan t = Inr lease"
  shows "le_issuedAt lease = t" "le_validUntil lease \<le> t + leaseLife" "le_validUntil lease \<le> po_endsAt policy"
    "le_validUntil lease \<le> po_benefitsExpireAt policy - 3 * day" "le_validUntil lease \<le> pl_expiresAt plan - 3 * day"
    "po_startsAt policy \<le> t" "po_minimumCreditsUsd policy < pl_credits plan"
  using assms by (auto simp: permission_def Let_def min_def split: if_splits)

lemma readPolicy_times:
  assumes "readPolicy date_parse v = Inr policy"
  obtains a b c where "date_parse a = Num (po_startsAt policy)" "date_parse b = Num (po_endsAt policy)"
    "date_parse c = Num (po_benefitsExpireAt policy)"
  using assms by (auto simp: readPolicy_def guard_object_def guard_time_def bindE_Inr split: json.splits option.splits bool.splits if_splits jsnum.splits)

lemma readPlan_times:
  assumes "readPlan date_parse v policy = Inr plan"
  obtains a where "date_parse a = Num (pl_expiresAt plan)"
  using assms by (auto simp: readPlan_def guard_object_def guard_time_def bindE_Inr split: json.splits option.splits bool.splits if_splits jsnum.splits)

definition whole_time :: "rat \<Rightarrow> bool" where
  "whole_time q \<longleftrightarrow> (\<exists>i. q = of_int i \<and> \<bar>i\<bar> < 2 ^ 62)"

lemma whole_time_min: "whole_time a \<Longrightarrow> whole_time b \<Longrightarrow> whole_time (min a b)"
  by (simp add: min_def)

lemma whole_time_shift:
  assumes "\<exists>i. q = of_int i \<and> \<bar>i\<bar> < 2 ^ 60" and "\<bar>k\<bar> < 2 ^ 60"
  shows "whole_time (q + of_int k)"
proof -
  obtain i where "q = of_int i" "\<bar>i\<bar> < 2 ^ 60" using assms(1) by blast
  then have "q + of_int k = of_int (i + k) \<and> \<bar>i + k\<bar> < 2 ^ 62" using assms(2) by simp
  then show ?thesis unfolding whole_time_def by blast
qed

lemma whole_time_prints: "whole_time q \<Longrightarrow> number_prints (Num q)"
proof -
  assume "whole_time q"
  then obtain i where i: "q = of_int i" "\<bar>i\<bar> < 2 ^ 62" unfolding whole_time_def by blast
  have "(2 :: int) ^ 62 \<le> 2 ^ 1000" by (rule power_increasing) simp_all
  then show ?thesis using number_prints_int [of i] i by simp
qed

lemma lease_reads_back:
  assumes "whole_time (le_issuedAt l)" "whole_time (le_validUntil l)" "whole_time (le_cutoff l)"
  shows "json_parse (stringify (lease_json l)) = Some (lease_json l)"
  using assms by (intro json_parse_stringify) (simp add: lease_json_def whole_time_prints)

lemma permission_whole:
  assumes "permission policy plan t = Inr lease"
    and "\<exists>i. t = of_int i \<and> \<bar>i\<bar> < 2 ^ 60" "\<exists>i. po_endsAt policy = of_int i \<and> \<bar>i\<bar> < 2 ^ 60"
    "\<exists>i. po_benefitsExpireAt policy = of_int i \<and> \<bar>i\<bar> < 2 ^ 60" "\<exists>i. pl_expiresAt plan = of_int i \<and> \<bar>i\<bar> < 2 ^ 60"
  shows "whole_time (le_issuedAt lease)" "whole_time (le_validUntil lease)" "whole_time (le_cutoff lease)"
proof -
  have shift: "\<bar>0 :: int\<bar> < 2 ^ 60" "\<bar>- 259200000 :: int\<bar> < 2 ^ 60" "\<bar>180000 :: int\<bar> < 2 ^ 60" by simp_all
  have "whole_time t" "whole_time (po_endsAt policy)"
    "whole_time (t + leaseLife)" "whole_time (po_benefitsExpireAt policy - 3 * day)" "whole_time (pl_expiresAt plan - 3 * day)"
    using whole_time_shift [OF assms(2) shift(1)] whole_time_shift [OF assms(3) shift(1)] whole_time_shift [OF assms(2) shift(3)]
      whole_time_shift [OF assms(4) shift(2)] whole_time_shift [OF assms(5) shift(2)]
    by (simp_all add: leaseLife_def day_def second_def)
  then show "whole_time (le_issuedAt lease)" "whole_time (le_validUntil lease)" "whole_time (le_cutoff lease)"
    using assms(1) by (auto simp: permission_def Let_def intro!: whole_time_min split: if_splits)
qed

lemma validLease_json:
  "validLease (lease_json l) t \<Longrightarrow> t < le_validUntil l"
  by (auto simp: validLease_def lease_json_def guard_object_def guard_number_def split: if_splits)

text \<open>C24: The services are let run only while they are covered: if \<open>enforce\<close> stored a lease and a later \<open>lease\<close>
  check accepts it, then at that check less than three minutes have passed since the permission, and both the operating
  window of the policy and, with three days to spare, the benefits and the account's plan still last; the
  permission was given within the window, with credits above the reserve and usage within the policy's limits. Times are
  whole milliseconds of a bounded range, as \<open>Date\<close> gives them.\<close>

theorem services_run_only_under_coverage:
  assumes granted: "guard_program env fs = (0, fs1)" "ge_mode env = ''enforce''" "fs latch = None"
    and times: "\<And>s q. ge_date_parse env s = Num q \<Longrightarrow> \<exists>i. q = of_int i \<and> \<bar>i\<bar> < 2 ^ 60"
      "\<exists>i. ge_now env 1 = of_int i \<and> \<bar>i\<bar> < 2 ^ 60"
    and checked: "guard_program env' fs1 = (0, fs2)" "ge_mode env' = ''lease''"
  shows "\<exists>policyText policyValue policy planText planValue plan sqs writes archives.
    secureRead policyPath fs = Inr policyText \<and> json_parse policyText = Some policyValue
    \<and> readPolicy (ge_date_parse env) policyValue = Inr policy
    \<and> run_command env plan_command = Inr planText \<and> json_parse planText = Some planValue
    \<and> readPlan (ge_date_parse env) planValue policy = Inr plan
    \<and> guard_metric env (qu_sqs guard_queries) True = Inr sqs \<and> guard_metric env (qu_writes guard_queries) True = Inr writes
    \<and> guard_metric env (qu_archives guard_queries) True = Inr archives
    \<and> ge_now env' 0 < ge_now env 1 + 180000 \<and> ge_now env' 0 < po_endsAt policy
    \<and> ge_now env' 0 < po_benefitsExpireAt policy - 259200000 \<and> ge_now env' 0 < pl_expiresAt plan - 259200000
    \<and> po_startsAt policy \<le> ge_now env 1 \<and> po_minimumCreditsUsd policy < pl_credits plan
    \<and> withinUsage policy (Num sqs) (Num writes) (Num archives)"
proof -
  have "\<exists>u. guard_main env fs = (Inr u, fs1)" using granted(1) by (auto simp: guard_program_def split: prod.splits sum.splits)
  then obtain u where main: "guard_main env fs = (Inr u, fs1)" ..
  from enforce_stores_lease [OF main granted(2,3)] obtain lease badSince f where
    checks: "run_checks env fs = Inr (lease, badSince)"
    and f: "fs1 leasePath = Some f" "fe_text f = stringify (lease_json lease)" .
  from run_checks_success [OF checks] obtain policyText policyValue policy planText planValue plan sqs writes archives where
    r: "secureRead policyPath fs = Inr policyText" "json_parse policyText = Some policyValue"
      "readPolicy (ge_date_parse env) policyValue = Inr policy" "run_command env plan_command = Inr planText"
      "json_parse planText = Some planValue" "readPlan (ge_date_parse env) planValue policy = Inr plan"
      "guard_metric env (qu_sqs guard_queries) True = Inr sqs" "guard_metric env (qu_writes guard_queries) True = Inr writes"
      "guard_metric env (qu_archives guard_queries) True = Inr archives" "withinUsage policy (Num sqs) (Num writes) (Num archives)"
      "permission policy plan (ge_now env 1) = Inr lease" by blast
  have "\<exists>i. po_endsAt policy = of_int i \<and> \<bar>i\<bar> < 2 ^ 60" "\<exists>i. po_benefitsExpireAt policy = of_int i \<and> \<bar>i\<bar> < 2 ^ 60"
    "\<exists>i. pl_expiresAt plan = of_int i \<and> \<bar>i\<bar> < 2 ^ 60"
    using readPolicy_times [OF r(3)] readPlan_times [OF r(6)] times(1) by metis+
  from lease_reads_back [OF permission_whole [OF r(11) times(2) this]]
  have parsed: "json_parse (stringify (lease_json lease)) = Some (lease_json lease)" .
  have "validLease (lease_json lease) (ge_now env' 0)"
    using checked f parsed
    by (auto simp: guard_program_def guard_main_def andThen_Inr_iff secureRead_def parse_json_def andThen_def
        split: prod.splits sum.splits if_splits)
  from validLease_json [OF this] permission_bounds [OF r(11)]
  have "ge_now env' 0 < ge_now env 1 + 180000" "ge_now env' 0 < po_endsAt policy"
    "ge_now env' 0 < po_benefitsExpireAt policy - 259200000" "ge_now env' 0 < pl_expiresAt plan - 259200000"
    "po_startsAt policy \<le> ge_now env 1" "po_minimumCreditsUsd policy < pl_credits plan"
    by (simp_all add: leaseLife_def day_def second_def)
  with r(1-10) show ?thesis by blast
qed

section \<open>An instance\<close>

definition example_policy_json :: json where
  "example_policy_json = JObj [(''coveredServicesVerified'', JBool True), (''accountId'', JStr ''123456789012''), (''startsAt'', JStr ''a''),
     (''endsAt'', JStr ''b''), (''benefitsExpireAt'', JStr ''c''), (''minimumCreditsUsd'', JNum (Num 5)), (''maxSqsPerHour'', JNum (Num 2000)),
     (''maxWritesPerHour'', JNum (Num 10)), (''maxArchiveReadsPerHour'', JNum (Num 10))]"

definition example_plan_json :: json where
  "example_plan_json = JObj [(''accountId'', JStr ''123456789012''), (''accountPlanType'', JStr ''FREE''), (''accountPlanStatus'', JStr ''ACTIVE''),
     (''accountPlanExpirationDate'', JStr ''c''), (''accountPlanRemainingCredits'', JObj [(''unit'', JStr ''USD''), (''amount'', JNum (Num 100))])]"

definition example_metric_json :: json where
  "example_metric_json = JObj [(''status'', JStr ''success''), (''data'', JObj [(''resultType'', JStr ''vector''),
     (''result'', JArr [JObj [(''value'', JArr [JNull, JStr ''3''])]])])]"

definition example_policy :: policy where
  "example_policy = \<lparr>po_accountId = ''123456789012'', po_startsAt = 0, po_endsAt = 86400000, po_benefitsExpireAt = 2592000000,
     po_minimumCreditsUsd = 5, po_maxSqsPerHour = 2000, po_maxWritesPerHour = 10, po_maxArchiveReadsPerHour = 10\<rparr>"

definition example_dates :: "string \<Rightarrow> jsnum" where
  "example_dates s = (if s = ''a'' then Num 0 else if s = ''b'' then Num 86400000 else if s = ''c'' then Num 2592000000 else NaN)"

definition guard_example :: guard_env where
  "guard_example = \<lparr>ge_mode = ''enforce'', ge_root = True, ge_now = (\<lambda>_. 3000), ge_date_parse = example_dates, ge_decode = id,
     ge_command = (\<lambda>args. Inr (if args = plan_command then [stringify example_plan_json] else [], 0)),
     ge_fetch = (\<lambda>_. Inr (True, Some [stringify example_metric_json])), ge_outcome = (\<lambda>_. Completes)\<rparr>"

definition example_files :: files where
  "example_files = [policyPath \<mapsto> \<lparr>fe_uid = 0, fe_mode = 420, fe_regular = True, fe_text = stringify example_policy_json\<rparr>,
     ''/var/lib/waybill-backup/success'' \<mapsto> \<lparr>fe_uid = 0, fe_mode = 420, fe_regular = True, fe_text = ''3''\<rparr>]"

lemma number_prints_numeral: "number_prints (Num (numeral n))" if "(numeral n :: int) < 2 ^ 62"
  using whole_time_prints [of "numeral n"] that unfolding whole_time_def by (metis abs_numeral of_int_numeral)

lemma example_texts:
  "json_parse (stringify example_policy_json) = Some example_policy_json"
  "json_parse (stringify example_plan_json) = Some example_plan_json"
  "json_parse (stringify example_metric_json) = Some example_metric_json"
  by (rule json_parse_stringify, simp add: example_policy_json_def example_plan_json_def example_metric_json_def number_prints_numeral)+

lemma length_js_digits: "n < 10 ^ Suc k \<Longrightarrow> length (js_digits n) \<le> Suc k"
proof (induction k arbitrary: n)
  case 0
  then show ?case by (subst js_digits.simps) simp
next
  case (Suc k)
  then have "n div 10 < 10 ^ Suc k" by (simp add: div_less_iff_less_mult)
  with Suc.IH [OF this] show ?case by (subst js_digits.simps) simp
qed

lemma length_js_String: "n < 10 ^ 20 \<Longrightarrow> length (js_String (Num (of_int (int n)))) \<le> 20"
  using length_js_digits [of n 19] by (simp only: js_String_of_int) (simp add: js_String_int_def)

lemma example_lengths:
  "length (stringify example_policy_json) \<le> 32768" "length (stringify example_plan_json) \<le> 32768"
  "length (stringify example_metric_json) \<le> 32768"
proof -
  note q = length_quote [of "''coveredServicesVerified''"] length_quote [of "''accountId''"] length_quote [of "''123456789012''"]
    length_quote [of "''startsAt''"] length_quote [of "''a''"] length_quote [of "''endsAt''"] length_quote [of "''b''"]
    length_quote [of "''benefitsExpireAt''"] length_quote [of "''c''"] length_quote [of "''minimumCreditsUsd''"]
    length_quote [of "''maxSqsPerHour''"] length_quote [of "''maxWritesPerHour''"] length_quote [of "''maxArchiveReadsPerHour''"]
    length_js_String [of 5] length_js_String [of 2000] length_js_String [of 10]
  show "length (stringify example_policy_json) \<le> 32768"
    unfolding example_policy_json_def using q by simp
  show "length (stringify example_plan_json) \<le> 32768"
    unfolding example_plan_json_def
    using length_quote [of "''accountId''"] length_quote [of "''123456789012''"] length_quote [of "''accountPlanType''"] length_quote [of "''FREE''"]
      length_quote [of "''accountPlanStatus''"] length_quote [of "''ACTIVE''"] length_quote [of "''accountPlanExpirationDate''"]
      length_quote [of "''c''"] length_quote [of "''accountPlanRemainingCredits''"] length_quote [of "''unit''"] length_quote [of "''USD''"]
      length_quote [of "''amount''"] length_js_String [of 100] by simp
  show "length (stringify example_metric_json) \<le> 32768"
    unfolding example_metric_json_def
    using length_quote [of "''status''"] length_quote [of "''success''"] length_quote [of "''data''"] length_quote [of "''resultType''"]
      length_quote [of "''vector''"] length_quote [of "''result''"] length_quote [of "''value''"] length_quote [of "''3''"] by simp
qed

lemma example_policy_read: "readPolicy example_dates example_policy_json = Inr example_policy"
  by (simp add: readPolicy_def example_policy_json_def guard_object_def guard_time_def guard_number_def example_dates_def
      is_digit_def day_def second_def example_policy_def)

definition example_plan :: plan where
  "example_plan = \<lparr>pl_accountId = ''123456789012'', pl_expiresAt = 2592000000, pl_credits = 100\<rparr>"

lemma example_plan_read: "readPlan example_dates example_plan_json example_policy = Inr example_plan"
  by (simp add: readPlan_def example_plan_json_def guard_object_def guard_time_def guard_number_def example_dates_def
      example_policy_def example_plan_def)

definition example_lease :: lease where
  "example_lease = \<lparr>le_issuedAt = 3000, le_validUntil = 183000, le_cutoff = 86400000\<rparr>"

lemma example_lease_given: "permission example_policy example_plan 3000 = Inr example_lease"
  by (simp add: permission_def example_policy_def example_plan_def example_lease_def Let_def day_def second_def leaseLife_def)

lemma three: "js_Number ''3'' = Num 3"
proof -
  have "char_of (51 :: nat) = CHR ''3''" by code_simp
  then have "js_digits 3 = ''3''" by (subst js_digits.simps) (simp add: digit_char_def)
  then show ?thesis using js_Number_js_digits [of 3] js_round_of_int [of 3] by simp
qed

lemma example_metric_read: "readMetric example_metric_json b = Inr 3"
  by (simp add: readMetric_def example_metric_json_def guard_object_def guard_number_def MAX_SAFE_def three js_trim_def js_space_def)

lemma example_metric: "guard_metric guard_example q b = Inr 3"
  using example_lengths(3)
  by (simp add: guard_metric_def guard_example_def bounded_def parse_json_def example_texts example_metric_read)

lemma example_commands:
  "run_command guard_example plan_command = Inr (stringify example_plan_json)" "run_command guard_example health_command = Inr []"
  using example_lengths(2)
  by (simp_all add: run_command_def guard_example_def bounded_def plan_command_def health_command_def)

lemma example_paths:
  "secureRead policyPath example_files = Inr (stringify example_policy_json)"
  "secureRead ''/var/lib/waybill-backup/success'' example_files = Inr ''3''"
  "example_files healthPath = None" "example_files latch = None" "example_files (leasePath @ ''.tmp'') = None"
  using example_lengths(1)
  by (simp_all add: secureRead_def example_files_def policyPath_def healthPath_def latch_def leasePath_def directory_def)

lemma example_env:
  "ge_mode guard_example = ''enforce''" "ge_root guard_example" "ge_now guard_example i = 3000"
  "ge_date_parse guard_example = example_dates" "ge_outcome guard_example site = Completes"
  by (simp_all add: guard_example_def)

lemma example_policy_fields:
  "po_startsAt example_policy = 0" "po_endsAt example_policy = 86400000" "po_benefitsExpireAt example_policy = 2592000000"
  "withinUsage example_policy (Num 3) (Num 3) (Num 3)"
  by (simp_all add: example_policy_def withinUsage_def)

lemma example_checks: "run_checks guard_example example_files = Inr (example_lease, None)"
proof -
  have "js_trim ''3'' = ''3''" by code_simp
  then have "healthyBackup (js_mul (js_Number (js_trim ''3'')) (Num second)) 3000"
    by (simp add: three healthyBackup_def second_def)
  then show ?thesis
    unfolding run_checks_def Let_def
    by (simp add: example_paths example_env example_texts parse_json_def example_policy_read example_policy_fields
        example_commands example_metric example_plan_read example_lease_given healthPermission_def day_def second_def)
qed

definition guard_example_later :: guard_env where
  "guard_example_later = guard_example\<lparr>ge_mode := ''lease'', ge_now := \<lambda>_. 5000\<rparr>"

lemma example_lease_whole: "whole_time (le_issuedAt example_lease)" "whole_time (le_validUntil example_lease)" "whole_time (le_cutoff example_lease)"
proof -
  have "whole_time (numeral n)" if "(numeral n :: int) < 2 ^ 62" for n
    using that unfolding whole_time_def by (metis abs_numeral of_int_numeral)
  then show "whole_time (le_issuedAt example_lease)" "whole_time (le_validUntil example_lease)" "whole_time (le_cutoff example_lease)"
    by (simp_all add: example_lease_def)
qed

theorem services_run_only_under_coverage_witness:
  "\<exists>fs1. guard_program guard_example example_files = (0, fs1) \<and> guard_program guard_example_later fs1 = (0, fs1)
    \<and> ge_now guard_example_later 0 < ge_now guard_example 1 + 180000"
proof -
  let ?tmp = "leasePath @ ''.tmp''"
  let ?fs0 = "put_file healthPath (stringify (JObj [(''badSince'', JNull)])) 384 (chmod_file directory 493 (make_directory directory 493 example_files))"
  let ?fs1 = "rename_file ?tmp leasePath (chmod_file ?tmp 420 (put_file ?tmp (stringify (lease_json example_lease)) 420 ?fs0))"
  have later: "ge_mode guard_example_later = ''lease''" "ge_now guard_example_later i = 5000" for i
    by (simp_all add: guard_example_later_def)
  have main: "guard_main guard_example example_files = (Inr (), ?fs1)"
    by (simp add: guard_main_def andThen_def guard_call_def example_env example_paths example_checks)
  have run: "guard_program guard_example example_files = (0, ?fs1)" by (simp add: guard_program_def main)
  have "?fs0 ?tmp = None"
    by (simp add: put_file_def chmod_file_def make_directory_def example_paths healthPath_def leasePath_def directory_def example_files_def
        policyPath_def)
  then have stored: "?fs1 leasePath = Some \<lparr>fe_uid = 0, fe_mode = 420, fe_regular = True, fe_text = stringify (lease_json example_lease)\<rparr>"
    by (simp add: rename_file_def chmod_file_def put_file_def)
  have short: "length (stringify (lease_json example_lease)) \<le> 32768"
    unfolding lease_json_def example_lease_def
    using length_quote [of "''issuedAt''"] length_quote [of "''validUntil''"] length_quote [of "''cutoff''"]
      length_js_String [of 3000] length_js_String [of 183000] length_js_String [of 86400000] by simp
  have "validLease (lease_json example_lease) 5000"
    by (simp add: validLease_def lease_json_def example_lease_def guard_object_def guard_number_def MAX_SAFE_def second_def leaseLife_def)
  then have check: "guard_program guard_example_later ?fs1 = (0, ?fs1)"
    using stored short lease_reads_back [OF example_lease_whole]
    by (simp add: guard_program_def guard_main_def andThen_def later secureRead_def parse_json_def)
  have whole: "\<exists>i. (numeral n :: rat) = of_int i \<and> \<bar>i\<bar> < 2 ^ 60" if "(numeral n :: int) < 2 ^ 60" for n
    using that by (metis abs_numeral of_int_numeral)
  have times: "\<exists>i. q = of_int i \<and> \<bar>i\<bar> < 2 ^ 60" if "ge_date_parse guard_example x = Num q" for x q
    using that whole by (auto simp: example_env example_dates_def split: if_splits intro: exI [of _ 0])
  have now: "\<exists>i. ge_now guard_example 1 = of_int i \<and> \<bar>i\<bar> < 2 ^ 60" using whole by (simp add: example_env)
  have "ge_now guard_example_later 0 < ge_now guard_example 1 + 180000"
    using services_run_only_under_coverage [OF run example_env(1) example_paths(4) _ now check later(1)] times by blast
  with run check show ?thesis by blast
qed

end
