(* ===== verification/Reports.thy ===== *)
theory Reports
  imports JsText
begin

text \<open>
  The verdicts of the load and fairness checks (\<open>packages/shared/scripts/load-report.ts\<close>,
  \<open>fairness-report.ts\<close>): what is counted, which conditions fail a run, and what a passed report certifies.

  \<^item> Times and counts are exact numbers; an absent property is \<open>None\<close>, and an empty id or error counts as absent
    where the code tests its truth.
  \<^item> The maps of receipts are lists of entries with distinct keys, in insertion order.
\<close>

section \<open>Requests and receipts\<close>

record load_request =
  lr_sequence :: nat
  lr_tenantId :: string
  lr_scheduledAt :: rat
  lr_sentAt :: "rat option"
  lr_finishedAt :: "rat option"
  lr_status :: "int option"
  lr_eventId :: "string option"
  lr_error :: "string option"
  lr_busyPending :: "rat option"

record load_receipt =
  lc_tenantId :: string
  lc_at :: rat
  lc_calls :: rat

record load_outcome =
  lo_eventId :: string
  lo_tenantId :: string
  lo_status :: string
  lo_attemptCount :: rat

record preload_limits =
  pr_expected :: rat
  pr_published :: rat
  pr_visible :: rat
  pr_inFlight :: rat
  pr_delayed :: rat
  pr_receiptsBeforeStart :: rat

record fairness_limits =
  fl_busyTenantId :: string
  fl_quietTenantIds :: "string list"
  fl_busyRequests :: nat
  fl_quietRequestsPerTenant :: nat
  fl_busyP95Ms :: rat
  fl_busyMaxMs :: rat
  fl_minBusyPending :: rat
  fl_minOverlappingRequests :: nat

record load_limits =
  li_planned :: nat
  li_p95Ms :: rat
  li_maxMs :: rat
  li_maxScheduleLagMs :: rat
  li_requireAllAccepted :: bool
  li_preload :: "preload_limits option"
  li_fairness :: "fairness_limits option"

definition given :: "string option \<Rightarrow> bool" where
  "given v = (case v of None \<Rightarrow> False | Some s \<Rightarrow> s \<noteq> [])"

definition loadTenantIndex :: "nat \<Rightarrow> nat \<Rightarrow> nat option \<Rightarrow> nat" where
  "loadTenantIndex sequence tenantCount busyRate =
     (case busyRate of
        None \<Rightarrow> sequence mod tenantCount
      | Some b \<Rightarrow> (let slot = sequence mod (b + tenantCount - 1) in if slot < b then 0 else slot - b + 1))"

definition percentile :: "rat list \<Rightarrow> rat \<Rightarrow> rat option" where
  "percentile vs fraction =
     (if vs = [] then None else Some (sort vs ! nat (max 0 (\<lceil>of_nat (length vs) * fraction\<rceil> - 1))))"

definition insertion_set :: "'a list \<Rightarrow> 'a list" where
  "insertion_set xs = foldl (\<lambda>s x. js_set_add x s) [] xs"

definition count_where :: "('a \<Rightarrow> bool) \<Rightarrow> 'a list \<Rightarrow> nat" where
  "count_where P xs = length (filter P xs)"

fun flat_map :: "('a \<Rightarrow> 'b option) \<Rightarrow> 'a list \<Rightarrow> 'b list" where
  "flat_map f [] = []"
| "flat_map f (x # xs) = (case f x of None \<Rightarrow> flat_map f xs | Some y \<Rightarrow> y # flat_map f xs)"

section \<open>The load report\<close>

record tenant_row =
  tr_tenantId :: string
  tr_role :: string
  tr_overlappedBusy :: nat
  tr_completionMs :: "rat option"
  tr_submitted :: nat
  tr_accepted :: nat
  tr_delivered :: nat
  tr_pending :: int
  tr_p95Ms :: "rat option"
  tr_maxMs :: "rat option"

record load_report =
  lp_passed :: bool
  lp_failures :: "string list"
  lp_planned :: nat
  lp_submitted :: nat
  lp_accepted :: nat
  lp_rejected :: nat
  lp_errors :: nat
  lp_delivered :: nat
  lp_pending :: int
  lp_p95Ms :: "rat option"
  lp_maxMs :: "rat option"
  lp_httpP95Ms :: "rat option"
  lp_maxScheduleLagMs :: "rat option"
  lp_duplicateCalls :: rat
  lp_maxBusyPending :: rat
  lp_statuses :: "(string \<times> nat) list"
  lp_tenants :: "tenant_row list"

definition was_accepted :: "load_request \<Rightarrow> bool" where
  "was_accepted r \<longleftrightarrow> lr_status r = Some 201 \<and> given (lr_eventId r)"

definition event_id :: "load_request \<Rightarrow> string" where
  "event_id r = the (lr_eventId r)"

definition request_failed :: "load_request \<Rightarrow> bool" where
  "request_failed r \<longleftrightarrow> given (lr_error r) \<or> (lr_status r \<noteq> Some 201 \<and> lr_status r \<noteq> Some 429)
     \<or> (lr_status r = Some 201 \<and> \<not> given (lr_eventId r))"

text \<open>The receipt of a request counts only for its own tenant.\<close>

definition own_receipt :: "(string \<times> load_receipt) list \<Rightarrow> load_request \<Rightarrow> load_receipt option" where
  "own_receipt receipts r =
     (case map_of receipts (event_id r) of None \<Rightarrow> None | Some c \<Rightarrow> if lc_tenantId c = lr_tenantId r then Some c else None)"

definition latency_of :: "(string \<times> load_receipt) list \<Rightarrow> load_request \<Rightarrow> rat option" where
  "latency_of receipts r =
     (case (own_receipt receipts r, lr_sentAt r) of (Some c, Some t) \<Rightarrow> Some (lc_at c - t) | _ \<Rightarrow> None)"

definition tenant_row_of :: "load_request list \<Rightarrow> (string \<times> load_receipt) list \<Rightarrow> load_limits \<Rightarrow> string \<Rightarrow> tenant_row" where
  "tenant_row_of requests receipts limits tenantId =
     (let admitted = filter (\<lambda>r. lr_tenantId r = tenantId) (filter was_accepted requests);
          times = flat_map (latency_of receipts) admitted;
          arrivals = flat_map (\<lambda>r. map_option lc_at (own_receipt receipts r)) admitted;
          starts = flat_map lr_sentAt admitted
      in \<lparr>tr_tenantId = tenantId,
          tr_role = (case li_fairness limits of None \<Rightarrow> ''balanced''
             | Some f \<Rightarrow> if tenantId = fl_busyTenantId f then ''busy'' else ''quiet''),
          tr_overlappedBusy = (case li_fairness limits of None \<Rightarrow> 0
             | Some f \<Rightarrow> count_where (\<lambda>r. fl_minBusyPending f \<le> (case lr_busyPending r of None \<Rightarrow> 0 | Some n \<Rightarrow> n)) admitted),
          tr_completionMs = (if arrivals \<noteq> [] \<and> starts \<noteq> [] then Some (foldr max (tl arrivals) (hd arrivals) - foldr min (tl starts) (hd starts))
             else None),
          tr_submitted = count_where (\<lambda>r. lr_tenantId r = tenantId) requests,
          tr_accepted = length admitted, tr_delivered = length times, tr_pending = int (length admitted) - int (length times),
          tr_p95Ms = percentile times (95 / 100), tr_maxMs = percentile times 1\<rparr>)"

definition p95_limit :: "load_limits \<Rightarrow> string \<Rightarrow> rat" where
  "p95_limit limits i =
     (case li_fairness limits of None \<Rightarrow> li_p95Ms limits | Some f \<Rightarrow> if i = fl_busyTenantId f then fl_busyP95Ms f else li_p95Ms limits)"

definition max_limit :: "load_limits \<Rightarrow> string \<Rightarrow> rat" where
  "max_limit limits i =
     (case li_fairness limits of None \<Rightarrow> li_maxMs limits | Some f \<Rightarrow> if i = fl_busyTenantId f then fl_busyMaxMs f else li_maxMs limits)"

definition tenant_too_slow :: "load_limits \<Rightarrow> tenant_row \<Rightarrow> bool" where
  "tenant_too_slow limits t \<longleftrightarrow> tr_accepted t \<noteq> 0
     \<and> ((case tr_p95Ms t of None \<Rightarrow> True | Some v \<Rightarrow> p95_limit limits (tr_tenantId t) < v)
        \<or> (case tr_maxMs t of None \<Rightarrow> True | Some v \<Rightarrow> max_limit limits (tr_tenantId t) < v))"

definition status_counts :: "load_outcome list \<Rightarrow> (string \<times> nat) list" where
  "status_counts outs =
     foldl (\<lambda>m out. case map_of m (lo_status out) of
        None \<Rightarrow> m @ [(lo_status out, 1)] | Some n \<Rightarrow> AList.update (lo_status out) (n + 1) m) [] outs"

definition preload_incomplete :: "preload_limits \<Rightarrow> bool" where
  "preload_incomplete p \<longleftrightarrow> pr_expected p < 1001 \<or> pr_published p \<noteq> pr_expected p \<or> pr_visible p < pr_expected p
     \<or> pr_inFlight p \<noteq> 0 \<or> pr_delayed p \<noteq> 0 \<or> pr_receiptsBeforeStart p \<noteq> 0"

definition fairness_failures :: "fairness_limits \<Rightarrow> tenant_row list \<Rightarrow> string list" where
  "fairness_failures f tenants =
     (if map_option tr_accepted (find (\<lambda>t. tr_tenantId t = fl_busyTenantId f) tenants) \<noteq> Some (fl_busyRequests f)
      then [''The declared busy request volume was not accepted.''] else [])
     @ (if list_ex (\<lambda>i. case find (\<lambda>t. tr_tenantId t = i) tenants of
                None \<Rightarrow> True
              | Some t \<Rightarrow> tr_accepted t \<noteq> fl_quietRequestsPerTenant f \<or> tr_overlappedBusy t < fl_minOverlappingRequests f) (fl_quietTenantIds f)
        then [''Quiet tenants did not submit the declared volume while accepted busy work remained outstanding.''] else [])"

definition schedule_lags :: "load_request list \<Rightarrow> rat list" where
  "schedule_lags requests = flat_map (\<lambda>r. map_option (\<lambda>t. max 0 (t - lr_scheduledAt r)) (lr_sentAt r)) requests"

definition loadReport ::
  "load_request list \<Rightarrow> (string \<times> load_receipt) list \<Rightarrow> load_outcome list \<Rightarrow> load_limits \<Rightarrow> load_report" where
  "loadReport requests receipts outcomes limits =
     (let accepted = filter was_accepted requests;
          acceptedById = map (\<lambda>r. (event_id r, r)) (rev accepted);
          ids = insertion_set (map event_id accepted);
          errors = count_where request_failed requests;
          tenants = map (tenant_row_of requests receipts limits) (insertion_set (map lr_tenantId requests));
          latencies = flat_map (latency_of receipts) accepted;
          owned = filter (\<lambda>out. lo_eventId out \<in> set ids) outcomes;
          scheduleLag = schedule_lags requests;
          httpLatencies = flat_map (\<lambda>r. case (lr_sentAt r, lr_finishedAt r) of (Some s, Some t) \<Rightarrow> Some (t - s) | _ \<Rightarrow> None) requests;
          failures =
            (if length requests \<noteq> li_planned limits \<or> list_ex (\<lambda>r. lr_sentAt r = None) requests
             then [''The generator did not submit every scheduled request.''] else [])
            @ (if errors \<noteq> 0 then [''Requests had unexpected or uncertain outcomes.''] else [])
            @ (if accepted = [] \<or> (li_requireAllAccepted limits \<and> length accepted \<noteq> li_planned limits)
               then [''The required request volume was not accepted.''] else [])
            @ (if length ids \<noteq> length accepted then [''Accepted event IDs were not unique.''] else [])
            @ (if length latencies \<noteq> length accepted then [''Accepted work is missing a verified receiver receipt.''] else [])
            @ (if length owned \<noteq> length accepted \<or> length (insertion_set (map lo_eventId owned)) \<noteq> length accepted
                  \<or> list_ex (\<lambda>out. lo_status out \<noteq> ''SUCCEEDED''
                       \<or> map_option lr_tenantId (map_of acceptedById (lo_eventId out)) \<noteq> Some (lo_tenantId out)) owned
               then [''Accepted work is missing a matching durable successful outcome.''] else [])
            @ (if list_ex (tenant_too_slow limits) tenants then [''A tenant exceeded the declared delivery latency limits.''] else [])
            @ (case li_preload limits of None \<Rightarrow> []
               | Some p \<Rightarrow> if preload_incomplete p then [''The complete accepted backlog was not confirmed before worker startup.''] else [])
            @ (case li_fairness limits of None \<Rightarrow> [] | Some f \<Rightarrow> fairness_failures f tenants)
            @ (if (case percentile scheduleLag 1 of None \<Rightarrow> True | Some v \<Rightarrow> li_maxScheduleLagMs limits < v)
               then [''The generator could not maintain the declared request schedule.''] else [])
      in \<lparr>lp_passed = (failures = []), lp_failures = failures, lp_planned = li_planned limits,
          lp_submitted = count_where (\<lambda>r. lr_sentAt r \<noteq> None) requests,
          lp_accepted = length accepted, lp_rejected = count_where (\<lambda>r. lr_status r = Some 429) requests, lp_errors = errors,
          lp_delivered = length latencies, lp_pending = int (length accepted) - int (length latencies),
          lp_p95Ms = percentile latencies (95 / 100), lp_maxMs = percentile latencies 1, lp_httpP95Ms = percentile httpLatencies (95 / 100),
          lp_maxScheduleLagMs = percentile scheduleLag 1,
          lp_duplicateCalls = sum_list (map (\<lambda>c. max 0 (lc_calls (snd c) - 1)) receipts),
          lp_maxBusyPending = foldr max (map (\<lambda>r. case lr_busyPending r of None \<Rightarrow> 0 | Some n \<Rightarrow> n) requests) 0,
          lp_statuses = status_counts owned, lp_tenants = tenants\<rparr>)"

section \<open>The fairness report\<close>

datatype fair_tenant = BusyTenant | QuietTenant
datatype fair_phase = Baseline | Load

record fair_sample =
  fs_tenant :: fair_tenant
  fs_phase :: fair_phase
  fs_sentAt :: rat
  fs_status :: "int option"
  fs_eventId :: "string option"
  fs_error :: "string option"
  fs_busyPending :: "rat option"

record fair_summary =
  fm_submitted :: nat
  fm_accepted :: nat
  fm_rejected :: nat
  fm_errors :: nat
  fm_delivered :: nat
  fm_pending :: int
  fm_p95Ms :: "rat option"
  fm_maxMs :: "rat option"

definition summarize :: "fair_sample list \<Rightarrow> (string \<times> rat) list \<Rightarrow> fair_summary" where
  "summarize samples receipts =
     (let accepted = filter (\<lambda>s. fs_status s = Some 201 \<and> given (fs_eventId s)) samples;
          latencies = sort (flat_map (\<lambda>s. map_option (\<lambda>t. t - fs_sentAt s) (map_of receipts (the (fs_eventId s)))) accepted)
      in \<lparr>fm_submitted = length samples, fm_accepted = length accepted,
          fm_rejected = count_where (\<lambda>s. fs_status s = Some 429) samples,
          fm_errors = count_where (\<lambda>s. given (fs_error s) \<or> (fs_status s \<noteq> Some 201 \<and> fs_status s \<noteq> Some 429)) samples,
          fm_delivered = length latencies, fm_pending = int (length accepted) - int (length latencies),
          fm_p95Ms = (if latencies = [] then None
            else Some (latencies ! nat (\<lceil>of_nat (length latencies) * (95 / 100) :: rat\<rceil> - 1))),
          fm_maxMs = (if latencies = [] then None else Some (latencies ! (length latencies - 1)))\<rparr>)"

record fair_limits =
  fx_busyRequests :: nat
  fx_quietP95Ms :: rat
  fx_busyFinishedAt :: rat
  fx_backlog :: "(rat \<times> rat) option"

record fair_report =
  fp_passed :: bool
  fp_failures :: "string list"
  fp_baseline :: fair_summary
  fp_busy :: fair_summary
  fp_quiet :: fair_summary
  fp_overlappingQuiet :: nat

text \<open>The backlog of the limits is the number of messages published and of those visible before the start.\<close>

definition fairnessReport :: "fair_sample list \<Rightarrow> (string \<times> rat) list \<Rightarrow> fair_limits \<Rightarrow> fair_report" where
  "fairnessReport samples receipts limits =
     (let baseline = summarize (filter (\<lambda>s. fs_phase s = Baseline) samples) receipts;
          busy = summarize (filter (\<lambda>s. fs_tenant s = BusyTenant) samples) receipts;
          quietSamples = filter (\<lambda>s. fs_tenant s = QuietTenant \<and> fs_phase s = Load) samples;
          quiet = summarize quietSamples receipts;
          overlapping = count_where (\<lambda>s. case fx_backlog limits of
              Some _ \<Rightarrow> 0 < (case fs_busyPending s of None \<Rightarrow> 0 | Some n \<Rightarrow> n)
            | None \<Rightarrow> fs_sentAt s \<le> fx_busyFinishedAt limits) quietSamples;
          failures =
            (if fm_accepted baseline < 3 \<or> fm_delivered baseline \<noteq> fm_submitted baseline \<or> fm_errors baseline \<noteq> 0
             then [''Baseline did not deliver every request (minimum 3).''] else [])
            @ (if fm_submitted busy \<noteq> fx_busyRequests limits \<or> fm_accepted busy = 0 \<or> fm_errors busy \<noteq> 0
               then [''Busy traffic was incomplete, entirely rejected, or had request errors.''] else [])
            @ (case fx_backlog limits of None \<Rightarrow> []
               | Some (published, visible) \<Rightarrow>
                   if fm_accepted busy \<noteq> fx_busyRequests limits \<or> published \<noteq> of_nat (fx_busyRequests limits)
                      \<or> visible < of_nat (fx_busyRequests limits)
                   then [''The full accepted backlog was not confirmed before worker start.''] else [])
            @ (if overlapping < 3 then [''Fewer than 3 quiet requests overlapped busy traffic.''] else [])
            @ (if fm_submitted quiet < 3 \<or> fm_delivered quiet \<noteq> fm_submitted quiet \<or> fm_errors quiet \<noteq> 0
               then [''Quiet traffic was rejected, failed, or did not finish delivery.''] else [])
            @ (if 0 < fm_pending busy then [''Accepted busy events remain undelivered.''] else [])
            @ (if (case fm_p95Ms quiet of None \<Rightarrow> True | Some v \<Rightarrow> fx_quietP95Ms limits < v)
               then [''Quiet-tenant p95 exceeded the configured latency limit.''] else [])
      in \<lparr>fp_passed = (failures = []), fp_failures = failures, fp_baseline = baseline, fp_busy = busy, fp_quiet = quiet,
          fp_overlappingQuiet = overlapping\<rparr>)"

section \<open>Percentiles\<close>

lemma flat_map_eq: "flat_map f xs = map (the \<circ> f) (filter (\<lambda>x. f x \<noteq> None) xs)"
  by (induction xs) auto

lemma flat_map_complete:
  assumes "length (flat_map f xs) = length xs"
  shows "\<forall>x \<in> set xs. f x \<noteq> None" "flat_map f xs = map (the \<circ> f) xs"
proof -
  have "length (filter (\<lambda>x. f x \<noteq> None) xs) = length xs" using assms by (simp add: flat_map_eq)
  then show all: "\<forall>x \<in> set xs. f x \<noteq> None"
    using length_filter_less [of _ xs "\<lambda>x. f x \<noteq> None"] by (metis (lifting) less_irrefl)
  then show "flat_map f xs = map (the \<circ> f) xs" by (simp add: flat_map_eq filter_id_conv [THEN iffD2])
qed

lemma set_insertion_set [simp]: "set (insertion_set xs) = set xs"
proof -
  have "set (foldl (\<lambda>s x. js_set_add x s) ys xs) = set ys \<union> set xs" for ys by (induction xs arbitrary: ys) auto
  then show ?thesis by (simp add: insertion_set_def)
qed

lemma distinct_insertion_set [simp]: "distinct (insertion_set xs)"
proof -
  have "distinct ys \<Longrightarrow> distinct (foldl (\<lambda>s x. js_set_add x s) ys xs)" for ys by (induction xs arbitrary: ys) auto
  then show ?thesis by (simp add: insertion_set_def)
qed

lemma length_insertion_set: "length (insertion_set xs) = card (set xs)"
  using distinct_card [OF distinct_insertion_set [of xs]] by simp

lemma percentile_index:
  fixes f :: rat
  assumes "vs \<noteq> []" "0 < f" "f \<le> 1"
  defines "k \<equiv> nat (max 0 (\<lceil>of_nat (length vs) * f\<rceil> - 1))"
  shows "k < length vs" "of_nat (length vs) * f \<le> of_nat (k + 1)"
proof -
  have n: "0 < length vs" using assms(1) by simp
  then have "0 < of_nat (length vs) * f" using assms(2) by simp
  then have c: "0 < \<lceil>of_nat (length vs) * f\<rceil>" by simp
  then have k: "int k = \<lceil>of_nat (length vs) * f\<rceil> - 1" by (simp add: k_def)
  have "of_nat (length vs) * f \<le> of_nat (length vs)" using assms(3) by (simp add: mult_left_le)
  then have "\<lceil>of_nat (length vs) * f\<rceil> \<le> int (length vs)" by (simp add: ceiling_le_iff)
  then show "k < length vs" using k by linarith
  have "of_nat (length vs) * f \<le> of_int \<lceil>of_nat (length vs) * f\<rceil>" by (rule le_of_int_ceiling)
  also have "\<dots> = of_int (int k + 1)" using k by simp
  finally show "of_nat (length vs) * f \<le> of_nat (k + 1)" by simp
qed

text \<open>At least the share \<open>f\<close> of the values is at most the \<open>f\<close> percentile.\<close>

lemma percentile_share:
  assumes "percentile vs f = Some m" "0 < f" "f \<le> 1"
  shows "of_nat (length vs) * f \<le> of_nat (count_where (\<lambda>v. v \<le> m) vs)"
proof -
  have ne: "vs \<noteq> []" using assms(1) by (auto simp: percentile_def)
  let ?k = "nat (max 0 (\<lceil>of_nat (length vs) * f\<rceil> - 1))"
  note k = percentile_index [OF ne assms(2,3)]
  have m: "m = sort vs ! ?k" using assms(1) ne by (simp add: percentile_def)
  have "\<forall>v \<in> set (take (?k + 1) (sort vs)). v \<le> m"
  proof
    fix v assume "v \<in> set (take (?k + 1) (sort vs))"
    then obtain i where "i < ?k + 1" "i < length vs" "v = sort vs ! i" by (auto simp: in_set_conv_nth)
    then show "v \<le> m" using sorted_nth_mono [of "sort vs" i ?k] k(1) by (simp add: m)
  qed
  then have "filter (\<lambda>v. v \<le> m) (take (?k + 1) (sort vs)) = take (?k + 1) (sort vs)" by (simp add: filter_id_conv)
  then have "?k + 1 \<le> length (filter (\<lambda>v. v \<le> m) (take (?k + 1) (sort vs)))" using k(1) by simp
  also have "\<dots> \<le> length (filter (\<lambda>v. v \<le> m) (sort vs))"
    by (metis append_take_drop_id filter_append le_add1 length_append)
  also have "\<dots> = length (filter (\<lambda>v. v \<le> m) vs)" by (metis mset_filter mset_sort size_mset)
  finally have "of_nat (?k + 1) \<le> (of_nat (count_where (\<lambda>v. v \<le> m) vs) :: rat)" by (simp only: count_where_def of_nat_le_iff)
  with k(2) show ?thesis by linarith
qed

lemma percentile_max:
  assumes "percentile vs 1 = Some m" "v \<in> set vs"
  shows "v \<le> m"
proof -
  have "length vs \<le> count_where (\<lambda>v. v \<le> m) vs" using percentile_share [OF assms(1)] by simp
  moreover have "count_where (\<lambda>v. v \<le> m) vs < length vs" if "\<not> v \<le> m"
    using length_filter_less [of v vs "\<lambda>v. v \<le> m"] assms(2) that by (simp add: count_where_def)
  ultimately show ?thesis by linarith
qed

section \<open>What a passed load report certifies\<close>

lemma passed_load_conditions:
  assumes "lp_passed (loadReport requests receipts outcomes limits)"
  defines "accepted \<equiv> filter was_accepted requests"
  defines "ids \<equiv> map event_id accepted"
  defines "owned \<equiv> filter (\<lambda>out. lo_eventId out \<in> set ids) outcomes"
  shows "length requests = li_planned limits" "\<forall>r \<in> set requests. lr_sentAt r \<noteq> None"
    "\<forall>r \<in> set requests. \<not> request_failed r"
    "length (insertion_set ids) = length accepted"
    "length (flat_map (latency_of receipts) accepted) = length accepted"
    "length (insertion_set (map lo_eventId owned)) = length accepted"
    "\<forall>out \<in> set owned. lo_status out = ''SUCCEEDED''
       \<and> map_option lr_tenantId (map_of (map (\<lambda>r. (event_id r, r)) (rev accepted)) (lo_eventId out)) = Some (lo_tenantId out)"
    "\<forall>i \<in> lr_tenantId ` set requests. \<not> tenant_too_slow limits (tenant_row_of requests receipts limits i)"
  using assms(1) unfolding loadReport_def Let_def
  by (simp_all add: accepted_def ids_def owned_def count_where_def filter_empty_conv list_ex_iff split: if_splits)

lemma latency_of_Some:
  "latency_of receipts r = Some d \<longleftrightarrow>
     (\<exists>c t. map_of receipts (event_id r) = Some c \<and> lc_tenantId c = lr_tenantId r \<and> lr_sentAt r = Some t \<and> d = lc_at c - t)"
  by (auto simp: latency_of_def own_receipt_def split: option.splits)

lemma tenant_row_times:
  fixes i :: string
  assumes "\<forall>r \<in> set requests. was_accepted r \<longrightarrow> latency_of receipts r \<noteq> None"
  defines "admitted \<equiv> filter (\<lambda>r. lr_tenantId r = i) (filter was_accepted requests)"
  defines "lats \<equiv> map (the \<circ> latency_of receipts) admitted"
  shows "tr_accepted (tenant_row_of requests receipts limits i) = length admitted"
    "tr_p95Ms (tenant_row_of requests receipts limits i) = percentile lats (95 / 100)"
    "tr_maxMs (tenant_row_of requests receipts limits i) = percentile lats 1"
    "tr_tenantId (tenant_row_of requests receipts limits i) = i"
proof -
  have "filter (\<lambda>r. latency_of receipts r \<noteq> None) admitted = admitted"
    by (rule filter_True) (use assms(1) in \<open>auto simp: admitted_def\<close>)
  then show "tr_accepted (tenant_row_of requests receipts limits i) = length admitted"
    "tr_p95Ms (tenant_row_of requests receipts limits i) = percentile lats (95 / 100)"
    "tr_maxMs (tenant_row_of requests receipts limits i) = percentile lats 1"
    "tr_tenantId (tenant_row_of requests receipts limits i) = i"
    by (simp_all add: tenant_row_of_def Let_def flat_map_eq lats_def del: filter_filter flip: admitted_def)
qed

text \<open>A tenant that is not too slow has its latencies within its limits.\<close>

lemma tenant_within_limits:
  fixes i :: string
  assumes all: "\<forall>r \<in> set requests. was_accepted r \<longrightarrow> latency_of receipts r \<noteq> None"
    and ok: "\<not> tenant_too_slow limits (tenant_row_of requests receipts limits i)"
  defines "admitted \<equiv> filter (\<lambda>r. lr_tenantId r = i) (filter was_accepted requests)"
  shows "\<forall>r \<in> set admitted. the (latency_of receipts r) \<le> max_limit limits i"
    "of_nat (length admitted) * (95 / 100) \<le> (of_nat (count_where (\<lambda>r. the (latency_of receipts r) \<le> p95_limit limits i) admitted) :: rat)"
proof -
  let ?times = "map (the \<circ> latency_of receipts) admitted"
  have cases: "admitted = [] \<or> (\<exists>m M. percentile ?times (95 / 100) = Some m \<and> m \<le> p95_limit limits i
      \<and> percentile ?times 1 = Some M \<and> M \<le> max_limit limits i)"
    using ok unfolding tenant_too_slow_def tenant_row_times [OF all] admitted_def
    by (auto split: option.splits)
  show "\<forall>r \<in> set admitted. the (latency_of receipts r) \<le> max_limit limits i"
    using cases percentile_max [of ?times] by fastforce
  show "of_nat (length admitted) * (95 / 100) \<le> (of_nat (count_where (\<lambda>r. the (latency_of receipts r) \<le> p95_limit limits i) admitted) :: rat)"
  proof (cases "admitted = []")
    case False
    then obtain m where m: "percentile ?times (95 / 100) = Some m" "m \<le> p95_limit limits i" using cases by blast
    have "count_where (\<lambda>v. v \<le> m) ?times \<le> count_where (\<lambda>r. the (latency_of receipts r) \<le> p95_limit limits i) admitted"
      using m(2) by (induction admitted) (auto simp: count_where_def)
    then show ?thesis using percentile_share [OF m(1)] by (simp add: of_nat_mono order_trans)
  qed (simp add: count_where_def)
qed

lemma distinct_ids_outcomes:
  assumes "length (insertion_set ids) = length ids"
    and "length (insertion_set (map lo_eventId (filter (\<lambda>out. lo_eventId out \<in> set ids) outcomes))) = length ids"
  shows "distinct ids" "set ids \<subseteq> lo_eventId ` set outcomes"
proof -
  show "distinct ids" using assms(1) by (simp add: length_insertion_set card_distinct)
  let ?own = "lo_eventId ` {out \<in> set outcomes. lo_eventId out \<in> set ids}"
  have "card ?own = card (set ids)" using assms by (simp add: length_insertion_set)
  then have "?own = set ids" by (intro card_subset_eq) auto
  then show "set ids \<subseteq> lo_eventId ` set outcomes" by blast
qed

text \<open>C28: When the load report passes, every planned request was sent and answered 201 or 429 without an error, the event
  ids accepted are distinct, each accepted request has its own tenant's receipt within the tenant's maximal latency and a
  stored outcome that succeeded for that tenant, and at least 95 per cent of each tenant's accepted requests were
  delivered within its p95 limit.\<close>

theorem passed_load_report_certifies:
  assumes "lp_passed (loadReport requests receipts outcomes limits)"
  shows "length requests = li_planned limits
    \<and> (\<forall>r \<in> set requests. lr_sentAt r \<noteq> None \<and> \<not> given (lr_error r) \<and> lr_status r \<in> {Some 201, Some 429})
    \<and> distinct (map event_id (filter was_accepted requests))
    \<and> (\<forall>r \<in> set requests. was_accepted r \<longrightarrow>
         (\<exists>c t. map_of receipts (event_id r) = Some c \<and> lc_tenantId c = lr_tenantId r
              \<and> lr_sentAt r = Some t \<and> lc_at c - t \<le> max_limit limits (lr_tenantId r))
         \<and> (\<exists>out \<in> set outcomes. lo_eventId out = event_id r \<and> lo_status out = ''SUCCEEDED'' \<and> lo_tenantId out = lr_tenantId r))
    \<and> (\<forall>i. of_nat (length (filter (\<lambda>r. lr_tenantId r = i) (filter was_accepted requests))) * (95 / 100)
         \<le> (of_nat (count_where (\<lambda>r. the (latency_of receipts r) \<le> p95_limit limits i)
              (filter (\<lambda>r. lr_tenantId r = i) (filter was_accepted requests))) :: rat))"
proof -
  note c = passed_load_conditions [OF assms]
  let ?acc = "filter was_accepted requests"
  have lat: "\<forall>r \<in> set requests. was_accepted r \<longrightarrow> latency_of receipts r \<noteq> None"
    using flat_map_complete(1) [OF c(5)] by simp
  have ids: "distinct (map event_id ?acc)" "set (map event_id ?acc) \<subseteq> lo_eventId ` set outcomes"
    using distinct_ids_outcomes [of "map event_id ?acc" outcomes] c(4,6) by simp_all
  have byId: "map_of (map (\<lambda>r. (event_id r, r)) (rev ?acc)) (event_id r) = Some r" if "r \<in> set ?acc" for r
    using that ids(1) by (intro map_of_is_SomeI) (simp_all add: o_def rev_map [symmetric])
  have sent: "lr_sentAt r \<noteq> None \<and> \<not> given (lr_error r) \<and> lr_status r \<in> {Some 201, Some 429}" if "r \<in> set requests" for r
    using c(2,3) that by (auto simp: request_failed_def)
  have receipt: "\<exists>c t. map_of receipts (event_id r) = Some c \<and> lc_tenantId c = lr_tenantId r
      \<and> lr_sentAt r = Some t \<and> lc_at c - t \<le> max_limit limits (lr_tenantId r)" if r: "r \<in> set requests" "was_accepted r" for r
  proof -
    obtain d where d: "latency_of receipts r = Some d" using lat r by blast
    have "d \<le> max_limit limits (lr_tenantId r)"
      using tenant_within_limits(1) [OF lat, of limits "lr_tenantId r"] c(8) r d by force
    then show ?thesis using d by (auto simp: latency_of_Some)
  qed
  have outcome: "\<exists>out \<in> set outcomes. lo_eventId out = event_id r \<and> lo_status out = ''SUCCEEDED'' \<and> lo_tenantId out = lr_tenantId r"
    if r: "r \<in> set requests" "was_accepted r" for r
  proof -
    have acc: "r \<in> set ?acc" using r by simp
    then have mem: "event_id r \<in> set (map event_id ?acc)" by (simp only: list.set_map imageI)
    then obtain out where out: "out \<in> set outcomes" "lo_eventId out = event_id r"
      using subsetD [OF ids(2)] by (metis (lifting) imageE)
    from mem have "lo_eventId out \<in> set (map event_id ?acc)" unfolding out(2) .
    then have "out \<in> set (filter (\<lambda>out. lo_eventId out \<in> set (map event_id ?acc)) outcomes)" using out(1) by (simp only: set_filter mem_Collect_eq simp_thms)
    from bspec [OF c(7) this] show ?thesis unfolding out(2) byId [OF acc] using out by auto
  qed
  have share: "of_nat (length (filter (\<lambda>r. lr_tenantId r = i) ?acc)) * (95 / 100)
      \<le> (of_nat (count_where (\<lambda>r. the (latency_of receipts r) \<le> p95_limit limits i) (filter (\<lambda>r. lr_tenantId r = i) ?acc)) :: rat)" for i
  proof (cases "i \<in> lr_tenantId ` set requests")
    case True
    then show ?thesis using tenant_within_limits(2) [OF lat] c(8) by blast
  next
    case False
    then have "filter (\<lambda>r. lr_tenantId r = i) ?acc = []" by (auto simp: filter_empty_conv)
    then show ?thesis by (simp add: count_where_def)
  qed
  show ?thesis by (intro conjI ballI allI impI c(1) sent ids(1) receipt outcome share)
qed

text \<open>A run of two requests of one tenant, one accepted and delivered after 40 ms and one turned away.\<close>

definition sample_load_requests :: "load_request list" where
  "sample_load_requests =
     [\<lparr>lr_sequence = 0, lr_tenantId = ''t'', lr_scheduledAt = 0, lr_sentAt = Some 2, lr_finishedAt = Some 9, lr_status = Some 201,
        lr_eventId = Some ''e'', lr_error = None, lr_busyPending = None\<rparr>,
      \<lparr>lr_sequence = 1, lr_tenantId = ''t'', lr_scheduledAt = 5, lr_sentAt = Some 6, lr_finishedAt = Some 8, lr_status = Some 429,
        lr_eventId = None, lr_error = None, lr_busyPending = None\<rparr>]"

definition sample_load_limits :: load_limits where
  "sample_load_limits =
     \<lparr>li_planned = 2, li_p95Ms = 50, li_maxMs = 100, li_maxScheduleLagMs = 3, li_requireAllAccepted = False,
      li_preload = None, li_fairness = None\<rparr>"

definition sample_load_receipts :: "(string \<times> load_receipt) list" where
  "sample_load_receipts = [(''e'', \<lparr>lc_tenantId = ''t'', lc_at = 42, lc_calls = 1\<rparr>)]"

definition sample_load_outcomes :: "load_outcome list" where
  "sample_load_outcomes = [\<lparr>lo_eventId = ''e'', lo_tenantId = ''t'', lo_status = ''SUCCEEDED'', lo_attemptCount = 1\<rparr>]"

lemma sample_load_passes:
  "lp_passed (loadReport sample_load_requests sample_load_receipts sample_load_outcomes sample_load_limits)"
  by (simp add: loadReport_def sample_load_requests_def sample_load_limits_def sample_load_receipts_def sample_load_outcomes_def
      was_accepted_def given_def event_id_def request_failed_def count_where_def insertion_set_def js_set_add_def tenant_row_of_def
      latency_of_def own_receipt_def tenant_too_slow_def p95_limit_def max_limit_def percentile_def schedule_lags_def)

theorem passed_load_report_certifies_witness:
  "lp_passed (loadReport sample_load_requests sample_load_receipts sample_load_outcomes sample_load_limits)
    \<and> distinct (map event_id (filter was_accepted sample_load_requests))
    \<and> length sample_load_requests = li_planned sample_load_limits"
  using passed_load_report_certifies [OF sample_load_passes] sample_load_passes by blast

end
