(* ===== verification/MonitorReport.thy ===== *)
theory MonitorReport
  imports MonitorData
begin

text \<open>
  The report of a snapshot, and the proof that the browser accepts it unless a sum in it went beyond the largest double:
  every other metric has a value exactly when it is ready, the points of a series lie within the range and in order, and
  there are at most 721 of them because Prometheus answers on the grid of the steps.
\<close>

section \<open>Metrics\<close>

definition overflowed :: "metric_value \<Rightarrow> bool" where
  "overflowed m \<longleftrightarrow> mv_state m = Ready \<and> mv_value m = None"

definition ok_metric :: "metric_value \<Rightarrow> bool" where
  "ok_metric m \<longleftrightarrow> (if mv_state m = Ready then \<forall>n. mv_value m = Some n \<longrightarrow> 0 \<le> n else mv_value m = None)"

lemma ok_metric_simps [simp]:
  "ok_metric (metricValue st None)"
  "ok_metric (metricValue Ready (Some n)) \<longleftrightarrow> 0 \<le> n"
  "mv_state (metricValue st v) = st" "mv_value (metricValue st v) = v"
  by (auto simp: ok_metric_def metricValue_def)

lemma ok_metric_number: "ok_metric (metric_number raw idle)"
  by (simp add: metric_number_def split: option.splits jsnum.splits)

lemma number_not_overflowed: "\<not> overflowed (metric_number raw idle)"
  by (simp add: metric_number_def overflowed_def split: option.splits jsnum.splits)

text \<open>The running sum of values that are not negative is finite exactly when the whole sum is below the bound.\<close>

lemma fold_sum_infinite: "fold sum_step ns PosInf = PosInf"
  by (induction ns) (simp_all add: sum_step_def)

lemma fold_sum_step:
  assumes "\<forall>n \<in> set ns. 0 \<le> the (mv_value n)" "0 \<le> a" "a < 2 ^ 1024 - 2 ^ 970"
  shows "fold sum_step ns (Num a) =
    (if 2 ^ 1024 - 2 ^ 970 \<le> a + sum_list (map (\<lambda>n. the (mv_value n)) ns) then PosInf
     else Num (a + sum_list (map (\<lambda>n. the (mv_value n)) ns)))"
  using assms
proof (induction ns arbitrary: a)
  case (Cons n ns)
  have rest: "0 \<le> sum_list (map (\<lambda>n. the (mv_value n)) ns)" using Cons.prems(1) by (intro sum_list_nonneg) auto
  have n: "0 \<le> the (mv_value n)" using Cons.prems(1) by simp
  show ?case
  proof (cases "2 ^ 1024 - 2 ^ 970 \<le> a + the (mv_value n)")
    case True
    then have "sum_step n (Num a) = PosInf" by (simp add: sum_step_def js_round_def)
    then show ?thesis using True rest by (simp add: fold_sum_infinite)
  next
    case False
    then have "sum_step n (Num a) = Num (a + the (mv_value n))" using n Cons.prems(2) by (simp add: sum_step_def js_round_def)
    then show ?thesis using Cons.IH [of "a + the (mv_value n)"] Cons.prems n False by (simp add: add.assoc)
  qed
qed simp

lemma sum_numbers_ready:
  assumes "\<forall>n \<in> set ns. ok_metric n \<and> \<not> overflowed n" "\<forall>n \<in> set ns. mv_state n = Ready"
  shows "sum_numbers ns = metricValue Ready
    (if 2 ^ 1024 - 2 ^ 970 \<le> sum_list (map (\<lambda>n. the (mv_value n)) ns) then None else Some (sum_list (map (\<lambda>n. the (mv_value n)) ns)))"
proof -
  have "find (\<lambda>n. mv_state n \<noteq> Ready) ns = None" using assms(2) by (auto simp: find_None_iff)
  moreover have "\<forall>n \<in> set ns. 0 \<le> the (mv_value n)" using assms by (fastforce simp: ok_metric_def overflowed_def)
  then have "fold sum_step ns (Num 0) = (if 2 ^ 1024 - 2 ^ 970 \<le> sum_list (map (\<lambda>n. the (mv_value n)) ns) then PosInf
      else Num (sum_list (map (\<lambda>n. the (mv_value n)) ns)))"
    using fold_sum_step [of ns 0] by simp
  ultimately show ?thesis by (simp add: sum_numbers_def)
qed

lemma ok_sum_numbers:
  assumes "\<forall>n \<in> set ns. ok_metric n \<and> \<not> overflowed n"
  shows "ok_metric (sum_numbers ns)"
proof (cases "find (\<lambda>n. mv_state n \<noteq> Ready) ns")
  case None
  then have r: "\<forall>n \<in> set ns. mv_state n = Ready" by (simp add: find_None_iff)
  then have "\<forall>n \<in> set ns. 0 \<le> the (mv_value n)" using assms by (fastforce simp: ok_metric_def overflowed_def)
  then have "0 \<le> sum_list (map (\<lambda>n. the (mv_value n)) ns)" by (intro sum_list_nonneg) auto
  then show ?thesis using sum_numbers_ready [OF assms r] by simp
next
  case (Some n)
  then have "n \<in> set ns" by (auto simp: find_Some_iff)
  then show ?thesis using assms Some by (simp add: sum_numbers_def)
qed

text \<open>Two series near the largest double: their sum is ready and has no value.\<close>

lemma large_sum_overflows:
  "overflowed (sum_numbers [metricValue Ready (Some (17 * 10 ^ 307)), metricValue Ready (Some (17 * 10 ^ 307))])"
  by (simp add: sum_numbers_ready overflowed_def)

lemma ok_readMetric: "ok_metric (readMonitorMetric query health label idle)"
  by (auto simp: readMonitorMetric_def Let_def ok_metric_number number_not_overflowed intro!: ok_sum_numbers split: option.splits)

lemma ok_historical_point: "ok_metric (pt_metric (historical_point history rows time))"
  by (auto simp: historical_point_def Let_def ok_metric_number number_not_overflowed intro!: ok_sum_numbers)

lemma pt_time_historical_point [simp]: "pt_time (historical_point history rows time) = time"
  by (simp add: historical_point_def Let_def)

section \<open>JSON of metrics\<close>

lemma state_name_ready: "state_name st = ''ready'' \<longleftrightarrow> st = Ready"
  by (cases st) (simp_all add: state_name_def metricStateLabels_def)

lemma valid_state_name: "valid_state (Some (JStr (state_name st)))"
  by (cases st) (simp_all add: valid_state_def state_name_def metricStateLabels_def)

lemma valid_metric_members:
  assumes "ok_metric m" "map_of ms ''state'' = Some (JStr (state_name (mv_state m)))"
    "map_of ms ''value'' = Some (case mv_value m of None \<Rightarrow> JNull | Some n \<Rightarrow> JNum (Num n))"
  shows "validMetric (Some (JObj ms)) \<longleftrightarrow> \<not> overflowed m"
  using assms by (auto simp: validMetric_def valid_state_name state_name_ready ok_metric_def overflowed_def split: if_splits option.splits)

lemma valid_metric_json: "ok_metric m \<Longrightarrow> validMetric (Some (JObj (metric_json m))) \<longleftrightarrow> \<not> overflowed m"
  by (erule valid_metric_members) (simp_all add: metric_json_def)

lemma valid_point_json: "ok_metric (pt_metric p) \<Longrightarrow> validMetric (Some (point_json p)) \<longleftrightarrow> \<not> overflowed (pt_metric p)"
  unfolding point_json_def by (erule valid_metric_members) (simp_all add: metric_json_def)

lemma valid_points_json:
  assumes "sorted_wrt (<) (map pt_time ps)" "\<forall>p \<in> set ps. ok_metric (pt_metric p) \<and> start \<le> pt_time p \<and> pt_time p \<le> end"
    and "\<forall>q. previous = Some q \<longrightarrow> (\<forall>p \<in> set ps. q < pt_time p)"
  shows "valid_points start end previous (map point_json ps) \<longleftrightarrow> (\<forall>p \<in> set ps. \<not> overflowed (pt_metric p))"
  using assms
proof (induction ps arbitrary: previous)
  case (Cons p ps)
  have "valid_points start end (Some (pt_time p)) (map point_json ps) \<longleftrightarrow> (\<forall>p \<in> set ps. \<not> overflowed (pt_metric p))"
    by (rule Cons.IH) (use Cons.prems in auto)
  moreover have "validMetric (Some (point_json p)) \<longleftrightarrow> \<not> overflowed (pt_metric p)" using Cons.prems(2) by (simp add: valid_point_json)
  ultimately show ?case using Cons.prems by (cases previous) (simp_all add: point_json_def [of p])
qed simp

section \<open>Answers of range queries\<close>

lemma read_samples_times:
  "read_samples start end previous raws = Some vs \<Longrightarrow> v \<in> set vs \<Longrightarrow> start \<le> fst v \<and> fst v \<le> end"
proof (induction raws arbitrary: previous vs)
  case (Cons raw raws)
  from Cons.prems(1) obtain t x us where raw: "raw = JArr [JNum (Num t), JStr x]" "start \<le> t" "t \<le> end"
    "read_samples start end (Some t) raws = Some us" "vs = (t, x) # us"
    by (auto split: json.splits list.splits jsnum.splits if_splits)
  show ?case using Cons.IH [OF raw(4)] Cons.prems(2) raw by auto
qed simp

lemma read_all_Some: "read_all f xs = Some ys \<Longrightarrow> y \<in> set ys \<Longrightarrow> \<exists>x \<in> set xs. f x = Some y"
  by (induction xs arbitrary: ys) (auto split: bind_splits)

lemma parseQuery_times:
  assumes "parseQuery value ranged start end = Some rows" "row \<in> set rows" "v \<in> set (ms_values row)"
  shows "start \<le> fst v \<and> fst v \<le> end"
proof -
  obtain item where "read_series ranged start end item = Some row"
    using assms(1,2) by (auto simp: parseQuery_def split: bind_splits option.splits json.splits if_splits dest: read_all_Some)
  then obtain raws vs where "read_samples start end None raws = Some vs" "ms_values row = vs"
    by (auto simp: read_series_def simp del: read_samples.simps split: bind_splits option.splits json.splits if_splits)
  with assms(3) show ?thesis using read_samples_times by blast
qed

lemma run_query_times:
  assumes "run_query fetched url ranged start end = Some rows" "row \<in> set rows" "v \<in> set (ms_values row)"
  shows "start \<le> fst v \<and> fst v \<le> end"
  using assms parseQuery_times by (auto simp: run_query_def split: bind_splits if_splits)

text \<open>Samples on the grid of the steps.\<close>

definition on_grid :: "rat \<Rightarrow> rat \<Rightarrow> m_query \<Rightarrow> bool" where
  "on_grid start step query \<longleftrightarrow>
     (case query of None \<Rightarrow> True | Some rows \<Rightarrow> \<forall>row \<in> set rows. \<forall>v \<in> set (ms_values row). \<exists>i::nat. fst v = start + of_nat i * step)"

lemma grid_card:
  fixes start :: rat
  assumes "0 < step" and "\<forall>t \<in> T. start \<le> t \<and> t \<le> start + of_nat n * step \<and> (\<exists>i::nat. t = start + of_nat i * step)"
  shows "card T \<le> n + 1"
proof -
  have "T \<subseteq> (\<lambda>i. start + of_nat i * step) ` {..n}"
  proof
    fix t assume "t \<in> T"
    with assms(2) obtain i :: nat where i: "t = start + of_nat i * step" "t \<le> start + of_nat n * step" by blast
    then have "(of_nat i :: rat) * step \<le> of_nat n * step" by simp
    then have "i \<le> n" using assms(1) by simp
    then show "t \<in> (\<lambda>i. start + of_nat i * step) ` {..n}" using i by blast
  qed
  then have "card T \<le> card {..n}" by (meson card_image_le card_mono finite_atMost finite_imageI le_trans)
  then show ?thesis by simp
qed

section \<open>Series and reports\<close>

lemma historical_shape:
  "sr_points (historical history key label wanted) = [] \<or>
   (\<exists>q rows. history key = Some q \<and> set rows \<subseteq> set q
      \<and> sr_points (historical history key label wanted) =
          map (historical_point history rows) (sort (remdups (concat (map (\<lambda>s. map fst (ms_values s)) rows)))))"
proof (cases "history key")
  case (Some q)
  let ?rows = "case wanted of None \<Rightarrow> q | Some v \<Rightarrow> filter (\<lambda>s. label_of s ''outcome'' = Some v) q"
  have "set ?rows \<subseteq> set q" by (cases wanted) auto
  then show ?thesis using Some by (auto simp: historical_def Let_def)
qed (simp add: historical_def)

lemma historical_points:
  fixes start :: rat
  assumes "0 < step" "\<forall>q row v. history key = Some q \<longrightarrow> row \<in> set q \<longrightarrow> v \<in> set (ms_values row) \<longrightarrow> start \<le> fst v \<and> fst v \<le> start + of_nat n * step"
    and "on_grid start step (history key)"
  shows "sorted_wrt (<) (map pt_time (sr_points (historical history key label wanted)))"
    "\<forall>p \<in> set (sr_points (historical history key label wanted)).
       ok_metric (pt_metric p) \<and> start \<le> pt_time p \<and> pt_time p \<le> start + of_nat n * step"
    "length (sr_points (historical history key label wanted)) \<le> n + 1"
  using historical_shape [of history key label wanted]
proof (atomize (full), elim disjE exE conjE)
  fix q rows
  assume q: "history key = Some q" "set rows \<subseteq> set q"
    and ps: "sr_points (historical history key label wanted) =
      map (historical_point history rows) (sort (remdups (concat (map (\<lambda>s. map fst (ms_values s)) rows))))"
  let ?ts = "sort (remdups (concat (map (\<lambda>s. map fst (ms_values s)) rows)))"
  have inside: "\<forall>t \<in> set ?ts. start \<le> t \<and> t \<le> start + of_nat n * step \<and> (\<exists>i::nat. t = start + of_nat i * step)"
  proof
    fix t assume "t \<in> set ?ts"
    then obtain row v where row: "row \<in> set q" "v \<in> set (ms_values row)" "t = fst v" using q(2) by auto
    moreover have "\<exists>i::nat. fst v = start + of_nat i * step" using assms(3) q(1) row by (auto simp: on_grid_def)
    ultimately show "start \<le> t \<and> t \<le> start + of_nat n * step \<and> (\<exists>i::nat. t = start + of_nat i * step)"
      using assms(2) q(1) by blast
  qed
  have "length ?ts = card (set ?ts)" by (metis distinct_card distinct_remdups distinct_sort)
  then have "length ?ts \<le> n + 1" using grid_card [OF assms(1) inside] by simp
  moreover have "sorted_wrt (<) ?ts" by (simp add: strict_sorted_iff)
  ultimately show "sorted_wrt (<) (map pt_time (sr_points (historical history key label wanted)))
      \<and> (\<forall>p \<in> set (sr_points (historical history key label wanted)).
           ok_metric (pt_metric p) \<and> start \<le> pt_time p \<and> pt_time p \<le> start + of_nat n * step)
      \<and> length (sr_points (historical history key label wanted)) \<le> n + 1"
    using inside unfolding ps by (auto simp: ok_historical_point o_def simp del: set_sort)
qed simp

lemma label_historical [simp]: "sr_label (historical history key label wanted) = label"
  by (simp add: historical_def Let_def split: option.splits)

lemma valid_series_json:
  assumes "sorted_wrt (<) (map pt_time (sr_points s))" "\<forall>p \<in> set (sr_points s). ok_metric (pt_metric p) \<and> start \<le> pt_time p \<and> pt_time p \<le> end"
    and "length (sr_points s) \<le> 721"
  shows "valid_series start end (series_json s) \<longleftrightarrow> (\<forall>p \<in> set (sr_points s). \<not> overflowed (pt_metric p))"
  using assms valid_points_json [OF assms(1,2), of None] by (simp add: valid_series_def series_json_def valid_state_name)

lemma count_list_distinct: "distinct ls \<Longrightarrow> l \<in> set ls \<Longrightarrow> count_list ls l = 1"
  by (induction ls) (auto simp: count_list_0_iff)

lemma labels_of_series:
  "length (filter (\<lambda>v. json_label v = Some (JStr l)) (map series_json series)) = count_list (map sr_label series) l"
  by (induction series) (simp_all add: json_label_def series_json_def)

lemma valid_history_json:
  assumes "\<forall>s \<in> set series. valid_series start end (series_json s) \<longleftrightarrow> (\<forall>p \<in> set (sr_points s). \<not> overflowed (pt_metric p))"
    "map sr_label series = labels" "distinct labels"
  shows "valid_history start end (Some (JArr (map series_json series))) labels
    \<longleftrightarrow> (\<forall>s \<in> set series. \<forall>p \<in> set (sr_points s). \<not> overflowed (pt_metric p))"
proof -
  have "length series = length labels" using assms(2) by auto
  moreover have "list_all (\<lambda>l. length (filter (\<lambda>v. json_label v = Some (JStr l)) (map series_json series)) = 1) labels"
    unfolding labels_of_series assms(2) list_all_iff using count_list_distinct [OF assms(3)] by blast
  moreover have "list_all (valid_series start end) (map series_json series)
      \<longleftrightarrow> (\<forall>s \<in> set series. \<forall>p \<in> set (sr_points s). \<not> overflowed (pt_metric p))"
    using assms(1) by (simp add: list_all_iff)
  ultimately show ?thesis by (simp only: valid_history_def option.case json.case length_map simp_thms)
qed

lemma known_range:
  assumes "map_of monitoringRanges rangeId = Some r"
  obtains n :: nat where "0 < rg_step r" "rg_seconds r = of_nat n * rg_step r" "n + 1 \<le> 721"
proof -
  have "r \<in> set (map snd monitoringRanges)" using map_of_SomeD [OF assms] by force
  then consider "0 < rg_step r \<and> rg_seconds r = of_nat 20 * rg_step r" | "0 < rg_step r \<and> rg_seconds r = of_nat 240 * rg_step r"
    | "0 < rg_step r \<and> rg_seconds r = of_nat 360 * rg_step r" | "0 < rg_step r \<and> rg_seconds r = of_nat 720 * rg_step r"
    by (auto simp: monitoringRanges_def)
  then show ?thesis by cases (auto intro: that)
qed

lemma valid_instant_json:
  assumes "\<forall>m \<in> snd ` set ms. ok_metric m" "distinct (map fst ms)"
  shows "list_all (\<lambda>k. validMetric (map_of (map (\<lambda>(k, m). (k, JObj (metric_json m))) ms) k)) (map fst ms)
    \<longleftrightarrow> (\<forall>m \<in> snd ` set ms. \<not> overflowed m)"
proof -
  have "validMetric (map_of (map (\<lambda>(k, m). (k, JObj (metric_json m))) ms) k) \<longleftrightarrow> \<not> overflowed m" if "(k, m) \<in> set ms" for k m
  proof -
    have "map_of ms k = Some m" using that assms(2) by simp
    moreover have "ok_metric m" using assms(1) that by force
    ultimately show ?thesis by (simp add: map_of_map valid_metric_json)
  qed
  then show ?thesis by (force simp: list_all_iff)
qed

lemma instant_metrics_keys: "map fst (instant_metrics current checkedAt) = instantKeys"
  by (simp add: instant_metrics_def instantKeys_def Let_def)

lemma instant_metrics_ok: "\<forall>m \<in> snd ` set (instant_metrics current checkedAt). ok_metric m"
  by (simp add: instant_metrics_def Let_def ok_readMetric)

text \<open>The metrics a report shows.\<close>

definition report_metrics :: "monitoring_report \<Rightarrow> metric_value set" where
  "report_metrics report =
     snd ` set (rp_instant report) \<union> pt_metric ` (\<Union>s \<in> set (rp_attempts report @ rp_duration report). set (sr_points s))"

text \<open>C32: The browser accepts every report a snapshot computes, when Prometheus answers its range queries on the grid
  of the steps it was asked for, unless one of its sums went beyond the largest double: that metric is ready without a
  value, and the browser refuses the whole report.\<close>

theorem website_reads_monitoring_report:
  assumes "map_of monitoringRanges rangeId = Some r" "snapshot fetched prometheus rangeId r startClock endClock = Some (report, fresh)"
    and grid: "\<forall>k start end. on_grid start (rg_step r) (run_query fetched (history_url prometheus k start end (rg_step r)) True start end)"
  shows "readMonitoringReport (report_json report) rangeId =
    (if \<exists>m \<in> report_metrics report. overflowed m then None else Some (report_json report))"
proof -
  obtain n :: nat where n: "0 < rg_step r" "rg_seconds r = of_nat n * rg_step r" "n + 1 \<le> 721" by (rule known_range [OF assms(1)])
  obtain checkedAt current history where report: "report = build_report rangeId r checkedAt current history"
    and history: "history = (\<lambda>k. run_query fetched (history_url prometheus k (rp_start report) (rp_end report) (rg_step r)) True (rp_start report) (rp_end report))"
    using assms(2) by (auto simp: snapshot_def Let_def build_report_def split: if_splits)
  have ends: "rp_end report = rp_start report + of_nat n * rg_step r" by (simp add: report build_report_def Let_def n(2))
  have times: "\<forall>q row v. history key = Some q \<longrightarrow> row \<in> set q \<longrightarrow> v \<in> set (ms_values row) \<longrightarrow>
      rp_start report \<le> fst v \<and> fst v \<le> rp_start report + of_nat n * rg_step r" for key
    using run_query_times unfolding history ends [symmetric] by blast
  have "on_grid (rp_start report) (rg_step r) (history key)" for key unfolding history using grid by blast
  note p = historical_points [OF n(1) times this]
  have points: "valid_series (rp_start report) (rp_end report) (series_json (historical history key label wanted))
      \<longleftrightarrow> (\<forall>p \<in> set (sr_points (historical history key label wanted)). \<not> overflowed (pt_metric p))" for key label wanted
    unfolding ends by (intro valid_series_json p order_trans [OF p(3) n(3)])
  have instant: "list_all (\<lambda>k. validMetric (map_of (map (\<lambda>(k, m). (k, JObj (metric_json m))) (rp_instant report)) k)) instantKeys
      \<longleftrightarrow> (\<forall>m \<in> snd ` set (rp_instant report). \<not> overflowed m)"
    using valid_instant_json [OF instant_metrics_ok [of current checkedAt]] instant_metrics_keys [of current checkedAt]
    by (simp add: report build_report_def Let_def instantKeys_def del: set_map)
  have attempts: "valid_history (rp_start report) (rp_end report) (Some (JArr (map series_json (rp_attempts report)))) [''success'', ''failure'']
      \<longleftrightarrow> (\<forall>s \<in> set (rp_attempts report). \<forall>p \<in> set (sr_points s). \<not> overflowed (pt_metric p))"
    by (rule valid_history_json) (auto simp: report build_report_def Let_def points [unfolded report build_report_def Let_def, simplified])
  have duration: "valid_history (rp_start report) (rp_end report) (Some (JArr (map series_json (rp_duration report)))) [''p50'', ''p95'', ''p99'']
      \<longleftrightarrow> (\<forall>s \<in> set (rp_duration report). \<forall>p \<in> set (sr_points s). \<not> overflowed (pt_metric p))"
    by (rule valid_history_json) (auto simp: report build_report_def Let_def points [unfolded report build_report_def Let_def, simplified])
  have whole: "(\<exists>m \<in> report_metrics report. overflowed m) \<longleftrightarrow> \<not> ((\<forall>m \<in> snd ` set (rp_instant report). \<not> overflowed m)
      \<and> (\<forall>s \<in> set (rp_attempts report). \<forall>p \<in> set (sr_points s). \<not> overflowed (pt_metric p))
      \<and> (\<forall>s \<in> set (rp_duration report). \<forall>p \<in> set (sr_points s). \<not> overflowed (pt_metric p)))"
    unfolding report_metrics_def set_append by blast
  have shape: "rp_range report = rangeId" "rp_step report = rg_step r" "rp_end report - rp_start report = rg_seconds r"
    by (simp_all add: report build_report_def Let_def)
  show ?thesis
    unfolding whole instant [symmetric] attempts [symmetric] duration [symmetric]
    using assms(1) shape by (simp add: readMonitoringReport_def report_json_def)
qed

section \<open>Example\<close>

definition empty_vector :: json where
  "empty_vector = JObj [(''status'', JStr ''success''), (''data'', JObj [(''resultType'', JStr ''vector''), (''result'', JArr [])])]"

definition empty_answer :: http_answer where
  "empty_answer = \<lparr>ha_status = 200, ha_length = None, ha_body = Some [Chunk (utf8_encode (stringify empty_vector)), EndOfBody]\<rparr>"


lemma length_utf8_encode: "length (utf8_encode s) \<le> 2 * length s"
  by (induction s) (auto simp: utf8_encode_def utf8_char_def Let_def)

text \<open>A bound on the length of the text of a value.\<close>

fun json_weight :: "json \<Rightarrow> nat" where
  "json_weight JNull = 4"
| "json_weight (JBool b) = 5"
| "json_weight (JNum n) = 4 + length (js_String n)"
| "json_weight (JStr s) = 6 * length s + 2"
| "json_weight (JArr vs) = 2 + sum_list (map (\<lambda>v. json_weight v + 1) vs)"
| "json_weight (JObj ms) = 2 + sum_list (map (\<lambda>m. 6 * length (fst m) + 4 + json_weight (snd m)) ms)"

lemma length_separated_weight: "length (comma_separated ss) \<le> sum_list (map (\<lambda>s. length s + 1) ss)"
  by (induction ss rule: comma_separated.induct) auto

lemma length_stringify: "length (stringify v) \<le> json_weight v"
proof (induction v rule: json_weight.induct)
  case (4 s)
  show ?case using length_quote [of s] by simp
next
  case (5 vs)
  have "sum_list (map (\<lambda>s. length s + 1) (map stringify vs)) \<le> sum_list (map (\<lambda>v. json_weight v + 1) vs)"
    unfolding map_map by (rule sum_list_mono) (use 5 in simp)
  then show ?case using length_separated_weight [of "map stringify vs"] by simp
next
  case (6 ms)
  have "sum_list (map (\<lambda>s. length s + 1) (map (\<lambda>(k, v). quote k @ '':'' @ stringify v) ms))
      \<le> sum_list (map (\<lambda>m. 6 * length (fst m) + 4 + json_weight (snd m)) ms)"
    unfolding map_map
  proof (rule sum_list_mono)
    fix m assume m: "m \<in> set ms"
    show "((\<lambda>s. length s + 1) \<circ> (\<lambda>(k, v). quote k @ '':'' @ stringify v)) m \<le> 6 * length (fst m) + 4 + json_weight (snd m)"
      using 6 [OF m] length_quote [of "fst m"] by (simp add: case_prod_beta)
  qed
  then show ?case using length_separated_weight [of "map (\<lambda>(k, v). quote k @ '':'' @ stringify v) ms"] by simp
qed simp_all

lemma empty_answer_short: "length (utf8_encode (stringify empty_vector)) \<le> 524288"
  using length_utf8_encode [of "stringify empty_vector"] length_stringify [of empty_vector]
  by (simp add: empty_vector_def)

lemma empty_answer_json: "boundedJson empty_answer 524288 = Some empty_vector"
  using empty_answer_short json_parse_stringify [of empty_vector]
  by (simp add: boundedJson_def empty_answer_def utf8_round_trip) (simp add: empty_vector_def)

lemma empty_answer_query:
  "run_query (\<lambda>_. Some empty_answer) url ranged a b = (if ranged then None else Some [])"
  by (simp add: run_query_def answer_ok_def empty_answer_def [THEN arg_cong [where f = ha_status]] monitoringLimits_def empty_answer_json)
     (simp add: empty_vector_def parseQuery_def json_object_def monitoringLimits_def)

lemma empty_snapshot:
  "\<exists>report fresh. snapshot (\<lambda>_. Some empty_answer) prometheus rangeId r a b = Some (report, fresh)"
  by (simp add: snapshot_def Let_def empty_answer_query query_keys_def fixedMonitoringQueries_def)

lemma empty_answer_metrics:
  assumes "snapshot (\<lambda>_. Some empty_answer) ''http://prometheus:9090'' rangeId r a b = Some (report, fresh)"
  shows "\<not> (\<exists>m \<in> report_metrics report. overflowed m)"
proof -
  have sum: "\<not> overflowed (readMonitorMetric (Some []) health label idle)" if "health \<noteq> Ready" for health label idle
    using that by (simp add: readMonitorMetric_def overflowed_def)
  have report: "report = build_report rangeId r (snapshot_time a) (\<lambda>_. Some []) (\<lambda>_. None)"
    using assms by (simp add: snapshot_def Let_def empty_answer_query query_keys_def fixedMonitoringQueries_def)
  show ?thesis
    by (simp add: report report_metrics_def build_report_def Let_def historical_def instant_metrics_def sourceHealth_def backlog_state_def sum)
qed

text \<open>A whole report is read.\<close>

theorem website_reads_monitoring_report_witness:
  "\<exists>report fresh. snapshot (\<lambda>_. Some empty_answer) ''http://prometheus:9090'' ''5m'' \<lparr>rg_seconds = 300, rg_step = 15\<rparr> 0 0 = Some (report, fresh)
    \<and> readMonitoringReport (report_json report) ''5m'' = Some (report_json report)"
proof -
  obtain report fresh where s: "snapshot (\<lambda>_. Some empty_answer) ''http://prometheus:9090'' ''5m'' \<lparr>rg_seconds = 300, rg_step = 15\<rparr> 0 0 = Some (report, fresh)"
    using empty_snapshot by blast
  have "map_of monitoringRanges ''5m'' = Some \<lparr>rg_seconds = 300, rg_step = 15\<rparr>" by (simp add: monitoringRanges_def)
  from website_reads_monitoring_report [OF this s] show ?thesis
    using s empty_answer_metrics [OF s] by (auto simp: on_grid_def empty_answer_query)
qed

end
