(* ===== verification/MonitorProps.thy ===== *)
theory MonitorProps
  imports Monitor MonitorReport
begin

text \<open>
  What the monitoring endpoint guarantees for every interleaving of its requests: who is given a report, and how old a
  report from the cache can be.
\<close>

section \<open>Who is given a report\<close>

definition operator_session ::
  "(string \<Rightarrow> url_parts option) \<Rightarrow> (string \<Rightarrow> jsnum) \<Rightarrow> monitor_env \<Rightarrow> visit \<Rightarrow> bool" where
  "operator_session parse date_parse env v \<longleftrightarrow>
     (\<exists>api web cookieName token answer session user g e.
        monitoringTopology parse env (vi_request v) = Inr (api, web, cookieName)
        \<and> session_cookies (vi_request v) cookieName = [token] \<and> token_chars (drop (length cookieName + 1) token)
        \<and> vi_session v (url_origin api @ ''/auth/me'') token = Some answer \<and> answer_ok answer
        \<and> boundedJson answer 65536 = Some (JObj session) \<and> map_of session ''user'' = Some (JObj user)
        \<and> map_of user ''githubId'' = Some (JStr g) \<and> g \<in> set (operatorIds (nv_operators env))
        \<and> map_of session ''expiresAt'' = Some (JStr e) \<and> js_lt (Num (vi_at v)) (date_parse e))"

lemma session_cookie_Inr:
  "session_cookie rq name = Inr c \<longleftrightarrow> session_cookies rq name = [c] \<and> token_chars (drop (length name + 1) c)"
  by (auto simp: session_cookie_def split: list.splits if_splits)

lemma json_object_Some: "json_object v = Some ms \<longleftrightarrow> v = Some (JObj ms)"
  by (auto simp: json_object_def split: option.splits json.splits)

lemma json_object_JObj [simp]: "json_object (Some (JObj ms)) = Some ms"
  by (simp add: json_object_def)

lemma verified_session_Inr:
  "verified_session answer = Inr session \<longleftrightarrow>
     (\<exists>a. answer = Some a \<and> ha_status a \<noteq> 401 \<and> answer_ok a \<and> boundedJson a 65536 = Some (JObj session))"
  by (auto simp: verified_session_def json_object_Some split: option.splits)

lemma live_id_Some:
  "live_id date_parse millis i x = Some g \<longleftrightarrow>
     (\<exists>e. i = Some (JStr g) \<and> x = Some (JStr e) \<and> github_id_form g \<and> js_isFinite (date_parse e) \<and> js_lt (Num millis) (date_parse e))"
  by (auto simp: live_id_def split: option.splits json.splits)

lemma session_user_Inr:
  "session_user date_parse millis session = Inr g \<longleftrightarrow>
     (\<exists>user. map_of session ''user'' = Some (JObj user)
        \<and> live_id date_parse millis (map_of user ''githubId'') (map_of session ''expiresAt'') = Some g)"
  by (auto simp: session_user_def json_object_Some split: option.splits)

lemma authorize_operator:
  assumes "admit_reader parse date_parse env (vi_session v) (vi_at v) (vi_request v) = Inr p"
  shows "operator_session parse date_parse env v"
proof -
  obtain api web cookieName token session g where
    t: "monitoringTopology parse env (vi_request v) = Inr (api, web, cookieName)" and
    c: "session_cookie (vi_request v) cookieName = Inr token" and
    a: "verified_session (vi_session v (url_origin api @ ''/auth/me'') token) = Inr session" and
    u: "session_user date_parse (vi_at v) session = Inr g" and
    o: "g \<in> set (operatorIds (nv_operators env))"
    using assms by (auto simp: admit_reader_def bindE_Inr split: if_splits)
  show ?thesis
    using t c a u o unfolding operator_session_def session_cookie_Inr verified_session_Inr session_user_Inr live_id_Some by blast
qed

definition authorized_visit where
  "authorized_visit parse date_parse env v \<longleftrightarrow>
     (\<exists>p. admit_reader parse date_parse env (vi_session v) (vi_at v) (vi_request v) = Inr p)"

definition visits_authorized where
  "visits_authorized parse date_parse env m \<longleftrightarrow>
     (\<forall>w \<in> set (mo_waiting m). authorized_visit parse date_parse env (fst w))
     \<and> (\<forall>a \<in> set (mo_answers m). ma_status a = 200 \<or> ma_report a \<noteq> None \<longrightarrow> authorized_visit parse date_parse env (ma_visit a))"

lemma reports_are_sent:
  "ma_visit (send_report v millis cached report) = v" "ma_visit (refuse v millis e) = v"
  "ma_status (refuse v millis e) = fst e" "ma_report (refuse v millis e) = None"
  by (simp_all add: send_report_def refuse_def Let_def)

lemma bindE_Inl: "bindE x f = Inl e \<longleftrightarrow> x = Inl e \<or> (\<exists>v. x = Inr v \<and> f v = Inl e)"
  by (cases x) auto

text \<open>No refusal has the status of a success.\<close>

lemma failure_status:
  "fst bad_configuration \<noteq> 200" "fst unsupported_topology \<noteq> 200" "fst sign_in_required \<noteq> 200"
  "fst session_unavailable \<noteq> 200" "fst monitoring_unavailable \<noteq> 200"
  by (simp_all add: bad_configuration_def unsupported_topology_def sign_in_required_def session_unavailable_def monitoring_unavailable_def)

lemma origin_status: "monitor_origin parse w = Inl e \<Longrightarrow> fst e \<noteq> 200"
  by (auto simp: monitor_origin_def failure_status split: option.splits if_splits)

lemma if_InlD: "(if c then Inl x else r) = Inl e \<Longrightarrow> x = e \<or> r = Inl e"
  by (simp split: if_splits)

lemma topology_status: "monitoringTopology parse env rq = Inl e \<Longrightarrow> fst e \<noteq> 200"
  unfolding monitoringTopology_def bindE_Inl Let_def
  by (elim disjE exE conjE, auto dest!: if_InlD simp only: failure_status dest: origin_status, simp_all)

lemma cookie_status: "session_cookie rq name = Inl e \<Longrightarrow> fst e \<noteq> 200"
  by (auto simp: session_cookie_def failure_status split: list.splits if_splits)

lemma session_status: "verified_session answer = Inl e \<Longrightarrow> fst e \<noteq> 200"
  by (auto simp: verified_session_def failure_status split: option.splits if_splits)

lemma user_status: "session_user date_parse millis session = Inl e \<Longrightarrow> fst e \<noteq> 200"
  by (auto simp: session_user_def failure_status split: option.splits)

lemma prometheus_status: "prometheusOrigin parse env = Inl e \<Longrightarrow> fst e \<noteq> 200"
  by (auto simp: prometheusOrigin_def bindE_Inl Let_def failure_status split: if_splits dest: origin_status)

lemma range_status: "requested_range rq = Inl e \<Longrightarrow> fst e \<noteq> 200"
  by (auto simp: requested_range_def Let_def split: if_splits)

lemma authorize_status:
  assumes "admit_reader parse date_parse env f t rq = Inl e"
  shows "fst e \<noteq> 200"
  using assms unfolding admit_reader_def bindE_Inl
  by (auto simp: bindE_Inl split: if_splits prod.splits
      dest: topology_status cookie_status session_status user_status prometheus_status range_status)

lemma arrive_authorized:
  assumes "visits_authorized parse date_parse env m"
  shows "visits_authorized parse date_parse env (arrive parse date_parse env v m)"
proof (cases "admit_reader parse date_parse env (vi_session v) (vi_at v) (vi_request v)")
  case (Inl e)
  then show ?thesis using assms authorize_status [OF Inl]
    by (auto simp: arrive_def visits_authorized_def respond_def reports_are_sent)
next
  case (Inr p)
  obtain prometheus rangeId where p: "p = (prometheus, rangeId)" by (cases p)
  have v: "authorized_visit parse date_parse env v" using Inr by (auto simp: authorized_visit_def)
  have e: "visits_authorized parse date_parse env (enqueue_visit v prometheus rangeId m)"
    using assms v by (auto simp: enqueue_visit_def visits_authorized_def respond_def reports_are_sent Let_def split: option.splits)
  have s: "visits_authorized parse date_parse env (respond (send_report v t c r) m)" for t c r
    using assms v by (auto simp: visits_authorized_def respond_def reports_are_sent)
  show ?thesis using Inr p e s by (simp add: arrive_def Let_def split: option.splits prod.splits)
qed

lemma step_authorized:
  assumes "monitor_step parse date_parse env m m'" "visits_authorized parse date_parse env m"
  shows "visits_authorized parse date_parse env m'"
  using assms(1)
proof cases
  case (Arrive v)
  show ?thesis unfolding Arrive(1)
    by (rule arrive_authorized) (use assms(2) in \<open>simp add: visits_authorized_def\<close>)
next
  case (Settle millis n fetched)
  then show ?thesis using assms(2) by (simp add: visits_authorized_def settle_def Let_def)
next
  case (Resume millis v key n)
  have "authorized_visit parse date_parse env v" using assms(2) Resume(3) by (force simp: visits_authorized_def)
  then show ?thesis using assms(2) unfolding Resume(1)
    by (auto simp: visits_authorized_def resume_def respond_def cache_report_def reports_are_sent Let_def
        split: option.splits prod.splits dest: notin_set_remove1)
qed

lemma reach_authorized: "monitor_reach parse date_parse env m \<Longrightarrow> visits_authorized parse date_parse env m"
proof (induction rule: monitor_reach.induct)
  case (Start millis)
  show ?case by (simp add: visits_authorized_def newMonitor_def)
next
  case (Next m m')
  show ?case by (rule step_authorized [OF Next.hyps(2) Next.IH])
qed

section \<open>How old a cached report is\<close>

text \<open>A run that settled, as the history records it, gave the report.\<close>

type_synonym settled_runs = "(snapshot_run \<times> rat \<times> fetch) list"

definition taken :: "settled_runs \<Rightarrow> string \<Rightarrow> string \<Rightarrow> monitoring_report \<Rightarrow> rat \<Rightarrow> rat \<Rightarrow> bool" where
  "taken past_runs prometheus rangeId report fresh millis \<longleftrightarrow>
     (\<exists>run fetched r stop. (run, stop, fetched) \<in> set past_runs \<and> ru_prometheus run = prometheus \<and> ru_range run = rangeId
        \<and> map_of monitoringRanges rangeId = Some r \<and> stop \<le> millis
        \<and> snapshot fetched prometheus rangeId r (ru_start run) stop = Some (report, fresh))"

definition run_key :: "snapshot_run \<Rightarrow> string" where
  "run_key run = cache_key (ru_prometheus run) (ru_range run)"

definition fresh_answer where
  "fresh_answer parse date_parse env past_runs a \<longleftrightarrow>
     (\<forall>report. ma_cached a \<and> ma_report a = Some report \<longrightarrow>
        (\<exists>prometheus rangeId fresh. admit_reader parse date_parse env (vi_session (ma_visit a)) (vi_at (ma_visit a)) (vi_request (ma_visit a)) = Inr (prometheus, rangeId)
           \<and> taken past_runs prometheus rangeId report fresh (ma_at a) \<and> ma_at a < fresh))"

definition tickets_sound :: "snapshot_run list \<Rightarrow> (string \<times> nat) set \<Rightarrow> bool" where
  "tickets_sound runs es \<longleftrightarrow> (\<forall>e \<in> es. snd e < length runs \<and> fst e = run_key (runs ! snd e))"

definition ranges_sound :: "snapshot_run list \<Rightarrow> bool" where
  "ranges_sound runs \<longleftrightarrow> (\<forall>run \<in> set runs. map_of monitoringRanges (ru_range run) \<noteq> None)"

definition results_sound :: "settled_runs \<Rightarrow> snapshot_run list \<Rightarrow> (nat \<times> (monitoring_report \<times> rat) option) list \<Rightarrow> rat \<Rightarrow> bool" where
  "results_sound past_runs runs results millis \<longleftrightarrow>
     (\<forall>n report fresh. (n, Some (report, fresh)) \<in> set results \<longrightarrow>
        n < length runs \<and> taken past_runs (ru_prometheus (runs ! n)) (ru_range (runs ! n)) report fresh millis)"

definition entry_sound :: "settled_runs \<Rightarrow> string \<Rightarrow> rat \<Rightarrow> monitoring_report \<Rightarrow> rat \<Rightarrow> bool" where
  "entry_sound past_runs key expires report millis \<longleftrightarrow>
     (\<exists>prometheus rangeId fresh. key = cache_key prometheus rangeId \<and> taken past_runs prometheus rangeId report fresh millis \<and> expires \<le> fresh)"

definition entries_sound :: "settled_runs \<Rightarrow> (string \<times> rat \<times> monitoring_report) list \<Rightarrow> rat \<Rightarrow> bool" where
  "entries_sound past_runs cache millis \<longleftrightarrow> (\<forall>(key, expires, report) \<in> set cache. entry_sound past_runs key expires report millis)"

definition cache_sound where
  "cache_sound parse date_parse env m \<longleftrightarrow>
     tickets_sound (mo_runs m) (set (mo_inflight m) \<union> snd ` set (mo_waiting m)) \<and> ranges_sound (mo_runs m)
     \<and> results_sound (mo_settled m) (mo_runs m) (mo_results m) (mo_now m) \<and> entries_sound (mo_settled m) (mo_cache m) (mo_now m)
     \<and> list_all (fresh_answer parse date_parse env (mo_settled m)) (mo_answers m)"

lemma taken_mono:
  assumes "taken past_runs prometheus rangeId report fresh t" "set past_runs \<subseteq> set past_runs'" "t \<le> t'"
  shows "taken past_runs' prometheus rangeId report fresh t'"
proof -
  obtain run fetched r stop where run: "(run, stop, fetched) \<in> set past_runs" "ru_prometheus run = prometheus" "ru_range run = rangeId"
    "map_of monitoringRanges rangeId = Some r" "stop \<le> t" "snapshot fetched prometheus rangeId r (ru_start run) stop = Some (report, fresh)"
    using assms(1) unfolding taken_def by blast
  moreover have "stop \<le> t'" using run(5) assms(3) by (rule order_trans)
  ultimately show ?thesis using assms(2) unfolding taken_def by blast
qed

lemma taken_later: "taken past_runs prometheus rangeId report fresh t \<Longrightarrow> t \<le> t' \<Longrightarrow> taken past_runs prometheus rangeId report fresh t'"
  by (erule taken_mono) simp

text \<open>The history only grows.\<close>

lemma taken_more: "taken past_runs prometheus rangeId report fresh t \<Longrightarrow> taken (entry # past_runs) prometheus rangeId report fresh t"
  by (erule taken_mono) auto

lemma results_settled: "results_sound past_runs runs results t \<Longrightarrow> results_sound (entry # past_runs) runs results t"
  unfolding results_sound_def using taken_more by blast

lemma entries_settled: "entries_sound past_runs cache t \<Longrightarrow> entries_sound (entry # past_runs) cache t"
  unfolding entries_sound_def entry_sound_def using taken_more by (fastforce split: prod.splits)

lemma fresh_settled: "fresh_answer parse date_parse env past_runs a \<Longrightarrow> fresh_answer parse date_parse env (entry # past_runs) a"
  unfolding fresh_answer_def using taken_more by blast

lemma range_plain:
  assumes "map_of monitoringRanges rangeId = Some r"
  shows "CHR '':'' \<notin> set rangeId"
  using map_of_SomeD [OF assms] by (auto simp: monitoringRanges_def)

lemma append_separator:
  assumes "xs @ x # ys = xs' @ x # ys'" "x \<notin> set xs" "x \<notin> set xs'"
  shows "xs = xs' \<and> ys = ys'"
proof -
  have t: "takeWhile (\<lambda>c. c \<noteq> x) (zs @ x # us) = zs" if "x \<notin> set zs" for zs us
    using that by (induction zs) auto
  have "xs = xs'" using assms(1) [THEN arg_cong [where f = "takeWhile (\<lambda>c. c \<noteq> x)"]] t assms(2,3) by simp
  with assms(1) show ?thesis by simp
qed

lemma cache_key_inj:
  assumes "cache_key p a = cache_key q b" "map_of monitoringRanges a = Some r" "map_of monitoringRanges b = Some r'"
  shows "p = q \<and> a = b"
proof -
  have e: "rev a @ CHR '':'' # rev p = rev b @ CHR '':'' # rev q"
    using assms(1) [unfolded cache_key_def, THEN arg_cong [where f = rev]] by simp
  have "CHR '':'' \<notin> set (rev a)" "CHR '':'' \<notin> set (rev b)" using range_plain assms by simp_all
  from append_separator [OF e this] show ?thesis by simp
qed

lemma authorize_range:
  assumes "admit_reader parse date_parse env f t rq = Inr (prometheus, rangeId)"
  obtains r where "map_of monitoringRanges rangeId = Some r"
proof -
  have "rangeId \<in> set (map fst monitoringRanges)"
    using assms by (auto simp: admit_reader_def bindE_Inr requested_range_def Let_def simp del: set_map split: if_splits)
  then have "map_of monitoringRanges rangeId \<noteq> None" by (simp add: map_of_eq_None_iff)
  then show ?thesis using that by blast
qed

text \<open>Each operation keeps what the cache promises.\<close>

lemma ticket_run: "tickets_sound runs es \<Longrightarrow> (key, n) \<in> es \<Longrightarrow> n < length runs \<and> key = run_key (runs ! n)"
  by (force simp: tickets_sound_def)

lemma tickets_subset: "tickets_sound runs es \<Longrightarrow> es' \<subseteq> es \<Longrightarrow> tickets_sound runs es'"
  by (auto simp: tickets_sound_def)

lemma tickets_insert: "tickets_sound runs es \<Longrightarrow> n < length runs \<Longrightarrow> key = run_key (runs ! n) \<Longrightarrow> tickets_sound runs (insert (key, n) es)"
  by (simp add: tickets_sound_def)

lemma tickets_more: "tickets_sound runs es \<Longrightarrow> tickets_sound (runs @ [run]) es"
  by (auto simp: tickets_sound_def nth_append)

lemma results_more: "results_sound past_runs runs results t \<Longrightarrow> results_sound past_runs (runs @ [run]) results t"
  by (fastforce simp: results_sound_def nth_append)

lemma results_later: "results_sound past_runs runs results t \<Longrightarrow> t \<le> t' \<Longrightarrow> results_sound past_runs runs results t'"
  unfolding results_sound_def by (meson taken_later)

lemma entries_later: "entries_sound past_runs cache t \<Longrightarrow> t \<le> t' \<Longrightarrow> entries_sound past_runs cache t'"
  unfolding entries_sound_def entry_sound_def by (fastforce dest: taken_later)

lemma entries_update:
  assumes "entries_sound past_runs es t" "entry_sound past_runs key expires report t"
  shows "entries_sound past_runs (AList.update key (expires, report) es) t"
  using assms by (induction es) (auto simp: entries_sound_def)

lemma entries_tl: "entries_sound past_runs es t \<Longrightarrow> entries_sound past_runs (tl es) t"
  by (cases es) (auto simp: entries_sound_def)

lemma fresh_uncached: "\<not> ma_cached a \<Longrightarrow> fresh_answer parse date_parse env past_runs a"
  by (simp add: fresh_answer_def)

lemma not_cached [simp]: "\<not> ma_cached (refuse v t e)" "\<not> ma_cached (send_report v t False r)"
  by (simp_all add: refuse_def send_report_def Let_def)

lemma cache_sound_respond:
  "cache_sound parse date_parse env (respond a m) \<longleftrightarrow> cache_sound parse date_parse env m \<and> fresh_answer parse date_parse env (mo_settled m) a"
  by (auto simp: cache_sound_def respond_def)

lemma cache_sound_later:
  assumes "cache_sound parse date_parse env m" "mo_now m \<le> t"
  shows "cache_sound parse date_parse env (m\<lparr>mo_now := t\<rparr>)"
  using assms results_later entries_later unfolding cache_sound_def by (simp, blast)

lemma cache_sound_cached:
  "cache_sound parse date_parse env m \<Longrightarrow> entries_sound (mo_settled m) es (mo_now m) \<Longrightarrow> cache_sound parse date_parse env (m\<lparr>mo_cache := es\<rparr>)"
  by (simp add: cache_sound_def)

lemma cache_sound_enqueue:
  assumes "cache_sound parse date_parse env m" "map_of monitoringRanges rangeId = Some r"
  shows "cache_sound parse date_parse env (enqueue_visit v prometheus rangeId m)"
proof (cases "map_of (mo_inflight m) (cache_key prometheus rangeId)")
  case (Some n)
  then have "(cache_key prometheus rangeId, n) \<in> set (mo_inflight m)" by (rule map_of_SomeD)
  then have "n < length (mo_runs m) \<and> cache_key prometheus rangeId = run_key (mo_runs m ! n)"
    using assms(1) ticket_run unfolding cache_sound_def by blast
  then show ?thesis using assms(1) Some by (simp add: enqueue_visit_def Let_def cache_sound_def tickets_insert)
next
  case None
  show ?thesis
  proof (cases "3 \<le> length (mo_inflight m)")
    case True
    then show ?thesis using None assms(1) by (simp add: enqueue_visit_def Let_def cache_sound_respond fresh_uncached)
  next
    case False
    let ?runs = "mo_runs m @ [\<lparr>ru_prometheus = prometheus, ru_range = rangeId, ru_start = vi_at v\<rparr>]"
    have "tickets_sound ?runs (insert (cache_key prometheus rangeId, length (mo_runs m)) (set (mo_inflight m) \<union> snd ` set (mo_waiting m)))"
      using assms(1) by (intro tickets_insert tickets_more) (simp_all add: cache_sound_def run_key_def)
    moreover have "ranges_sound ?runs" using assms by (simp add: cache_sound_def ranges_sound_def)
    ultimately show ?thesis using None False assms(1)
      by (simp add: enqueue_visit_def Let_def cache_sound_def results_more)
  qed
qed

lemma cache_sound_arrive:
  assumes "cache_sound parse date_parse env m" "mo_now m = vi_at v"
  shows "cache_sound parse date_parse env (arrive parse date_parse env v m)"
proof (cases "admit_reader parse date_parse env (vi_session v) (vi_at v) (vi_request v)")
  case (Inl e)
  then show ?thesis using assms by (simp add: arrive_def cache_sound_respond fresh_uncached)
next
  case (Inr p)
  then obtain prometheus rangeId where a: "admit_reader parse date_parse env (vi_session v) (vi_at v) (vi_request v) = Inr (prometheus, rangeId)"
    by (cases p) simp
  obtain r where r: "map_of monitoringRanges rangeId = Some r" by (rule authorize_range [OF a])
  note e = cache_sound_enqueue [OF assms(1) r, of v prometheus]
  show ?thesis
  proof (cases "map_of (mo_cache m) (cache_key prometheus rangeId)")
    case None
    then show ?thesis using a e by (simp add: arrive_def Let_def)
  next
    case (Some entry)
    obtain expires report where entry: "entry = (expires, report)" by (cases entry)
    have "(cache_key prometheus rangeId, expires, report) \<in> set (mo_cache m)" using map_of_SomeD [OF Some] entry by simp
    then have "entry_sound (mo_settled m) (cache_key prometheus rangeId) expires report (vi_at v)"
      using assms unfolding cache_sound_def entries_sound_def by fastforce
    then obtain q b fresh where q: "cache_key prometheus rangeId = cache_key q b" "taken (mo_settled m) q b report fresh (vi_at v)" "expires \<le> fresh"
      unfolding entry_sound_def by blast
    then obtain r' where "map_of monitoringRanges b = Some r'" unfolding taken_def by blast
    then have "prometheus = q \<and> rangeId = b" by (rule cache_key_inj [OF q(1) r])
    then have t: "taken (mo_settled m) prometheus rangeId report fresh (vi_at v)" using q(2) by simp
    have "fresh_answer parse date_parse env (mo_settled m) (send_report v (vi_at v) True report)" if "vi_at v < expires"
      using a t q(3) that by (auto simp: fresh_answer_def send_report_def refuse_def Let_def split: if_splits)
    then show ?thesis using a e Some entry assms(1) by (simp add: arrive_def Let_def cache_sound_respond)
  qed
qed

lemma cache_sound_settle:
  assumes "cache_sound parse date_parse env m" "n \<in> snd ` set (mo_inflight m)" "mo_now m = t"
  shows "cache_sound parse date_parse env (settle fetched n t m)"
proof -
  have n: "n < length (mo_runs m)" using assms(1,2) by (force simp: cache_sound_def tickets_sound_def)
  then have "map_of monitoringRanges (ru_range (mo_runs m ! n)) \<noteq> None" using assms(1) by (simp add: cache_sound_def ranges_sound_def)
  then obtain r where r: "map_of monitoringRanges (ru_range (mo_runs m ! n)) = Some r" by blast
  let ?past_runs = "(mo_runs m ! n, t, fetched) # mo_settled m"
  have "taken ?past_runs (ru_prometheus (mo_runs m ! n)) (ru_range (mo_runs m ! n)) report fresh t"
    if "snapshot fetched (ru_prometheus (mo_runs m ! n)) (ru_range (mo_runs m ! n)) r (ru_start (mo_runs m ! n)) t = Some (report, fresh)"
    for report fresh
    using that r by (auto simp: taken_def)
  moreover have "results_sound ?past_runs (mo_runs m) (mo_results m) t" using assms(1,3) results_settled by (simp add: cache_sound_def)
  ultimately have "results_sound ?past_runs (mo_runs m) ((n, snapshot fetched (ru_prometheus (mo_runs m ! n)) (ru_range (mo_runs m ! n)) r (ru_start (mo_runs m ! n)) t) # mo_results m) t"
    using n by (simp add: results_sound_def)
  moreover have "tickets_sound (mo_runs m) (set (filter (\<lambda>e. snd e \<noteq> n) (mo_inflight m)) \<union> snd ` set (mo_waiting m))"
    by (rule tickets_subset [of _ "set (mo_inflight m) \<union> snd ` set (mo_waiting m)"]) (use assms(1) in \<open>auto simp: cache_sound_def\<close>)
  moreover have "entries_sound ?past_runs (mo_cache m) t" using assms(1,3) entries_settled by (simp add: cache_sound_def)
  moreover have "list_all (fresh_answer parse date_parse env ?past_runs) (mo_answers m)"
    using assms(1) fresh_settled unfolding cache_sound_def list_all_iff by blast
  ultimately show ?thesis using assms(1,3) r by (simp add: cache_sound_def settle_def Let_def)
qed

lemma cache_sound_resume:
  assumes "cache_sound parse date_parse env m" "(v, key, n) \<in> set (mo_waiting m)" "mo_now m = t"
  shows "cache_sound parse date_parse env (resume v key n t m)"
proof -
  let ?m = "m\<lparr>mo_waiting := remove1 (v, key, n) (mo_waiting m)\<rparr>"
  have "set (mo_inflight m) \<union> snd ` set (remove1 (v, key, n) (mo_waiting m)) \<subseteq> set (mo_inflight m) \<union> snd ` set (mo_waiting m)"
    using set_remove1_subset [of "(v, key, n)" "mo_waiting m"] by blast
  from tickets_subset [OF _ this] have m: "cache_sound parse date_parse env ?m" using assms(1) by (simp add: cache_sound_def)
  have "(key, n) \<in> snd ` set (mo_waiting m)" using assms(2) by force
  then have key: "key = run_key (mo_runs m ! n)" using assms(1) ticket_run unfolding cache_sound_def by blast
  show ?thesis
  proof (cases "map_of (mo_results m) n")
    case None
    then show ?thesis using assms(1) by (simp add: resume_def Let_def)
  next
    case found: (Some result)
    show ?thesis
    proof (cases result)
      case None
      then show ?thesis using found m by (simp add: resume_def Let_def cache_sound_respond fresh_uncached)
    next
      case (Some p)
      obtain report fresh where p: "p = (report, fresh)" by (cases p)
      have "(n, Some (report, fresh)) \<in> set (mo_results m)" using map_of_SomeD [OF found] Some p by simp
      then have "taken (mo_settled m) (ru_prometheus (mo_runs m ! n)) (ru_range (mo_runs m ! n)) report fresh (mo_now m)"
        using assms(1) unfolding cache_sound_def results_sound_def by blast
      then have "entry_sound (mo_settled m) key (min (t + of_nat (ml_cacheMs monitoringLimits)) fresh) report (mo_now m)"
        unfolding entry_sound_def key run_key_def
        by (intro exI [of _ "ru_prometheus (mo_runs m ! n)"] exI [of _ "ru_range (mo_runs m ! n)"] exI [of _ fresh]) simp
      moreover have "entries_sound (mo_settled m) (if 3 \<le> length (mo_cache m) then tl (mo_cache m) else mo_cache m) (mo_now m)"
        using assms(1) entries_tl by (simp add: cache_sound_def)
      ultimately have "entries_sound (mo_settled m) (AList.update key (min (t + of_nat (ml_cacheMs monitoringLimits)) fresh, report)
          (if 3 \<le> length (mo_cache m) then tl (mo_cache m) else mo_cache m)) (mo_now m)"
        by (intro entries_update)
      then have "cache_sound parse date_parse env (cache_report key (min (t + of_nat (ml_cacheMs monitoringLimits)) fresh) report ?m)"
        using cache_sound_cached [OF m] by (simp add: cache_report_def Let_def split: if_splits)
      then show ?thesis using found Some p by (simp add: resume_def Let_def cache_sound_respond fresh_uncached)
    qed
  qed
qed

lemma step_cache_sound:
  assumes "monitor_step parse date_parse env m m'" "cache_sound parse date_parse env m"
  shows "cache_sound parse date_parse env m'"
  using assms(1)
proof cases
  case (Arrive v)
  then show ?thesis using cache_sound_arrive cache_sound_later [OF assms(2)] by simp
next
  case (Settle millis n fetched)
  then show ?thesis using cache_sound_settle cache_sound_later [OF assms(2)] by simp
next
  case (Resume millis v key n)
  then show ?thesis using cache_sound_resume cache_sound_later [OF assms(2)] by simp
qed

definition bounded_monitor :: "monitor \<Rightarrow> bool" where
  "bounded_monitor m \<longleftrightarrow> length (mo_inflight m) \<le> 3 \<and> length (mo_cache m) \<le> 3"

lemma bounded_respond [simp]: "bounded_monitor (respond a m) \<longleftrightarrow> bounded_monitor m"
  by (simp add: bounded_monitor_def respond_def)

lemma length_update: "length (AList.update k v xs) \<le> Suc (length xs)"
  by (induction xs) auto

lemma step_bounded:
  assumes "monitor_step parse date_parse env m m'" "bounded_monitor m"
  shows "bounded_monitor m'"
  using assms(1)
proof cases
  case (Arrive v)
  have "bounded_monitor (enqueue_visit v p q (m\<lparr>mo_now := vi_at v\<rparr>))" for p q
    using assms(2) by (auto simp: enqueue_visit_def Let_def bounded_monitor_def respond_def split: option.splits)
  moreover have "bounded_monitor (m\<lparr>mo_now := vi_at v\<rparr>)" using assms(2) by (simp add: bounded_monitor_def)
  ultimately show ?thesis using Arrive by (simp add: arrive_def Let_def split: sum.splits prod.splits option.splits)
next
  case (Settle millis n fetched)
  have "bounded_monitor (settle fetched n millis (m\<lparr>mo_now := millis\<rparr>))"
    using assms(2) by (auto simp: bounded_monitor_def settle_def Let_def intro: order_trans [OF length_filter_le])
  then show ?thesis using Settle by simp
next
  case (Resume millis v key n)
  have c: "length (AList.update key x (if 3 \<le> length (mo_cache m) then tl (mo_cache m) else mo_cache m)) \<le> 3" for x
    using length_update [of key x "if 3 \<le> length (mo_cache m) then tl (mo_cache m) else mo_cache m"] assms(2)
    by (auto simp: bounded_monitor_def)
  show ?thesis using Resume assms(2) c
    by (auto simp: resume_def Let_def cache_report_def bounded_monitor_def respond_def split: option.splits)
qed

lemma reach_cache: "monitor_reach parse date_parse env m \<Longrightarrow> cache_sound parse date_parse env m \<and> bounded_monitor m"
proof (induction rule: monitor_reach.induct)
  case (Start millis)
  show ?case
    by (simp add: cache_sound_def tickets_sound_def ranges_sound_def results_sound_def entries_sound_def bounded_monitor_def newMonitor_def)
next
  case (Next m m')
  then show ?case using step_cache_sound step_bounded by blast
qed

text \<open>The freshness of a snapshot bounds the age of every sample it took for live.\<close>

lemma fold_min_le:
  fixes a :: rat
  shows "fold min xs a \<le> a \<and> (\<forall>x \<in> set xs. fold min xs a \<le> x)"
proof (induction xs arbitrary: a)
  case (Cons x xs)
  from Cons.IH [of "min x a"] show ?case by auto
qed simp

lemma snapshot_fresh:
  assumes "snapshot fetched prometheus rangeId r start stop = Some (report, fresh)"
  shows "fresh \<le> stop + 10000"
    "(key, age) \<in> {(''scrapeTime'', 45), (''sampleTime'', 90)} \<Longrightarrow>
     run_query fetched (current_url prometheus key (snapshot_time start)) False (snapshot_time start) (snapshot_time start) = Some rows \<Longrightarrow>
     row \<in> set rows \<Longrightarrow> stamp_number (Some row) None = Num t \<Longrightarrow> snapshot_time start < t + age \<Longrightarrow> fresh \<le> (t + age) * 1000"
proof -
  let ?current = "\<lambda>k. run_query fetched (current_url prometheus k (snapshot_time start)) False (snapshot_time start) (snapshot_time start)"
  have f: "fresh = report_freshness (snapshot_time start) ?current stop"
    using assms by (auto simp: snapshot_def Let_def split: if_splits)
  note m = fold_min_le [of "concat (map (sample_expiries ?current (snapshot_time start)) [(''scrapeTime'', 45), (''sampleTime'', 90)])" "stop + of_nat (ml_cacheMs monitoringLimits)"]
  show "fresh \<le> stop + 10000" using m unfolding f report_freshness_def by (simp add: monitoringLimits_def)
  assume k: "(key, age) \<in> {(''scrapeTime'', 45), (''sampleTime'', 90)}" and q: "?current key = Some rows" "row \<in> set rows"
    "stamp_number (Some row) None = Num t" "snapshot_time start < t + age"
  have "(t + age) * 1000 \<in> set (sample_expiries ?current (snapshot_time start) (key, age))"
    using q by (force simp: sample_expiries_def)
  then have "(t + age) * 1000 \<in> set (concat (map (sample_expiries ?current (snapshot_time start)) [(''scrapeTime'', 45), (''sampleTime'', 90)]))"
    using k by auto
  then show "fresh \<le> (t + age) * 1000" using m unfolding f report_freshness_def by blast
qed

lemma fresh_answer_young:
  assumes "fresh_answer parse date_parse env past_runs a" "ma_cached a" "ma_report a = Some report"
  shows "(\<exists>run stop fetched r fresh.
       (run, stop, fetched) \<in> set (past_runs)
       \<and> admit_reader parse date_parse env (vi_session (ma_visit a)) (vi_at (ma_visit a)) (vi_request (ma_visit a)) = Inr (ru_prometheus run, ru_range run)
       \<and> map_of monitoringRanges (ru_range run) = Some r
       \<and> snapshot fetched (ru_prometheus run) (ru_range run) r (ru_start run) stop = Some (report, fresh)
       \<and> stop \<le> ma_at a \<and> ma_at a < stop + 10000
       \<and> (\<forall>key age rows row t.
            (key, age) \<in> {(''scrapeTime'', 45), (''sampleTime'', 90)}
            \<and> run_query fetched (current_url (ru_prometheus run) key (snapshot_time (ru_start run))) False
                (snapshot_time (ru_start run)) (snapshot_time (ru_start run)) = Some rows
            \<and> row \<in> set rows \<and> stamp_number (Some row) None = Num t \<and> snapshot_time (ru_start run) < t + age \<longrightarrow> ma_at a < (t + age) * 1000))"
proof -
  obtain run fetched r stop fresh where run: "(run, stop, fetched) \<in> set past_runs"
    and auth: "admit_reader parse date_parse env (vi_session (ma_visit a)) (vi_at (ma_visit a)) (vi_request (ma_visit a)) = Inr (ru_prometheus run, ru_range run)"
    and r: "map_of monitoringRanges (ru_range run) = Some r" "stop \<le> ma_at a"
    and s: "snapshot fetched (ru_prometheus run) (ru_range run) r (ru_start run) stop = Some (report, fresh)" and young: "ma_at a < fresh"
    using assms unfolding fresh_answer_def taken_def by blast
  have "ma_at a < stop + 10000" using snapshot_fresh(1) [OF s] young by linarith
  moreover note less_le_trans [OF young snapshot_fresh(2) [OF s]]
  ultimately show ?thesis using run auth r s by blast
qed

section \<open>Properties\<close>

text \<open>C36: However requests interleave, a monitoring report is answered only to a request from the website's own origin
  whose one session cookie the API confirmed, for a user on the list of operators whose session has not expired.\<close>

theorem monitoring_reports_reach_only_operators:
  assumes "monitor_reach parse date_parse env m" "a \<in> set (mo_answers m)" "ma_status a = 200"
  shows "operator_session parse date_parse env (ma_visit a)"
proof -
  have "authorized_visit parse date_parse env (ma_visit a)"
    using reach_authorized [OF assms(1)] assms(2,3) by (simp add: visits_authorized_def)
  then show ?thesis using authorize_operator by (auto simp: authorized_visit_def)
qed

text \<open>C31: At most three snapshots are under way and three are cached, and a report answered from the cache was given by a
  snapshot of the Prometheus and the range of the request that is on record as settled less than ten seconds earlier, while
  every scrape and every backlog sample it took for live is still within its 45 or 90 seconds.\<close>

theorem cached_reports_are_fresh:
  assumes "monitor_reach parse date_parse env m"
  shows "length (mo_inflight m) \<le> 3 \<and> length (mo_cache m) \<le> 3
    \<and> (\<forall>a \<in> set (mo_answers m). \<forall>report. ma_cached a \<and> ma_report a = Some report \<longrightarrow>
        (\<exists>run stop fetched r fresh.
           (run, stop, fetched) \<in> set (mo_settled m)
           \<and> admit_reader parse date_parse env (vi_session (ma_visit a)) (vi_at (ma_visit a)) (vi_request (ma_visit a)) = Inr (ru_prometheus run, ru_range run)
           \<and> map_of monitoringRanges (ru_range run) = Some r
           \<and> snapshot fetched (ru_prometheus run) (ru_range run) r (ru_start run) stop = Some (report, fresh)
           \<and> stop \<le> ma_at a \<and> ma_at a < stop + 10000
           \<and> (\<forall>key age rows row t.
                (key, age) \<in> {(''scrapeTime'', 45), (''sampleTime'', 90)}
                \<and> run_query fetched (current_url (ru_prometheus run) key (snapshot_time (ru_start run))) False
                    (snapshot_time (ru_start run)) (snapshot_time (ru_start run)) = Some rows
                \<and> row \<in> set rows \<and> stamp_number (Some row) None = Num t \<and> snapshot_time (ru_start run) < t + age \<longrightarrow> ma_at a < (t + age) * 1000)))"
proof -
  have sound: "list_all (fresh_answer parse date_parse env (mo_settled m)) (mo_answers m)" and bounds: "bounded_monitor m"
    using reach_cache [OF assms] by (simp_all add: cache_sound_def)
  have "fresh_answer parse date_parse env (mo_settled m) a" if "a \<in> set (mo_answers m)" for a
    using sound that by (simp add: list_all_iff)
  note young = fresh_answer_young [OF this]
  show ?thesis using bounds young unfolding bounded_monitor_def by blast
qed

section \<open>Example\<close>

text \<open>An operator opens the page twice within five seconds, on a local origin.\<close>

definition sample_url :: url_parts where
  "sample_url = \<lparr>url_protocol = ''http:'', url_hostname = ''localhost'', url_username = [], url_password = [], url_pathname = ''/'',
     url_search = [], url_hash = [], url_origin = ''http://localhost''\<rparr>"

definition sample_monitor_env :: monitor_env where
  "sample_monitor_env = \<lparr>nv_api = Some [], nv_web = Some [], nv_prometheus = Some [], nv_operators = Some ''7'', nv_production = False\<rparr>"

definition sample_monitor_request :: monitor_request where
  "sample_monitor_request =
     \<lparr>mq_host = None, mq_urlOrigin = ''http://localhost'', mq_origin = None, mq_site = None,
      mq_cookie = Some (''waybill-session='' @ replicate 43 (CHR ''A'')), mq_params = []\<rparr>"

definition sample_me :: json where
  "sample_me = JObj [(''user'', JObj [(''githubId'', JStr ''7'')]), (''expiresAt'', JStr ''x'')]"

definition sample_me_answer :: http_answer where
  "sample_me_answer = \<lparr>ha_status = 200, ha_length = None, ha_body = Some [Chunk (utf8_encode (stringify sample_me)), EndOfBody]\<rparr>"

definition sample_visit :: "rat \<Rightarrow> visit" where
  "sample_visit t = \<lparr>vi_request = sample_monitor_request, vi_session = (\<lambda>_ _. Some sample_me_answer), vi_at = t\<rparr>"

lemma sample_cookie:
  "session_cookie sample_monitor_request ''waybill-session'' = Inr (''waybill-session='' @ replicate 43 (CHR ''A''))"
  by code_simp

lemma sample_me_read: "boundedJson sample_me_answer 65536 = Some sample_me"
proof -
  have "length (utf8_encode (stringify sample_me)) \<le> 65536"
    using length_utf8_encode [of "stringify sample_me"] length_stringify [of sample_me] by (simp add: sample_me_def)
  then show ?thesis using json_parse_stringify [of sample_me]
    by (simp add: boundedJson_def sample_me_answer_def utf8_round_trip) (simp add: sample_me_def)
qed

lemma sample_authorized:
  assumes "t < 1000000"
  shows "admit_reader (\<lambda>_. Some sample_url) (\<lambda>_. Num 1000000) sample_monitor_env (vi_session (sample_visit t)) t sample_monitor_request
    = Inr (''http://localhost'', ''24h'')"
proof -
  have origin: "monitor_origin (\<lambda>_. Some sample_url) v = Inr sample_url" for v
    by (simp add: monitor_origin_def sample_url_def)
  have topology: "monitoringTopology (\<lambda>_. Some sample_url) sample_monitor_env sample_monitor_request = Inr (sample_url, sample_url, ''waybill-session'')"
    by (simp add: monitoringTopology_def origin Let_def) (simp add: sample_url_def sample_monitor_env_def sample_monitor_request_def matching_host_def present_def)
  have verified: "verified_session (Some sample_me_answer) = Inr [(''user'', JObj [(''githubId'', JStr ''7'')]), (''expiresAt'', JStr ''x'')]"
    by (simp add: verified_session_def sample_me_read answer_ok_def) (simp add: sample_me_answer_def sample_me_def)
  have user: "session_user (\<lambda>_. Num 1000000) t [(''user'', JObj [(''githubId'', JStr ''7'')]), (''expiresAt'', JStr ''x'')] = Inr ''7''"
    using assms by (simp add: session_user_def live_id_def github_id_form_def is_digit_def)
  have operator: "operatorIds (nv_operators sample_monitor_env) = [''7'']" by code_simp
  have "prometheusOrigin (\<lambda>_. Some sample_url) sample_monitor_env = Inr ''http://localhost''"
    by (simp add: prometheusOrigin_def origin Let_def) (simp add: sample_url_def)
  moreover have "requested_range sample_monitor_request = Inr ''24h''"
    by (simp add: requested_range_def sample_monitor_request_def monitoringRanges_def)
  ultimately show ?thesis
    by (simp add: admit_reader_def topology sample_cookie sample_visit_def verified user operator)
qed

definition sample_report :: monitoring_report where
  "sample_report = build_report ''24h'' \<lparr>rg_seconds = 86400, rg_step = 120\<rparr> 0 (\<lambda>_. Some []) (\<lambda>_. None)"

lemma sample_snapshot:
  "snapshot (\<lambda>_. Some empty_answer) p ''24h'' \<lparr>rg_seconds = 86400, rg_step = 120\<rparr> 0 0 = Some (sample_report, 10000)"
  by (simp add: snapshot_def Let_def empty_answer_query query_keys_def fixedMonitoringQueries_def sample_report_def snapshot_time_def
      report_freshness_def sample_expiries_def monitoringLimits_def)

lemma sample_report_short: "length (utf8_encode (stringify (report_json sample_report))) \<le> 1048576"
proof -
  have "json_weight (report_json sample_report) \<le> 20000"
    by (simp add: report_json_def sample_report_def build_report_def Let_def instant_metrics_def sourceHealth_def readMonitorMetric_def
        backlog_state_def historical_def metric_json_def metricValue_def series_json_def state_name_def metricStateLabels_def js_String_int_def js_digits.simps)
  then show ?thesis
    using length_utf8_encode [of "stringify (report_json sample_report)"] length_stringify [of "report_json sample_report"] by linarith
qed

text \<open>The first visit takes a snapshot, the second is answered from the cache.\<close>

definition sample_answer :: "rat \<Rightarrow> bool \<Rightarrow> monitor_answer" where
  "sample_answer t cached =
     \<lparr>ma_visit = sample_visit t, ma_at = t, ma_cached = cached, ma_status = 200, ma_report = Some sample_report,
      ma_body = stringify (report_json sample_report)\<rparr>"

lemma sample_sent: "send_report (sample_visit t) t cached sample_report = sample_answer t cached"
  using sample_report_short by (simp add: send_report_def Let_def monitoringLimits_def sample_answer_def)

definition sample_key :: string where "sample_key = cache_key ''http://localhost'' ''24h''"

definition sample_first :: monitor where
  "sample_first = (newMonitor 0)\<lparr>mo_runs := [\<lparr>ru_prometheus = ''http://localhost'', ru_range = ''24h'', ru_start = 0\<rparr>],
     mo_inflight := [(sample_key, 0)], mo_waiting := [(sample_visit 0, sample_key, 0)]\<rparr>"

definition sample_settled :: monitor where
  "sample_settled = sample_first\<lparr>mo_inflight := [], mo_results := [(0, Some (sample_report, 10000))],
     mo_settled := [(\<lparr>ru_prometheus = ''http://localhost'', ru_range = ''24h'', ru_start = 0\<rparr>, 0, \<lambda>_. Some empty_answer)]\<rparr>"

definition sample_resumed :: monitor where
  "sample_resumed = sample_settled\<lparr>mo_waiting := [], mo_cache := [(sample_key, 10000, sample_report)], mo_answers := [sample_answer 0 False]\<rparr>"

definition sample_end :: monitor where
  "sample_end = sample_resumed\<lparr>mo_now := 5000, mo_answers := [sample_answer 0 False, sample_answer 5000 True]\<rparr>"

lemma sample_visit_at [simp]: "vi_at (sample_visit t) = t" "vi_request (sample_visit t) = sample_monitor_request"
  by (simp_all add: sample_visit_def)

lemma sample_run: "monitor_reach (\<lambda>_. Some sample_url) (\<lambda>_. Num 1000000) sample_monitor_env sample_end"
proof -
  let ?reach = "monitor_reach (\<lambda>_. Some sample_url) (\<lambda>_. Num 1000000) sample_monitor_env"
  let ?arrive = "arrive (\<lambda>_. Some sample_url) (\<lambda>_. Num 1000000) sample_monitor_env"
  have "?arrive (sample_visit 0) ((newMonitor 0)\<lparr>mo_now := 0\<rparr>) = sample_first"
    by (simp add: arrive_def sample_authorized newMonitor_def enqueue_visit_def Let_def sample_first_def sample_key_def)
  then have 1: "?reach sample_first"
    using monitor_reach.Next [OF monitor_reach.Start monitor_step.Arrive, of 0 "sample_visit 0" "\<lambda>_. Some sample_url" "\<lambda>_. Num 1000000" sample_monitor_env]
    by (simp add: newMonitor_def)
  have "settle (\<lambda>_. Some empty_answer) 0 0 (sample_first\<lparr>mo_now := 0\<rparr>) = sample_settled"
    by (simp add: settle_def Let_def sample_first_def sample_settled_def newMonitor_def monitoringRanges_def sample_snapshot)
  then have 2: "?reach sample_settled"
    using monitor_reach.Next [OF 1 monitor_step.Settle, of 0 0 "\<lambda>_. Some empty_answer"] by (simp add: sample_first_def newMonitor_def)
  have "resume (sample_visit 0) sample_key 0 0 (sample_settled\<lparr>mo_now := 0\<rparr>) = sample_resumed"
    by (simp add: resume_def Let_def sample_first_def sample_settled_def sample_resumed_def newMonitor_def cache_report_def respond_def
        sample_sent monitoringLimits_def)
  then have 3: "?reach sample_resumed"
    using monitor_reach.Next [OF 2 monitor_step.Resume, of 0 "sample_visit 0" sample_key 0]
    by (simp add: sample_settled_def sample_first_def newMonitor_def)
  have "?arrive (sample_visit 5000) (sample_resumed\<lparr>mo_now := 5000\<rparr>) = sample_end"
    by (simp add: arrive_def sample_authorized Let_def sample_resumed_def sample_end_def respond_def sample_sent flip: sample_key_def)
  then show ?thesis
    using monitor_reach.Next [OF 3 monitor_step.Arrive, of "sample_visit 5000"]
    by (simp add: sample_resumed_def sample_settled_def sample_first_def newMonitor_def)
qed

theorem monitoring_reports_reach_only_operators_witness:
  "operator_session (\<lambda>_. Some sample_url) (\<lambda>_. Num 1000000) sample_monitor_env (ma_visit (sample_answer 5000 True))"
  by (rule monitoring_reports_reach_only_operators [OF sample_run]) (simp_all add: sample_end_def sample_answer_def)

theorem cached_reports_are_fresh_witness:
  "sample_answer 5000 True \<in> set (mo_answers sample_end) \<and> ma_cached (sample_answer 5000 True)
    \<and> length (mo_inflight sample_end) \<le> 3 \<and> length (mo_cache sample_end) \<le> 3
    \<and> (\<exists>run stop fetched. (run, stop, fetched) \<in> set (mo_settled sample_end) \<and> stop \<le> 5000 \<and> 5000 < stop + 10000)"
proof -
  have a: "sample_answer 5000 True \<in> set (mo_answers sample_end)" "ma_cached (sample_answer 5000 True)"
    "ma_report (sample_answer 5000 True) = Some sample_report" "ma_at (sample_answer 5000 True) = 5000"
    by (simp_all add: sample_end_def sample_answer_def)
  show ?thesis using cached_reports_are_fresh [OF sample_run] a by metis
qed

end
