(* ===== verification/Spec2Isabelle.thy ===== *)
theory Spec2Isabelle
  imports ApiApp Receiver DashboardForms ListPages JsonLine DashboardSession WorkspaceCounts GrantTenant Processes TenantTurns MessageBatch WorkerBudget OutboxProps Ingest Replay Paging ReceiveCycle Leader AuthHttp BacklogSampler CostGuard DashboardData Reports MonitorProps
begin

text \<open>
  Waybill delivers webhooks.  A customer posts an event to the API (\<open>packages/api\<close>); the API stores it with
  a row of an outbox in one transaction; a publisher (\<open>packages/worker/src/outbox-poller.ts\<close>) sends a
  message for every unpublished row to a queue; workers (\<open>packages/worker/src/index.ts\<close>) read the queue,
  sign each payload and post it to the receiver, and record the attempt.  A delivery that keeps failing
  is archived as a dead letter, which the customer can inspect and replay through the API.

  The theories, in the order of the data flow:
  \<^item> \<open>Prelude\<close>, \<open>JsNumber\<close>, \<open>Json\<close>, \<open>Redis\<close>: the shared vocabulary.  A handler is a function from a state
    to an error or a result and the next state; \<open>andThen\<close> and \<open>catching\<close> compose them as \<open>await\<close> and
    \<open>try\<close> do; \<open>triple\<close> is the judgement the invariants are proved with.  A call of a service completes, is
    refused, or takes effect and reports an error (\<open>Unconfirmed\<close>); which one is a parameter, so a theorem
    covers every failure.  Numbers are exact rationals with NaN and the infinities: no rounding; a literal and a
    sum of samples beyond the largest double are infinite.
  \<^item> \<open>Database\<close>: the tables of \<open>schema.prisma\<close> and the worker's repositories.  A transaction is a function of
    the tables; identifiers the database generates are drawn from a counter.
  \<^item> \<open>Archive\<close>, \<open>ApiWorld\<close>, \<open>Ingest\<close>, \<open>Replay\<close>: the write side of the API (\<open>services/events.ts\<close>,
    \<open>services/replays.ts\<close> and what they call).  Other clients may change the database between two calls of a
    request (\<open>meanwhile\<close>); \<open>undisturbed\<close> is the assumption that they do not, where a theorem needs it.
  \<^item> \<open>Cursor\<close>, \<open>Listing\<close>, \<open>Paging\<close>: the read side.  The locale \<open>paged_query\<close> states the contract of a query
    that answers in pages; the lists of dead letters and of deliveries are its interpretations.
  \<^item> \<open>Outbox\<close>, \<open>OutboxProps\<close>: the publisher's tick and the choice of its batch.
  \<^item> \<open>Backoff\<close>, \<open>CircuitBreaker\<close>, \<open>RateLimit\<close>, \<open>TenantTurns\<close>, \<open>Signature\<close>, \<open>QueueConfirmations\<close>: the
    policies the worker applies to a delivery.
  \<^item> \<open>Visibility\<close>, \<open>MessageBatch\<close>: the leases and the concurrent tasks of a batch, as step relations whose
    invariants are proved by rule induction.
  \<^item> \<open>Worker\<close>, \<open>WorkerLemmas\<close>, \<open>WorkerSafety\<close>, \<open>WorkerBudget\<close>: the handler of a message with everything it calls.
    Between the two queries of \<open>upsertInFlight\<close> other workers may change the tables (\<open>racing\<close>); theorems that need them
    away from the delivery say so.
  \<^item> \<open>ReceiveCycle\<close>: one iteration of the worker's main loop as a step relation: ten receives, the turns of the tenants,
    the confirmations beside the handler, the deferral at the end, whose requests the queue may carry
    out in part and answer or not (\<open>batch_queue\<close>, with its documented promise \<open>queue_ok\<close>).  \<open>Leader\<close>: any number of
    publishers and the advisory lock of the server; every \<open>await\<close> of a publisher is a step of its own and may fail.  \<open>Processes\<close>: how both processes start, renew leases and stop.
  \<^item> \<open>Receiver\<close>: the reference receiver (\<open>scripts/webhook-receiver.ts\<close>) composed with the worker's attempt.
  \<^item> \<open>AuthState\<close>, \<open>Auth\<close>, \<open>AuthProps\<close>, \<open>AuthHttp\<close>: sign-in, sessions, keys and the guard of the API
    (\<open>services/auth.ts\<close>, \<open>services/api-keys.ts\<close>, \<open>middleware/auth.ts\<close> and what they call); \<open>access_proved\<close> is what
    a request must carry.  \<open>GrantTenant\<close>: the tool that grants and revokes (\<open>scripts/grant-tenant.ts\<close>).
  \<^item> \<open>ApiApp\<close>: the API as one program (\<open>packages/api/src/index.ts\<close> and \<open>routes/\<close>): layers, routes and handlers.
  \<^item> \<open>JsText\<close>, \<open>Metrics\<close>, \<open>BacklogSampler\<close>: text operations, the meters of the services and the background samples.
  \<^item> \<open>CostGuard\<close>, \<open>Reports\<close>: the programs that judge: the guard of the hosted services (\<open>infra/oracle/guard.ts\<close>) and
    the verdicts of the load and fairness checks.
  \<^item> \<open>DashboardData\<close>: what the website asks the API and accepts of its answers (\<open>packages/web/src/lib\<close>).
    \<open>DashboardSession\<close>, \<open>WorkspaceCounts\<close>, \<open>DashboardForms\<close>: its session provider, the concurrent count of the workspaces,
    and the controls that send once, which share the locale \<open>single_flight\<close>.  \<open>ListPages\<close>: its lists, whose answers may
    come in any order.  \<open>JsonLine\<close>: the tokens of a line of JSON.
  \<^item> \<open>MonitorData\<close>, \<open>MonitorReport\<close>, \<open>Monitor\<close>, \<open>MonitorProps\<close>: the website's monitoring endpoint
    (\<open>packages/web/src/server/observability.ts\<close>) from Prometheus to the browser, with its cache and concurrent requests.

  This theory states what spans ingestion and the worker: an accepted event reaches the worker unchanged.  Other theorems
  that span components: \<open>tenant_requests_are_authorized\<close> (layers, guard and handlers of the API),
  \<open>reference_receiver_completes_delivery\<close> (worker, signature and receiver), \<open>retried_replay_happens_once\<close> (website and API),
  \<open>revoked_user_is_locked_out\<close> (tool and guard), \<open>website_accepts_api_summary\<close>, \<open>website_reads_monitoring_report\<close>.

  Bounds and fuel: the JSON parser takes the fuel \<open>2 * length + 2\<close>, which \<open>need_le_length\<close> shows to be enough for every
  text that \<open>stringify\<close> prints; every other recursion is structural or has a measure.  Loops that wait for the outside (the
  worker's iteration, a batch of messages, the sampler, the publishers, the controls of the website) are step relations, whose
  theorems hold for every interleaving; that a batch ends is \<open>batch_terminates\<close>.

  What is a parameter: the keyed digest and SHA-256 of \<open>node:crypto\<close>, random numbers, the UUID and date checks of \<open>zod\<close>,
  the class \<open>URL\<close>, \<open>Date.parse\<close>, how Express matches a path, the division of a response body into chunks, the outcome of
  every call of PostgreSQL, Redis, SQS, S3, GitHub, Prometheus, \<open>docker\<close> and the receiver, and what other clients do
  meanwhile.

  Not modelled: the markup, animation and static texts of \<open>packages/web\<close>, the panels that load one resource when
  they open, the number and date formats of \<open>Intl\<close>; logging; what the libraries of AWS, Redis, Prisma and
  the metrics registry do inside; the scripts that start services and containers for end-to-end checks, and the tests.  They
  hold no state of the service, or are code outside the repository.
\<close>

section \<open>From the request to the worker\<close>

lemma accepted_pending:
  assumes "accepted env t ty v d e ob w"
  shows "(ob, e) \<in> set (pending_rows (a_db w))"
proof -
  have "event_of (a_db w) ob = Some e"
    using assms by (auto simp: accepted_def event_of_def find_append)
  then show ?thesis
    using assms by (auto simp: accepted_def pending_rows_def List.map_filter_def)
qed

text \<open>A payload placed where the row says is what the worker loads.\<close>

lemma placed_payload_loads:
  assumes "payload_placed (objects w) v (case ev_payload e of None \<Rightarrow> JNull | Some p \<Rightarrow> p, ev_payloadS3Key e)"
    and "printable v" and "outcome env GetPayload = Completes"
    and "truthy_text (bucket_name env)" and "\<not> body_missing env"
  shows "printable (qm_payload (message_of_event e))" and "fst (loadPayload env (message_of_event e) w) = Inr v"
  using assms json_parse_stringify [OF assms(2)]
  by (auto simp: payload_placed_def message_of_event_def truthy_text_def loadPayload_def andThen_def sendWithTimeout_def
      tick_for_def requireBucket_def split: option.splits)

text \<open>C9: an accepted event arrives unchanged: when the API answers a request with success, its event waits
  in the outbox, and the message the publisher sends for it is read by the worker with the same event,
  tenant and type and, whether the payload went inline or to the object store, the same payload.\<close>

theorem ingested_payload_reaches_worker:
  assumes "undisturbed aenv" and "ingestSchema aenv input = Inr (t, ty, Some v)" and "printable v"
    and "ingestEvent aenv input aw = (Inr x, aw')"
    and "outcome env GetPayload = Completes" and "truthy_text (bucket_name env)" and "\<not> body_missing env"
    and "objects w = a_objects aw'"
  shows "\<exists>ob e m. (ob, e) \<in> set (pending_rows (a_db aw')) \<and> parseQueueMessage (sm_body (sent_for (ob, e))) = Some m
    \<and> qm_eventId m = in_eventId x \<and> qm_tenantId m = t \<and> qm_type m = ty \<and> fst (loadPayload env m w) = Inr v"
proof -
  have "acceptEvent aenv t ty v aw = (Inr x, aw')" using assms(2,4) by (simp add: ingestEvent_def)
  with tripleD [OF triple_acceptEvent [OF assms(1), of "a_db aw" t ty v], of aw]
  obtain e ob where a: "accepted aenv t ty v (a_db aw) e ob aw'" and x: "in_eventId x = ev_id e" by auto
  have "payload_placed (objects w) v (case ev_payload e of None \<Rightarrow> JNull | Some p \<Rightarrow> p, ev_payloadS3Key e)"
    using a by (simp add: accepted_def assms(8))
  note load = placed_payload_loads [OF this assms(3,5,6,7)]
  have "parseQueueMessage (sm_body (sent_for (ob, e))) = Some (message_of_event e)"
    unfolding sent_for_def using parse_queue_message_json [OF load(1)] by simp
  then show ?thesis
    using accepted_pending [OF a] load(2) a x
    by (intro exI [of _ ob] exI [of _ e] exI [of _ "message_of_event e"]) (simp add: accepted_def message_of_event_def)
qed

theorem ingested_payload_reaches_worker_witness:
  "\<exists>x aw'. ingestEvent (api_example None) (Some example_event) (api_start one_tenant) = (Inr x, aw')
    \<and> (\<exists>ob e m. (ob, e) \<in> set (pending_rows (a_db aw')) \<and> parseQueueMessage (sm_body (sent_for (ob, e))) = Some m
      \<and> qm_eventId m = in_eventId x \<and> qm_tenantId m = ''t'' \<and> qm_type m = ''x''
      \<and> fst (loadPayload (plain_env\<lparr>bucket_name := Some ''b''\<rparr>) m (empty_world\<lparr>objects := a_objects aw'\<rparr>)) = Inr (JStr ''abc''))"
proof -
  let ?run = "ingestEvent (api_example None) (Some example_event) (api_start one_tenant)"
  have "case fst ?run of Inl _ \<Rightarrow> False | Inr _ \<Rightarrow> True" by code_simp
  then obtain x where run: "?run = (Inr x, snd ?run)" by (cases ?run) (auto split: sum.splits)
  have schema: "ingestSchema (api_example None) (Some example_event) = Inr (''t'', ''x'', Some (JStr ''abc''))" by code_simp
  have "printable (JStr ''abc'')" "outcome (plain_env\<lparr>bucket_name := Some ''b''\<rparr>) GetPayload = Completes"
    "truthy_text (bucket_name (plain_env\<lparr>bucket_name := Some ''b''\<rparr>))" "\<not> body_missing (plain_env\<lparr>bucket_name := Some ''b''\<rparr>)"
    by (simp_all add: plain_env_def truthy_text_def)
  from ingested_payload_reaches_worker [OF undisturbed_example schema this(1) run this(2-4),
      of "empty_world\<lparr>objects := a_objects (snd ?run)\<rparr>"] run
  show ?thesis by fastforce
qed

end
